(* ===== verification/Provium_Prelude.thy ===== *)
theory Provium_Prelude
  imports Main "HOL-Library.Word" "HOL-Library.AList"
begin

text \<open>
  What every component of the development shares: the names of the machine types
  of the Rust sources, saturating and checked arithmetic on them, big-endian byte
  strings (\<open>to_be_bytes\<close> / \<open>from_be_bytes\<close>), slices and splices of byte lists
  (\<open>buf[i..j]\<close>, \<open>copy_from_slice\<close>), association lists standing for \<open>HashMap\<close>s, and
  the locale of transition systems from which each state machine gets its
  reachability and invariant rules.
\<close>

section \<open>Machine types\<close>

type_synonym u8 = "8 word"
type_synonym u16 = "16 word"
type_synonym u32 = "32 word"
type_synonym u64 = "64 word"
type_synonym i32 = "32 word"
type_synonym i64 = "64 word"
type_synonym bytes = "8 word list"

named_theorems res_simps \<open>resource amounts read as pairs of naturals\<close>
named_theorems slice_simps \<open>slices and splices of lists\<close>

section \<open>Arithmetic of the standard library\<close>

definition sat_add :: "'a::len word \<Rightarrow> 'a word \<Rightarrow> 'a word" where
  "sat_add a b = (if unat a + unat b < 2 ^ LENGTH('a) then a + b else - 1)"

definition sat_sub :: "'a::len word \<Rightarrow> 'a word \<Rightarrow> 'a word" where
  "sat_sub a b = (if a < b then 0 else a - b)"

definition checked_add :: "'a::len word \<Rightarrow> 'a word \<Rightarrow> 'a word option" where
  "checked_add a b = (if unat a + unat b < 2 ^ LENGTH('a) then Some (a + b) else None)"

section \<open>I/O errors\<close>

text \<open>The kinds of \<open>std::io::Error\<close> that the sources tell apart; \<open>HostIo\<close> is any other.\<close>

datatype io_error = InvalidInput | InvalidData | UnexpectedEof | WouldBlock | TimedOut | Interrupted | BrokenPipe | WriteZero | HostIo

section \<open>Big-endian byte strings\<close>

text \<open>
  \<open>to_be n w\<close> is the \<open>n\<close>-byte big-endian form of \<open>w\<close>; \<open>from_be\<close> reads a byte
  string of any length back. The Rust sources use them at 2, 4 and 8 bytes.
\<close>

fun be_digits :: "nat \<Rightarrow> nat \<Rightarrow> bytes" where
  "be_digits 0 m = []"
| "be_digits (Suc n) m = be_digits n (m div 256) @ [of_nat (m mod 256)]"

definition be_value :: "bytes \<Rightarrow> nat" where
  "be_value bs = foldl (\<lambda>n b. n * 256 + unat b) 0 bs"

definition to_be :: "nat \<Rightarrow> 'a::len word \<Rightarrow> bytes" where
  "to_be n w = be_digits n (unat w)"

definition from_be :: "bytes \<Rightarrow> 'a::len word" where
  "from_be bs = of_nat (be_value bs)"

section \<open>Decimal numbers\<close>

text \<open>The text that \<open>format!\<close> gives an unsigned number.\<close>

fun show_nat :: "nat \<Rightarrow> string" where
  "show_nat n = (if n < 10 then [char_of (48 + n)] else show_nat (n div 10) @ [char_of (48 + n mod 10)])"

declare show_nat.simps [simp del]

section \<open>Slices\<close>

definition slice :: "nat \<Rightarrow> nat \<Rightarrow> 'a list \<Rightarrow> 'a list" where
  "slice i j xs = take (j - i) (drop i xs)"

definition splice_at :: "nat \<Rightarrow> 'a list \<Rightarrow> 'a list \<Rightarrow> 'a list" where
  "splice_at i ys xs = take i xs @ ys @ drop (i + length ys) xs"

section \<open>Transition systems\<close>

text \<open>
  The state machines of the development (the resource pool under its lock, the
  disk server, the stream protocol) are step relations; reachability and the
  invariant rule are stated once here.
\<close>

inductive reaches :: "('s \<Rightarrow> 's \<Rightarrow> bool) \<Rightarrow> 's \<Rightarrow> 's \<Rightarrow> bool" for step where
  reaches_refl: "reaches step s s"
| reaches_step: "reaches step s t \<Longrightarrow> step t u \<Longrightarrow> reaches step s u"

locale step_invariant =
  fixes step :: "'s \<Rightarrow> 's \<Rightarrow> bool"
    and inv :: "'s \<Rightarrow> bool"
  assumes step_keeps: "inv s \<Longrightarrow> step s t \<Longrightarrow> inv t"
begin

lemma reaches_keeps:
  assumes "reaches step s t" and "inv s"
  shows "inv t"
  using assms by (induction rule: reaches.induct) (auto intro: step_keeps)

lemma reaches_all:
  assumes "inv s"
  shows "\<forall>t. reaches step s t \<longrightarrow> inv t"
  using assms reaches_keeps by blast

end

section \<open>Lemmas on machine arithmetic\<close>

lemma unat_lt_pow: "unat (a :: 'a::len word) < 2 ^ LENGTH('a)"
  by (rule unsigned_less)

lemma unat_sat_add [res_simps]:
  "unat (sat_add a b) = min (2 ^ LENGTH('a) - 1) (unat (a :: 'a::len word) + unat b)"
proof (cases "unat a + unat b < 2 ^ LENGTH('a)")
  case True
  then show ?thesis
    by (auto simp: sat_add_def unat_word_ariths min_def)
next
  case False
  then show ?thesis
    by (auto simp: sat_add_def unsigned_minus_1_eq_mask mask_eq_exp_minus_1 min_def)
qed

lemma unat_sat_sub [res_simps]: "unat (sat_sub a b) = unat a - unat b"
  by (auto simp: sat_sub_def word_less_nat_alt unat_sub_if_size)

lemma checked_add_Some:
  "checked_add a b = Some c \<Longrightarrow> unat c = unat a + unat b"
  by (auto simp: checked_add_def unat_word_ariths split: if_splits)

lemma checked_add_None_iff:
  "checked_add (a :: 'a::len word) b = None \<longleftrightarrow> 2 ^ LENGTH('a) \<le> unat a + unat b"
  by (auto simp: checked_add_def)

section \<open>Lemmas on byte strings\<close>

lemma length_be_digits [simp]: "length (be_digits n m) = n"
  by (induction n arbitrary: m) auto

lemma be_digits_4:
  "be_digits 4 m = [of_nat (m div 16777216 mod 256), of_nat (m div 65536 mod 256), of_nat (m div 256 mod 256), of_nat (m mod 256)]"
proof -
  have "(4::nat) = Suc (Suc (Suc (Suc 0)))" by simp
  then show ?thesis
    by (simp only: be_digits.simps append.simps div_mult2_eq [symmetric]) (simp add: div_mult2_eq [symmetric])
qed

lemma length_to_be [simp]: "length (to_be n w) = n"
  by (simp add: to_be_def)

lemma be_value_snoc [simp]: "be_value (bs @ [b]) = be_value bs * 256 + unat b"
  by (simp add: be_value_def)

lemma be_value_Nil [simp]: "be_value [] = 0"
  by (simp add: be_value_def)

lemma be_value_digits: "be_value (be_digits n m) = m mod 256 ^ n"
proof (induction n arbitrary: m)
  case 0
  then show ?case by simp
next
  case (Suc n)
  have "unat (of_nat (m mod 256) :: u8) = m mod 256"
    by (simp add: unat_of_nat)
  then show ?case
    using Suc.IH by (simp add: mod_mult2_eq mult.commute)
qed

lemma be_digits_value: "be_digits (length bs) (be_value bs) = bs"
proof (induction bs rule: rev_induct)
  case Nil
  then show ?case by simp
next
  case (snoc b bs)
  have "unat b < 256"
    using unat_lt_pow [of b] by simp
  with snoc show ?case by simp
qed

lemma be_value_bound: "be_value bs < 256 ^ length bs"
proof (induction bs rule: rev_induct)
  case Nil
  then show ?case by simp
next
  case (snoc b bs)
  have "unat b < 256"
    using unat_lt_pow [of b] by simp
  with snoc show ?case by simp
qed

text \<open>
  A fixed-width byte encoding, and what a reader of a byte stream needs of it.
  Interpreted below at the three widths the sources use.
\<close>

locale byte_codec =
  fixes enc :: "'a \<Rightarrow> bytes"
    and dec :: "bytes \<Rightarrow> 'a"
    and width :: nat
  assumes dec_enc: "dec (enc x) = x"
    and enc_dec: "length bs = width \<Longrightarrow> enc (dec bs) = bs"
    and enc_length: "length (enc x) = width"
begin

lemma take_enc: "take width (enc x @ rest) = enc x"
  by (simp add: enc_length)

lemma drop_enc: "drop width (enc x @ rest) = rest"
  by (simp add: enc_length)

lemma enc_inj: "enc x = enc y \<longleftrightarrow> x = y"
  using dec_enc by metis

lemma dec_take: "dec (take width (enc x @ rest)) = x"
  by (simp only: take_enc dec_enc)

end

lemma from_to_be:
  assumes "LENGTH('a) = 8 * n"
  shows "from_be (to_be n w) = (w :: 'a::len word)"
proof -
  have "unat w < 256 ^ n"
    using unat_lt_pow [of w] assms by (simp add: power_mult)
  then show ?thesis
    by (simp add: from_be_def to_be_def be_value_digits)
qed

lemma to_from_be:
  assumes "LENGTH('a) = 8 * n" and "length bs = n"
  shows "to_be n (from_be bs :: 'a::len word) = bs"
proof -
  have "be_value bs < 2 ^ LENGTH('a)"
    using be_value_bound [of bs] assms by (simp add: power_mult)
  then show ?thesis
    using be_digits_value [of bs] assms(2) by (simp add: from_be_def to_be_def unat_of_nat)
qed

interpretation be16: byte_codec "to_be 2 :: u16 \<Rightarrow> bytes" from_be 2
  by unfold_locales (simp_all add: from_to_be to_from_be)

interpretation be32: byte_codec "to_be 4 :: u32 \<Rightarrow> bytes" from_be 4
  by unfold_locales (simp_all add: from_to_be to_from_be)

interpretation be64: byte_codec "to_be 8 :: u64 \<Rightarrow> bytes" from_be 8
  by unfold_locales (simp_all add: from_to_be to_from_be)

section \<open>Lemmas on slices\<close>

lemma length_splice_at [slice_simps]:
  "i + length ys \<le> length xs \<Longrightarrow> length (splice_at i ys xs) = length xs"
  by (simp add: splice_at_def)

lemma length_slice [slice_simps]: "j \<le> length xs \<Longrightarrow> length (slice i j xs) = j - i"
  by (simp add: slice_def)

lemma nth_slice [slice_simps]:
  "k < j - i \<Longrightarrow> j \<le> length xs \<Longrightarrow> slice i j xs ! k = xs ! (i + k)"
  by (simp add: slice_def)

lemma nth_splice_at [slice_simps]:
  assumes "i + length ys \<le> length xs" and "k < length xs"
  shows "splice_at i ys xs ! k =
           (if i \<le> k \<and> k < i + length ys then ys ! (k - i) else xs ! k)"
  using assms by (auto simp: splice_at_def nth_append min_def)

section \<open>Sums over association lists\<close>

text \<open>
  The amounts of a list, grouped by key over any duplicate-free list of keys that
  holds every key with a nonzero amount, add up to the amounts of the list.
\<close>

lemma sum_list_group:
  fixes f :: "'a \<Rightarrow> nat"
  assumes "distinct ks" and "\<And>x. x \<in> set xs \<Longrightarrow> g x \<notin> set ks \<Longrightarrow> f x = 0"
  shows "(\<Sum>k\<leftarrow>ks. \<Sum>x\<leftarrow>filter (\<lambda>x. g x = k) xs. f x) = (\<Sum>x\<leftarrow>xs. f x)"
  using assms(2)
proof (induction xs)
  case Nil
  then show ?case by (induction ks) auto
next
  case (Cons x xs)
  have split: "(\<Sum>k\<leftarrow>ks. \<Sum>y\<leftarrow>filter (\<lambda>y. g y = k) (x # xs). f y)
      = (\<Sum>k\<leftarrow>ks. (if g x = k then f x else 0)) + (\<Sum>k\<leftarrow>ks. \<Sum>y\<leftarrow>filter (\<lambda>y. g y = k) xs. f y)"
    by (induction ks) auto
  have "(\<Sum>k\<leftarrow>ks. (if g x = k then f x else 0)) = f x"
    using assms(1) Cons.prems [of x]
  proof (induction ks)
    case Nil
    then show ?case by simp
  next
    case (Cons k ks)
    have "(\<Sum>j\<leftarrow>ks. (if g x = j then f x else 0)) = 0" if "g x \<notin> set ks"
      using that by (induction ks) auto
    with Cons show ?case by (cases "g x = k") auto
  qed
  with split Cons show ?case by simp
qed

lemma sum_list_remove1:
  fixes f :: "'a \<Rightarrow> nat"
  shows "x \<in> set xs \<Longrightarrow> (\<Sum>y\<leftarrow>xs. f y) = f x + (\<Sum>y\<leftarrow>remove1 x xs. f y)"
  by (induction xs) auto

lemma sum_list_zero_iff:
  fixes f :: "'a \<Rightarrow> nat"
  shows "(\<Sum>y\<leftarrow>xs. f y) = 0 \<longleftrightarrow> (\<forall>y\<in>set xs. f y = 0)"
  by (induction xs) auto

end
