(* ===== verification/Resource_Pool.thy ===== *)
theory Resource_Pool
  imports Provium_Prelude
begin

text \<open>
  The scheduler's resource pool, \<open>provium-host/src/scheduler/pool.rs\<close>: amounts of
  memory and vCPUs, the pool under its lock (owners, parked requests, tickets),
  blocking and non-blocking acquires, release, and the deadlock verdict.

  \<open>acquire_inner\<close> of the source loops around \<open>Condvar::wait\<close>. The lock is held
  between two waits, so the model has one function for a pass of that loop,
  \<open>acquire_check\<close>: it ends in a grant, a refusal, or a park. A thread woken by the
  condition variable runs the same pass again with the ticket it holds. The step
  relation \<open>pool_step\<close> interleaves these passes freely, spurious wake-ups included.
\<close>

section \<open>Resource amounts\<close>

record resource_amount =
  memory_bytes :: u64
  cpus :: u32

definition ra_default :: resource_amount where
  "ra_default = \<lparr>memory_bytes = 0, cpus = 0\<rparr>"

definition amt :: "u64 \<Rightarrow> u32 \<Rightarrow> resource_amount" where
  "amt m c = \<lparr>memory_bytes = m, cpus = c\<rparr>"

definition is_zero :: "resource_amount \<Rightarrow> bool" where
  "is_zero a \<longleftrightarrow> memory_bytes a = 0 \<and> cpus a = 0"

definition fits_in :: "resource_amount \<Rightarrow> resource_amount \<Rightarrow> bool" where
  "fits_in a budget \<longleftrightarrow> memory_bytes a \<le> memory_bytes budget \<and> cpus a \<le> cpus budget"

definition ra_saturating_add :: "resource_amount \<Rightarrow> resource_amount \<Rightarrow> resource_amount" where
  "ra_saturating_add a b =
     \<lparr>memory_bytes = sat_add (memory_bytes a) (memory_bytes b),
      cpus = sat_add (cpus a) (cpus b)\<rparr>"

definition ra_saturating_sub :: "resource_amount \<Rightarrow> resource_amount \<Rightarrow> resource_amount" where
  "ra_saturating_sub a b =
     \<lparr>memory_bytes = sat_sub (memory_bytes a) (memory_bytes b),
      cpus = sat_sub (cpus a) (cpus b)\<rparr>"

section \<open>Wait sinks\<close>

text \<open>
  A thread's account of the time it has spent parked. Instants are nanoseconds of
  the monotonic clock; \<open>elapsed\<close> saturates at zero as \<open>Instant::elapsed\<close> does.
\<close>

record wait_sink =
  settled_ns :: u64
  parked_since :: "nat option"

definition wait_sink_new :: wait_sink where
  "wait_sink_new = \<lparr>settled_ns = 0, parked_since = None\<rparr>"

definition waited :: "nat \<Rightarrow> wait_sink \<Rightarrow> nat" where
  "waited now k = unat (settled_ns k)
     + (case parked_since k of None \<Rightarrow> 0 | Some since \<Rightarrow> now - since)"

definition sink_park_one :: "nat \<Rightarrow> wait_sink \<Rightarrow> wait_sink" where
  "sink_park_one now k = k\<lparr>parked_since := Some now\<rparr>"

definition sink_unpark_one :: "nat \<Rightarrow> wait_sink \<Rightarrow> wait_sink" where
  "sink_unpark_one now k =
     (case parked_since k of
        None \<Rightarrow> k
      | Some since \<Rightarrow> k\<lparr>settled_ns := settled_ns k + of_nat (now - since), parked_since := None\<rparr>)"

text \<open>The calling thread's sink, if one is installed.\<close>

definition sink_park :: "nat \<Rightarrow> wait_sink option \<Rightarrow> wait_sink option" where
  "sink_park now = map_option (sink_park_one now)"

definition sink_unpark :: "nat \<Rightarrow> wait_sink option \<Rightarrow> wait_sink option" where
  "sink_unpark now = map_option (sink_unpark_one now)"

section \<open>The pool's state\<close>

type_synonym owner_id = u64
type_synonym ticket = u64

record owner_state =
  os_held :: resource_amount
  os_waiting :: nat

definition owner_default :: owner_state where
  "owner_default = \<lparr>os_held = ra_default, os_waiting = 0\<rparr>"

definition is_idle :: "owner_state \<Rightarrow> bool" where
  "is_idle o' \<longleftrightarrow> is_zero (os_held o') \<and> os_waiting o' = 0"

text \<open>
  The two \<open>HashMap\<close>s are association lists with distinct keys, in the order in
  which the source would iterate over them.
\<close>

record pool_state =
  pool_total :: resource_amount
  pool_available :: resource_amount
  pool_owners :: "(owner_id \<times> owner_state) list"
  pool_waiting :: "(ticket \<times> resource_amount) list"
  pool_next_id :: u64

record deadlock_report =
  dl_requested :: resource_amount
  dl_available :: resource_amount
  dl_total :: resource_amount
  dl_holders :: nat
  dl_waiters :: nat

datatype acquire_error =
    ExceedsTotal resource_amount resource_amount
  | Deadlock deadlock_report

record reservation =
  res_amount :: resource_amount
  res_owner :: "owner_id option"

section \<open>Operations under the lock\<close>

definition pool_new :: "resource_amount \<Rightarrow> pool_state" where
  "pool_new tot =
     \<lparr>pool_total = tot, pool_available = tot, pool_owners = [], pool_waiting = [],
      pool_next_id = 0\<rparr>"

definition next_id :: "pool_state \<Rightarrow> u64 \<times> pool_state" where
  "next_id s = (let n = pool_next_id s + 1 in (n, s\<lparr>pool_next_id := n\<rparr>))"

definition owner_get :: "pool_state \<Rightarrow> owner_id \<Rightarrow> owner_state" where
  "owner_get s ow = (case map_of (pool_owners s) ow of None \<Rightarrow> owner_default | Some x \<Rightarrow> x)"

definition owner_mut :: "owner_id \<Rightarrow> (owner_state \<Rightarrow> owner_state) \<Rightarrow> pool_state \<Rightarrow> pool_state" where
  "owner_mut ow f s = s\<lparr>pool_owners := AList.update ow (f (owner_get s ow)) (pool_owners s)\<rparr>"

definition prune :: "owner_id \<Rightarrow> pool_state \<Rightarrow> pool_state" where
  "prune ow s =
     (case map_of (pool_owners s) ow of
        Some x \<Rightarrow> if is_idle x then s\<lparr>pool_owners := AList.delete ow (pool_owners s)\<rparr> else s
      | None \<Rightarrow> s)"

fun count_holders :: "owner_state list \<Rightarrow> nat \<Rightarrow> nat option" where
  "count_holders [] holders = Some holders"
| "count_holders (x # xs) holders =
     (if \<not> is_zero (os_held x)
      then (if os_waiting x = 0 then None else count_holders xs (holders + 1))
      else count_holders xs holders)"

definition deadlock :: "pool_state \<Rightarrow> resource_amount \<Rightarrow> deadlock_report option" where
  "deadlock s requested =
     (let owned = foldl (\<lambda>acc x. ra_saturating_add acc (os_held x)) ra_default
                    (map snd (pool_owners s))
      in if owned \<noteq> ra_saturating_sub (pool_total s) (pool_available s) then None
         else case count_holders (map snd (pool_owners s)) 0 of
                None \<Rightarrow> None
              | Some holders \<Rightarrow>
                  if holders = 0 then None
                  else if list_ex (\<lambda>w. fits_in w (pool_available s)) (map snd (pool_waiting s))
                  then None
                  else Some \<lparr>dl_requested = requested, dl_available = pool_available s,
                             dl_total = pool_total s, dl_holders = holders,
                             dl_waiters = length (pool_waiting s)\<rparr>)"

definition new_owner :: "pool_state \<Rightarrow> owner_id \<times> pool_state" where
  "new_owner s = next_id s"

definition pending_count :: "pool_state \<Rightarrow> nat" where
  "pending_count s = length (pool_waiting s)"

definition withdraw ::
  "nat \<Rightarrow> owner_id option \<Rightarrow> ticket option \<Rightarrow> pool_state \<times> wait_sink option
     \<Rightarrow> pool_state \<times> wait_sink option" where
  "withdraw now owner tk sk =
     (case tk of
        None \<Rightarrow> sk
      | Some t \<Rightarrow>
          let s = fst sk;
              s1 = s\<lparr>pool_waiting := AList.delete t (pool_waiting s)\<rparr>;
              s2 = (case owner of
                      None \<Rightarrow> s1
                    | Some ow \<Rightarrow>
                        prune ow (owner_mut ow (\<lambda>x. x\<lparr>os_waiting := os_waiting x - 1\<rparr>) s1))
          in (s2, sink_unpark now (snd sk)))"

definition take_amount :: "owner_id option \<Rightarrow> resource_amount \<Rightarrow> pool_state \<Rightarrow> pool_state" where
  "take_amount owner amount s =
     (let s1 = s\<lparr>pool_available := ra_saturating_sub (pool_available s) amount\<rparr>
      in case owner of
           None \<Rightarrow> s1
         | Some ow \<Rightarrow>
             owner_mut ow (\<lambda>x. x\<lparr>os_held := ra_saturating_add (os_held x) amount\<rparr>) s1)"

definition enter_waiting ::
  "nat \<Rightarrow> owner_id option \<Rightarrow> resource_amount \<Rightarrow> pool_state \<times> wait_sink option
     \<Rightarrow> ticket \<times> pool_state \<times> wait_sink option" where
  "enter_waiting now owner amount sk =
     (let (t, s1) = next_id (fst sk);
          s2 = s1\<lparr>pool_waiting := AList.update t amount (pool_waiting s1)\<rparr>;
          s3 = (case owner of
                  None \<Rightarrow> s2
                | Some ow \<Rightarrow> owner_mut ow (\<lambda>x. x\<lparr>os_waiting := os_waiting x + 1\<rparr>) s2)
      in (t, s3, sink_park now (snd sk)))"

datatype acquire_outcome =
    Granted reservation
  | Refused acquire_error
  | Parked ticket

text \<open>
  One pass of the loop of \<open>acquire_inner\<close>, from holding the lock to returning or to
  \<open>Condvar::wait\<close>; \<open>tk\<close> is the local variable \<open>ticket\<close>.
\<close>

definition acquire_check ::
  "nat \<Rightarrow> owner_id option \<Rightarrow> resource_amount \<Rightarrow> ticket option
     \<Rightarrow> pool_state \<times> wait_sink option \<Rightarrow> acquire_outcome \<times> pool_state \<times> wait_sink option" where
  "acquire_check now owner amount tk sk =
     (if fits_in amount (pool_available (fst sk)) then
        let (s1, sink1) = withdraw now owner tk sk
        in (Granted \<lparr>res_amount = amount, res_owner = owner\<rparr>, take_amount owner amount s1, sink1)
      else
        let (t, sk1) = (case tk of
                          None \<Rightarrow> enter_waiting now owner amount sk
                        | Some t \<Rightarrow> (t, sk))
        in case (if owner = None then None else deadlock (fst sk1) amount) of
             Some d \<Rightarrow> (Refused (Deadlock d), withdraw now owner (Some t) sk1)
           | None \<Rightarrow> (Parked t, sk1))"

definition acquire_inner ::
  "nat \<Rightarrow> owner_id option \<Rightarrow> resource_amount
     \<Rightarrow> pool_state \<times> wait_sink option \<Rightarrow> acquire_outcome \<times> pool_state \<times> wait_sink option" where
  "acquire_inner now owner amount sk =
     (if \<not> fits_in amount (pool_total (fst sk))
      then (Refused (ExceedsTotal amount (pool_total (fst sk))), sk)
      else acquire_check now owner amount None sk)"

definition try_acquire_inner ::
  "owner_id option \<Rightarrow> resource_amount \<Rightarrow> pool_state \<Rightarrow> reservation option \<times> pool_state" where
  "try_acquire_inner owner amount s =
     (if \<not> fits_in amount (pool_available s) then (None, s)
      else (Some \<lparr>res_amount = amount, res_owner = owner\<rparr>, take_amount owner amount s))"

definition release :: "resource_amount \<Rightarrow> owner_id option \<Rightarrow> pool_state \<Rightarrow> pool_state" where
  "release amount owner s =
     (let s1 = s\<lparr>pool_available := ra_saturating_add (pool_available s) amount\<rparr>;
          s2 = (if \<not> fits_in (pool_available s1) (pool_total s1)
                then s1\<lparr>pool_available := pool_total s1\<rparr> else s1)
      in case owner of
           None \<Rightarrow> s2
         | Some ow \<Rightarrow>
             prune ow (owner_mut ow (\<lambda>x. x\<lparr>os_held := ra_saturating_sub (os_held x) amount\<rparr>) s2))"

text \<open>\<open>Drop for Reservation\<close>, while the pool is alive.\<close>

definition drop_reservation :: "reservation \<Rightarrow> pool_state \<Rightarrow> pool_state" where
  "drop_reservation r = release (res_amount r) (res_owner r)"

section \<open>The pool and the threads that use it\<close>

text \<open>
  The pool, the reservations that are alive, and the threads inside
  \<open>Condvar::wait\<close>, by ticket. The last two are not stored anywhere by the program:
  they are what its bookkeeping is about.
\<close>

record pool_sys =
  sys_pool :: pool_state
  sys_live :: "reservation list"
  sys_parked :: "(ticket \<times> (owner_id option \<times> resource_amount)) list"

definition sys_init :: "resource_amount \<Rightarrow> pool_sys" where
  "sys_init tot = \<lparr>sys_pool = pool_new tot, sys_live = [], sys_parked = []\<rparr>"

text \<open>
  The counter \<open>next_id\<close> is a \<open>u64\<close> incremented without a check; the steps that
  increment it are those in which it does not overflow.
\<close>

inductive pool_step :: "pool_sys \<Rightarrow> pool_sys \<Rightarrow> bool" where
  step_new_owner:
    "pool_next_id (sys_pool s) \<noteq> - 1 \<Longrightarrow> new_owner (sys_pool s) = (ow, p) \<Longrightarrow>
     pool_step s (s\<lparr>sys_pool := p\<rparr>)"
| step_acquire_granted:
    "pool_next_id (sys_pool s) \<noteq> - 1 \<Longrightarrow>
     acquire_inner now owner amount (sys_pool s, sink) = (Granted r, p, sink') \<Longrightarrow>
     pool_step s (s\<lparr>sys_pool := p, sys_live := r # sys_live s\<rparr>)"
| step_acquire_refused:
    "pool_next_id (sys_pool s) \<noteq> - 1 \<Longrightarrow>
     acquire_inner now owner amount (sys_pool s, sink) = (Refused e, p, sink') \<Longrightarrow>
     pool_step s (s\<lparr>sys_pool := p\<rparr>)"
| step_acquire_parked:
    "pool_next_id (sys_pool s) \<noteq> - 1 \<Longrightarrow>
     acquire_inner now owner amount (sys_pool s, sink) = (Parked t, p, sink') \<Longrightarrow>
     pool_step s (s\<lparr>sys_pool := p, sys_parked := sys_parked s @ [(t, owner, amount)]\<rparr>)"
| step_wake_granted:
    "map_of (sys_parked s) t = Some (owner, amount) \<Longrightarrow>
     acquire_check now owner amount (Some t) (sys_pool s, sink) = (Granted r, p, sink') \<Longrightarrow>
     pool_step s (s\<lparr>sys_pool := p, sys_live := r # sys_live s,
                    sys_parked := AList.delete t (sys_parked s)\<rparr>)"
| step_wake_refused:
    "map_of (sys_parked s) t = Some (owner, amount) \<Longrightarrow>
     acquire_check now owner amount (Some t) (sys_pool s, sink) = (Refused e, p, sink') \<Longrightarrow>
     pool_step s (s\<lparr>sys_pool := p, sys_parked := AList.delete t (sys_parked s)\<rparr>)"
| step_wake_parked:
    "map_of (sys_parked s) t = Some (owner, amount) \<Longrightarrow>
     acquire_check now owner amount (Some t) (sys_pool s, sink) = (Parked t', p, sink') \<Longrightarrow>
     pool_step s (s\<lparr>sys_pool := p\<rparr>)"
| step_try_granted:
    "try_acquire_inner owner amount (sys_pool s) = (Some r, p) \<Longrightarrow>
     pool_step s (s\<lparr>sys_pool := p, sys_live := r # sys_live s\<rparr>)"
| step_release:
    "r \<in> set (sys_live s) \<Longrightarrow>
     pool_step s (s\<lparr>sys_pool := drop_reservation r (sys_pool s),
                    sys_live := remove1 r (sys_live s)\<rparr>)"

section \<open>Amounts as naturals, and what the bookkeeping must agree with\<close>

definition mem_n :: "resource_amount \<Rightarrow> nat" where
  "mem_n a = unat (memory_bytes a)"

definition cpu_n :: "resource_amount \<Rightarrow> nat" where
  "cpu_n a = unat (cpus a)"

definition owned_by :: "owner_id \<Rightarrow> pool_sys \<Rightarrow> reservation list" where
  "owned_by ow s = filter (\<lambda>r. res_owner r = Some ow) (sys_live s)"

definition parked_of :: "owner_id \<Rightarrow> pool_sys \<Rightarrow> (ticket \<times> (owner_id option \<times> resource_amount)) list" where
  "parked_of ow s = filter (\<lambda>x. fst (snd x) = Some ow) (sys_parked s)"

definition live_mem :: "reservation list \<Rightarrow> nat" where
  "live_mem rs = (\<Sum>r\<leftarrow>rs. mem_n (res_amount r))"

definition live_cpu :: "reservation list \<Rightarrow> nat" where
  "live_cpu rs = (\<Sum>r\<leftarrow>rs. cpu_n (res_amount r))"

text \<open>The pool's invariant.\<close>

definition pool_inv :: "pool_sys \<Rightarrow> bool" where
  "pool_inv s \<longleftrightarrow>
     (let p = sys_pool s in
      mem_n (pool_available p) + live_mem (sys_live s) = mem_n (pool_total p)
    \<and> cpu_n (pool_available p) + live_cpu (sys_live s) = cpu_n (pool_total p)
    \<and> (\<forall>ow. mem_n (os_held (owner_get p ow)) = live_mem (owned_by ow s)
          \<and> cpu_n (os_held (owner_get p ow)) = live_cpu (owned_by ow s)
          \<and> os_waiting (owner_get p ow) = length (parked_of ow s))
    \<and> pool_waiting p = map (\<lambda>x. (fst x, snd (snd x))) (sys_parked s)
    \<and> distinct (map fst (pool_owners p))
    \<and> distinct (map fst (sys_parked s))
    \<and> (\<forall>x\<in>set (sys_parked s). fst x \<le> pool_next_id p \<and> fits_in (snd (snd x)) (pool_total p)))"

text \<open>
  Hold and wait: something is held, whoever holds something is parked itself, and
  no parked request fits in what is free.
\<close>

definition hold_and_wait :: "pool_sys \<Rightarrow> bool" where
  "hold_and_wait s \<longleftrightarrow>
     (\<exists>r\<in>set (sys_live s). \<not> is_zero (res_amount r))
   \<and> (\<forall>r\<in>set (sys_live s). \<not> is_zero (res_amount r) \<longrightarrow>
        (\<exists>ow. res_owner r = Some ow \<and> parked_of ow s \<noteq> []))
   \<and> (\<forall>x\<in>set (sys_parked s). \<not> fits_in (snd (snd x)) (pool_available (sys_pool s)))"

end
