(* ===== verification/Pool_Safety.thy ===== *)
theory Pool_Safety
  imports Resource_Pool
begin

text \<open>
  The invariant of the resource pool: what is free and what the live reservations
  hold add up to the capacity, the per-owner books agree with the live reservations
  and the parked threads, and every reachable state of \<open>pool_step\<close> keeps it so.
\<close>

section \<open>Amounts as naturals\<close>

lemma fits_in_nat [res_simps]: "fits_in a b \<longleftrightarrow> mem_n a \<le> mem_n b \<and> cpu_n a \<le> cpu_n b"
  by (simp add: fits_in_def mem_n_def cpu_n_def word_le_nat_alt)

lemma is_zero_nat [res_simps]: "is_zero a \<longleftrightarrow> mem_n a = 0 \<and> cpu_n a = 0"
  by (simp add: is_zero_def mem_n_def cpu_n_def unat_eq_0)

lemma amount_eq_nat: "a = b \<longleftrightarrow> mem_n a = mem_n b \<and> cpu_n a = cpu_n b"
  for a b :: resource_amount
  by (cases a; cases b) (simp add: mem_n_def cpu_n_def word_unat_eq_iff)

lemma mem_n_add [res_simps]: "mem_n (ra_saturating_add a b) = min (2 ^ 64 - 1) (mem_n a + mem_n b)"
  by (simp add: ra_saturating_add_def mem_n_def unat_sat_add)

lemma cpu_n_add [res_simps]: "cpu_n (ra_saturating_add a b) = min (2 ^ 32 - 1) (cpu_n a + cpu_n b)"
  by (simp add: ra_saturating_add_def cpu_n_def unat_sat_add)

lemma mem_n_sub [res_simps]: "mem_n (ra_saturating_sub a b) = mem_n a - mem_n b"
  by (simp add: ra_saturating_sub_def mem_n_def unat_sat_sub)

lemma cpu_n_sub [res_simps]: "cpu_n (ra_saturating_sub a b) = cpu_n a - cpu_n b"
  by (simp add: ra_saturating_sub_def cpu_n_def unat_sat_sub)

lemma default_nat [simp]: "mem_n ra_default = 0" "cpu_n ra_default = 0"
  by (simp_all add: ra_default_def mem_n_def cpu_n_def)

lemma amount_bounds: "mem_n a \<le> 2 ^ 64 - 1" "cpu_n a \<le> 2 ^ 32 - 1"
  using unat_lt_pow [of "memory_bytes a"] unat_lt_pow [of "cpus a"]
  by (simp_all add: mem_n_def cpu_n_def)

lemma live_Nil [simp]: "live_mem [] = 0" "live_cpu [] = 0"
  by (simp_all add: live_mem_def live_cpu_def)

lemma live_Cons [simp]:
  "live_mem (r # rs) = mem_n (res_amount r) + live_mem rs"
  "live_cpu (r # rs) = cpu_n (res_amount r) + live_cpu rs"
  by (simp_all add: live_mem_def live_cpu_def)

lemma live_remove1:
  assumes "r \<in> set rs"
  shows "live_mem rs = mem_n (res_amount r) + live_mem (remove1 r rs)"
    and "live_cpu rs = cpu_n (res_amount r) + live_cpu (remove1 r rs)"
  using sum_list_remove1 [OF assms] by (simp_all add: live_mem_def live_cpu_def)

lemma live_filter_le:
  "live_mem (filter P rs) \<le> live_mem rs" "live_cpu (filter P rs) \<le> live_cpu rs"
  by (induction rs) auto

lemma filter_remove1_list: "filter P (remove1 x xs) = (if P x then remove1 x (filter P xs) else filter P xs)"
  by (induction xs) auto

section \<open>Reading the books after an update\<close>

lemma owner_get_mut [simp]:
  "owner_get (owner_mut ow f s) ow' = (if ow' = ow then f (owner_get s ow) else owner_get s ow')"
  by (simp add: owner_get_def owner_mut_def update_conv')

lemma owner_default_idle [simp]: "is_idle owner_default"
  by (simp add: owner_default_def is_idle_def is_zero_nat)

lemma idle_is_default: "is_idle x \<Longrightarrow> x = owner_default"
  by (cases x) (simp add: owner_default_def is_idle_def is_zero_def ra_default_def)

text \<open>Pruning forgets only idle entries, which read as the default anyway.\<close>

lemma owner_get_prune [simp]: "owner_get (prune ow s) ow' = owner_get s ow'"
  by (auto simp: owner_get_def prune_def delete_conv' split: option.splits dest: idle_is_default)

lemma pool_fields_owner_mut [simp]:
  "pool_total (owner_mut ow f s) = pool_total s"
  "pool_available (owner_mut ow f s) = pool_available s"
  "pool_waiting (owner_mut ow f s) = pool_waiting s"
  "pool_next_id (owner_mut ow f s) = pool_next_id s"
  by (simp_all add: owner_mut_def)

lemma pool_fields_prune [simp]:
  "pool_total (prune ow s) = pool_total s"
  "pool_available (prune ow s) = pool_available s"
  "pool_waiting (prune ow s) = pool_waiting s"
  "pool_next_id (prune ow s) = pool_next_id s"
  by (simp_all add: prune_def split: option.splits)

lemma owner_get_frame [simp]:
  "owner_get (s\<lparr>pool_available := a\<rparr>) ow = owner_get s ow"
  "owner_get (s\<lparr>pool_waiting := w\<rparr>) ow = owner_get s ow"
  "owner_get (s\<lparr>pool_next_id := n\<rparr>) ow = owner_get s ow"
  by (simp_all add: owner_get_def)

lemma distinct_owner_mut [simp]:
  "distinct (map fst (pool_owners s)) \<Longrightarrow> distinct (map fst (pool_owners (owner_mut ow f s)))"
  by (simp add: owner_mut_def distinct_update)

lemma distinct_prune [simp]:
  "distinct (map fst (pool_owners s)) \<Longrightarrow> distinct (map fst (pool_owners (prune ow s)))"
  by (auto simp: prune_def distinct_delete split: option.splits)

section \<open>Each operation keeps the invariant\<close>

lemma pool_invI:
  assumes "mem_n (pool_available (sys_pool s)) + live_mem (sys_live s) = mem_n (pool_total (sys_pool s))"
    and "cpu_n (pool_available (sys_pool s)) + live_cpu (sys_live s) = cpu_n (pool_total (sys_pool s))"
    and "\<And>ow. mem_n (os_held (owner_get (sys_pool s) ow)) = live_mem (owned_by ow s)"
    and "\<And>ow. cpu_n (os_held (owner_get (sys_pool s) ow)) = live_cpu (owned_by ow s)"
    and "\<And>ow. os_waiting (owner_get (sys_pool s) ow) = length (parked_of ow s)"
    and "pool_waiting (sys_pool s) = map (\<lambda>x. (fst x, snd (snd x))) (sys_parked s)"
    and "distinct (map fst (pool_owners (sys_pool s)))"
    and "distinct (map fst (sys_parked s))"
    and "\<And>x. x \<in> set (sys_parked s) \<Longrightarrow>
           fst x \<le> pool_next_id (sys_pool s) \<and> fits_in (snd (snd x)) (pool_total (sys_pool s))"
  shows "pool_inv s"
  using assms unfolding pool_inv_def Let_def by blast

lemma pool_invD:
  assumes "pool_inv s"
  shows inv_mem: "mem_n (pool_available (sys_pool s)) + live_mem (sys_live s) = mem_n (pool_total (sys_pool s))"
    and inv_cpu: "cpu_n (pool_available (sys_pool s)) + live_cpu (sys_live s) = cpu_n (pool_total (sys_pool s))"
    and inv_held_mem: "mem_n (os_held (owner_get (sys_pool s) ow)) = live_mem (owned_by ow s)"
    and inv_held_cpu: "cpu_n (os_held (owner_get (sys_pool s) ow)) = live_cpu (owned_by ow s)"
    and inv_waiting: "os_waiting (owner_get (sys_pool s) ow) = length (parked_of ow s)"
    and inv_waiting_map: "pool_waiting (sys_pool s) = map (\<lambda>x. (fst x, snd (snd x))) (sys_parked s)"
    and inv_distinct_owners: "distinct (map fst (pool_owners (sys_pool s)))"
    and inv_distinct_parked: "distinct (map fst (sys_parked s))"
    and inv_ticket: "x \<in> set (sys_parked s) \<Longrightarrow>
           fst x \<le> pool_next_id (sys_pool s) \<and> fits_in (snd (snd x)) (pool_total (sys_pool s))"
  using assms unfolding pool_inv_def Let_def by blast+

lemma pool_inv_init: "pool_inv (sys_init tot)"
  by (simp add: pool_inv_def sys_init_def pool_new_def owner_get_def owner_default_def
      owned_by_def parked_of_def)

lemma live_owned_le:
  "live_mem (owned_by ow s) \<le> live_mem (sys_live s)"
  "live_cpu (owned_by ow s) \<le> live_cpu (sys_live s)"
  by (simp_all add: owned_by_def live_filter_le)

lemma take_amount_inv:
  assumes inv: "pool_inv s" and fits: "fits_in amount (pool_available (sys_pool s))"
  shows "pool_inv (s\<lparr>sys_pool := take_amount owner amount (sys_pool s),
                     sys_live := \<lparr>res_amount = amount, res_owner = owner\<rparr> # sys_live s\<rparr>)"
proof (cases owner)
  case None
  show ?thesis
    using fits pool_invD [OF inv] None
    by (intro pool_invI) (auto simp: take_amount_def res_simps owned_by_def parked_of_def)
next
  case (Some ow)
  have le: "mem_n amount + live_mem (owned_by ow s) \<le> 2 ^ 64 - 1"
    "cpu_n amount + live_cpu (owned_by ow s) \<le> 2 ^ 32 - 1"
    using fits inv_mem [OF inv] inv_cpu [OF inv] live_owned_le [of ow s]
      amount_bounds [of "pool_total (sys_pool s)"]
    by (simp_all add: fits_in_nat)
  show ?thesis
    using le fits pool_invD [OF inv] Some
    by (intro pool_invI) (auto simp: take_amount_def res_simps owned_by_def parked_of_def)
qed

lemma parked_mem_map_of: "map_of xs t = Some y \<Longrightarrow> (t, y) \<in> set xs"
  by (rule map_of_SomeD)

lemma delete_fresh: "t \<notin> fst ` set xs \<Longrightarrow> AList.delete t xs = xs"
  by (rule delete_id)

lemma update_fresh: "t \<notin> fst ` set xs \<Longrightarrow> AList.update t v xs = xs @ [(t, v)]"
  by (induction xs) auto

lemma filter_delete_length:
  assumes "distinct (map fst xs)" and "map_of xs t = Some y"
  shows "length (filter P (AList.delete t xs))
           = length (filter P xs) - (if P (t, y) then 1 else 0)"
  using assms
proof (induction xs)
  case Nil
  then show ?case by simp
next
  case (Cons x xs)
  show ?case
  proof (cases "fst x = t")
    case True
    with Cons.prems have "AList.delete t xs = xs" and "x = (t, y)"
      by (auto simp: delete_fresh prod_eq_iff)
    with True show ?thesis by simp
  next
    case False
    with Cons have "map_of xs t = Some y" by (cases x) auto
    then have "(t, y) \<in> set xs" by (rule map_of_SomeD)
    then have "P (t, y) \<Longrightarrow> length (filter P xs) \<noteq> 0"
      by (auto simp: filter_empty_conv)
    with False Cons \<open>map_of xs t = Some y\<close> show ?thesis
      by (cases x) auto
  qed
qed

lemma map_delete: "map (\<lambda>x. (fst x, f (snd x))) (AList.delete t xs)
                     = AList.delete t (map (\<lambda>x. (fst x, f (snd x))) xs)"
  by (induction xs) auto

lemma withdraw_inv:
  assumes inv: "pool_inv s" and pk: "map_of (sys_parked s) t = Some (owner, amount)"
  shows "pool_inv (s\<lparr>sys_pool := fst (withdraw now owner (Some t) (sys_pool s, k)),
                     sys_parked := AList.delete t (sys_parked s)\<rparr>)"
proof -
  have len: "length (filter P (AList.delete t (sys_parked s)))
      = length (filter P (sys_parked s)) - (if P (t, owner, amount) then 1 else 0)" for P
    using inv_distinct_parked [OF inv] pk by (rule filter_delete_length)
  have sub: "set (AList.delete t (sys_parked s)) \<subseteq> set (sys_parked s)"
    by (auto simp: AList.delete_eq)
  have dist: "distinct (map fst (AList.delete t (sys_parked s)))"
    using inv_distinct_parked [OF inv] by (rule distinct_delete)
  show ?thesis
    using pool_invD [OF inv] len sub dist
    by (cases owner; intro pool_invI)
      (auto simp: withdraw_def res_simps owned_by_def parked_of_def map_delete)
qed

lemma u64_less_succ: "n \<noteq> - 1 \<Longrightarrow> n < n + 1" for n :: u64
proof -
  assume "n \<noteq> - 1"
  then have "unat n \<noteq> unat (- 1 :: u64)"
    by (metis word_unat_eq_iff)
  then have "unat n + 1 < 2 ^ 64"
    using unat_lt_pow [of n] by (simp add: unsigned_minus_1_eq_mask mask_eq_exp_minus_1)
  then show ?thesis
    by (simp add: word_less_nat_alt unat_word_ariths)
qed

lemma enter_waiting_inv:
  assumes inv: "pool_inv s" and id: "pool_next_id (sys_pool s) \<noteq> - 1"
    and fits: "fits_in amount (pool_total (sys_pool s))"
    and ent: "enter_waiting now owner amount (sys_pool s, k) = (t, p, k')"
  shows "pool_inv (s\<lparr>sys_pool := p, sys_parked := sys_parked s @ [(t, owner, amount)]\<rparr>)"
    and "t \<notin> fst ` set (sys_parked s)"
proof -
  have t: "t = pool_next_id (sys_pool s) + 1"
    using ent by (auto simp: enter_waiting_def next_id_def Let_def)
  have less: "pool_next_id (sys_pool s) < t"
    using id unfolding t by (rule u64_less_succ)
  show fresh: "t \<notin> fst ` set (sys_parked s)"
    using inv_ticket [OF inv] less by force
  have "fst ` set (pool_waiting (sys_pool s)) = fst ` set (sys_parked s)"
    by (simp add: inv_waiting_map [OF inv] image_image)
  with fresh have upd: "AList.update t amount (pool_waiting (sys_pool s))
      = pool_waiting (sys_pool s) @ [(t, amount)]"
    by (simp add: update_fresh)
  have le: "x \<in> set (sys_parked s) \<Longrightarrow> fst x \<le> t" for x
    using inv_ticket [OF inv, of x] less by auto
  define s2 where "s2 = (sys_pool s)\<lparr>pool_next_id := t, pool_waiting := pool_waiting (sys_pool s) @ [(t, amount)]\<rparr>"
  have p: "p = (case owner of None \<Rightarrow> s2
                | Some ow \<Rightarrow> owner_mut ow (\<lambda>x. x\<lparr>os_waiting := os_waiting x + 1\<rparr>) s2)"
    using ent upd by (simp add: enter_waiting_def next_id_def t s2_def Let_def split: option.splits)
  have fields: "pool_total p = pool_total (sys_pool s)" "pool_available p = pool_available (sys_pool s)"
    "pool_waiting p = pool_waiting (sys_pool s) @ [(t, amount)]" "pool_next_id p = t"
    "distinct (map fst (pool_owners p))"
    using inv_distinct_owners [OF inv] by (cases owner; simp add: p s2_def)+
  have get: "os_held (owner_get p ow) = os_held (owner_get (sys_pool s) ow)"
    "os_waiting (owner_get p ow) = os_waiting (owner_get (sys_pool s) ow) + (if owner = Some ow then 1 else 0)" for ow
    by (cases owner; simp add: p s2_def)+
  show "pool_inv (s\<lparr>sys_pool := p, sys_parked := sys_parked s @ [(t, owner, amount)]\<rparr>)"
    using pool_invD [OF inv] fresh fits le
    by (intro pool_invI) (auto simp: fields get owned_by_def parked_of_def)
qed

lemma release_inv:
  assumes inv: "pool_inv s" and r: "r \<in> set (sys_live s)"
  shows "pool_inv (s\<lparr>sys_pool := drop_reservation r (sys_pool s),
                     sys_live := remove1 r (sys_live s)\<rparr>)"
proof -
  note live = live_remove1 [OF r] inv_mem [OF inv] inv_cpu [OF inv]
  have le: "mem_n (pool_available (sys_pool s)) + mem_n (res_amount r) \<le> mem_n (pool_total (sys_pool s))"
    "cpu_n (pool_available (sys_pool s)) + cpu_n (res_amount r) \<le> cpu_n (pool_total (sys_pool s))"
    using live by linarith+
  then have cap: "mem_n (pool_available (sys_pool s)) + mem_n (res_amount r) \<le> 2 ^ 64 - 1"
    "cpu_n (pool_available (sys_pool s)) + cpu_n (res_amount r) \<le> 2 ^ 32 - 1"
    using amount_bounds [of "pool_total (sys_pool s)"] by linarith+
  have owned: "owned_by ow (s\<lparr>sys_pool := p, sys_live := remove1 r (sys_live s)\<rparr>)
      = (if res_owner r = Some ow then remove1 r (owned_by ow s) else owned_by ow s)" for ow p
    by (simp add: owned_by_def filter_remove1_list)
  have mine: "res_owner r = Some ow \<Longrightarrow> r \<in> set (owned_by ow s)" for ow
    using r by (simp add: owned_by_def)
  note mine_live = live_remove1 [OF mine]
  show ?thesis
    using pool_invD [OF inv] live le cap mine_live
    by (cases "res_owner r"; intro pool_invI)
      (auto simp: drop_reservation_def release_def Let_def res_simps owned parked_of_def)
qed

section \<open>Every step keeps the invariant\<close>

lemma acquire_check_cases:
  assumes "acquire_check now owner amount tk (p, k) = (out, p', k')"
  obtains
    (granted) r where "out = Granted r" "r = \<lparr>res_amount = amount, res_owner = owner\<rparr>"
      "fits_in amount (pool_available p)"
      "p' = take_amount owner amount (fst (withdraw now owner tk (p, k)))"
  | (refused) t q l d where "out = Refused (Deadlock d)"
      "\<not> fits_in amount (pool_available p)" "owner \<noteq> None"
      "(t, q, l) = (case tk of None \<Rightarrow> enter_waiting now owner amount (p, k) | Some t \<Rightarrow> (t, p, k))"
      "deadlock q amount = Some d"
      "p' = fst (withdraw now owner (Some t) (q, l))"
  | (parked) t where "out = Parked t"
      "\<not> fits_in amount (pool_available p)"
      "(t, p', k') = (case tk of None \<Rightarrow> enter_waiting now owner amount (p, k) | Some t \<Rightarrow> (t, p, k))"
      "owner = None \<or> deadlock p' amount = None"
proof (cases "fits_in amount (pool_available p)")
  case True
  with assms show thesis
    by (intro granted) (auto simp: acquire_check_def Let_def split: prod.splits)
next
  case False
  obtain t q l where w:
    "(case tk of None \<Rightarrow> enter_waiting now owner amount (p, k) | Some t \<Rightarrow> (t, p, k)) = (t, q, l)"
    by (metis prod_cases3)
  have eq: "(out, p', k') = (case (if owner = None then None else deadlock q amount) of
      Some d \<Rightarrow> (Refused (Deadlock d), withdraw now owner (Some t) (q, l)) | None \<Rightarrow> (Parked t, q, l))"
    unfolding assms [symmetric] acquire_check_def using w False by (simp only: fst_conv if_False Let_def prod.case)
  show thesis
  proof (cases "owner \<noteq> None \<and> deadlock q amount \<noteq> None")
    case True
    then obtain d where d: "deadlock q amount = Some d" by blast
    with eq True have "out = Refused (Deadlock d)" "(p', k') = withdraw now owner (Some t) (q, l)"
      by auto
    with d True w False show thesis
      by (intro refused [of d t q l]) (auto dest: arg_cong [of _ _ fst])
  next
    case no: False
    then have "(if owner = None then None else deadlock q amount) = None" by (cases owner) auto
    with eq have "out = Parked t" "p' = q" "k' = l" by (simp_all only: option.case prod.inject)
    with no w False show thesis by (intro parked [of t]) auto
  qed
qed

lemma withdraw_None [simp]: "withdraw now owner None sk = sk"
  by (simp add: withdraw_def)

lemma withdraw_available [simp]:
  "pool_available (fst (withdraw now owner tk sk)) = pool_available (fst sk)"
  "pool_total (fst (withdraw now owner tk sk)) = pool_total (fst sk)"
  by (auto simp: withdraw_def Let_def split: option.splits)

text \<open>A pass of a new request, with its three outcomes.\<close>

lemma acquire_inner_inv:
  assumes inv: "pool_inv s" and id: "pool_next_id (sys_pool s) \<noteq> - 1"
    and acq: "acquire_inner now owner amount (sys_pool s, k) = (out, p, k')"
  shows "case out of
           Granted r \<Rightarrow> pool_inv (s\<lparr>sys_pool := p, sys_live := r # sys_live s\<rparr>)
         | Refused e \<Rightarrow> pool_inv (s\<lparr>sys_pool := p\<rparr>)
         | Parked t \<Rightarrow> pool_inv (s\<lparr>sys_pool := p, sys_parked := sys_parked s @ [(t, owner, amount)]\<rparr>)"
proof (cases "fits_in amount (pool_total (sys_pool s))")
  case False
  with acq inv show ?thesis by (auto simp: acquire_inner_def)
next
  case True
  then have chk: "acquire_check now owner amount None (sys_pool s, k) = (out, p, k')"
    using acq by (simp add: acquire_inner_def)
  then show ?thesis
  proof (cases rule: acquire_check_cases)
    case (granted r)
    with take_amount_inv [OF inv granted(3)] show ?thesis by simp
  next
    case (refused t q l d)
    have ent: "enter_waiting now owner amount (sys_pool s, k) = (t, q, l)"
      using refused by simp
    let ?s = "s\<lparr>sys_pool := q, sys_parked := sys_parked s @ [(t, owner, amount)]\<rparr>"
    have inv': "pool_inv ?s" and fresh: "t \<notin> fst ` set (sys_parked s)"
      using enter_waiting_inv [OF inv id True ent] by auto
    have "map_of (sys_parked ?s) t = Some (owner, amount)"
      using fresh by (simp add: map_add_def map_of_eq_None_iff [THEN iffD2])
    from withdraw_inv [OF inv' this, of now l] have
      "pool_inv (?s\<lparr>sys_pool := p, sys_parked := AList.delete t (sys_parked ?s)\<rparr>)"
      using refused by simp
    moreover have "AList.delete t (sys_parked ?s) = sys_parked s"
      using fresh by (force simp: AList.delete_eq filter_id_conv)
    ultimately show ?thesis using refused by simp
  next
    case (parked t)
    have ent: "enter_waiting now owner amount (sys_pool s, k) = (t, p, k')"
      using parked by simp
    show ?thesis using enter_waiting_inv [OF inv id True ent] parked by simp
  qed
qed

lemma acquire_wake_inv:
  assumes inv: "pool_inv s" and pk: "map_of (sys_parked s) t = Some (owner, amount)"
    and acq: "acquire_check now owner amount (Some t) (sys_pool s, k) = (out, p, k')"
  shows "case out of
           Granted r \<Rightarrow> pool_inv (s\<lparr>sys_pool := p, sys_live := r # sys_live s,
                                  sys_parked := AList.delete t (sys_parked s)\<rparr>)
         | Refused e \<Rightarrow> pool_inv (s\<lparr>sys_pool := p, sys_parked := AList.delete t (sys_parked s)\<rparr>)
         | Parked t' \<Rightarrow> pool_inv (s\<lparr>sys_pool := p\<rparr>)"
  using acq
proof (cases rule: acquire_check_cases)
  case (granted r)
  note w = withdraw_inv [OF inv pk, of now k]
  from take_amount_inv [OF w, of amount owner, simplified, OF granted(3)] granted
  have "pool_inv (s\<lparr>sys_parked := AList.delete t (sys_parked s), sys_pool := p,
                    sys_live := r # sys_live s\<rparr>)"
    by simp
  moreover have "\<And>a b c. s\<lparr>sys_parked := c, sys_pool := a, sys_live := b\<rparr>
      = s\<lparr>sys_pool := a, sys_live := b, sys_parked := c\<rparr>"
    by simp
  ultimately show ?thesis using granted by (simp only: acquire_outcome.case)
next
  case (refused t' q l d)
  with withdraw_inv [OF inv pk, of now k] show ?thesis by simp
next
  case (parked t')
  with inv show ?thesis by simp
qed

lemma new_owner_inv:
  assumes inv: "pool_inv s" and id: "pool_next_id (sys_pool s) \<noteq> - 1"
    and new: "new_owner (sys_pool s) = (ow, p)"
  shows "pool_inv (s\<lparr>sys_pool := p\<rparr>)"
proof -
  have "pool_next_id (sys_pool s) \<le> pool_next_id (sys_pool s) + 1"
    using id by (intro less_imp_le u64_less_succ)
  then have "x \<in> set (sys_parked s) \<Longrightarrow> fst x \<le> pool_next_id (sys_pool s) + 1" for x
    using inv_ticket [OF inv, of x] by auto
  then show ?thesis
    using new pool_invD [OF inv]
    by (intro pool_invI) (auto simp: new_owner_def next_id_def Let_def owned_by_def parked_of_def)
qed

lemma pool_step_inv: "pool_step s t \<Longrightarrow> pool_inv s \<Longrightarrow> pool_inv t"
proof (induction rule: pool_step.induct)
  case (step_new_owner s ow p)
  then show ?case by (blast intro: new_owner_inv)
next
  case (step_acquire_granted s now owner amount sink r p sink')
  then show ?case using acquire_inner_inv by fastforce
next
  case (step_acquire_refused s now owner amount sink e p sink')
  then show ?case using acquire_inner_inv by fastforce
next
  case (step_acquire_parked s now owner amount sink t p sink')
  then show ?case using acquire_inner_inv by fastforce
next
  case (step_wake_granted s t owner amount now sink r p sink')
  then show ?case using acquire_wake_inv by fastforce
next
  case (step_wake_refused s t owner amount now sink e p sink')
  then show ?case using acquire_wake_inv by fastforce
next
  case (step_wake_parked s t owner amount now sink t' p sink')
  then show ?case using acquire_wake_inv by fastforce
next
  case (step_try_granted owner amount s r p)
  then show ?case
    using take_amount_inv [of s amount owner] by (auto simp: try_acquire_inner_def split: if_splits)
next
  case (step_release r s)
  then show ?case by (blast intro: release_inv)
qed

interpretation pool: step_invariant pool_step pool_inv
  by unfold_locales (rule pool_step_inv)

end
