(* ===== verification/Pool_Deadlock.thy ===== *)
theory Pool_Deadlock
  imports Pool_Safety "HOL-Library.Multiset"
begin

text \<open>
  The deadlock verdict of the pool. \<open>deadlock\<close> reads only the pool's own books; here
  it is shown to be exactly the hold-and-wait condition on the reservations and the
  parked threads, to be permanent while parked threads stay parked, and never to be
  missed by a request that parks.
\<close>

section \<open>What a run of parked threads may do\<close>

text \<open>
  A parked request leaves the wait only when it is granted, and a thread that is
  parked does not drop the reservations of its file: the steps of a pool without a
  verdict, in which the files are single threads.
\<close>

definition parked_stay :: "pool_sys \<Rightarrow> pool_sys \<Rightarrow> bool" where
  "parked_stay s t \<longleftrightarrow>
     (\<forall>x\<in>set (sys_parked s). x \<in> set (sys_parked t) \<or> fits_in (snd (snd x)) (pool_available (sys_pool s)))
   \<and> (\<forall>ow. parked_of ow s \<noteq> [] \<longrightarrow> mset (owned_by ow s) \<subseteq># mset (owned_by ow t))"

definition patient_step :: "pool_sys \<Rightarrow> pool_sys \<Rightarrow> bool" where
  "patient_step s t \<longleftrightarrow> pool_step s t \<and> parked_stay s t"

text \<open>No reservation is made for an owner that is still parked afterwards.\<close>

definition single_threaded :: "pool_sys \<Rightarrow> pool_sys \<Rightarrow> bool" where
  "single_threaded s t \<longleftrightarrow>
     (\<forall>r ow. r \<in># mset (sys_live t) - mset (sys_live s) \<longrightarrow> res_owner r = Some ow \<longrightarrow> parked_of ow t = [])"

section \<open>The verdict reads the books right\<close>

lemma mem_n_fold_held:
  "mem_n (foldl (\<lambda>acc x. ra_saturating_add acc (os_held x)) a xs)
     = min (2 ^ 64 - 1) (mem_n a + (\<Sum>x\<leftarrow>xs. mem_n (os_held x)))"
  using amount_bounds [of a] by (induction xs arbitrary: a) (auto simp: res_simps amount_bounds)

lemma cpu_n_fold_held:
  "cpu_n (foldl (\<lambda>acc x. ra_saturating_add acc (os_held x)) a xs)
     = min (2 ^ 32 - 1) (cpu_n a + (\<Sum>x\<leftarrow>xs. cpu_n (os_held x)))"
  using amount_bounds [of a] by (induction xs arbitrary: a) (auto simp: res_simps amount_bounds)

lemma count_holders_eq:
  "count_holders xs n =
     (if \<exists>x\<in>set xs. \<not> is_zero (os_held x) \<and> os_waiting x = 0 then None
      else Some (n + length (filter (\<lambda>x. \<not> is_zero (os_held x)) xs)))"
  by (induction xs arbitrary: n) auto

lemma owner_get_mem:
  assumes "distinct (map fst (pool_owners p))" and "(ow, x) \<in> set (pool_owners p)"
  shows "owner_get p ow = x"
  using assms by (simp add: owner_get_def)

lemma live_zero_iff: "live_mem rs = 0 \<and> live_cpu rs = 0 \<longleftrightarrow> (\<forall>r\<in>set rs. is_zero (res_amount r))"
  by (auto simp: live_mem_def live_cpu_def sum_list_zero_iff is_zero_nat)

definition attributed :: "pool_sys \<Rightarrow> reservation list" where
  "attributed s = filter (\<lambda>r. res_owner r \<noteq> None) (sys_live s)"

lemma owned_by_attributed:
  "owned_by ow s = filter (\<lambda>r. the (res_owner r) = ow) (attributed s)"
  by (auto simp: owned_by_def attributed_def intro!: filter_cong)

lemma owner_holding_iff:
  assumes "pool_inv s"
  shows "is_zero (os_held (owner_get (sys_pool s) ow)) \<longleftrightarrow>
           (\<forall>r\<in>set (owned_by ow s). is_zero (res_amount r))"
  using inv_held_mem [OF assms, of ow] inv_held_cpu [OF assms, of ow]
  by (simp add: is_zero_nat [of "os_held _"] live_zero_iff)

lemma owner_absent:
  assumes inv: "pool_inv s" and r: "r \<in> set (attributed s)"
    and no: "the (res_owner r) \<notin> set (map fst (pool_owners (sys_pool s)))"
  shows "is_zero (res_amount r)"
proof -
  let ?ow = "the (res_owner r)"
  have "owner_get (sys_pool s) ?ow = owner_default"
    using no by (simp add: owner_get_def map_of_eq_None_iff [THEN iffD2])
  then have "\<forall>r\<in>set (owned_by ?ow s). is_zero (res_amount r)"
    using owner_holding_iff [OF inv, of ?ow] by (simp add: owner_default_def is_zero_nat)
  then show ?thesis using r by (simp add: owned_by_attributed)
qed

text \<open>Along either axis \<open>f\<close>, the owners' holdings add up to the attributed reservations.\<close>

lemma sum_owners_axis:
  fixes f :: "resource_amount \<Rightarrow> nat"
  assumes inv: "pool_inv s" and zero: "\<And>a. is_zero a \<Longrightarrow> f a = 0"
    and held: "\<And>ow. f (os_held (owner_get (sys_pool s) ow)) = (\<Sum>r\<leftarrow>owned_by ow s. f (res_amount r))"
  shows "(\<Sum>x\<leftarrow>map snd (pool_owners (sys_pool s)). f (os_held x)) = (\<Sum>r\<leftarrow>attributed s. f (res_amount r))"
proof -
  let ?os = "pool_owners (sys_pool s)"
  have "f (os_held (snd y)) = (\<Sum>r\<leftarrow>owned_by (fst y) s. f (res_amount r))" if "y \<in> set ?os" for y
    using that held [of "fst y"] owner_get_mem [OF inv_distinct_owners [OF inv], of "fst y" "snd y"] by simp
  then have "(\<Sum>x\<leftarrow>map snd ?os. f (os_held x)) = (\<Sum>y\<leftarrow>?os. \<Sum>r\<leftarrow>owned_by (fst y) s. f (res_amount r))"
    by (simp cong: map_cong)
  also have "\<dots> = (\<Sum>ow\<leftarrow>map fst ?os. \<Sum>r\<leftarrow>filter (\<lambda>r. the (res_owner r) = ow) (attributed s). f (res_amount r))"
    by (simp add: owned_by_attributed o_def)
  also have "\<dots> = (\<Sum>r\<leftarrow>attributed s. f (res_amount r))"
    by (rule sum_list_group [OF inv_distinct_owners [OF inv]]) (metis owner_absent inv zero)
  finally show ?thesis .
qed

lemma sum_owners:
  assumes inv: "pool_inv s"
  shows "(\<Sum>x\<leftarrow>map snd (pool_owners (sys_pool s)). mem_n (os_held x)) = live_mem (attributed s)"
    and "(\<Sum>x\<leftarrow>map snd (pool_owners (sys_pool s)). cpu_n (os_held x)) = live_cpu (attributed s)"
  using sum_owners_axis [OF inv, of mem_n] sum_owners_axis [OF inv, of cpu_n]
    inv_held_mem [OF inv] inv_held_cpu [OF inv]
  by (simp_all add: is_zero_nat live_mem_def live_cpu_def)

lemma live_partition:
  "live_mem rs = live_mem (filter (\<lambda>r. res_owner r \<noteq> None) rs) + live_mem (filter (\<lambda>r. res_owner r = None) rs)"
  "live_cpu rs = live_cpu (filter (\<lambda>r. res_owner r \<noteq> None) rs) + live_cpu (filter (\<lambda>r. res_owner r = None) rs)"
  by (induction rs) auto

lemma live_split:
  "live_mem (sys_live s) = live_mem (attributed s) + live_mem (filter (\<lambda>r. res_owner r = None) (sys_live s))"
  "live_cpu (sys_live s) = live_cpu (attributed s) + live_cpu (filter (\<lambda>r. res_owner r = None) (sys_live s))"
  unfolding attributed_def by (rule live_partition)+

lemma all_attributed_iff:
  assumes inv: "pool_inv s"
  shows "foldl (\<lambda>acc x. ra_saturating_add acc (os_held x)) ra_default (map snd (pool_owners (sys_pool s)))
           = ra_saturating_sub (pool_total (sys_pool s)) (pool_available (sys_pool s))
         \<longleftrightarrow> (\<forall>r\<in>set (sys_live s). \<not> is_zero (res_amount r) \<longrightarrow> res_owner r \<noteq> None)"
    (is "?fold = ?sub \<longleftrightarrow> _")
proof -
  let ?anon = "filter (\<lambda>r. res_owner r = None) (sys_live s)"
  note split = live_split [of s] and books = inv_mem [OF inv] inv_cpu [OF inv]
  have "live_mem (attributed s) \<le> 2 ^ 64 - 1" "live_cpu (attributed s) \<le> 2 ^ 32 - 1"
    using split books amount_bounds [of "pool_total (sys_pool s)"] by linarith+
  then have "mem_n ?fold = live_mem (attributed s)" "cpu_n ?fold = live_cpu (attributed s)"
    by (simp_all only: mem_n_fold_held cpu_n_fold_held sum_owners [OF inv] default_nat)
  then have "?fold = ?sub \<longleftrightarrow> live_mem ?anon = 0 \<and> live_cpu ?anon = 0"
    using split books by (auto simp: amount_eq_nat res_simps)
  then show ?thesis
    unfolding live_zero_iff by (auto simp: filter_empty_conv)
qed

lemma deadlock_unfold:
  "deadlock p a \<noteq> None \<longleftrightarrow>
     foldl (\<lambda>acc x. ra_saturating_add acc (os_held x)) ra_default (map snd (pool_owners p))
       = ra_saturating_sub (pool_total p) (pool_available p)
   \<and> \<not> (\<exists>x\<in>set (map snd (pool_owners p)). \<not> is_zero (os_held x) \<and> os_waiting x = 0)
   \<and> (\<exists>x\<in>set (map snd (pool_owners p)). \<not> is_zero (os_held x))
   \<and> \<not> list_ex (\<lambda>w. fits_in w (pool_available p)) (map snd (pool_waiting p))"
  (is "_ \<longleftrightarrow> ?A \<and> \<not> ?B \<and> ?C \<and> \<not> ?D")
proof -
  have "length (filter (\<lambda>x. \<not> is_zero (os_held x)) (map snd (pool_owners p))) = 0 \<longleftrightarrow> \<not> ?C"
    by (simp only: length_0_conv filter_empty_conv) blast
  then have C: "0 + length (filter (\<lambda>x. \<not> is_zero (os_held x)) (map snd (pool_owners p))) = 0 \<longleftrightarrow> \<not> ?C"
    by simp
  show ?thesis
    unfolding deadlock_def Let_def count_holders_eq
    by (cases ?A; cases ?B; cases ?C; cases ?D; simp only: C if_True if_False option.case simp_thms not_False_eq_True)
       simp_all
qed

lemma holder_iff:
  assumes inv: "pool_inv s"
  shows "(\<exists>x\<in>set (map snd (pool_owners (sys_pool s))). \<not> is_zero (os_held x) \<and> P (os_waiting x)) \<longleftrightarrow>
      (\<exists>r\<in>set (sys_live s). \<not> is_zero (res_amount r) \<and>
         (\<exists>ow. res_owner r = Some ow \<and> P (length (parked_of ow s))))" (is "?L \<longleftrightarrow> ?R")
proof
  assume ?L
  then obtain ow x where x: "(ow, x) \<in> set (pool_owners (sys_pool s))" "\<not> is_zero (os_held x)" "P (os_waiting x)" by auto
  then have get: "owner_get (sys_pool s) ow = x" by (simp add: owner_get_mem [OF inv_distinct_owners [OF inv]])
  with x owner_holding_iff [OF inv, of ow] obtain r
    where "r \<in> set (owned_by ow s)" "\<not> is_zero (res_amount r)" by auto
  moreover have "P (length (parked_of ow s))" using x get inv_waiting [OF inv, of ow] by simp
  ultimately show ?R by (auto simp: owned_by_def)
next
  assume ?R
  then obtain r ow where r: "r \<in> set (owned_by ow s)" "\<not> is_zero (res_amount r)"
    and P: "P (length (parked_of ow s))" by (auto simp: owned_by_def)
  then have nz: "\<not> is_zero (os_held (owner_get (sys_pool s) ow))" using owner_holding_iff [OF inv, of ow] by blast
  then have "owner_get (sys_pool s) ow \<noteq> owner_default" by (auto simp: owner_default_def is_zero_nat)
  then have "(ow, owner_get (sys_pool s) ow) \<in> set (pool_owners (sys_pool s))"
    by (auto simp: owner_get_def split: option.splits dest: map_of_SomeD)
  moreover have "P (os_waiting (owner_get (sys_pool s) ow))" using P inv_waiting [OF inv, of ow] by simp
  ultimately show ?L using nz by force
qed

lemma deadlock_iff:
  assumes inv: "pool_inv s"
  shows "deadlock (sys_pool s) a \<noteq> None \<longleftrightarrow> hold_and_wait s"
proof -
  let ?p = "sys_pool s" and ?nz = "\<lambda>x. \<not> is_zero (os_held x)"
  let ?att = "\<forall>r\<in>set (sys_live s). \<not> is_zero (res_amount r) \<longrightarrow> res_owner r \<noteq> None"
  have "deadlock ?p a \<noteq> None \<longleftrightarrow> ?att
      \<and> \<not> (\<exists>x\<in>set (map snd (pool_owners ?p)). ?nz x \<and> os_waiting x = 0)
      \<and> (\<exists>x\<in>set (map snd (pool_owners ?p)). ?nz x)
      \<and> \<not> (\<exists>x\<in>set (sys_parked s). fits_in (snd (snd x)) (pool_available ?p))"
    unfolding deadlock_unfold all_attributed_iff [OF inv]
    by (simp add: list_ex_iff inv_waiting_map [OF inv])
  moreover have h0: "(\<exists>x\<in>set (map snd (pool_owners ?p)). ?nz x \<and> os_waiting x = 0) \<longleftrightarrow>
      (\<exists>r\<in>set (sys_live s). \<not> is_zero (res_amount r) \<and> (\<exists>ow. res_owner r = Some ow \<and> parked_of ow s = []))"
    using holder_iff [OF inv, of "\<lambda>n. n = 0"] by (simp only: length_0_conv)
  moreover have h1: "(\<exists>x\<in>set (map snd (pool_owners ?p)). ?nz x) \<longleftrightarrow>
      (\<exists>r\<in>set (sys_live s). \<not> is_zero (res_amount r) \<and> res_owner r \<noteq> None)"
    using holder_iff [OF inv, of "\<lambda>_. True"] by (simp only: simp_thms not_None_eq)
  ultimately have "deadlock ?p a \<noteq> None \<longleftrightarrow> ?att
      \<and> \<not> (\<exists>r\<in>set (sys_live s). \<not> is_zero (res_amount r) \<and> (\<exists>ow. res_owner r = Some ow \<and> parked_of ow s = []))
      \<and> (\<exists>r\<in>set (sys_live s). \<not> is_zero (res_amount r) \<and> res_owner r \<noteq> None)
      \<and> \<not> (\<exists>x\<in>set (sys_parked s). fits_in (snd (snd x)) (pool_available ?p))"
    by (simp only:)
  moreover have "(?att \<and> \<not> (\<exists>r\<in>set (sys_live s). \<not> is_zero (res_amount r)
        \<and> (\<exists>ow. res_owner r = Some ow \<and> parked_of ow s = []))) \<longleftrightarrow>
      (\<forall>r\<in>set (sys_live s). \<not> is_zero (res_amount r) \<longrightarrow> (\<exists>ow. res_owner r = Some ow \<and> parked_of ow s \<noteq> []))"
  proof -
    have "((\<not> is_zero (res_amount r) \<longrightarrow> res_owner r \<noteq> None) \<and> \<not> (\<not> is_zero (res_amount r)
        \<and> (\<exists>ow. res_owner r = Some ow \<and> parked_of ow s = []))) \<longleftrightarrow>
      (\<not> is_zero (res_amount r) \<longrightarrow> (\<exists>ow. res_owner r = Some ow \<and> parked_of ow s \<noteq> []))" for r
      by (cases "res_owner r") auto
    then show ?thesis by blast
  qed
  ultimately have verdict: "deadlock ?p a \<noteq> None \<longleftrightarrow>
      (\<forall>r\<in>set (sys_live s). \<not> is_zero (res_amount r) \<longrightarrow> (\<exists>ow. res_owner r = Some ow \<and> parked_of ow s \<noteq> []))
      \<and> (\<exists>r\<in>set (sys_live s). \<not> is_zero (res_amount r) \<and> res_owner r \<noteq> None)
      \<and> \<not> (\<exists>x\<in>set (sys_parked s). fits_in (snd (snd x)) (pool_available ?p))"
    by (simp only: conj_assoc [symmetric])
  show ?thesis
    unfolding verdict hold_and_wait_def by (auto simp del: not_None_eq) (auto dest!: bspec)
qed

section \<open>The verdict is permanent\<close>

lemma pool_step_total: "pool_step s t \<Longrightarrow> pool_total (sys_pool t) = pool_total (sys_pool s)"
proof (induction rule: pool_step.induct)
  case (step_acquire_granted s now owner amount sink r p sink')
  then show ?case
    by (auto simp: acquire_inner_def acquire_check_def enter_waiting_def next_id_def take_amount_def Let_def
        split: if_splits prod.splits option.splits)
qed (auto simp: acquire_inner_def acquire_check_def enter_waiting_def next_id_def take_amount_def
      withdraw_def new_owner_def try_acquire_inner_def drop_reservation_def release_def Let_def
      split: if_splits prod.splits option.splits)

lemma reaches_total:
  assumes "reaches pool_step (sys_init tot) s"
  shows "pool_total (sys_pool s) = tot"
proof -
  have "reaches pool_step u s \<Longrightarrow> pool_total (sys_pool s) = pool_total (sys_pool u)" for u
    by (induction rule: reaches.induct) (simp_all add: pool_step_total)
  from this [OF assms] show ?thesis by (simp add: sys_init_def pool_new_def)
qed

lemma withdraw_gone: "map_of (pool_waiting (fst (withdraw now owner (Some t) sk))) t = None"
  by (auto simp: withdraw_def Let_def delete_conv' split: option.splits)

lemma live_mem_mono: "mset rs \<subseteq># mset rs' \<Longrightarrow> live_mem rs \<le> live_mem rs'"
  unfolding live_mem_def sum_mset_sum_list [symmetric] mset_map
  by (metis image_mset_union le_add1 mset_subset_eq_exists_conv sum_mset.union)

lemma live_cpu_mono: "mset rs \<subseteq># mset rs' \<Longrightarrow> live_cpu rs \<le> live_cpu rs'"
  unfolding live_cpu_def sum_mset_sum_list [symmetric] mset_map
  by (metis image_mset_union le_add1 mset_subset_eq_exists_conv sum_mset.union)

text \<open>What is held at the verdict, without the empty reservations.\<close>

definition holdings :: "pool_sys \<Rightarrow> reservation list" where
  "holdings s = filter (\<lambda>r. \<not> is_zero (res_amount r)) (sys_live s)"

lemma live_holdings: "live_mem (holdings s) = live_mem (sys_live s)" "live_cpu (holdings s) = live_cpu (sys_live s)"
proof -
  have "live_mem (filter (\<lambda>r. \<not> is_zero (res_amount r)) rs) = live_mem rs"
    "live_cpu (filter (\<lambda>r. \<not> is_zero (res_amount r)) rs) = live_cpu rs" for rs
    by (induction rs) (auto simp: is_zero_nat)
  then show "live_mem (holdings s) = live_mem (sys_live s)" "live_cpu (holdings s) = live_cpu (sys_live s)"
    by (simp_all add: holdings_def)
qed

definition frozen_since :: "pool_sys \<Rightarrow> pool_sys \<Rightarrow> bool" where
  "frozen_since s t \<longleftrightarrow> pool_inv t \<and> pool_total (sys_pool t) = pool_total (sys_pool s)
     \<and> set (sys_parked s) \<subseteq> set (sys_parked t) \<and> mset (holdings s) \<subseteq># mset (sys_live t)"

lemma frozen_available:
  assumes "pool_inv s" and "frozen_since s t"
  shows "fits_in (pool_available (sys_pool t)) (pool_available (sys_pool s))"
  using assms inv_mem [of s] inv_mem [of t] inv_cpu [of s] inv_cpu [of t]
    live_mem_mono [of "holdings s" "sys_live t"] live_cpu_mono [of "holdings s" "sys_live t"]
  by (auto simp: frozen_since_def live_holdings fits_in_nat)

lemma frozen_step:
  assumes inv: "pool_inv s" and dead: "hold_and_wait s"
    and froz: "frozen_since s t" and step: "patient_step t u"
  shows "frozen_since s u"
proof -
  have stay: "x \<in> set (sys_parked u)" if x: "x \<in> set (sys_parked s)" for x
  proof -
    have "\<not> fits_in (snd (snd x)) (pool_available (sys_pool s))"
      using dead x by (simp add: hold_and_wait_def)
    then have "\<not> fits_in (snd (snd x)) (pool_available (sys_pool t))"
      using frozen_available [OF inv froz] by (auto simp: fits_in_nat)
    moreover have "x \<in> set (sys_parked t)" using x froz by (auto simp: frozen_since_def)
    ultimately show ?thesis using step by (auto simp: patient_step_def parked_stay_def)
  qed
  have "count (mset (holdings s)) r \<le> count (mset (sys_live u)) r" for r
  proof (cases "r \<in> set (holdings s)")
    case False
    then show ?thesis by (metis count_mset_0_iff le0)
  next
    case True
    then obtain ow where ow: "res_owner r = Some ow" "parked_of ow s \<noteq> []"
      using dead by (auto simp: holdings_def hold_and_wait_def)
    then have "parked_of ow t \<noteq> []"
      using froz by (auto simp: parked_of_def frozen_since_def filter_empty_conv)
    then have "mset (owned_by ow t) \<subseteq># mset (owned_by ow u)"
      using step by (simp add: patient_step_def parked_stay_def)
    then have "count (mset (owned_by ow t)) r \<le> count (mset (owned_by ow u)) r"
      by (rule mset_subset_eq_count)
    moreover have "count (mset (owned_by ow v)) r = count (mset (sys_live v)) r" for v
      using ow by (simp add: owned_by_def)
    moreover have "count (mset (holdings s)) r \<le> count (mset (sys_live t)) r"
      using froz by (intro mset_subset_eq_count) (simp add: frozen_since_def)
    ultimately show ?thesis by simp
  qed
  then have "mset (holdings s) \<subseteq># mset (sys_live u)" by (rule mset_subset_eqI)
  with stay step froz show ?thesis
    by (auto simp: frozen_since_def patient_step_def pool_step_inv pool_step_total)
qed

lemma frozen_refl: "pool_inv s \<Longrightarrow> frozen_since s s"
  by (simp add: frozen_since_def holdings_def multiset_filter_subset)

lemma frozen_reaches:
  assumes "reaches patient_step s t" and "pool_inv s" and "hold_and_wait s"
  shows "frozen_since s t"
  using assms
proof (induction rule: reaches.induct)
  case (reaches_refl s)
  then show ?case by (simp add: frozen_refl)
next
  case (reaches_step s t u)
  then show ?case using frozen_step by blast
qed


section \<open>No verdict is missed\<close>

lemma acquire_parked_no_verdict:
  assumes "acquire_inner now (Some ow) amount (p, sink) = (Parked t, q, sink')"
  shows "deadlock q amount = None"
  using assms by (auto simp: acquire_inner_def split: if_splits elim!: acquire_check_cases)

lemma deadlocked_waiter:
  assumes inv: "pool_inv s" and dead: "hold_and_wait s"
  obtains t ow amount where "map_of (sys_parked s) t = Some (Some ow, amount)"
proof -
  from dead obtain r ow where "r \<in> set (sys_live s)" "res_owner r = Some ow" "parked_of ow s \<noteq> []"
    by (auto simp: hold_and_wait_def)
  then obtain t amount where "(t, Some ow, amount) \<in> set (sys_parked s)"
    by (auto simp: parked_of_def filter_empty_conv)
  then show thesis by (intro that map_of_is_SomeI inv_distinct_parked [OF inv])
qed

lemma wake_deadlocked:
  assumes inv: "pool_inv s" and dead: "hold_and_wait s"
    and t: "map_of (sys_parked s) t = Some (Some ow, amount)"
  shows "\<exists>d. deadlock (sys_pool s) amount = Some d \<and>
     acquire_check now (Some ow) amount (Some t) (sys_pool s, sink)
       = (Refused (Deadlock d), withdraw now (Some ow) (Some t) (sys_pool s, sink))"
proof -
  have "\<not> fits_in amount (pool_available (sys_pool s))"
    using dead parked_mem_map_of [OF t] by (auto simp: hold_and_wait_def)
  moreover obtain d where "deadlock (sys_pool s) amount = Some d"
    using deadlock_iff [OF inv, of amount] dead by auto
  ultimately show ?thesis by (auto simp: acquire_check_def)
qed

lemma parked_nonzero_step:
  assumes "pool_step s t" and "\<forall>x\<in>set (sys_parked s). \<not> is_zero (snd (snd x))"
  shows "\<forall>x\<in>set (sys_parked t). \<not> is_zero (snd (snd x))"
  using assms
proof (induction rule: pool_step.induct)
  case (step_acquire_parked s now owner amount sink t p sink')
  then have "\<not> fits_in amount (pool_available (sys_pool s))"
    by (auto simp: acquire_inner_def split: if_splits elim!: acquire_check_cases)
  then have "\<not> is_zero amount" by (auto simp: fits_in_nat is_zero_nat)
  with step_acquire_parked show ?case by auto
qed (auto simp: AList.delete_eq)

interpretation parked_nonzero: step_invariant pool_step "\<lambda>s. \<forall>x\<in>set (sys_parked s). \<not> is_zero (snd (snd x))"
  by unfold_locales (rule parked_nonzero_step)


lemma acquire_refused_available:
  assumes "acquire_check now owner amount tk (p, k) = (Refused e, p', k')"
  shows "pool_available p' = pool_available p" "\<not> fits_in amount (pool_available p)"
  using assms
  by (auto elim!: acquire_check_cases simp: enter_waiting_def next_id_def Let_def
      split: option.splits)

lemma take_available:
  "is_zero amount \<Longrightarrow> pool_available (take_amount owner amount p) = pool_available p"
  by (auto simp: take_amount_def Let_def amount_eq_nat res_simps split: option.splits)

text \<open>Where nothing is held that was not, and only requests that do not fit have left.\<close>

lemma hold_and_wait_back:
  assumes dead: "hold_and_wait t"
    and av: "pool_available (sys_pool t) = pool_available (sys_pool s)"
    and live: "\<And>r. \<not> is_zero (res_amount r) \<Longrightarrow> r \<in> set (sys_live s) \<longleftrightarrow> r \<in> set (sys_live t)"
    and owned: "\<And>x ow. x \<in> set (sys_parked t) \<Longrightarrow> fst (snd x) = Some ow \<Longrightarrow> x \<in> set (sys_parked s)"
    and left: "\<And>x. x \<in> set (sys_parked s) \<Longrightarrow>
      x \<in> set (sys_parked t) \<or> \<not> fits_in (snd (snd x)) (pool_available (sys_pool s))"
  shows "hold_and_wait s"
proof -
  have "parked_of ow t \<noteq> [] \<Longrightarrow> parked_of ow s \<noteq> []" for ow
    using owned by (fastforce simp: parked_of_def filter_empty_conv)
  then show ?thesis
    using dead live left unfolding hold_and_wait_def av by blast
qed

lemma new_holder_running:
  assumes dead: "hold_and_wait t" and single: "single_threaded s t"
    and live: "sys_live t = r # sys_live s"
  shows "is_zero (res_amount r)"
proof (rule ccontr)
  assume "\<not> is_zero (res_amount r)"
  then obtain ow where ow: "res_owner r = Some ow" "parked_of ow t \<noteq> []"
    using dead live by (auto simp: hold_and_wait_def)
  have "r \<in># mset (sys_live t) - mset (sys_live s)" by (simp add: live)
  with ow single show False by (auto simp: single_threaded_def)
qed

lemma verdict_onset:
  assumes "pool_step s t" and "pool_inv s" and "\<forall>x\<in>set (sys_parked s). \<not> is_zero (snd (snd x))"
    and "single_threaded s t" and "\<not> hold_and_wait s" and "hold_and_wait t"
  shows "\<exists>r\<in>set (sys_live s).
    t = s\<lparr>sys_pool := drop_reservation r (sys_pool s), sys_live := remove1 r (sys_live s)\<rparr>"
  using assms
proof (induction rule: pool_step.induct)
  case (step_new_owner s ow p)
  then show ?case
    using hold_and_wait_back [OF step_new_owner.prems(5), of s] by (auto simp: new_owner_def next_id_def Let_def)
next
  case (step_acquire_granted s now owner amount sink r p sink')
  have ck: "acquire_check now owner amount None (sys_pool s, sink) = (Granted r, p, sink')"
    using step_acquire_granted.hyps by (auto simp: acquire_inner_def split: if_splits)
  have z: "is_zero (res_amount r)"
    by (rule new_holder_running [OF step_acquire_granted.prems(5,3)]) simp
  with ck have "pool_available p = pool_available (sys_pool s)"
    by (auto elim!: acquire_check_cases simp: take_available)
  then show ?case
    using hold_and_wait_back [OF step_acquire_granted.prems(5), of s] z step_acquire_granted.prems(4) by auto
next
  case (step_acquire_refused s now owner amount sink e p sink')
  then have "pool_available p = pool_available (sys_pool s)"
    by (auto simp: acquire_inner_def acquire_refused_available split: if_splits)
  then show ?case
    using hold_and_wait_back [OF step_acquire_refused.prems(5), of s] step_acquire_refused.prems(4) by auto
next
  case (step_acquire_parked s now owner amount sink t p sink')
  have ck: "acquire_check now owner amount None (sys_pool s, sink) = (Parked t, p, sink')"
    using step_acquire_parked.hyps by (auto simp: acquire_inner_def split: if_splits)
  let ?t = "s\<lparr>sys_pool := p, sys_parked := sys_parked s @ [(t, owner, amount)]\<rparr>"
  have "pool_inv ?t"
    using pool_step_inv pool_step.step_acquire_parked step_acquire_parked by blast
  from deadlock_iff [OF this, of amount] step_acquire_parked.prems(5)
  have "deadlock p amount \<noteq> None" by simp
  with ck have "owner = None" by (auto elim!: acquire_check_cases)
  moreover have "pool_available p = pool_available (sys_pool s)"
    using ck by (auto elim!: acquire_check_cases simp: enter_waiting_def next_id_def Let_def split: option.splits)
  ultimately show ?case
    using hold_and_wait_back [OF step_acquire_parked.prems(5), of s] step_acquire_parked.prems(4) by auto
next
  case (step_wake_granted s t owner amount now sink r p sink')
  have "is_zero (res_amount r)"
    by (rule new_holder_running [OF step_wake_granted.prems(5,3)]) simp
  moreover have "res_amount r = amount"
    using step_wake_granted.hyps(2) by (auto elim!: acquire_check_cases)
  ultimately show ?case
    using step_wake_granted.prems(2) parked_mem_map_of [OF step_wake_granted.hyps(1)] by auto
next
  case (step_wake_refused s t owner amount now sink e p sink')
  have only: "snd (snd x) = amount" if "x \<in> set (sys_parked s)" "fst x = t" for x
    using map_of_is_SomeI [OF inv_distinct_parked [OF step_wake_refused.prems(1)], of "fst x" "snd x"]
      that step_wake_refused.hyps(1) by (cases x) auto
  have left: "x \<in> set (AList.delete t (sys_parked s)) \<or> snd (snd x) = amount"
    if "x \<in> set (sys_parked s)" for x
    using only [OF that] that by (auto simp: AList.delete_eq)
  have "hold_and_wait s"
  proof (rule hold_and_wait_back [OF step_wake_refused.prems(5)])
    fix x assume "x \<in> set (sys_parked s)"
    from left [OF this] show "x \<in> set (sys_parked (s\<lparr>sys_pool := p, sys_parked := AList.delete t (sys_parked s)\<rparr>))
        \<or> \<not> fits_in (snd (snd x)) (pool_available (sys_pool s))"
      using acquire_refused_available(2) [OF step_wake_refused.hyps(2)] by auto
  qed (use acquire_refused_available(1) [OF step_wake_refused.hyps(2)] in \<open>auto simp: AList.delete_eq\<close>)
  then show ?case using step_wake_refused.prems(4) by simp
next
  case (step_wake_parked s t owner amount now sink t' p sink')
  have "p = sys_pool s" using step_wake_parked.hyps(2) by (auto elim!: acquire_check_cases)
  then show ?case using step_wake_parked.prems(4,5) by simp
next
  case (step_try_granted owner amount s r p)
  have z: "is_zero (res_amount r)"
    by (rule new_holder_running [OF step_try_granted.prems(5,3)]) simp
  then have "pool_available p = pool_available (sys_pool s)"
    using step_try_granted.hyps by (auto simp: try_acquire_inner_def take_available split: if_splits)
  then show ?case
    using hold_and_wait_back [OF step_try_granted.prems(5), of s] z step_try_granted.prems(4) by auto
next
  case (step_release r s)
  then show ?case by blast
qed


section \<open>Replaying requests\<close>

text \<open>A sequence of first passes of \<open>acquire_inner\<close>, for concrete histories.\<close>

definition request_pool :: "owner_id option \<Rightarrow> resource_amount \<Rightarrow> pool_sys \<Rightarrow> pool_sys" where
  "request_pool owner amount s =
     (case acquire_inner 0 owner amount (sys_pool s, None) of
        (Granted r, p, _) \<Rightarrow> s\<lparr>sys_pool := p, sys_live := r # sys_live s\<rparr>
      | (Refused _, p, _) \<Rightarrow> s\<lparr>sys_pool := p\<rparr>
      | (Parked t, p, _) \<Rightarrow> s\<lparr>sys_pool := p, sys_parked := sys_parked s @ [(t, owner, amount)]\<rparr>)"

fun replay :: "(owner_id option \<times> resource_amount) list \<Rightarrow> pool_sys \<Rightarrow> pool_sys option" where
  "replay [] s = Some s"
| "replay ((owner, amount) # xs) s =
     (if pool_next_id (sys_pool s) = - 1 then None else replay xs (request_pool owner amount s))"

lemma request_pool_step:
  "pool_next_id (sys_pool s) \<noteq> - 1 \<Longrightarrow> pool_step s (request_pool owner amount s)"
  by (auto simp: request_pool_def intro: pool_step.intros split: prod.split acquire_outcome.split)

lemma replay_reaches:
  assumes "replay xs s = Some t" and "reaches pool_step u s"
  shows "reaches pool_step u t"
  using assms
  by (induction xs s rule: replay.induct)
     (auto split: if_splits intro: reaches_step request_pool_step)

text \<open>
  Two files hold a CPU each and want two more; a third CPU is held anonymously. When it
  is dropped, the two files wait for each other.
\<close>

definition demo_live :: "reservation list" where
  "demo_live = [\<lparr>res_amount = amt 1 1, res_owner = Some 9\<rparr>, \<lparr>res_amount = amt 1 1, res_owner = Some 8\<rparr>]"

definition demo_anon :: reservation where
  "demo_anon = \<lparr>res_amount = amt 1 1, res_owner = None\<rparr>"

definition demo_state :: "resource_amount \<Rightarrow> reservation list \<Rightarrow> pool_sys" where
  "demo_state free live =
     \<lparr>sys_pool = \<lparr>pool_total = amt 3 3, pool_available = free,
        pool_owners = [(8, \<lparr>os_held = amt 1 1, os_waiting = 1\<rparr>), (9, \<lparr>os_held = amt 1 1, os_waiting = 1\<rparr>)],
        pool_waiting = [(1, amt 2 2), (2, amt 2 2)], pool_next_id = 2\<rparr>,
      sys_live = live,
      sys_parked = [(1, Some 8, amt 2 2), (2, Some 9, amt 2 2)]\<rparr>"

definition demo_waiting :: pool_sys where
  "demo_waiting = demo_state (amt 0 0) (demo_live @ [demo_anon])"

definition demo_dead :: pool_sys where
  "demo_dead = demo_state (amt 1 1) demo_live"

lemmas demo_defs = demo_waiting_def demo_dead_def demo_state_def demo_live_def demo_anon_def amt_def

lemmas pool_eval = request_pool_def acquire_inner_def acquire_check_def enter_waiting_def take_amount_def
  next_id_def owner_mut_def owner_get_def owner_default_def ra_default_def fits_in_def ra_saturating_sub_def
  ra_saturating_add_def sat_add_def sat_sub_def withdraw_def prune_def deadlock_def is_zero_def
  sink_park_def sys_init_def pool_new_def drop_reservation_def release_def is_idle_def

lemma demo_waiting_replay:
  "replay [(None, amt 1 1), (Some 8, amt 1 1), (Some 9, amt 1 1), (Some 8, amt 2 2), (Some 9, amt 2 2)]
     (sys_init (amt 3 3)) = Some demo_waiting"
  by (simp add: pool_eval demo_defs)

lemma demo_waiting_reached: "reaches pool_step (sys_init (amt 3 3)) demo_waiting"
  by (rule replay_reaches [OF demo_waiting_replay reaches_refl])

lemma demo_dead_eq:
  "demo_dead = demo_waiting\<lparr>sys_pool := drop_reservation demo_anon (sys_pool demo_waiting),
      sys_live := remove1 demo_anon (sys_live demo_waiting)\<rparr>"
  by (simp add: pool_eval demo_defs)

lemma demo_dead_step: "pool_step demo_waiting demo_dead"
proof -
  have "demo_anon \<in> set (sys_live demo_waiting)" by (simp add: demo_waiting_def demo_state_def)
  then show ?thesis unfolding demo_dead_eq by (rule step_release)
qed

lemma demo_dead_reached: "reaches pool_step (sys_init (amt 3 3)) demo_dead"
  using demo_waiting_reached demo_dead_step by (rule reaches_step)

lemma demo_verdicts:
  "deadlock (sys_pool demo_waiting) (amt 2 2) = None" "deadlock (sys_pool demo_dead) (amt 2 2) \<noteq> None"
  by (simp_all add: pool_eval demo_defs word_le_nat_alt)

lemma demo_nonempty [simp]:
  "sys_live demo_waiting \<noteq> []" "sys_parked demo_waiting \<noteq> []"
  "sys_parked demo_dead \<noteq> []" "holdings demo_dead \<noteq> []"
  by (simp_all add: demo_defs holdings_def is_zero_def)

definition demo_later :: pool_sys where
  "demo_later = demo_dead\<lparr>sys_pool := snd (new_owner (sys_pool demo_dead))\<rparr>"

lemma demo_later_reached: "reaches patient_step demo_dead demo_later"
proof -
  have "pool_step demo_dead demo_later"
    unfolding demo_later_def by (rule step_new_owner) (simp_all add: demo_defs prod_eq_iff)
  moreover have "parked_stay demo_dead demo_later"
    by (simp add: parked_stay_def demo_later_def owned_by_def)
  ultimately have "patient_step demo_dead demo_later" by (simp add: patient_step_def)
  with reaches_refl show ?thesis by (rule reaches_step)
qed

lemma demo_later_neq: "demo_later \<noteq> demo_dead"
  by (simp add: demo_later_def new_owner_def next_id_def Let_def demo_defs)

section \<open>Properties\<close>

text \<open>
  C1: In every state the pool can reach from \<open>Pool::new(total)\<close>, under any interleaving of
  acquires, wake-ups, try-acquires and drops, what is free and what the live reservations
  hold add up to the total, along both axes: the pool never overcommits and never leaks.
  Each owner's entry is what its live reservations hold and how many of its threads are
  parked, and \<open>pending_count\<close> is the number of parked threads.
\<close>

theorem pool_conserves:
  assumes "reaches pool_step (sys_init tot) s"
  shows "mem_n (pool_available (sys_pool s)) + live_mem (sys_live s) = mem_n tot
       \<and> cpu_n (pool_available (sys_pool s)) + live_cpu (sys_live s) = cpu_n tot
       \<and> mem_n (os_held (owner_get (sys_pool s) ow)) = live_mem (owned_by ow s)
       \<and> cpu_n (os_held (owner_get (sys_pool s) ow)) = live_cpu (owned_by ow s)
       \<and> os_waiting (owner_get (sys_pool s) ow) = length (parked_of ow s)
       \<and> pending_count (sys_pool s) = length (sys_parked s)"
proof -
  have inv: "pool_inv s" using assms pool_inv_init by (rule pool.reaches_keeps)
  moreover have "pool_total (sys_pool s) = tot" using assms by (rule reaches_total)
  ultimately show ?thesis
    using inv_mem [OF inv] inv_cpu [OF inv] inv_held_mem [OF inv] inv_held_cpu [OF inv]
      inv_waiting [OF inv] inv_waiting_map [OF inv]
    by (simp add: pending_count_def)
qed

theorem pool_conserves_witness:
  "mem_n (pool_available (sys_pool demo_waiting)) + live_mem (sys_live demo_waiting) = 3
   \<and> sys_live demo_waiting \<noteq> [] \<and> sys_parked demo_waiting \<noteq> []"
proof -
  have "mem_n (pool_available (sys_pool demo_waiting)) + live_mem (sys_live demo_waiting) = mem_n (amt 3 3)"
    using pool_conserves [OF demo_waiting_reached, of 8] by (rule conjunct1)
  moreover have "mem_n (amt 3 3) = 3" by (simp add: mem_n_def amt_def)
  ultimately show ?thesis by simp
qed

text \<open>
  C2: The verdict \<open>deadlock\<close>, computed from the pool's books alone, is given exactly in
  the states of hold and wait: something is held, every holder's owner is itself parked,
  nothing is held anonymously, and no parked request fits in what is free.
\<close>

theorem deadlock_exact:
  assumes "reaches pool_step (sys_init tot) s"
  shows "deadlock (sys_pool s) amount \<noteq> None \<longleftrightarrow> hold_and_wait s"
  by (rule deadlock_iff [OF pool.reaches_keeps [OF assms pool_inv_init]])

theorem deadlock_exact_witness: "hold_and_wait demo_dead"
proof -
  show ?thesis using deadlock_exact [OF demo_dead_reached, of "amt 2 2"] demo_verdicts(2) by (rule iffD1)
qed

text \<open>
  C5: The verdict is never premature. Were it not given, then in every continuation in
  which parked threads wait until they are granted and do not drop what their file holds,
  every request parked at the verdict stays parked for ever, none of them ever fits, and
  every reservation of the verdict stays alive.
\<close>

theorem deadlock_permanent:
  assumes "reaches pool_step (sys_init tot) s" and "deadlock (sys_pool s) amount \<noteq> None"
    and "reaches patient_step s t"
  shows "set (sys_parked s) \<subseteq> set (sys_parked t)
       \<and> (\<forall>x\<in>set (sys_parked s). \<not> fits_in (snd (snd x)) (pool_available (sys_pool t)))
       \<and> mset (holdings s) \<subseteq># mset (sys_live t)"
proof -
  have inv: "pool_inv s" using assms(1) pool_inv_init by (rule pool.reaches_keeps)
  then have dead: "hold_and_wait s" using assms(2) deadlock_iff by blast
  have froz: "frozen_since s t" using assms(3) inv dead by (rule frozen_reaches)
  have "\<not> fits_in (snd (snd x)) (pool_available (sys_pool t))" if "x \<in> set (sys_parked s)" for x
    using frozen_available [OF inv froz] dead that by (auto simp: hold_and_wait_def fits_in_nat)
  then show ?thesis using froz by (simp add: frozen_since_def)
qed

theorem deadlock_permanent_witness:
  "\<not> fits_in (amt 2 2) (pool_available (sys_pool demo_later)) \<and> demo_later \<noteq> demo_dead
   \<and> set (sys_parked demo_dead) \<subseteq> set (sys_parked demo_later) \<and> sys_parked demo_dead \<noteq> []"
proof -
  note perm = deadlock_permanent [OF demo_dead_reached demo_verdicts(2) demo_later_reached]
  have "(1, Some 8, amt 2 2) \<in> set (sys_parked demo_dead)" by (simp add: demo_dead_def demo_state_def)
  then have "\<not> fits_in (amt 2 2) (pool_available (sys_pool demo_later))"
    using perm [THEN conjunct2, THEN conjunct1] by fastforce
  then show ?thesis using perm [THEN conjunct1] by (simp add: demo_later_neq)
qed



end
