(* ===== verification/Pool_Account.thy ===== *)
theory Pool_Account
  imports Pool_Safety
begin

text \<open>
  Accounts, claims and slices of \<open>provium-host/src/scheduler/pool.rs\<close>: a test file's
  standing with the pool, the claim it makes once, the slices its VMs borrow from the
  claim, and \<open>reserve\<close>, which chooses between the claim and the pool for a boot.

  A value that is dropped in the source (a reservation, a claim with its reservation) is
  released to the pool at that point by the operation that drops it.
\<close>

section \<open>Accounts\<close>

record claim_budget =
  cb_reservation :: reservation
  cb_total :: resource_amount
  cb_used :: resource_amount

record account_claim =
  ac_taken :: bool
  ac_budget :: "claim_budget option"

record account =
  acc_owner :: "owner_id option"
  acc_claim :: account_claim

record claim_exceeded =
  ce_requested :: resource_amount
  ce_claimed :: resource_amount
  ce_in_use :: resource_amount

definition account_new :: "pool_state option \<Rightarrow> account \<times> pool_state option" where
  "account_new pool =
     (let claim = \<lparr>ac_taken = False, ac_budget = None\<rparr>
      in case pool of
           None \<Rightarrow> (\<lparr>acc_owner = None, acc_claim = claim\<rparr>, None)
         | Some p \<Rightarrow> let (ow, p') = new_owner p
                     in (\<lparr>acc_owner = Some ow, acc_claim = claim\<rparr>, Some p'))"

definition claim_taken :: "account \<Rightarrow> bool" where
  "claim_taken a = ac_taken (acc_claim a)"

definition mark_claim_taken :: "account \<Rightarrow> bool \<times> account" where
  "mark_claim_taken a =
     (if ac_taken (acc_claim a) then (False, a)
      else (True, a\<lparr>acc_claim := (acc_claim a)\<lparr>ac_taken := True\<rparr>\<rparr>))"

definition set_claim ::
  "reservation \<Rightarrow> resource_amount \<Rightarrow> account \<times> pool_state \<Rightarrow> bool \<times> account \<times> pool_state" where
  "set_claim r amount ap =
     (let a = fst ap; p = snd ap
      in if ac_taken (acc_claim a) then (False, a, drop_reservation r p)
         else (True,
               a\<lparr>acc_claim := \<lparr>ac_taken = True,
                   ac_budget = Some \<lparr>cb_reservation = r, cb_total = amount, cb_used = ra_default\<rparr>\<rparr>\<rparr>,
               p))"

definition claim :: "account \<Rightarrow> (resource_amount \<times> resource_amount) option" where
  "claim a = map_option (\<lambda>b. (cb_total b, cb_used b)) (ac_budget (acc_claim a))"

definition release_claim :: "account \<times> pool_state \<Rightarrow> resource_amount option \<times> account \<times> pool_state" where
  "release_claim ap =
     (let a = fst ap; p = snd ap
      in case ac_budget (acc_claim a) of
           None \<Rightarrow> (None, a, p)
         | Some b \<Rightarrow>
             (Some (cb_total b), a\<lparr>acc_claim := (acc_claim a)\<lparr>ac_budget := None\<rparr>\<rparr>,
              drop_reservation (cb_reservation b) p))"

text \<open>A slice is known by its amount; \<open>Ok(None)\<close> of the source is \<open>Inr None\<close>.\<close>

definition slice_claim ::
  "resource_amount \<Rightarrow> account \<Rightarrow> (claim_exceeded + resource_amount option) \<times> account" where
  "slice_claim amount a =
     (case ac_budget (acc_claim a) of
        None \<Rightarrow> (Inr None, a)
      | Some b \<Rightarrow>
          let after = ra_saturating_add (cb_used b) amount
          in if \<not> fits_in after (cb_total b)
             then (Inl \<lparr>ce_requested = amount, ce_claimed = cb_total b, ce_in_use = cb_used b\<rparr>, a)
             else (Inr (Some amount),
                   a\<lparr>acc_claim := (acc_claim a)\<lparr>ac_budget := Some (b\<lparr>cb_used := after\<rparr>)\<rparr>\<rparr>))"

text \<open>\<open>Drop for ClaimSlice\<close>, while the account is alive.\<close>

definition return_slice :: "resource_amount \<Rightarrow> account \<Rightarrow> account" where
  "return_slice amount a =
     (case ac_budget (acc_claim a) of
        None \<Rightarrow> a
      | Some b \<Rightarrow>
          a\<lparr>acc_claim := (acc_claim a)\<lparr>ac_budget :=
              Some (b\<lparr>cb_used := ra_saturating_sub (cb_used b) amount\<rparr>)\<rparr>\<rparr>)"

section \<open>Holding resources for a boot\<close>

datatype hold = HoldPool reservation | HoldClaim resource_amount

fun hold_amount :: "hold \<Rightarrow> resource_amount" where
  "hold_amount (HoldPool r) = res_amount r"
| "hold_amount (HoldClaim a) = a"

datatype reserve_error = ReserveClaim claim_exceeded | ReservePool acquire_error

text \<open>What \<open>reserve\<close> comes to: a result, or a wait inside the pool's \<open>acquire\<close>.\<close>

datatype reserve_outcome = Reserved hold | NotReserved reserve_error | ReserveWaits ticket

fun reserve_acquired :: "acquire_outcome \<Rightarrow> reserve_outcome" where
  "reserve_acquired (Granted r) = Reserved (HoldPool r)"
| "reserve_acquired (Refused e) = NotReserved (ReservePool e)"
| "reserve_acquired (Parked t) = ReserveWaits t"

text \<open>The anonymous path reports every refusal as \<open>ExceedsTotal\<close>.\<close>

fun reserve_anonymous :: "resource_amount \<Rightarrow> resource_amount \<Rightarrow> acquire_outcome \<Rightarrow> reserve_outcome" where
  "reserve_anonymous amount tot (Granted r) = Reserved (HoldPool r)"
| "reserve_anonymous amount tot (Refused e) = NotReserved (ReservePool (ExceedsTotal amount tot))"
| "reserve_anonymous amount tot (Parked t) = ReserveWaits t"

definition reserve ::
  "nat \<Rightarrow> account option \<Rightarrow> resource_amount \<Rightarrow> pool_state \<times> wait_sink option
     \<Rightarrow> reserve_outcome \<times> account option \<times> pool_state \<times> wait_sink option" where
  "reserve now acc amount sk =
     (let anonymous =
            (let (out, sk') = acquire_inner now None amount sk
             in (reserve_anonymous amount (pool_total (fst sk)) out, acc, sk'))
      in case acc of
           None \<Rightarrow> anonymous
         | Some a \<Rightarrow>
             (case slice_claim amount a of
                (Inl e, a') \<Rightarrow> (NotReserved (ReserveClaim e), Some a', sk)
              | (Inr (Some sl), a') \<Rightarrow> (Reserved (HoldClaim sl), Some a', sk)
              | (Inr None, a') \<Rightarrow>
                  (case acc_owner a' of
                     Some ow \<Rightarrow>
                       let (out, sk') = acquire_inner now (Some ow) amount sk
                       in (reserve_acquired out, Some a', sk')
                   | None \<Rightarrow> anonymous)))"

section \<open>A file's account in use\<close>

text \<open>
  The account and the slices out on loan. The claim is set, released, and sliced in any
  order; a slice is returned when the VM that borrowed it goes away, also after the claim
  itself was released. \<open>slice\<close> adds with saturation, so its comparison is exact for
  claims below the largest amount of the type: those are the claims of the steps.
\<close>

record claim_sys =
  cs_account :: account
  cs_pool :: pool_state
  cs_slices :: "resource_amount list"

inductive claim_step :: "claim_sys \<Rightarrow> claim_sys \<Rightarrow> bool" where
  step_mark:
    "mark_claim_taken (cs_account c) = (ok, a) \<Longrightarrow> claim_step c (c\<lparr>cs_account := a\<rparr>)"
| step_set:
    "mem_n amount < 2 ^ 64 - 1 \<Longrightarrow> cpu_n amount < 2 ^ 32 - 1 \<Longrightarrow>
     set_claim r amount (cs_account c, cs_pool c) = (ok, a, p) \<Longrightarrow>
     claim_step c (c\<lparr>cs_account := a, cs_pool := p\<rparr>)"
| step_release_claim:
    "release_claim (cs_account c, cs_pool c) = (tot, a, p) \<Longrightarrow>
     claim_step c (c\<lparr>cs_account := a, cs_pool := p\<rparr>)"
| step_slice:
    "slice_claim amount (cs_account c) = (Inr (Some sl), a) \<Longrightarrow>
     claim_step c (c\<lparr>cs_account := a, cs_slices := sl # cs_slices c\<rparr>)"
| step_return:
    "sl \<in> set (cs_slices c) \<Longrightarrow>
     claim_step c (c\<lparr>cs_account := return_slice sl (cs_account c), cs_slices := remove1 sl (cs_slices c)\<rparr>)"

definition slices_mem :: "resource_amount list \<Rightarrow> nat" where
  "slices_mem xs = (\<Sum>a\<leftarrow>xs. mem_n a)"

definition slices_cpu :: "resource_amount list \<Rightarrow> nat" where
  "slices_cpu xs = (\<Sum>a\<leftarrow>xs. cpu_n a)"

definition claim_inv :: "claim_sys \<Rightarrow> bool" where
  "claim_inv c \<longleftrightarrow>
     (\<not> claim_taken (cs_account c) \<longrightarrow> ac_budget (acc_claim (cs_account c)) = None \<and> cs_slices c = [])
   \<and> (\<forall>b. ac_budget (acc_claim (cs_account c)) = Some b \<longrightarrow>
        mem_n (cb_used b) = slices_mem (cs_slices c) \<and> cpu_n (cb_used b) = slices_cpu (cs_slices c)
      \<and> fits_in (cb_used b) (cb_total b)
      \<and> mem_n (cb_total b) < 2 ^ 64 - 1 \<and> cpu_n (cb_total b) < 2 ^ 32 - 1)"

section \<open>The invariant of a claim\<close>

lemma slices_Cons [simp]:
  "slices_mem (a # xs) = mem_n a + slices_mem xs" "slices_cpu (a # xs) = cpu_n a + slices_cpu xs"
  "slices_mem [] = 0" "slices_cpu [] = 0"
  by (simp_all add: slices_mem_def slices_cpu_def)

lemma slices_remove1:
  assumes "a \<in> set xs"
  shows "slices_mem (remove1 a xs) + mem_n a = slices_mem xs" "slices_cpu (remove1 a xs) + cpu_n a = slices_cpu xs"
  using assms by (induction xs) auto

abbreviation budget_of :: "claim_sys \<Rightarrow> claim_budget option" where
  "budget_of c \<equiv> ac_budget (acc_claim (cs_account c))"

lemma claim_invI:
  assumes "\<not> claim_taken (cs_account c) \<Longrightarrow> budget_of c = None \<and> cs_slices c = []"
    and "\<And>b. budget_of c = Some b \<Longrightarrow>
        mem_n (cb_used b) = slices_mem (cs_slices c) \<and> cpu_n (cb_used b) = slices_cpu (cs_slices c)
      \<and> fits_in (cb_used b) (cb_total b)
      \<and> mem_n (cb_total b) < 2 ^ 64 - 1 \<and> cpu_n (cb_total b) < 2 ^ 32 - 1"
  shows "claim_inv c"
  using assms unfolding claim_inv_def by blast

lemma claim_invD:
  assumes "claim_inv c" and "budget_of c = Some b"
  shows "mem_n (cb_used b) = slices_mem (cs_slices c)" "cpu_n (cb_used b) = slices_cpu (cs_slices c)"
    "fits_in (cb_used b) (cb_total b)" "mem_n (cb_total b) < 2 ^ 64 - 1" "cpu_n (cb_total b) < 2 ^ 32 - 1"
    "claim_taken (cs_account c)"
  using assms unfolding claim_inv_def by auto

lemma claim_inv_untaken:
  "claim_inv c \<Longrightarrow> \<not> claim_taken (cs_account c) \<Longrightarrow> budget_of c = None \<and> cs_slices c = []"
  by (simp add: claim_inv_def)

lemma sum_fits:
  assumes "fits_in (ra_saturating_add a b) c" and "mem_n c < 2 ^ 64 - 1" and "cpu_n c < 2 ^ 32 - 1"
  shows "mem_n (ra_saturating_add a b) = mem_n a + mem_n b" "cpu_n (ra_saturating_add a b) = cpu_n a + cpu_n b"
  using assms by (auto simp: fits_in_nat mem_n_add cpu_n_add min_def split: if_splits)

lemma slice_claim_granted:
  assumes "slice_claim amount a = (Inr (Some sl), a')"
  obtains b where "ac_budget (acc_claim a) = Some b"
    and "fits_in (ra_saturating_add (cb_used b) amount) (cb_total b)"
    and "a' = a\<lparr>acc_claim := (acc_claim a)\<lparr>ac_budget :=
        Some (b\<lparr>cb_used := ra_saturating_add (cb_used b) amount\<rparr>)\<rparr>\<rparr>" and "sl = amount"
proof (cases "ac_budget (acc_claim a)")
  case None
  with assms show thesis by (simp add: slice_claim_def)
next
  case (Some b)
  with assms show thesis
    by (cases "fits_in (ra_saturating_add (cb_used b) amount) (cb_total b)")
       (auto simp: slice_claim_def Let_def intro: that)
qed

lemma claim_step_inv: "claim_step c d \<Longrightarrow> claim_inv c \<Longrightarrow> claim_inv d"
proof (induction rule: claim_step.induct)
  case (step_mark c ok a)
  then show ?case
    by (intro claim_invI)
       (auto simp: mark_claim_taken_def claim_taken_def dest: claim_invD claim_inv_untaken split: if_splits)
next
  case (step_set amount r c ok a p)
  show ?case
  proof (cases "claim_taken (cs_account c)")
    case True
    with step_set have "a = cs_account c" by (simp add: set_claim_def claim_taken_def Let_def)
    with step_set show ?thesis by (simp add: claim_inv_def)
  next
    case False
    with step_set have "cs_slices c = []" by (blast dest: claim_inv_untaken)
    with False step_set show ?thesis
      by (intro claim_invI) (auto simp: set_claim_def claim_taken_def Let_def fits_in_nat)
  qed
next
  case (step_release_claim c tot a p)
  then show ?case
  proof (cases "budget_of c")
    case None
    with step_release_claim have "a = cs_account c" by (simp add: release_claim_def Let_def)
    with step_release_claim show ?thesis by (simp add: claim_inv_def)
  next
    case (Some b)
    with step_release_claim claim_invD(6) [OF step_release_claim.prems Some] show ?thesis
      by (intro claim_invI) (auto simp: release_claim_def claim_taken_def Let_def)
  qed
next
  case (step_slice amount c sl a)
  from slice_claim_granted [OF step_slice.hyps] obtain b where b: "budget_of c = Some b"
    and fit: "fits_in (ra_saturating_add (cb_used b) amount) (cb_total b)"
    and a: "a = (cs_account c)\<lparr>acc_claim := (acc_claim (cs_account c))\<lparr>ac_budget :=
        Some (b\<lparr>cb_used := ra_saturating_add (cb_used b) amount\<rparr>)\<rparr>\<rparr>" and sl: "sl = amount"
    by blast
  note inv = claim_invD [OF step_slice.prems b]
  note sums = sum_fits [OF fit inv(4,5)]
  let ?b = "b\<lparr>cb_used := ra_saturating_add (cb_used b) amount\<rparr>"
  have new: "ac_budget (acc_claim a) = Some ?b" "claim_taken a"
    using a inv(6) by (simp_all add: claim_taken_def)
  show ?case
  proof (rule claim_invI, goal_cases)
    case 1 then show ?case using new by simp
  next
    case (2 b')
    then have "b' = ?b" using new by simp
    then show ?case using fit inv(1,2,4,5) sums by (simp add: sl)
  qed
next
  case (step_return sl c)
  show ?case
  proof (cases "budget_of c")
    case None
    then have "claim_taken (cs_account c)" using step_return claim_inv_untaken by fastforce
    with None show ?thesis by (intro claim_invI) (auto simp: return_slice_def)
  next
    case (Some b)
    note inv = claim_invD [OF step_return.prems Some]
    show ?thesis
      using inv slices_remove1 [OF step_return.hyps] Some
      by (intro claim_invI) (auto simp: return_slice_def claim_taken_def res_simps)
  qed
qed

interpretation claims: step_invariant claim_step claim_inv
  by unfold_locales (rule claim_step_inv)

definition claim_init :: "account \<Rightarrow> pool_state \<Rightarrow> claim_sys" where
  "claim_init a p = \<lparr>cs_account = a, cs_pool = p, cs_slices = []\<rparr>"

lemma claim_init_inv: "account_new pool = (a, pool') \<Longrightarrow> claim_inv (claim_init a p)"
  by (auto simp: account_new_def claim_init_def claim_inv_def claim_taken_def Let_def
      split: option.splits prod.splits)

lemma claim_step_taken: "claim_step c d \<Longrightarrow> claim_taken (cs_account c) \<Longrightarrow> claim_taken (cs_account d)"
  by (induction rule: claim_step.induct)
     (auto simp: mark_claim_taken_def set_claim_def release_claim_def slice_claim_def return_slice_def
       claim_taken_def Let_def split: if_splits option.splits)

interpretation taken: step_invariant claim_step "\<lambda>c. claim_taken (cs_account c)"
  by unfold_locales (rule claim_step_taken)

text \<open>A file that claims four of each and lends one of each to a VM.\<close>

definition demo_claim :: "resource_amount \<Rightarrow> resource_amount list \<Rightarrow> claim_sys" where
  "demo_claim used sls =
     \<lparr>cs_account = \<lparr>acc_owner = None, acc_claim = \<lparr>ac_taken = True,
        ac_budget = Some \<lparr>cb_reservation = \<lparr>res_amount = amt 4 4, res_owner = None\<rparr>,
          cb_total = amt 4 4, cb_used = used\<rparr>\<rparr>\<rparr>,
      cs_pool = pool_new (amt 4 4), cs_slices = sls\<rparr>"

definition demo_account :: account where
  "demo_account = \<lparr>acc_owner = None, acc_claim = \<lparr>ac_taken = False, ac_budget = None\<rparr>\<rparr>"

lemma demo_account_new: "account_new None = (demo_account, None)"
  by (simp add: account_new_def demo_account_def)

lemma demo_claim_set:
  "claim_step (claim_init demo_account (pool_new (amt 4 4))) (demo_claim (amt 0 0) [])"
  using claim_step.step_set [of "amt 4 4" "\<lparr>res_amount = amt 4 4, res_owner = None\<rparr>"
      "claim_init demo_account (pool_new (amt 4 4))" True "cs_account (demo_claim (amt 0 0) [])" "pool_new (amt 4 4)"]
  by (simp add: claim_init_def demo_account_def demo_claim_def set_claim_def ra_default_def amt_def mem_n_def cpu_n_def)

lemma demo_claim_lent: "claim_step (demo_claim (amt 0 0) []) (demo_claim (amt 1 1) [amt 1 1])"
  using claim_step.step_slice [of "amt 1 1" "demo_claim (amt 0 0) []" "amt 1 1" "cs_account (demo_claim (amt 1 1) [])"]
  by (simp add: demo_claim_def slice_claim_def Let_def amt_def fits_in_def ra_saturating_add_def sat_add_def)

lemma demo_claim_reached:
  "reaches claim_step (claim_init demo_account (pool_new (amt 4 4))) (demo_claim (amt 1 1) [amt 1 1])"
  by (intro reaches_step [where step = claim_step, OF _ demo_claim_lent]
      reaches_step [where step = claim_step, OF _ demo_claim_set] reaches_refl)

lemma demo_claim_numbers: "claim (cs_account (demo_claim (amt 1 1) [amt 1 1])) = Some (amt 4 4, amt 1 1)"
  by (simp add: demo_claim_def claim_def)

section \<open>Properties\<close>

text \<open>
  C29: Whatever a file does with its account, while the claim is held the amounts lent to
  its VMs add up to what the claim records as used, and never exceed the claim.
\<close>

theorem slices_within_claim:
  assumes "account_new pool = (a, pool')" and "reaches claim_step (claim_init a p) c"
    and "claim (cs_account c) = Some (tot, used)"
  shows "mem_n used = slices_mem (cs_slices c) \<and> cpu_n used = slices_cpu (cs_slices c)
       \<and> slices_mem (cs_slices c) \<le> mem_n tot \<and> slices_cpu (cs_slices c) \<le> cpu_n tot"
proof -
  have "claim_inv c" using assms(2) claim_init_inv [OF assms(1)] by (rule claims.reaches_keeps)
  moreover obtain b where "budget_of c = Some b" "cb_total b = tot" "cb_used b = used"
    using assms(3) by (auto simp: claim_def)
  ultimately show ?thesis using claim_invD [of c b] by (simp add: fits_in_nat)
qed

theorem slices_within_claim_witness:
  "mem_n (amt 1 1) = slices_mem (cs_slices (demo_claim (amt 1 1) [amt 1 1]))"
  using slices_within_claim [OF demo_account_new demo_claim_reached demo_claim_numbers] by (elim conjE)

text \<open>
  A claim is made once per file. After the first \<open>set_claim\<close> or \<open>mark_claim_taken\<close>, in
  every later state, released or not, a further claim is refused, leaves the account as it
  is, and gives its reservation back to the pool.
\<close>

theorem claim_once:
  assumes "reaches claim_step c d" and "claim_taken (cs_account c)"
  shows "set_claim r amount (cs_account d, p) = (False, cs_account d, drop_reservation r p)
       \<and> mark_claim_taken (cs_account d) = (False, cs_account d)"
  using taken.reaches_keeps [OF assms] by (simp add: set_claim_def mark_claim_taken_def claim_taken_def Let_def)

theorem claim_once_witness:
  "fst (set_claim \<lparr>res_amount = amt 2 2, res_owner = None\<rparr> (amt 2 2) (cs_account (demo_claim (amt 1 1) [amt 1 1]), pool_new (amt 4 4))) = False"
proof -
  have "claim_taken (cs_account (demo_claim (amt 0 0) []))" by (simp add: claim_taken_def demo_claim_def)
  moreover have "reaches claim_step (demo_claim (amt 0 0) []) (demo_claim (amt 1 1) [amt 1 1])"
    using reaches_refl demo_claim_lent by (rule reaches_step)
  ultimately show ?thesis using claim_once by simp
qed

text \<open>
  A boot in a file that holds a claim never waits and never touches the pool. It is
  lent exactly what it asked for when that fits in what the claim has left, and is refused
  with the claim's numbers, nothing changed, when it does not.
\<close>

theorem claimed_boot_never_waits:
  assumes "claim_inv c" and "claim (cs_account c) = Some (tot, used)"
  shows "reserve now (Some (cs_account c)) amount (p, sink) =
     (if mem_n used + mem_n amount \<le> mem_n tot \<and> cpu_n used + cpu_n amount \<le> cpu_n tot
      then (Reserved (HoldClaim amount), Some (snd (slice_claim amount (cs_account c))), p, sink)
      else (NotReserved (ReserveClaim \<lparr>ce_requested = amount, ce_claimed = tot, ce_in_use = used\<rparr>),
            Some (cs_account c), p, sink))"
proof -
  obtain b where b: "budget_of c = Some b" "cb_total b = tot" "cb_used b = used"
    using assms(2) by (auto simp: claim_def)
  note inv = claim_invD [OF assms(1) b(1)]
  have "fits_in (ra_saturating_add used amount) tot \<longleftrightarrow>
      mem_n used + mem_n amount \<le> mem_n tot \<and> cpu_n used + cpu_n amount \<le> cpu_n tot"
    using inv(4,5) b by (auto simp: res_simps min_def)
  with b show ?thesis by (simp add: reserve_def slice_claim_def Let_def)
qed

theorem claimed_boot_never_waits_witness:
  "fst (reserve 0 (Some (cs_account (demo_claim (amt 1 1) [amt 1 1]))) (amt 3 3) (pool_new (amt 4 4), None))
     = Reserved (HoldClaim (amt 3 3))"
proof -
  have "claim_inv (demo_claim (amt 1 1) [amt 1 1])"
    by (rule claims.reaches_keeps [OF demo_claim_reached claim_init_inv [OF demo_account_new]])
  from claimed_boot_never_waits [OF this demo_claim_numbers, of 0 "amt 3 3" "pool_new (amt 4 4)" None]
  show ?thesis by (simp add: amt_def mem_n_def cpu_n_def)
qed

end
