(* ===== verification/Nbd_Disk.thy ===== *)
theory Nbd_Disk
  imports Provium_Prelude
begin

text \<open>
  The mediated disk of \<open>provium-host/src/nbd.rs\<close>: the backing image, the overlay of
  sectors written since the last flush, and the operations \<open>read\<close>, \<open>write\<close>, \<open>flush\<close> of
  \<open>DiskState\<close> and \<open>power_cut\<close> of \<open>MediatedDisk\<close>.

  The image is a byte string with a schedule of faults: every positioned read, write or
  sync of the host file takes the next entry, \<open>Some k\<close> makes it fail (a write then after
  \<open>k\<close> bytes), \<open>None\<close> or an exhausted schedule lets it succeed. Offsets are \<open>u64\<close> on the
  wire; once \<open>checked_add\<close> and the comparison with the size have passed, every sum of
  the sources is below the size of a file plus a sector, and the model computes it in
  the naturals.
\<close>

section \<open>The host file\<close>

record vfile =
  vf_bytes :: bytes
  vf_faults :: "nat option list"

definition next_fault :: "vfile \<Rightarrow> nat option \<times> vfile" where
  "next_fault f = (case vf_faults f of [] \<Rightarrow> (None, f) | x # xs \<Rightarrow> (x, f\<lparr>vf_faults := xs\<rparr>))"

definition read_exact_at :: "nat \<Rightarrow> nat \<Rightarrow> vfile \<Rightarrow> (io_error + bytes) \<times> vfile" where
  "read_exact_at len off f =
     (case next_fault f of
        (Some k, f') \<Rightarrow> (Inl HostIo, f')
      | (None, f') \<Rightarrow>
          if off + len \<le> length (vf_bytes f') then (Inr (slice off (off + len) (vf_bytes f')), f')
          else (Inl UnexpectedEof, f'))"

definition file_put :: "nat \<Rightarrow> bytes \<Rightarrow> bytes \<Rightarrow> bytes" where
  "file_put off data bs =
     (if data = [] then bs
      else splice_at off data (bs @ replicate (off + length data - length bs) 0))"

definition write_all_at :: "bytes \<Rightarrow> nat \<Rightarrow> vfile \<Rightarrow> (io_error + unit) \<times> vfile" where
  "write_all_at data off f =
     (case next_fault f of
        (Some k, f') \<Rightarrow> (Inl HostIo, f'\<lparr>vf_bytes := file_put off (take k data) (vf_bytes f')\<rparr>)
      | (None, f') \<Rightarrow> (Inr (), f'\<lparr>vf_bytes := file_put off data (vf_bytes f')\<rparr>))"

definition sync_data :: "vfile \<Rightarrow> (io_error + unit) \<times> vfile" where
  "sync_data f =
     (case next_fault f of (Some k, f') \<Rightarrow> (Inl HostIo, f') | (None, f') \<Rightarrow> (Inr (), f'))"

section \<open>The disk\<close>

definition SECTOR :: nat where
  "SECTOR = 512"

definition OVERLAY_CAP_BYTES :: nat where
  "OVERLAY_CAP_BYTES = 64 * 1024 * 1024"

text \<open>The overlay, a \<open>BTreeMap\<close>, is an association list with ascending keys.\<close>

record disk_state =
  ds_file :: vfile
  ds_size :: nat
  ds_overlay :: "(nat \<times> bytes) list"
  ds_flushes :: u64

fun bt_insert :: "nat \<Rightarrow> 'v \<Rightarrow> (nat \<times> 'v) list \<Rightarrow> (nat \<times> 'v) list" where
  "bt_insert k v [] = [(k, v)]"
| "bt_insert k v ((k', v') # xs) =
     (if k < k' then (k, v) # (k', v') # xs
      else if k = k' then (k, v) # xs
      else (k', v') # bt_insert k v xs)"

text \<open>The sectors \<open>offset / SECTOR ..= (end - 1) / SECTOR\<close>.\<close>

definition sectors :: "nat \<Rightarrow> nat \<Rightarrow> nat list" where
  "sectors off end' = [off div SECTOR ..< (end' - 1) div SECTOR + 1]"

fun read_overlay :: "(nat \<times> bytes) list \<Rightarrow> nat \<Rightarrow> nat \<Rightarrow> nat list \<Rightarrow> bytes \<Rightarrow> bytes" where
  "read_overlay overlay off end' [] buf = buf"
| "read_overlay overlay off end' (sector # rest) buf =
     (case map_of overlay sector of
        None \<Rightarrow> read_overlay overlay off end' rest buf
      | Some held \<Rightarrow>
          let sector_start = sector * SECTOR;
              from = max off sector_start;
              to = min end' (sector_start + SECTOR)
          in read_overlay overlay off end' rest
               (splice_at (from - off) (slice (from - sector_start) (to - sector_start) held) buf))"

definition disk_read :: "u64 \<Rightarrow> nat \<Rightarrow> disk_state \<Rightarrow> (io_error + bytes) \<times> disk_state" where
  "disk_read offset len d =
     (if len = 0 then (Inr [], d)
      else let off = unat offset; end' = off + len
           in if 2 ^ 64 \<le> end' then (Inl InvalidInput, d)
              else if ds_size d < end' then (Inl InvalidInput, d)
              else case read_exact_at len off (ds_file d) of
                     (Inl e, f) \<Rightarrow> (Inl e, d\<lparr>ds_file := f\<rparr>)
                   | (Inr buf, f) \<Rightarrow>
                       (Inr (read_overlay (ds_overlay d) off end' (sectors off end') buf), d\<lparr>ds_file := f\<rparr>))"

fun commit_all :: "(nat \<times> bytes) list \<Rightarrow> vfile \<Rightarrow> (io_error + unit) \<times> vfile" where
  "commit_all [] f = (Inr (), f)"
| "commit_all ((sector, data) # rest) f =
     (case write_all_at data (sector * SECTOR) f of
        (Inl e, f') \<Rightarrow> (Inl e, f')
      | (Inr _, f') \<Rightarrow> commit_all rest f')"

definition disk_flush :: "disk_state \<Rightarrow> (io_error + unit) \<times> disk_state" where
  "disk_flush d =
     (let d1 = d\<lparr>ds_overlay := []\<rparr>
      in case commit_all (ds_overlay d) (ds_file d) of
           (Inl e, f) \<Rightarrow> (Inl e, d1\<lparr>ds_file := f\<rparr>)
         | (Inr _, f) \<Rightarrow>
             (case sync_data f of
                (Inl e, f') \<Rightarrow> (Inl e, d1\<lparr>ds_file := f'\<rparr>)
              | (Inr _, f') \<Rightarrow> (Inr (), d1\<lparr>ds_file := f', ds_flushes := ds_flushes d + 1\<rparr>)))"

definition held_sector :: "nat \<Rightarrow> disk_state \<Rightarrow> (io_error + bytes) \<times> disk_state" where
  "held_sector sector d =
     (case map_of (ds_overlay d) sector of
        Some held \<Rightarrow> (Inr held, d)
      | None \<Rightarrow>
          (case read_exact_at SECTOR (sector * SECTOR) (ds_file d) of
             (Inl e, f) \<Rightarrow> (Inl e, d\<lparr>ds_file := f\<rparr>)
           | (Inr base, f) \<Rightarrow>
               (Inr base, d\<lparr>ds_file := f, ds_overlay := bt_insert sector base (ds_overlay d)\<rparr>)))"

fun write_sectors :: "nat \<Rightarrow> nat \<Rightarrow> bytes \<Rightarrow> nat list \<Rightarrow> disk_state \<Rightarrow> (io_error + unit) \<times> disk_state" where
  "write_sectors off end' data [] d = (Inr (), d)"
| "write_sectors off end' data (sector # rest) d =
     (case held_sector sector d of
        (Inl e, d') \<Rightarrow> (Inl e, d')
      | (Inr held, d') \<Rightarrow>
          let sector_start = sector * SECTOR;
              from = max off sector_start;
              to = min end' (sector_start + SECTOR);
              held' = splice_at (from - sector_start) (slice (from - off) (to - off) data) held
          in write_sectors off end' data rest
               (d'\<lparr>ds_overlay := bt_insert sector held' (ds_overlay d')\<rparr>))"

definition disk_write :: "u64 \<Rightarrow> bytes \<Rightarrow> disk_state \<Rightarrow> (io_error + unit) \<times> disk_state" where
  "disk_write offset data d =
     (if data = [] then (Inr (), d)
      else let off = unat offset; end' = off + length data
           in if 2 ^ 64 \<le> end' then (Inl InvalidInput, d)
              else if ds_size d < end' then (Inl InvalidInput, d)
              else case write_sectors off end' data (sectors off end') d of
                     (Inl e, d') \<Rightarrow> (Inl e, d')
                   | (Inr _, d') \<Rightarrow>
                       if OVERLAY_CAP_BYTES < length (ds_overlay d') * SECTOR then disk_flush d'
                       else (Inr (), d'))"

definition power_cut :: "disk_state \<Rightarrow> disk_state" where
  "power_cut d = d\<lparr>ds_overlay := []\<rparr>"

definition disk_start :: "vfile \<Rightarrow> disk_state" where
  "disk_start f = \<lparr>ds_file = f, ds_size = length (vf_bytes f), ds_overlay = [], ds_flushes = 0\<rparr>"

definition unflushed_sectors :: "disk_state \<Rightarrow> nat" where
  "unflushed_sectors d = length (ds_overlay d)"

section \<open>What the disk holds\<close>

definition view_at :: "disk_state \<Rightarrow> nat \<Rightarrow> u8" where
  "view_at d i =
     (case map_of (ds_overlay d) (i div SECTOR) of
        Some held \<Rightarrow> held ! (i mod SECTOR)
      | None \<Rightarrow> vf_bytes (ds_file d) ! i)"

definition view :: "disk_state \<Rightarrow> bytes" where
  "view d = map (view_at d) [0 ..< ds_size d]"

definition durable :: "disk_state \<Rightarrow> bytes" where
  "durable d = vf_bytes (ds_file d)"

definition overlay_ok :: "nat \<Rightarrow> (nat \<times> bytes) list \<Rightarrow> bool" where
  "overlay_ok sz ov \<longleftrightarrow>
     sorted_wrt (<) (map fst ov)
   \<and> list_all (\<lambda>x. length (snd x) = SECTOR \<and> (fst x + 1) * SECTOR \<le> sz) ov"

definition disk_ok :: "disk_state \<Rightarrow> bool" where
  "disk_ok d \<longleftrightarrow>
     length (vf_bytes (ds_file d)) = ds_size d \<and> SECTOR dvd ds_size d \<and> ds_size d < 2 ^ 63
   \<and> overlay_ok (ds_size d) (ds_overlay d)"

text \<open>A host file that does not fail.\<close>

definition sound :: "disk_state \<Rightarrow> bool" where
  "sound d \<longleftrightarrow> vf_faults (ds_file d) = []"

section \<open>The ordered map\<close>

lemma map_of_bt_insert [simp]: "map_of (bt_insert k v xs) = (map_of xs)(k \<mapsto> v)"
  by (induction k v xs rule: bt_insert.induct) (auto simp: fun_eq_iff)

lemma keys_bt_insert [simp]: "fst ` set (bt_insert k v xs) = insert k (fst ` set xs)"
  by (induction k v xs rule: bt_insert.induct) auto

lemma set_bt_insert: "set (bt_insert k v xs) \<subseteq> insert (k, v) (set xs)"
  by (induction k v xs rule: bt_insert.induct) auto

lemma bt_insert_ascending:
  "sorted_wrt (<) (map fst xs) \<Longrightarrow> sorted_wrt (<) (map fst (bt_insert k v xs))"
proof (induction k v xs rule: bt_insert.induct)
  case (2 k v k' v' xs)
  then have rest: "\<forall>j \<in> fst ` set xs. k' < j" "sorted_wrt (<) (map fst xs)" by simp_all
  consider "k < k'" | "k = k'" | "k' < k" by linarith
  then show ?case
  proof cases
    case 1
    with rest show ?thesis by (auto intro: order.strict_trans)
  next
    case 2
    with rest show ?thesis by simp
  next
    case 3
    then have "\<forall>j \<in> fst ` set (bt_insert k v xs). k' < j" using rest by simp
    with 3 "2.IH" rest show ?thesis by simp
  qed
qed simp

lemma overlay_ok_insert:
  assumes "overlay_ok sz ov" and "length v = SECTOR" and "(k + 1) * SECTOR \<le> sz"
  shows "overlay_ok sz (bt_insert k v ov)"
proof -
  have all: "\<forall>x\<in>set ov. length (snd x) = SECTOR \<and> (fst x + 1) * SECTOR \<le> sz"
    using assms(1) by (simp add: overlay_ok_def list_all_iff)
  have "length (snd x) = SECTOR \<and> (fst x + 1) * SECTOR \<le> sz" if "x \<in> set (bt_insert k v ov)" for x
    using all that set_bt_insert [of k v ov] assms(2,3) by fastforce
  then show ?thesis
    using assms(1) bt_insert_ascending [of ov k v] unfolding overlay_ok_def list_all_iff by blast
qed

lemma overlay_ok_lookup:
  assumes "overlay_ok sz ov" and "map_of ov k = Some v"
  shows "length v = SECTOR" "(k + 1) * SECTOR \<le> sz"
proof -
  have "\<forall>x\<in>set ov. length (snd x) = SECTOR \<and> (fst x + 1) * SECTOR \<le> sz"
    using assms(1) by (simp add: overlay_ok_def list_all_iff)
  from bspec [OF this map_of_SomeD [OF assms(2)]]
  show "length v = SECTOR" "(k + 1) * SECTOR \<le> sz" by simp_all
qed

lemma overlay_ok_Nil [simp]: "overlay_ok sz []"
  by (simp add: overlay_ok_def)


section \<open>Sector arithmetic\<close>

lemma sector_iff: "i div SECTOR = s \<longleftrightarrow> s * SECTOR \<le> i \<and> i < s * SECTOR + SECTOR"
  unfolding SECTOR_def by linarith

lemma sector_offset: "i mod SECTOR = i - i div SECTOR * SECTOR"
  by (simp add: minus_div_mult_eq_mod)

lemma sectors_overlap:
  assumes "s \<in> set (sectors off end')" and "off < end'"
  shows "s * SECTOR < end'" "off < s * SECTOR + SECTOR"
  using assms unfolding sectors_def SECTOR_def by auto

lemma sectors_cover:
  assumes "off \<le> i" and "i < end'"
  shows "i div SECTOR \<in> set (sectors off end')"
proof -
  have "i div SECTOR \<le> (end' - 1) div SECTOR" using assms by (intro div_le_mono) simp
  moreover have "off div SECTOR \<le> i div SECTOR" using assms(1) by (rule div_le_mono)
  ultimately show ?thesis unfolding sectors_def by auto
qed

lemma sectors_within:
  assumes "s \<in> set (sectors off end')" and "off < end'" and "end' \<le> sz" and "SECTOR dvd sz"
  shows "(s + 1) * SECTOR \<le> sz"
proof -
  obtain n where n: "sz = SECTOR * n" using assms(4) by (rule dvdE)
  have "s * SECTOR < SECTOR * n" using sectors_overlap(1) [OF assms(1,2)] assms(3) unfolding n by linarith
  then have "s < n" unfolding SECTOR_def by linarith
  then have "s + 1 \<le> n" by simp
  then show ?thesis by (simp add: n SECTOR_def)
qed

section \<open>Reading\<close>

lemma read_overlay_step:
  assumes held: "length held = SECTOR" and k: "k < length buf" and end': "end' = off + length buf"
    and ov: "s * SECTOR < end'" "off < s * SECTOR + SECTOR"
  defines "from \<equiv> max off (s * SECTOR)" and "to \<equiv> min end' (s * SECTOR + SECTOR)"
  defines "buf' \<equiv> splice_at (from - off) (slice (from - s * SECTOR) (to - s * SECTOR) held) buf"
  shows "length buf' = length buf"
    and "buf' ! k = (if (off + k) div SECTOR = s then held ! ((off + k) mod SECTOR) else buf ! k)"
proof -
  have order: "from < to" "s * SECTOR \<le> from" "off \<le> from" "to \<le> end'" "to - s * SECTOR \<le> length held"
    using ov k end' held by (auto simp: from_def to_def SECTOR_def)
  then have len: "length (slice (from - s * SECTOR) (to - s * SECTOR) held) = to - from"
    by (simp add: length_slice)
  have fit: "from - off + (to - from) \<le> length buf" using order end' by simp
  show "length buf' = length buf" using fit len by (simp add: buf'_def length_splice_at)
  have "buf' ! k = (if from - off \<le> k \<and> k < from - off + (to - from)
      then slice (from - s * SECTOR) (to - s * SECTOR) held ! (k - (from - off)) else buf ! k)"
    using fit len k by (simp add: buf'_def nth_splice_at)
  moreover have "from - off \<le> k \<and> k < from - off + (to - from) \<longleftrightarrow> (off + k) div SECTOR = s"
    unfolding sector_iff using order k end' by (auto simp: from_def to_def)
  moreover have "slice (from - s * SECTOR) (to - s * SECTOR) held ! (k - (from - off)) = held ! ((off + k) mod SECTOR)"
    if "(off + k) div SECTOR = s"
  proof -
    from that have in_s: "s * SECTOR \<le> off + k" "off + k < s * SECTOR + SECTOR" unfolding sector_iff by simp_all
    then have "from - off \<le> k" "k - (from - off) < to - from"
      using order k end' by (auto simp: from_def to_def)
    then have "slice (from - s * SECTOR) (to - s * SECTOR) held ! (k - (from - off))
        = held ! (from - s * SECTOR + (k - (from - off)))"
      using order by (intro nth_slice) auto
    also have "from - s * SECTOR + (k - (from - off)) = off + k - s * SECTOR"
      using order \<open>from - off \<le> k\<close> by simp
    finally show ?thesis using that by (simp add: sector_offset)
  qed
  ultimately show "buf' ! k = (if (off + k) div SECTOR = s then held ! ((off + k) mod SECTOR) else buf ! k)"
    by simp
qed

lemma read_overlay_spec:
  assumes "overlay_ok sz ov" and "end' = off + length buf"
    and "\<And>s. s \<in> set ss \<Longrightarrow> s * SECTOR < end' \<and> off < s * SECTOR + SECTOR" and "k < length buf"
  shows "length (read_overlay ov off end' ss buf) = length buf \<and>
    read_overlay ov off end' ss buf ! k =
      (if (off + k) div SECTOR \<in> set ss
       then case map_of ov ((off + k) div SECTOR) of Some h \<Rightarrow> h ! ((off + k) mod SECTOR) | None \<Rightarrow> buf ! k
       else buf ! k)"
  using assms(2-4)
proof (induction ss arbitrary: buf)
  case Nil
  then show ?case by simp
next
  case (Cons s ss)
  show ?case
  proof (cases "map_of ov s")
    case None
    with Cons.IH [OF Cons.prems(1) Cons.prems(2) Cons.prems(3)] show ?thesis by auto
  next
    case (Some held)
    note st = read_overlay_step [OF overlay_ok_lookup(1) [OF assms(1) Some] Cons.prems(3,1)
        Cons.prems(2) [of s, THEN conjunct1] Cons.prems(2) [of s, THEN conjunct2]]
    let ?buf = "splice_at (max off (s * SECTOR) - off)
       (slice (max off (s * SECTOR) - s * SECTOR) (min end' (s * SECTOR + SECTOR) - s * SECTOR) held) buf"
    have len: "length ?buf = length buf" by (rule st) simp_all
    have nth: "?buf ! k = (if (off + k) div SECTOR = s then held ! ((off + k) mod SECTOR) else buf ! k)"
      by (rule st) simp_all
    have "read_overlay ov off end' (s # ss) buf = read_overlay ov off end' ss ?buf"
      using Some by (simp add: Let_def)
    then show ?thesis
      using Cons.IH [of ?buf] Cons.prems len nth Some by (auto split: option.split)
  qed
qed

lemma length_view [simp]: "length (view d) = ds_size d"
  by (simp add: view_def)

lemma nth_view [simp]: "i < ds_size d \<Longrightarrow> view d ! i = view_at d i"
  by (simp add: view_def)

lemma read_exact_sound:
  assumes "vf_faults f = []" and "off + len \<le> length (vf_bytes f)"
  shows "read_exact_at len off f = (Inr (slice off (off + len) (vf_bytes f)), f)"
  using assms by (simp add: read_exact_at_def next_fault_def)

lemma disk_read_in_range:
  assumes ok: "disk_ok d" "sound d" and "0 < len" and range: "unat offset + len \<le> ds_size d"
  shows "disk_read offset len d = (Inr (slice (unat offset) (unat offset + len) (view d)), d)"
proof -
  let ?off = "unat offset"
  let ?buf = "slice ?off (?off + len) (vf_bytes (ds_file d))"
  let ?r = "read_overlay (ds_overlay d) ?off (?off + len) (sectors ?off (?off + len)) ?buf"
  have sz: "length (vf_bytes (ds_file d)) = ds_size d" "ds_size d < 2 ^ 63" "overlay_ok (ds_size d) (ds_overlay d)"
    using ok by (simp_all add: disk_ok_def)
  then have len: "length ?buf = len" using range by (simp add: length_slice)
  have spec: "length ?r = len \<and> ?r ! k = view_at d (?off + k)" if k: "k < len" for k
  proof -
    have "?buf ! k = vf_bytes (ds_file d) ! (?off + k)" using k range sz by (simp add: nth_slice)
    moreover have "(?off + k) div SECTOR \<in> set (sectors ?off (?off + len))"
      using k by (intro sectors_cover) auto
    ultimately show ?thesis
      using read_overlay_spec [OF sz(3), of "?off + len" ?off ?buf "sectors ?off (?off + len)" k]
        sectors_overlap [of _ ?off "?off + len"] assms(3) len k
      by (simp add: view_at_def split: option.splits)
  qed
  have "?r = slice ?off (?off + len) (view d)"
    using spec assms(3) range by (intro nth_equalityI) (auto simp: length_slice nth_slice)
  moreover have "?off + len < 2 ^ 64" using range sz(2) by simp
  ultimately show ?thesis
    using assms(3) range read_exact_sound [of "ds_file d" ?off len] ok sz
    by (simp add: disk_read_def sound_def Let_def)
qed

section \<open>Writing\<close>

lemma disk_okD:
  assumes "disk_ok d"
  shows "length (vf_bytes (ds_file d)) = ds_size d" "SECTOR dvd ds_size d" "ds_size d < 2 ^ 63"
    "overlay_ok (ds_size d) (ds_overlay d)"
  using assms by (simp_all add: disk_ok_def)

lemma held_sector_spec:
  assumes ok: "disk_ok d" "sound d" and s: "(s + 1) * SECTOR \<le> ds_size d"
  obtains h ov where "held_sector s d = (Inr h, d\<lparr>ds_overlay := ov\<rparr>)" "length h = SECTOR"
    "overlay_ok (ds_size d) ov" "map_of ov = (map_of (ds_overlay d))(s \<mapsto> h)"
    "\<And>i. i div SECTOR = s \<Longrightarrow> h ! (i mod SECTOR) = view_at d i"
proof (cases "map_of (ds_overlay d) s")
  case (Some h)
  have "map_of (ds_overlay d) = (map_of (ds_overlay d))(s \<mapsto> h)" using Some by auto
  with Some ok show thesis
    by (intro that [of h "ds_overlay d"])
       (auto simp: held_sector_def view_at_def disk_okD overlay_ok_lookup [OF disk_okD(4) [OF ok(1)] Some])
next
  case None
  let ?h = "slice (s * SECTOR) (s * SECTOR + SECTOR) (vf_bytes (ds_file d))"
  have len: "length ?h = SECTOR" using s disk_okD(1) [OF ok(1)] by (simp add: length_slice)
  have nth: "?h ! (i mod SECTOR) = view_at d i" if "i div SECTOR = s" for i
  proof -
    have "s * SECTOR + i mod SECTOR = i" using that div_mult_mod_eq [of i SECTOR] by simp
    moreover have "i mod SECTOR < SECTOR" by (simp add: SECTOR_def)
    ultimately have "?h ! (i mod SECTOR) = vf_bytes (ds_file d) ! i"
      using s disk_okD(1) [OF ok(1)] by (simp add: nth_slice)
    then show ?thesis using None that by (simp add: view_at_def)
  qed
  have "held_sector s d = (Inr ?h, d\<lparr>ds_overlay := bt_insert s ?h (ds_overlay d)\<rparr>)"
    using None ok s disk_okD(1) [OF ok(1)] by (simp add: held_sector_def read_exact_sound sound_def)
  then show thesis
    by (rule that [OF _ len overlay_ok_insert [OF disk_okD(4) [OF ok(1)] len s]]) (simp_all add: nth)
qed

lemma write_piece:
  assumes held: "length held = SECTOR" and end': "end' = off + length data"
    and ov: "s * SECTOR < end'" "off < s * SECTOR + SECTOR" "data \<noteq> []"
  defines "from \<equiv> max off (s * SECTOR)" and "to \<equiv> min end' (s * SECTOR + SECTOR)"
  defines "held' \<equiv> splice_at (from - s * SECTOR) (slice (from - off) (to - off) data) held"
  shows "length held' = SECTOR"
    and "i div SECTOR = s \<Longrightarrow>
      held' ! (i mod SECTOR) = (if off \<le> i \<and> i < end' then data ! (i - off) else held ! (i mod SECTOR))"
proof -
  have order: "from < to" "s * SECTOR \<le> from" "off \<le> from" "to \<le> end'" "to \<le> s * SECTOR + SECTOR"
    using ov end' by (auto simp: from_def to_def SECTOR_def)
  then have len: "length (slice (from - off) (to - off) data) = to - from"
    using end' by (simp add: length_slice)
  have fit: "from - s * SECTOR + (to - from) \<le> length held" using order held by simp
  show "length held' = SECTOR" using fit len held by (simp add: held'_def length_splice_at)
  assume i: "i div SECTOR = s"
  then have in_s: "s * SECTOR \<le> i" "i < s * SECTOR + SECTOR" unfolding sector_iff by simp_all
  have off_i: "i mod SECTOR = i - s * SECTOR" using i by (simp add: sector_offset)
  have "held' ! (i - s * SECTOR) = (if from - s * SECTOR \<le> i - s * SECTOR
        \<and> i - s * SECTOR < from - s * SECTOR + (to - from)
      then slice (from - off) (to - off) data ! (i - s * SECTOR - (from - s * SECTOR)) else held ! (i - s * SECTOR))"
    using fit len in_s held unfolding held'_def by (simp add: nth_splice_at)
  moreover have "from - s * SECTOR \<le> i - s * SECTOR \<and> i - s * SECTOR < from - s * SECTOR + (to - from)
      \<longleftrightarrow> off \<le> i \<and> i < end'"
    using order in_s by (auto simp: from_def to_def)
  moreover have "slice (from - off) (to - off) data ! (i - s * SECTOR - (from - s * SECTOR)) = data ! (i - off)"
    if "off \<le> i" "i < end'"
  proof -
    have b: "from \<le> i" "i < to" using that in_s by (auto simp: from_def to_def)
    then have "slice (from - off) (to - off) data ! (i - s * SECTOR - (from - s * SECTOR))
        = data ! (from - off + (i - s * SECTOR - (from - s * SECTOR)))"
      using order end' by (intro nth_slice) auto
    also have "from - off + (i - s * SECTOR - (from - s * SECTOR)) = i - off"
      using b order by simp
    finally show ?thesis .
  qed
  ultimately show "held' ! (i mod SECTOR) = (if off \<le> i \<and> i < end' then data ! (i - off) else held ! (i mod SECTOR))"
    unfolding off_i by simp
qed

lemma view_at_insert:
  assumes "map_of ov = (map_of (ds_overlay d))(s \<mapsto> h)"
  shows "view_at (d\<lparr>ds_overlay := ov\<rparr>) i = (if i div SECTOR = s then h ! (i mod SECTOR) else view_at d i)"
  using assms by (simp add: view_at_def split: option.split)

lemma write_sectors_spec:
  assumes "disk_ok d" and "sound d" and "end' = off + length data" and "data \<noteq> []"
    and "\<And>s. s \<in> set ss \<Longrightarrow> s * SECTOR < end' \<and> off < s * SECTOR + SECTOR \<and> (s + 1) * SECTOR \<le> ds_size d"
  shows "\<exists>ov. write_sectors off end' data ss d = (Inr (), d\<lparr>ds_overlay := ov\<rparr>) \<and> overlay_ok (ds_size d) ov
    \<and> (\<forall>i. view_at (d\<lparr>ds_overlay := ov\<rparr>) i =
        (if i div SECTOR \<in> set ss \<and> off \<le> i \<and> i < end' then data ! (i - off) else view_at d i))"
  using assms(1,2,5)
proof (induction ss arbitrary: d)
  case Nil
  then show ?case by (intro exI [of _ "ds_overlay d"]) (simp add: disk_okD)
next
  case (Cons s ss)
  from Cons.prems(3) [of s] have s: "s * SECTOR < end'" "off < s * SECTOR + SECTOR" "(s + 1) * SECTOR \<le> ds_size d"
    by simp_all
  from held_sector_spec [OF Cons.prems(1,2) s(3)] obtain h ov where
    hs: "held_sector s d = (Inr h, d\<lparr>ds_overlay := ov\<rparr>)" and len: "length h = SECTOR"
    and ov: "overlay_ok (ds_size d) ov" "map_of ov = (map_of (ds_overlay d))(s \<mapsto> h)"
    and hv: "\<And>i. i div SECTOR = s \<Longrightarrow> h ! (i mod SECTOR) = view_at d i" by metis
  define h' where "h' = splice_at (max off (s * SECTOR) - s * SECTOR)
      (slice (max off (s * SECTOR) - off) (min end' (s * SECTOR + SECTOR) - off) data) h"
  note piece = write_piece [OF len assms(3) s(1,2) assms(4), folded h'_def]
  define d' where "d' = d\<lparr>ds_overlay := bt_insert s h' ov\<rparr>"
  have ok': "disk_ok d'" "sound d'"
    using Cons.prems(1,2) overlay_ok_insert [OF ov(1) piece(1) s(3)]
    by (simp_all add: d'_def disk_ok_def sound_def)
  have v': "view_at d' i = (if i div SECTOR = s \<and> off \<le> i \<and> i < end' then data ! (i - off) else view_at d i)" for i
    using view_at_insert [of "bt_insert s h' ov" d s h' i] piece(2) [of i] hv [of i]
    by (auto simp: d'_def ov(2))
  have "write_sectors off end' data (s # ss) d = write_sectors off end' data ss d'"
    by (simp add: hs Let_def h'_def [symmetric] d'_def)
  moreover from Cons.IH [OF ok'] Cons.prems(3) obtain ov' where
    "write_sectors off end' data ss d' = (Inr (), d'\<lparr>ds_overlay := ov'\<rparr>)" "overlay_ok (ds_size d) ov'"
    "\<And>i. view_at (d'\<lparr>ds_overlay := ov'\<rparr>) i =
        (if i div SECTOR \<in> set ss \<and> off \<le> i \<and> i < end' then data ! (i - off) else view_at d' i)"
    by (auto simp: d'_def)
  ultimately show ?case
    using v' by (intro exI [of _ ov']) (auto simp: d'_def)
qed

section \<open>Flushing\<close>

lemma file_put_within:
  assumes "off + length data \<le> length bs"
  shows "file_put off data bs = splice_at off data bs"
  using assms by (simp add: file_put_def splice_at_def)

lemma overlay_ok_Cons:
  assumes "overlay_ok sz ((s, h) # ov)"
  shows "overlay_ok sz ov" "length h = SECTOR" "(s + 1) * SECTOR \<le> sz" "map_of ov s = None"
  using assms by (auto simp: overlay_ok_def map_of_eq_None_iff image_iff)

lemma commit_all_spec:
  assumes "overlay_ok sz ov" and "length (vf_bytes f) = sz" and "vf_faults f = []"
  shows "\<exists>bs. commit_all ov f = (Inr (), f\<lparr>vf_bytes := bs\<rparr>) \<and> length bs = sz \<and>
     (\<forall>i < sz. bs ! i = (case map_of ov (i div SECTOR) of Some h \<Rightarrow> h ! (i mod SECTOR) | None \<Rightarrow> vf_bytes f ! i))"
  using assms
proof (induction ov arbitrary: f)
  case Nil
  then show ?case by (intro exI [of _ "vf_bytes f"]) simp
next
  case (Cons x ov)
  obtain s h where x: "x = (s, h)" by (cases x)
  note okc = overlay_ok_Cons [OF Cons.prems(1) [unfolded x]]
  define bs where "bs = splice_at (s * SECTOR) h (vf_bytes f)"
  have fit: "s * SECTOR + length h \<le> length (vf_bytes f)" using okc(2,3) Cons.prems(2) by simp
  have len: "length bs = sz" using fit Cons.prems(2) by (simp add: bs_def length_splice_at)
  have nth: "bs ! i = (if i div SECTOR = s then h ! (i mod SECTOR) else vf_bytes f ! i)" if "i < sz" for i
    using that Cons.prems(2) okc(2) sector_iff [of i s] sector_offset [of i]
    unfolding bs_def nth_splice_at [OF fit that [folded Cons.prems(2)]] by auto
  have "commit_all (x # ov) f = commit_all ov (f\<lparr>vf_bytes := bs\<rparr>)"
    using Cons.prems(3) fit by (simp add: x write_all_at_def next_fault_def bs_def file_put_within)
  moreover from Cons.IH [OF okc(1), of "f\<lparr>vf_bytes := bs\<rparr>"] len Cons.prems(3) obtain bs' where
    "commit_all ov (f\<lparr>vf_bytes := bs\<rparr>) = (Inr (), f\<lparr>vf_bytes := bs'\<rparr>)" "length bs' = sz"
    "\<And>i. i < sz \<Longrightarrow> bs' ! i = (case map_of ov (i div SECTOR) of Some h \<Rightarrow> h ! (i mod SECTOR) | None \<Rightarrow> bs ! i)"
    by (auto cong: option.case_cong)
  ultimately show ?case
    using nth okc(4) by (intro exI [of _ bs']) (auto simp: x split: option.split)
qed

lemma disk_flush_spec:
  assumes ok: "disk_ok d" "sound d"
  shows "disk_flush d = (Inr (), d\<lparr>ds_file := (ds_file d)\<lparr>vf_bytes := view d\<rparr>, ds_overlay := [],
      ds_flushes := ds_flushes d + 1\<rparr>)"
proof -
  from commit_all_spec [OF disk_okD(4,1) [OF ok(1)]] ok(2) obtain bs where
    c: "commit_all (ds_overlay d) (ds_file d) = (Inr (), (ds_file d)\<lparr>vf_bytes := bs\<rparr>)" "length bs = ds_size d"
    "\<And>i. i < ds_size d \<Longrightarrow> bs ! i = view_at d i"
    by (auto simp: sound_def view_at_def)
  have "bs = view d" using c(2,3) by (intro nth_equalityI) simp_all
  moreover have "\<And>a b c. d\<lparr>ds_overlay := a, ds_file := b, ds_flushes := c\<rparr>
      = d\<lparr>ds_file := b, ds_overlay := a, ds_flushes := c\<rparr>" by simp
  ultimately show ?thesis
    using c(1) ok(2) by (simp add: disk_flush_def sync_data_def next_fault_def sound_def)
qed

lemma view_flushed:
  assumes "length bs = ds_size d"
  shows "view (d\<lparr>ds_file := (ds_file d)\<lparr>vf_bytes := bs\<rparr>, ds_overlay := [], ds_flushes := n\<rparr>) = bs"
  using assms by (intro nth_equalityI) (simp_all add: view_at_def)

lemma disk_flush_ok:
  assumes ok: "disk_ok d" "sound d"
  shows "fst (disk_flush d) = Inr ()" "disk_ok (snd (disk_flush d))" "sound (snd (disk_flush d))"
    "view (snd (disk_flush d)) = view d" "durable (snd (disk_flush d)) = view d"
    "ds_size (snd (disk_flush d)) = ds_size d" "ds_overlay (snd (disk_flush d)) = []"
    "ds_flushes (snd (disk_flush d)) = ds_flushes d + 1"
  using disk_okD [OF ok(1)] ok(2)
  by (simp_all add: disk_flush_spec [OF ok] view_flushed durable_def disk_ok_def sound_def)

section \<open>A write as a whole\<close>

lemma length_bt_insert: "length (bt_insert k v xs) \<le> Suc (length xs)"
  by (induction k v xs rule: bt_insert.induct) auto

lemma disk_write_spec:
  assumes ok: "disk_ok d" "sound d" and ne: "data \<noteq> []" and range: "unat offset + length data \<le> ds_size d"
  obtains ov where "overlay_ok (ds_size d) ov" "view (d\<lparr>ds_overlay := ov\<rparr>) = splice_at (unat offset) data (view d)"
    "disk_write offset data d =
       (if OVERLAY_CAP_BYTES < length ov * SECTOR then disk_flush (d\<lparr>ds_overlay := ov\<rparr>)
        else (Inr (), d\<lparr>ds_overlay := ov\<rparr>))"
proof -
  let ?off = "unat offset" and ?fin = "unat offset + length data"
  have pos: "?off < ?fin" using ne by simp
  from write_sectors_spec [OF ok refl ne, of "sectors ?off ?fin" ?off]
    sectors_overlap [of _ ?off ?fin, OF _ pos] sectors_within [OF _ pos range disk_okD(2) [OF ok(1)]]
  obtain ov where w: "write_sectors ?off ?fin data (sectors ?off ?fin) d = (Inr (), d\<lparr>ds_overlay := ov\<rparr>)"
    "overlay_ok (ds_size d) ov"
    "\<And>i. view_at (d\<lparr>ds_overlay := ov\<rparr>) i =
      (if i div SECTOR \<in> set (sectors ?off ?fin) \<and> ?off \<le> i \<and> i < ?fin then data ! (i - ?off) else view_at d i)"
    by blast
  have v: "view_at (d\<lparr>ds_overlay := ov\<rparr>) i = (if ?off \<le> i \<and> i < ?fin then data ! (i - ?off) else view_at d i)" for i
    using w(3) [of i] sectors_cover [of ?off i ?fin] by auto
  have "view (d\<lparr>ds_overlay := ov\<rparr>) = splice_at ?off data (view d)"
    using range by (intro nth_equalityI) (simp_all add: length_splice_at nth_splice_at v)
  moreover have "\<not> 2 ^ 64 \<le> ?fin" using range disk_okD(3) [OF ok(1)] by simp
  ultimately show thesis
    using that w(1,2) ne range by (simp add: disk_write_def Let_def)
qed

end
