(* ===== verification/Nbd_Durability.thy ===== *)
theory Nbd_Durability
  imports Nbd_Disk
begin

text \<open>
  What the mediated disk promises. The specification is a pair of byte strings, what the
  guest reads and what survives a power cut; the disk of \<open>Nbd_Disk\<close> refines it operation
  by operation, whatever faults the host file has, as long as the operation is
  acknowledged. From it follow durability and the exactness of a power cut.
\<close>

section \<open>The specification\<close>

datatype disk_op = DoRead u64 nat | DoWrite u64 bytes | DoFlush | DoCut

datatype disk_res = ResData "io_error + bytes" | ResUnit "io_error + unit"

fun disk_do :: "disk_op \<Rightarrow> disk_state \<Rightarrow> disk_res \<times> disk_state" where
  "disk_do (DoRead off len) d = (let (r, d') = disk_read off len d in (ResData r, d'))"
| "disk_do (DoWrite off data) d = (let (r, d') = disk_write off data d in (ResUnit r, d'))"
| "disk_do DoFlush d = (let (r, d') = disk_flush d in (ResUnit r, d'))"
| "disk_do DoCut d = (ResUnit (Inr ()), power_cut d)"

fun disk_run :: "disk_op list \<Rightarrow> disk_state \<Rightarrow> disk_res list \<times> disk_state" where
  "disk_run [] d = ([], d)"
| "disk_run (op # ops) d =
     (let (r, d1) = disk_do op d; (rs, d2) = disk_run ops d1 in (r # rs, d2))"

fun acknowledged :: "disk_res \<Rightarrow> bool" where
  "acknowledged (ResData (Inr _)) = True"
| "acknowledged (ResUnit (Inr _)) = True"
| "acknowledged _ = False"

text \<open>
  \<open>(c, s)\<close>: the current content and the one that survives. A write may be made durable
  early (a cache under pressure), never late.
\<close>

inductive spec_do :: "disk_op \<Rightarrow> bytes \<times> bytes \<Rightarrow> disk_res \<Rightarrow> bytes \<times> bytes \<Rightarrow> bool" where
  spec_read: "len = 0 \<or> unat off + len \<le> length c \<Longrightarrow>
    spec_do (DoRead off len) (c, s) (ResData (Inr (slice (unat off) (unat off + len) c))) (c, s)"
| spec_read_range: "0 < len \<Longrightarrow> length c < unat off + len \<Longrightarrow>
    spec_do (DoRead off len) (c, s) (ResData (Inl InvalidInput)) (c, s)"
| spec_write: "unat off + length data \<le> length c \<or> data = [] \<Longrightarrow> c' = splice_at (unat off) data c \<Longrightarrow>
    s' = s \<or> s' = c' \<Longrightarrow> spec_do (DoWrite off data) (c, s) (ResUnit (Inr ())) (c', s')"
| spec_write_range: "data \<noteq> [] \<Longrightarrow> length c < unat off + length data \<Longrightarrow>
    spec_do (DoWrite off data) (c, s) (ResUnit (Inl InvalidInput)) (c, s)"
| spec_flush: "spec_do DoFlush (c, s) (ResUnit (Inr ())) (c, c)"
| spec_cut: "spec_do DoCut (c, s) (ResUnit (Inr ())) (s, s)"

inductive spec_run :: "disk_op list \<Rightarrow> bytes \<times> bytes \<Rightarrow> disk_res list \<Rightarrow> bytes \<times> bytes \<Rightarrow> bool" where
  spec_run_Nil: "spec_run [] x [] x"
| spec_run_Cons: "spec_do op x r y \<Longrightarrow> spec_run ops y rs z \<Longrightarrow> spec_run (op # ops) x (r # rs) z"

definition contents :: "disk_state \<Rightarrow> bytes \<times> bytes" where
  "contents d = (view d, durable d)"

section \<open>An acknowledged operation is one without faults\<close>

definition clean_file :: "vfile \<Rightarrow> vfile" where
  "clean_file f = f\<lparr>vf_faults := []\<rparr>"

definition clean :: "disk_state \<Rightarrow> disk_state" where
  "clean d = d\<lparr>ds_file := clean_file (ds_file d)\<rparr>"

lemma clean_simps [simp]:
  "vf_bytes (clean_file f) = vf_bytes f" "vf_faults (clean_file f) = []"
  "ds_overlay (clean d) = ds_overlay d" "ds_size (clean d) = ds_size d" "ds_flushes (clean d) = ds_flushes d"
  "ds_file (clean d) = clean_file (ds_file d)" "sound (clean d)"
  "view (clean d) = view d" "durable (clean d) = durable d" "disk_ok (clean d) = disk_ok d"
  by (simp_all add: clean_def clean_file_def sound_def view_def view_at_def durable_def disk_ok_def
      cong: option.case_cong)

lemma clean_update [simp]:
  "clean (d\<lparr>ds_overlay := ov\<rparr>) = (clean d)\<lparr>ds_overlay := ov\<rparr>"
  "clean (d\<lparr>ds_file := f\<rparr>) = (clean d)\<lparr>ds_file := clean_file f\<rparr>"
  "clean (d\<lparr>ds_flushes := n\<rparr>) = (clean d)\<lparr>ds_flushes := n\<rparr>"
  "clean_file (f\<lparr>vf_bytes := bs\<rparr>) = (clean_file f)\<lparr>vf_bytes := bs\<rparr>"
  by (simp_all add: clean_def clean_file_def)

lemma next_fault_clean [simp]: "next_fault (clean_file f) = (None, clean_file f)"
  by (simp add: next_fault_def)

lemma next_fault_bytes:
  assumes "next_fault f = (x, f')"
  shows "vf_bytes f' = vf_bytes f" "clean_file f' = clean_file f"
  using assms by (auto simp: next_fault_def clean_file_def split: list.splits)

text \<open>Each operation that succeeds does the same on the file without its faults.\<close>

lemma read_exact_clean [simp]:
  "\<not> isl (fst (read_exact_at len off f)) \<Longrightarrow>
     read_exact_at len off (clean_file f) = apsnd clean_file (read_exact_at len off f)"
  by (cases "next_fault f") (auto simp: read_exact_at_def next_fault_bytes split: option.splits)

lemma write_all_clean [simp]:
  "\<not> isl (fst (write_all_at data off f)) \<Longrightarrow>
     write_all_at data off (clean_file f) = apsnd clean_file (write_all_at data off f)"
  by (cases "next_fault f") (auto simp: write_all_at_def next_fault_bytes split: option.splits)

lemma sync_clean [simp]:
  "\<not> isl (fst (sync_data f)) \<Longrightarrow> sync_data (clean_file f) = apsnd clean_file (sync_data f)"
  by (cases "next_fault f") (auto simp: sync_data_def next_fault_bytes split: option.splits)

lemma commit_all_clean [simp]:
  "\<not> isl (fst (commit_all ov f)) \<Longrightarrow> commit_all ov (clean_file f) = apsnd clean_file (commit_all ov f)"
  by (induction ov f rule: commit_all.induct) (auto split: prod.splits sum.splits)

lemma disk_flush_clean [simp]:
  "\<not> isl (fst (disk_flush d)) \<Longrightarrow> disk_flush (clean d) = apsnd clean (disk_flush d)"
  by (auto simp: disk_flush_def Let_def split: prod.splits sum.splits)

lemma held_sector_clean [simp]:
  "\<not> isl (fst (held_sector s d)) \<Longrightarrow> held_sector s (clean d) = apsnd clean (held_sector s d)"
  by (auto simp: held_sector_def split: option.splits prod.splits sum.splits)

lemma write_sectors_clean [simp]:
  "\<not> isl (fst (write_sectors off e data ss d)) \<Longrightarrow>
     write_sectors off e data ss (clean d) = apsnd clean (write_sectors off e data ss d)"
  by (induction off e data ss d rule: write_sectors.induct)
     (auto simp: Let_def split: prod.splits sum.splits)

lemma disk_read_clean:
  "\<not> isl (fst (disk_read off len d)) \<Longrightarrow> disk_read off len (clean d) = apsnd clean (disk_read off len d)"
  by (auto simp: disk_read_def Let_def split: if_splits prod.splits sum.splits)

lemma disk_write_clean:
  "\<not> isl (fst (disk_write off data d)) \<Longrightarrow> disk_write off data (clean d) = apsnd clean (disk_write off data d)"
  by (auto simp: disk_write_def Let_def split: if_splits prod.splits sum.splits)

section \<open>Well-formedness under faults\<close>

lemma read_exact_frame:
  assumes "read_exact_at len off f = (r, f')"
  shows "vf_bytes f' = vf_bytes f"
    and "r = Inr b \<Longrightarrow> off + len \<le> length (vf_bytes f) \<and> b = slice off (off + len) (vf_bytes f)"
  using assms by (auto simp: read_exact_at_def next_fault_bytes split: prod.splits option.splits if_splits)

lemma length_file_put:
  "off + length data \<le> length bs \<Longrightarrow> length (file_put off data bs) = length bs"
  by (simp add: file_put_def splice_at_def)

lemma write_all_length:
  assumes "write_all_at data off f = (r, f')" and "off + length data \<le> length (vf_bytes f)"
  shows "length (vf_bytes f') = length (vf_bytes f)"
proof -
  obtain x g where nf: "next_fault f = (x, g)" by (cases "next_fault f")
  have fit: "off + length (take k data) \<le> length (vf_bytes f)" for k using assms(2) by simp
  from assms(1) nf next_fault_bytes [OF nf] fit assms(2) show ?thesis
    by (cases x) (auto simp: write_all_at_def length_file_put simp del: length_take)
qed

lemma commit_all_length:
  assumes "overlay_ok sz ov" and "length (vf_bytes f) = sz"
  shows "length (vf_bytes (snd (commit_all ov f))) = sz"
  using assms
proof (induction ov f rule: commit_all.induct)
  case (2 s h ov f)
  note okc = overlay_ok_Cons [OF "2.prems"(1)]
  obtain r f' where w: "write_all_at h (s * SECTOR) f = (r, f')" by (cases "write_all_at h (s * SECTOR) f")
  then have "length (vf_bytes f') = sz" using write_all_length [OF w] okc "2.prems"(2) by simp
  with w "2.IH" okc(1) show ?case by (cases r) simp_all
qed simp

lemma disk_flush_keeps_ok:
  assumes "disk_ok d"
  shows "disk_ok (snd (disk_flush d))"
proof -
  have "length (vf_bytes (snd (commit_all (ds_overlay d) (ds_file d)))) = ds_size d"
    using disk_okD [OF assms] by (intro commit_all_length)
  moreover have "vf_bytes (snd (sync_data f)) = vf_bytes f" for f
    by (cases "next_fault f") (auto simp: sync_data_def next_fault_bytes split: option.splits)
  ultimately show ?thesis
    using disk_okD [OF assms]
    by (auto simp: disk_flush_def disk_ok_def Let_def split: prod.splits sum.splits) (metis snd_conv)+
qed

lemma held_sector_keeps_ok:
  assumes ok: "disk_ok d" and hs: "held_sector s d = (r, d')"
  shows "disk_ok d'" "ds_size d' = ds_size d" "vf_bytes (ds_file d') = vf_bytes (ds_file d)"
    and "r = Inr h \<Longrightarrow> length h = SECTOR \<and> (s + 1) * SECTOR \<le> ds_size d"
proof -
  have "disk_ok d' \<and> ds_size d' = ds_size d \<and> vf_bytes (ds_file d') = vf_bytes (ds_file d)
      \<and> (\<forall>h. r = Inr h \<longrightarrow> length h = SECTOR \<and> (s + 1) * SECTOR \<le> ds_size d)"
  proof (cases "map_of (ds_overlay d) s")
    case (Some h)
    with hs ok overlay_ok_lookup [OF disk_okD(4) [OF ok] Some] show ?thesis by (auto simp: held_sector_def)
  next
    case None
    obtain x f where rd: "read_exact_at SECTOR (s * SECTOR) (ds_file d) = (x, f)"
      by (cases "read_exact_at SECTOR (s * SECTOR) (ds_file d)")
    note fr = read_exact_frame [OF rd]
    show ?thesis
    proof (cases x)
      case (Inl e)
      with None hs rd fr(1) ok show ?thesis by (auto simp: held_sector_def disk_ok_def)
    next
      case (Inr b)
      with fr(2) disk_okD(1) [OF ok] have b: "length b = SECTOR" "(s + 1) * SECTOR \<le> ds_size d"
        by (auto simp: length_slice)
      from overlay_ok_insert [OF disk_okD(4) [OF ok] this] None hs rd fr(1) ok Inr b show ?thesis
        by (auto simp: held_sector_def disk_ok_def)
    qed
  qed
  then show "disk_ok d'" "ds_size d' = ds_size d" "vf_bytes (ds_file d') = vf_bytes (ds_file d)"
    "r = Inr h \<Longrightarrow> length h = SECTOR \<and> (s + 1) * SECTOR \<le> ds_size d" by blast+
qed

lemma write_sectors_keeps_ok:
  assumes "disk_ok d" and "data \<noteq> []" and "end' = off + length data"
    and "\<And>s. s \<in> set ss \<Longrightarrow> s * SECTOR < end' \<and> off < s * SECTOR + SECTOR"
  shows "disk_ok (snd (write_sectors off end' data ss d))"
  using assms(1,4)
proof (induction ss arbitrary: d)
  case (Cons s ss)
  obtain r d1 where hs: "held_sector s d = (r, d1)" by (cases "held_sector s d")
  note k = held_sector_keeps_ok [OF Cons.prems(1) hs]
  show ?case
  proof (cases r)
    case (Inl e)
    with hs k(1) show ?thesis by simp
  next
    case (Inr h)
    let ?h = "splice_at (max off (s * SECTOR) - s * SECTOR)
        (slice (max off (s * SECTOR) - off) (min end' (s * SECTOR + SECTOR) - off) data) h"
    have "length ?h = SECTOR"
      using write_piece(1) [of h end' off data s] k(4) [OF Inr] assms(2,3) Cons.prems(2) [of s] by simp
    then have "overlay_ok (ds_size d1) (bt_insert s ?h (ds_overlay d1))"
      using overlay_ok_insert [OF disk_okD(4) [OF k(1)]] k(2) k(4) [OF Inr] by simp
    then have "disk_ok (d1\<lparr>ds_overlay := bt_insert s ?h (ds_overlay d1)\<rparr>)"
      using k(1) by (simp add: disk_ok_def)
    from Cons.IH [OF this] Cons.prems(2) show ?thesis by (simp add: hs Inr Let_def)
  qed
qed simp

lemma disk_read_keeps_ok: "disk_ok d \<Longrightarrow> disk_ok (snd (disk_read off len d))"
proof -
  assume ok: "disk_ok d"
  obtain x f where rd: "read_exact_at len (unat off) (ds_file d) = (x, f)"
    by (cases "read_exact_at len (unat off) (ds_file d)")
  have "disk_ok (d\<lparr>ds_file := f\<rparr>)" using ok read_exact_frame(1) [OF rd] by (simp add: disk_ok_def)
  with ok rd show ?thesis by (auto simp: disk_read_def Let_def split: sum.splits)
qed

lemma disk_write_keeps_ok: "disk_ok d \<Longrightarrow> disk_ok (snd (disk_write off data d))"
proof -
  assume ok: "disk_ok d"
  let ?e = "unat off + length data"
  show ?thesis
  proof (cases "data = [] \<or> 2 ^ 64 \<le> ?e \<or> ds_size d < ?e")
    case True
    with ok show ?thesis by (auto simp: disk_write_def Let_def)
  next
    case False
    then have pos: "unat off < ?e" by simp
    obtain r d1 where w: "write_sectors (unat off) ?e data (sectors (unat off) ?e) d = (r, d1)"
      by (cases "write_sectors (unat off) ?e data (sectors (unat off) ?e) d")
    then have "disk_ok d1"
      using write_sectors_keeps_ok [OF ok, of data ?e "unat off" "sectors (unat off) ?e"]
        sectors_overlap [OF _ pos] False by simp
    with disk_flush_keeps_ok w False show ?thesis
      by (auto simp: disk_write_def Let_def split: sum.splits)
  qed
qed

lemma power_cut_keeps_ok: "disk_ok d \<Longrightarrow> disk_ok (power_cut d)"
  by (simp add: power_cut_def disk_ok_def)

lemma disk_do_keeps_ok: "disk_ok d \<Longrightarrow> disk_ok (snd (disk_do op d))"
  by (cases op)
     (simp_all add: Let_def split_def disk_read_keeps_ok disk_write_keeps_ok disk_flush_keeps_ok power_cut_keeps_ok)

section \<open>Refinement\<close>

lemma read_refines:
  assumes ok: "disk_ok d" "sound d"
  shows "spec_do (DoRead off len) (contents d) (ResData (fst (disk_read off len d))) (contents (snd (disk_read off len d)))"
proof -
  consider "len = 0" | "0 < len" "unat off + len \<le> ds_size d" | "0 < len" "ds_size d < unat off + len" by linarith
  then show ?thesis
  proof cases
    case 1
    then show ?thesis using spec_read [of len off "view d" "durable d"]
      by (simp add: contents_def disk_read_def slice_def)
  next
    case 2
    then show ?thesis using spec_read [of len off "view d" "durable d"]
      by (simp add: contents_def disk_read_in_range [OF ok])
  next
    case 3
    then have "disk_read off len d = (Inl InvalidInput, d)" by (simp add: disk_read_def Let_def)
    then show ?thesis using 3 spec_read_range [of len "view d" off "durable d"] by (simp add: contents_def)
  qed
qed

lemma splice_at_Nil [simp]: "splice_at i [] xs = xs"
  by (simp add: splice_at_def)

lemma write_refines:
  assumes ok: "disk_ok d" "sound d"
  shows "spec_do (DoWrite off data) (contents d) (ResUnit (fst (disk_write off data d)))
    (contents (snd (disk_write off data d)))"
proof -
  consider "data = []" | "data \<noteq> []" "unat off + length data \<le> ds_size d"
    | "data \<noteq> []" "ds_size d < unat off + length data" by linarith
  then show ?thesis
  proof cases
    case 1
    then show ?thesis by (simp add: contents_def disk_write_def spec_write)
  next
    case 2
    from disk_write_spec [OF ok 2] obtain ov where ov: "overlay_ok (ds_size d) ov"
      "view (d\<lparr>ds_overlay := ov\<rparr>) = splice_at (unat off) data (view d)"
      "disk_write off data d = (if OVERLAY_CAP_BYTES < length ov * SECTOR then disk_flush (d\<lparr>ds_overlay := ov\<rparr>)
        else (Inr (), d\<lparr>ds_overlay := ov\<rparr>))" .
    have ok': "disk_ok (d\<lparr>ds_overlay := ov\<rparr>)" "sound (d\<lparr>ds_overlay := ov\<rparr>)"
      using ok ov(1) by (simp_all add: disk_ok_def sound_def)
    have "durable (d\<lparr>ds_overlay := ov\<rparr>) = durable d" by (simp add: durable_def)
    with 2 show ?thesis
      using spec_write [of off data "view d" _ _ "durable d"]
      by (cases "OVERLAY_CAP_BYTES < length ov * SECTOR")
         (simp_all add: contents_def ov(2,3) disk_flush_ok [OF ok'])
  next
    case 3
    then have "disk_write off data d = (Inl InvalidInput, d)" by (simp add: disk_write_def Let_def)
    then show ?thesis using 3 spec_write_range [of data "view d" off "durable d"] by (simp add: contents_def)
  qed
qed

lemma cut_contents: "disk_ok d \<Longrightarrow> contents (power_cut d) = (durable d, durable d)"
  by (auto simp: contents_def power_cut_def durable_def view_at_def disk_ok_def intro!: nth_equalityI)

lemma cut_view: "disk_ok d \<Longrightarrow> view (power_cut d) = durable d"
  using cut_contents [of d] by (simp add: contents_def)

lemma disk_do_refines:
  assumes ok: "disk_ok d" "sound d"
  shows "spec_do op (contents d) (fst (disk_do op d)) (contents (snd (disk_do op d)))"
proof (cases op)
  case DoFlush
  then show ?thesis
    using spec_flush [of "view d" "durable d"] by (simp add: Let_def split_def contents_def disk_flush_ok [OF ok])
next
  case DoCut
  then show ?thesis
    using spec_cut [of "view d" "durable d"] by (simp add: cut_contents [OF ok(1)]) (simp add: contents_def)
qed (simp_all add: Let_def split_def read_refines [OF ok] write_refines [OF ok])

lemma disk_do_clean:
  assumes "acknowledged (fst (disk_do op d))"
  shows "disk_do op (clean d) = apsnd clean (disk_do op d)"
proof -
  have ack: "acknowledged (ResData r) \<longleftrightarrow> \<not> isl r" "acknowledged (ResUnit u) \<longleftrightarrow> \<not> isl u" for r u
    by (cases r; cases u; simp)+
  show ?thesis
    using assms
    by (cases op) (auto simp: Let_def split_def ack disk_read_clean disk_write_clean power_cut_def prod_eq_iff)
qed

lemma contents_clean [simp]: "contents (clean d) = contents d"
  by (simp add: contents_def)

lemma acknowledged_refines:
  assumes "disk_ok d" and "acknowledged (fst (disk_do op d))"
  shows "spec_do op (contents d) (fst (disk_do op d)) (contents (snd (disk_do op d)))"
  using disk_do_refines [of "clean d" op] assms by (simp add: disk_do_clean)

lemma disk_run_refines:
  assumes "disk_ok d" and "list_all acknowledged (fst (disk_run ops d))"
  shows "spec_run ops (contents d) (fst (disk_run ops d)) (contents (snd (disk_run ops d)))"
  using assms
proof (induction ops arbitrary: d)
  case Nil
  then show ?case by (simp add: spec_run_Nil)
next
  case (Cons op ops)
  then show ?case
    using acknowledged_refines [of d op] disk_do_keeps_ok [of d op]
    by (auto simp: Let_def split_def intro!: spec_run_Cons)
qed

section \<open>Staying under the cap\<close>

lemma write_sectors_keys:
  "fst ` set (ds_overlay (snd (write_sectors off e data ss d))) \<subseteq> fst ` set (ds_overlay d) \<union> set ss"
proof (induction off e data ss d rule: write_sectors.induct)
  case (2 off e data s ss d)
  obtain r d1 where hs: "held_sector s d = (r, d1)" by (cases "held_sector s d")
  then have "ds_overlay d1 = ds_overlay d \<or> (\<exists>b. ds_overlay d1 = bt_insert s b (ds_overlay d))"
    by (auto simp: held_sector_def split: option.splits prod.splits sum.splits)
  then have k: "fst ` set (ds_overlay d1) \<subseteq> insert s (fst ` set (ds_overlay d))"
    using keys_bt_insert [of s _ "ds_overlay d"] by (elim disjE exE) (simp_all only: subset_insertI subset_refl)
  show ?case
  proof (cases r)
    case (Inl a)
    with hs k show ?thesis by auto
  next
    case (Inr h)
    from "2.IH" [OF hs [symmetric] Inr refl refl refl refl] k hs Inr show ?thesis
      by (auto simp: Let_def)
  qed
qed simp

lemma overlay_length_le:
  assumes "overlay_ok sz ov" and "fst ` set ov \<subseteq> fst ` set ov' \<union> set ss"
  shows "length ov \<le> length ov' + length ss"
proof -
  have "distinct (map fst ov)"
    using assms(1) by (simp add: overlay_ok_def strict_sorted_iff)
  then have "length ov = card (fst ` set ov)" by (metis distinct_card length_map set_map)
  also have "\<dots> \<le> card (fst ` set ov' \<union> set ss)" using assms(2) by (intro card_mono) simp_all
  also have "\<dots> \<le> card (fst ` set ov') + card (set ss)" by (rule card_Un_le)
  also have "\<dots> \<le> length ov' + length ss"
    by (intro add_mono card_length) (metis card_image_le card_length finite_set order_trans)
  finally show ?thesis .
qed

fun op_sectors :: "disk_op \<Rightarrow> nat" where
  "op_sectors (DoWrite off data) = (if data = [] then 0 else length (sectors (unat off) (unat off + length data)))"
| "op_sectors _ = 0"

fun is_io :: "disk_op \<Rightarrow> bool" where
  "is_io (DoRead _ _) = True"
| "is_io (DoWrite _ _) = True"
| "is_io _ = False"

lemma under_cap_write:
  assumes ok: "disk_ok d" "sound d" and cap: "(length (ds_overlay d) + op_sectors (DoWrite off data)) * SECTOR \<le> OVERLAY_CAP_BYTES"
  defines "d' \<equiv> snd (disk_write off data d)"
  shows "durable d' = durable d \<and> length (ds_overlay d') \<le> length (ds_overlay d) + op_sectors (DoWrite off data)"
proof (cases "data = [] \<or> ds_size d < unat off + length data")
  case True
  then show ?thesis by (auto simp: d'_def disk_write_def Let_def)
next
  case False
  let ?e = "unat off + length data"
  obtain r d1 where w: "write_sectors (unat off) ?e data (sectors (unat off) ?e) d = (r, d1)"
    by (cases "write_sectors (unat off) ?e data (sectors (unat off) ?e) d")
  from write_sectors_spec [OF ok refl, of data "sectors (unat off) ?e" "unat off"]
    sectors_overlap [of _ "unat off" ?e] sectors_within [of _ "unat off" ?e, OF _ _ _ disk_okD(2) [OF ok(1)]] False w
  obtain ov where ov: "r = Inr ()" "d1 = d\<lparr>ds_overlay := ov\<rparr>" "overlay_ok (ds_size d) ov" by fastforce
  have len: "length ov \<le> length (ds_overlay d) + length (sectors (unat off) ?e)"
    using overlay_length_le [OF ov(3), of "ds_overlay d"] write_sectors_keys [of "unat off" ?e data "sectors (unat off) ?e" d]
    by (simp add: w ov(2))
  have "(length (ds_overlay d) + length (sectors (unat off) ?e)) * SECTOR \<le> OVERLAY_CAP_BYTES"
    using cap False by simp
  with mult_le_mono1 [OF len] have "length ov * SECTOR \<le> OVERLAY_CAP_BYTES" by (rule order_trans)
  moreover have "?e < 2 ^ 64" using False disk_okD(3) [OF ok(1)] by simp
  ultimately show ?thesis
    using False len by (simp add: d'_def disk_write_def Let_def w ov durable_def)
qed

section \<open>A write-back cache\<close>

text \<open>
  What a client of a write-back disk relies on: reads and writes change only what is
  current as long as the cache has room, a flush saves what is current, a cut returns to
  what was saved.
\<close>

locale write_back =
  fixes good :: "'s \<Rightarrow> bool"
    and cur :: "'s \<Rightarrow> bytes"
    and saved :: "'s \<Rightarrow> bytes"
    and io :: "'op \<Rightarrow> 's \<Rightarrow> 's"
    and cost :: "'op \<Rightarrow> nat"
    and held :: "'s \<Rightarrow> nat"
    and sync :: "'s \<Rightarrow> 's"
    and cut :: "'s \<Rightarrow> 's"
    and cap :: nat
  assumes io_good: "good s \<Longrightarrow> good (io a s)"
    and io_saved: "good s \<Longrightarrow> held s + cost a \<le> cap \<Longrightarrow>
      saved (io a s) = saved s \<and> held (io a s) \<le> held s + cost a"
    and sync_good: "good s \<Longrightarrow> good (sync s)"
    and sync_saves: "good s \<Longrightarrow> saved (sync s) = cur s \<and> held (sync s) = 0"
    and cut_returns: "good s \<Longrightarrow> cur (cut s) = saved s"
begin

lemma fold_good: "good s \<Longrightarrow> good (fold io as s)"
  by (induction as arbitrary: s) (simp_all add: io_good)

lemma fold_saved:
  "good s \<Longrightarrow> held s + (\<Sum>a\<leftarrow>as. cost a) \<le> cap \<Longrightarrow> saved (fold io as s) = saved s"
proof (induction as arbitrary: s)
  case (Cons a as)
  then have "saved (io a s) = saved s" "held (io a s) \<le> held s + cost a"
    using io_saved [of s a] by simp_all
  with Cons.IH [of "io a s"] Cons.prems io_good show ?case by simp
qed simp

lemma cut_after_sync:
  assumes "good s" and "(\<Sum>a\<leftarrow>as. cost a) \<le> cap"
  shows "cur (cut (fold io as (sync s))) = cur s"
proof -
  have "good (sync s)" by (rule sync_good [OF assms(1)])
  with fold_saved [of "sync s" as] fold_good [of "sync s" as] sync_saves [OF assms(1)] assms(2) cut_returns
  show ?thesis by simp
qed

end

definition disk_io :: "disk_op \<Rightarrow> disk_state \<Rightarrow> disk_state" where
  "disk_io op d = (if is_io op then snd (disk_do op d) else d)"

lemma disk_do_sound: "disk_ok d \<Longrightarrow> sound d \<Longrightarrow> sound (snd (disk_do op d))"
proof (cases op)
  case (DoRead off len)
  assume "disk_ok d" "sound d"
  with DoRead show ?thesis
    by (auto simp: disk_read_def read_exact_at_def next_fault_def sound_def Let_def split_def
        split: sum.splits if_splits)
next
  case (DoWrite off data)
  assume ok: "disk_ok d" "sound d"
  show ?thesis
  proof (cases "data \<noteq> [] \<and> unat off + length data \<le> ds_size d")
    case True
    from disk_write_spec [OF ok] True obtain ov where ov: "overlay_ok (ds_size d) ov"
      "disk_write off data d = (if OVERLAY_CAP_BYTES < length ov * SECTOR then disk_flush (d\<lparr>ds_overlay := ov\<rparr>)
        else (Inr (), d\<lparr>ds_overlay := ov\<rparr>))" by blast
    have ok': "disk_ok (d\<lparr>ds_overlay := ov\<rparr>)" "sound (d\<lparr>ds_overlay := ov\<rparr>)"
      using ok ov(1) by (simp_all add: disk_ok_def sound_def)
    then show ?thesis using DoWrite by (simp add: Let_def split_def ov(2) disk_flush_ok(3))
  next
    case False
    with DoWrite ok show ?thesis by (auto simp: disk_write_def Let_def split_def)
  qed
qed (auto simp: power_cut_def sound_def Let_def split_def disk_flush_ok(3) [unfolded sound_def])

interpretation nbd: write_back "\<lambda>d. disk_ok d \<and> sound d" view durable disk_io op_sectors
  "\<lambda>d. length (ds_overlay d)" "\<lambda>d. snd (disk_flush d)" power_cut "OVERLAY_CAP_BYTES div SECTOR"
proof unfold_locales
  fix d op assume "disk_ok d \<and> sound d"
  then show "disk_ok (disk_io op d) \<and> sound (disk_io op d)"
    by (simp add: disk_io_def disk_do_keeps_ok disk_do_sound)
next
  fix d op assume ok: "disk_ok d \<and> sound d" and cap: "length (ds_overlay d) + op_sectors op \<le> OVERLAY_CAP_BYTES div SECTOR"
  then have room: "(length (ds_overlay d) + op_sectors op) * SECTOR \<le> OVERLAY_CAP_BYTES"
    by (simp add: OVERLAY_CAP_BYTES_def SECTOR_def)
  show "durable (disk_io op d) = durable d \<and> length (ds_overlay (disk_io op d)) \<le> length (ds_overlay d) + op_sectors op"
  proof (cases op)
    case (DoRead off len)
    have "disk_read off len d = (r, d') \<Longrightarrow> durable d' = durable d \<and> ds_overlay d' = ds_overlay d" for r d'
      by (auto simp: disk_read_def Let_def durable_def dest: read_exact_frame(1) split: if_splits prod.splits sum.splits)
    with DoRead show ?thesis by (cases "disk_read off len d") (simp add: disk_io_def)
  next
    case (DoWrite off data)
    with under_cap_write [of d off data] ok room show ?thesis by (simp add: disk_io_def Let_def split_def)
  qed (simp_all add: disk_io_def)
qed (auto simp: disk_flush_ok cut_view)

lemma disk_run_fold:
  "list_all is_io ops \<Longrightarrow> snd (disk_run ops d) = fold disk_io ops d"
  by (induction ops arbitrary: d) (simp_all add: Let_def split_def disk_io_def)

lemma disk_write_succeeds:
  assumes ok: "disk_ok d" "sound d" and "data \<noteq> []" and "unat off + length data \<le> ds_size d"
  shows "fst (disk_write off data d) = Inr ()"
proof -
  from disk_write_spec [OF assms] obtain ov where ov: "overlay_ok (ds_size d) ov"
    "disk_write off data d = (if OVERLAY_CAP_BYTES < length ov * SECTOR then disk_flush (d\<lparr>ds_overlay := ov\<rparr>)
      else (Inr (), d\<lparr>ds_overlay := ov\<rparr>))" by blast
  have "disk_ok (d\<lparr>ds_overlay := ov\<rparr>)" "sound (d\<lparr>ds_overlay := ov\<rparr>)"
    using ok ov(1) by (simp_all add: disk_ok_def sound_def)
  with ov(2) show ?thesis by (simp add: disk_flush_ok)
qed

lemma sound_run_refines:
  assumes "disk_ok d" and "sound d"
  shows "spec_run ops (contents d) (fst (disk_run ops d)) (contents (snd (disk_run ops d)))"
  using assms
proof (induction ops arbitrary: d)
  case Nil
  then show ?case by (simp add: spec_run_Nil)
next
  case (Cons op ops)
  then show ?case
    using disk_do_refines [of d op] disk_do_keeps_ok [of d op] disk_do_sound [of d op]
    by (auto simp: Let_def split_def intro!: spec_run_Cons)
qed

lemma disk_run_keeps_ok: "disk_ok d \<Longrightarrow> disk_ok (snd (disk_run ops d))"
  by (induction ops arbitrary: d) (simp_all add: Let_def split_def disk_do_keeps_ok)

text \<open>A blank disk of two sectors.\<close>

definition demo_disk :: "nat option list \<Rightarrow> disk_state" where
  "demo_disk faults = disk_start \<lparr>vf_bytes = replicate (2 * SECTOR) 0, vf_faults = faults\<rparr>"

lemma demo_disk_ok: "disk_ok (demo_disk faults)" "faults = [] \<Longrightarrow> sound (demo_disk faults)"
  by (simp_all add: demo_disk_def disk_start_def disk_ok_def sound_def SECTOR_def)

lemma demo_disk_view: "view (demo_disk []) = replicate 1024 0"
  by (intro nth_equalityI) (simp_all add: demo_disk_def disk_start_def view_at_def SECTOR_def)

section \<open>Properties\<close>

text \<open>
  C3: Whatever the host file's faults, a run of reads, writes, flushes and power cuts whose
  replies were all acknowledged is a run of the specification: reads return what was last
  written (the backing image under the unflushed sectors), a partial write keeps the bytes
  on either side, a flush saves exactly what the guest sees, and a power cut returns to
  exactly what was saved. The disk stays well formed.
\<close>

theorem acknowledged_run_refines:
  assumes "disk_ok d" and "list_all acknowledged (fst (disk_run ops d))"
  shows "spec_run ops (view d, durable d) (fst (disk_run ops d))
           (view (snd (disk_run ops d)), durable (snd (disk_run ops d)))
       \<and> disk_ok (snd (disk_run ops d))"
  using disk_run_refines [OF assms] disk_run_keeps_ok [OF assms(1), of ops] by (simp add: contents_def)

theorem acknowledged_run_refines_witness:
  "spec_run [DoWrite 3 [7, 7], DoFlush] (view (demo_disk []), durable (demo_disk []))
     [ResUnit (Inr ()), ResUnit (Inr ())]
     (view (snd (disk_run [DoWrite 3 [7, 7], DoFlush] (demo_disk []))),
      durable (snd (disk_run [DoWrite 3 [7, 7], DoFlush] (demo_disk []))))"
proof -
  let ?d = "demo_disk []" and ?op = "DoWrite 3 [7, 7]"
  have ok: "disk_ok ?d" "sound ?d" by (simp_all add: demo_disk_ok)
  have "fst (disk_write 3 [7, 7] ?d) = Inr ()"
    using disk_write_succeeds [OF ok, of "[7, 7]" 3] by (simp add: demo_disk_def disk_start_def SECTOR_def)
  moreover have "fst (disk_flush (snd (disk_write 3 [7, 7] ?d))) = Inr ()"
    using disk_do_keeps_ok [OF ok(1), of ?op] disk_do_sound [OF ok, of ?op]
    by (intro disk_flush_ok(1)) (simp_all add: Let_def split_def)
  ultimately have run: "fst (disk_run [?op, DoFlush] ?d) = [ResUnit (Inr ()), ResUnit (Inr ())]"
    by (simp add: Let_def split_def)
  show ?thesis
    using acknowledged_run_refines [OF ok(1), of "[?op, DoFlush]"] unfolding run
    by (simp del: disk_run.simps)
qed

text \<open>
  On a host file without faults every operation has the specification's result: reads
  and writes inside the disk succeed, those that reach past its end are refused as invalid
  and change nothing, a flush succeeds.
\<close>

theorem sound_disk_refines:
  assumes "disk_ok d" and "sound d"
  shows "spec_run ops (view d, durable d) (fst (disk_run ops d))
           (view (snd (disk_run ops d)), durable (snd (disk_run ops d)))"
  using sound_run_refines [OF assms, of ops] by (simp add: contents_def)

theorem sound_disk_refines_witness:
  "spec_run [DoRead 1024 1] (view (demo_disk []), durable (demo_disk []))
     (fst (disk_run [DoRead 1024 1] (demo_disk [])))
     (view (snd (disk_run [DoRead 1024 1] (demo_disk []))), durable (snd (disk_run [DoRead 1024 1] (demo_disk []))))"
  using sound_disk_refines [of "demo_disk []" "[DoRead 1024 1]"] demo_disk_ok by blast

text \<open>
  C8: A power cut is exact. After a flush, whatever the guest reads and writes as long as
  it touches at most the 131072 sectors of the overlay's cap, a power cut leaves exactly
  the disk the guest saw at the flush.
\<close>

theorem power_cut_exact:
  assumes "disk_ok d" and "sound d" and "list_all is_io ops"
    and "(\<Sum>op\<leftarrow>ops. op_sectors op) * SECTOR \<le> OVERLAY_CAP_BYTES"
  shows "view (power_cut (snd (disk_run ops (snd (disk_flush d))))) = view d"
proof -
  have "(\<Sum>op\<leftarrow>ops. op_sectors op) \<le> OVERLAY_CAP_BYTES div SECTOR"
    using assms(4) by (simp add: OVERLAY_CAP_BYTES_def SECTOR_def)
  then show ?thesis
    using nbd.cut_after_sync [of d ops] assms(1-3) by (simp add: disk_run_fold)
qed

theorem power_cut_exact_witness:
  "view (power_cut (snd (disk_run [DoWrite 3 [7, 7]] (snd (disk_flush (demo_disk [])))))) = replicate 1024 0"
  using power_cut_exact [of "demo_disk []" "[DoWrite 3 [7, 7]]"] demo_disk_ok
  by (simp add: demo_disk_view sectors_def SECTOR_def OVERLAY_CAP_BYTES_def)

text \<open>
  A flush takes the whole overlay before it writes any of it, so when the first write
  to the host file fails, the flush is refused and every unflushed sector is gone: the
  guest then reads the last durable content, without a power cut.
\<close>

theorem failed_flush_drops_overlay:
  assumes "disk_ok d" and "ds_overlay d \<noteq> []" and "vf_faults (ds_file d) = Some 0 # faults"
  shows "fst (disk_flush d) = Inl HostIo \<and> view (snd (disk_flush d)) = durable d"
proof -
  obtain s h ov where ov: "ds_overlay d = (s, h) # ov" using assms(2) by (cases "ds_overlay d") auto
  have len: "length (vf_bytes (ds_file d)) = ds_size d" by (rule disk_okD(1) [OF assms(1)])
  have fl: "disk_flush d = (Inl HostIo, d\<lparr>ds_overlay := [], ds_file := (ds_file d)\<lparr>vf_faults := faults\<rparr>\<rparr>)"
    using assms(3) by (simp add: disk_flush_def ov write_all_at_def next_fault_def file_put_def Let_def)
  have "view (snd (disk_flush d)) = durable d"
    by (intro nth_equalityI) (simp_all add: fl len view_at_def durable_def)
  with fl show ?thesis by simp
qed

theorem failed_flush_drops_overlay_witness:
  "view (snd (disk_flush ((demo_disk [Some 0])\<lparr>ds_overlay := [(0, replicate SECTOR 7)]\<rparr>))) = durable (demo_disk [Some 0])"
  using failed_flush_drops_overlay [of "(demo_disk [Some 0])\<lparr>ds_overlay := [(0, replicate SECTOR 7)]\<rparr>" "[]"]
  by (simp add: demo_disk_def disk_start_def disk_ok_def overlay_ok_def SECTOR_def durable_def)

end
