(* ===== verification/Nbd_Protocol.thy ===== *)
theory Nbd_Protocol
  imports Nbd_Durability
begin

unbundle bit_operations_syntax

text \<open>
  The NBD server of \<open>provium-host/src/nbd.rs\<close> around the disk: the fault policy, the
  handshake, the transmission loop and the accept loop.

  A connection is what the client has still to send, what was sent to it, and how many
  more bytes it takes before its socket breaks (\<open>None\<close>: any number). A read past the end
  of the client's bytes is an \<open>UnexpectedEof\<close>. Both loops consume at least a header per
  turn, which is the measure of their recursion.
\<close>

section \<open>Constants\<close>

definition NBD_MAGIC :: u64 where "NBD_MAGIC = 0x4e42444d41474943"
definition IHAVEOPT :: u64 where "IHAVEOPT = 0x49484156454f5054"
definition REP_MAGIC :: u64 where "REP_MAGIC = 0x0003e889045565a9"
definition REQUEST_MAGIC :: u32 where "REQUEST_MAGIC = 0x25609513"
definition SIMPLE_REPLY_MAGIC :: u32 where "SIMPLE_REPLY_MAGIC = 0x67446698"
definition FLAG_FIXED_NEWSTYLE :: u16 where "FLAG_FIXED_NEWSTYLE = 1"
definition FLAG_NO_ZEROES :: u16 where "FLAG_NO_ZEROES = 2"
definition CLIENT_FLAG_NO_ZEROES :: u32 where "CLIENT_FLAG_NO_ZEROES = 2"
definition FLAG_HAS_FLAGS :: u16 where "FLAG_HAS_FLAGS = 1"
definition FLAG_SEND_FLUSH :: u16 where "FLAG_SEND_FLUSH = 4"
definition FLAG_SEND_FUA :: u16 where "FLAG_SEND_FUA = 8"
definition OPT_EXPORT_NAME :: u32 where "OPT_EXPORT_NAME = 1"
definition OPT_ABORT :: u32 where "OPT_ABORT = 2"
definition OPT_INFO :: u32 where "OPT_INFO = 6"
definition OPT_GO :: u32 where "OPT_GO = 7"
definition REP_ACK :: u32 where "REP_ACK = 1"
definition REP_INFO :: u32 where "REP_INFO = 3"
definition REP_ERR_UNSUP :: u32 where "REP_ERR_UNSUP = 0x80000001"
definition INFO_EXPORT :: u16 where "INFO_EXPORT = 0"
definition CMD_READ :: u16 where "CMD_READ = 0"
definition CMD_WRITE :: u16 where "CMD_WRITE = 1"
definition CMD_DISC :: u16 where "CMD_DISC = 2"
definition CMD_FLUSH :: u16 where "CMD_FLUSH = 3"
definition CMD_FLAG_FUA :: u16 where "CMD_FLAG_FUA = 1"
definition NBD_EIO :: u32 where "NBD_EIO = 5"
definition NBD_EINVAL :: u32 where "NBD_EINVAL = 22"

lemmas cmd_defs = CMD_READ_def CMD_WRITE_def CMD_DISC_def CMD_FLUSH_def

section \<open>The fault policy\<close>

record fault_policy =
  fail_reads :: bool
  fail_writes :: bool
  fail_after :: "u64 option"
  fail_range :: "(u64 \<times> u64) option"
  delay :: "nat option"

definition policy_default :: fault_policy where
  "policy_default = \<lparr>fail_reads = False, fail_writes = False, fail_after = None, fail_range = None, delay = None\<rparr>"

text \<open>\<open>sh_slept\<close> is the time the serving thread has slept for the policy.\<close>

record shared =
  sh_state :: disk_state
  sh_policy :: fault_policy
  sh_io_count :: u64
  sh_shutdown :: bool
  sh_connections :: u64
  sh_slept :: nat

definition range_hit :: "fault_policy \<Rightarrow> u64 \<Rightarrow> u32 \<Rightarrow> bool" where
  "range_hit p offset len =
     (case fail_range p of
        None \<Rightarrow> False
      | Some (sector, count) \<Rightarrow>
          0 < len \<and> 0 < count \<and>
          (let start = sector * 512;
               end' = sat_add start (count * 512);
               command_end = sat_add offset (ucast len)
           in offset < end' \<and> start < command_end))"

definition consult :: "u16 \<Rightarrow> u64 \<Rightarrow> u32 \<Rightarrow> shared \<Rightarrow> bool \<times> shared" where
  "consult command offset len sh =
     (let p = sh_policy sh
      in if p = policy_default then (False, sh)
         else let slept = (case delay p of None \<Rightarrow> 0 | Some t \<Rightarrow> t);
                  seen = sh_io_count sh + 1;
                  sh1 = sh\<lparr>sh_slept := sh_slept sh + slept, sh_io_count := seen\<rparr>
              in if (case fail_after p of None \<Rightarrow> False | Some n \<Rightarrow> n \<le> seen) then (True, sh1)
                 else if command = CMD_READ \<and> fail_reads p then (True, sh1)
                 else if command = CMD_WRITE \<and> fail_writes p then (True, sh1)
                 else (range_hit p offset len, sh1))"

definition set_policy :: "fault_policy \<Rightarrow> shared \<Rightarrow> shared" where
  "set_policy p sh = sh\<lparr>sh_policy := p, sh_io_count := 0\<rparr>"

definition clear_policy :: "shared \<Rightarrow> shared" where
  "clear_policy sh = set_policy policy_default sh"

definition mediated_start :: "vfile \<Rightarrow> shared" where
  "mediated_start f =
     \<lparr>sh_state = disk_start f, sh_policy = policy_default, sh_io_count = 0, sh_shutdown = False,
      sh_connections = 0, sh_slept = 0\<rparr>"

definition mediated_power_cut :: "shared \<Rightarrow> shared" where
  "mediated_power_cut sh = sh\<lparr>sh_state := power_cut (sh_state sh)\<rparr>"

definition flushes :: "shared \<Rightarrow> u64" where
  "flushes sh = ds_flushes (sh_state sh)"

definition mediated_drop :: "shared \<Rightarrow> shared" where
  "mediated_drop sh = sh\<lparr>sh_shutdown := True\<rparr>"

section \<open>Connections\<close>

record conn =
  cn_in :: bytes
  cn_out :: bytes
  cn_room :: "nat option"

definition conn_read_exact :: "nat \<Rightarrow> conn \<Rightarrow> (io_error + bytes) \<times> conn" where
  "conn_read_exact n c =
     (if n \<le> length (cn_in c) then (Inr (take n (cn_in c)), c\<lparr>cn_in := drop n (cn_in c)\<rparr>)
      else (Inl UnexpectedEof, c\<lparr>cn_in := []\<rparr>))"

definition conn_write_all :: "bytes \<Rightarrow> conn \<Rightarrow> (io_error + unit) \<times> conn" where
  "conn_write_all bs c =
     (case cn_room c of
        None \<Rightarrow> (Inr (), c\<lparr>cn_out := cn_out c @ bs\<rparr>)
      | Some n \<Rightarrow>
          if length bs \<le> n then (Inr (), c\<lparr>cn_out := cn_out c @ bs, cn_room := Some (n - length bs)\<rparr>)
          else (Inl BrokenPipe, c\<lparr>cn_out := cn_out c @ take n bs, cn_room := Some 0\<rparr>))"

definition map_res :: "('a \<Rightarrow> 'b) \<Rightarrow> (io_error + 'a) \<times> conn \<Rightarrow> (io_error + 'b) \<times> conn" where
  "map_res f x = (case x of (Inl e, c) \<Rightarrow> (Inl e, c) | (Inr a, c) \<Rightarrow> (Inr (f a), c))"

definition read_u16 :: "conn \<Rightarrow> (io_error + u16) \<times> conn" where
  "read_u16 c = map_res from_be (conn_read_exact 2 c)"

definition read_u32 :: "conn \<Rightarrow> (io_error + u32) \<times> conn" where
  "read_u32 c = map_res from_be (conn_read_exact 4 c)"

definition read_u64 :: "conn \<Rightarrow> (io_error + u64) \<times> conn" where
  "read_u64 c = map_res from_be (conn_read_exact 8 c)"

definition and_then ::
  "(conn \<Rightarrow> (io_error + 'a) \<times> conn) \<Rightarrow> ('a \<Rightarrow> conn \<Rightarrow> (io_error + 'b) \<times> conn) \<Rightarrow> conn \<Rightarrow> (io_error + 'b) \<times> conn" where
  "and_then m f c = (case m c of (Inl e, c') \<Rightarrow> (Inl e, c') | (Inr a, c') \<Rightarrow> f a c')"

section \<open>The handshake\<close>

definition transmission_flags :: u16 where
  "transmission_flags = FLAG_HAS_FLAGS OR FLAG_SEND_FLUSH OR FLAG_SEND_FUA"

definition export_info :: "u64 \<Rightarrow> bytes" where
  "export_info sz = to_be 2 INFO_EXPORT @ to_be 8 sz @ to_be 2 transmission_flags"

definition option_reply :: "u32 \<Rightarrow> u32 \<Rightarrow> bytes \<Rightarrow> bytes" where
  "option_reply option reply_type payload =
     to_be 8 REP_MAGIC @ to_be 4 option @ to_be 4 reply_type @ to_be 4 (of_nat (length payload) :: u32) @ payload"

definition send_reply :: "u32 \<Rightarrow> u32 \<Rightarrow> bytes \<Rightarrow> conn \<Rightarrow> (io_error + unit) \<times> conn" where
  "send_reply option reply_type payload = conn_write_all (option_reply option reply_type payload)"

text \<open>The head of the handshake's loop: an option and its data.\<close>

definition read_option :: "conn \<Rightarrow> (io_error + u32 \<times> bytes) \<times> conn" where
  "read_option =
     and_then read_u64 (\<lambda>magic.
       if magic \<noteq> IHAVEOPT then (\<lambda>c. (Inl InvalidData, c))
       else and_then read_u32 (\<lambda>option.
            and_then read_u32 (\<lambda>len.
            and_then (conn_read_exact (unat len)) (\<lambda>data c. (Inr (option, data), c)))))"

function handshake_loop :: "u64 \<Rightarrow> bool \<Rightarrow> conn \<Rightarrow> (io_error + bool) \<times> conn" where
  "handshake_loop sz no_zeroes c =
     (case read_option c of
        (Inl e, c1) \<Rightarrow> (Inl e, c1)
      | (Inr (option, data), c1) \<Rightarrow>
          if option = OPT_EXPORT_NAME then
            map_res (\<lambda>_. True)
              (conn_write_all (to_be 8 sz @ to_be 2 transmission_flags
                 @ (if no_zeroes then [] else replicate 124 0)) c1)
          else if option = OPT_GO \<or> option = OPT_INFO then
            (case send_reply option REP_INFO (export_info sz) c1 of
               (Inl e, c2) \<Rightarrow> (Inl e, c2)
             | (Inr _, c2) \<Rightarrow>
                 (case send_reply option REP_ACK [] c2 of
                    (Inl e, c3) \<Rightarrow> (Inl e, c3)
                  | (Inr _, c3) \<Rightarrow>
                      if option = OPT_GO then (Inr True, c3) else handshake_loop sz no_zeroes c3))
          else if option = OPT_ABORT then map_res (\<lambda>_. False) (send_reply option REP_ACK [] c1)
          else (case send_reply option REP_ERR_UNSUP [] c1 of
                  (Inl e, c2) \<Rightarrow> (Inl e, c2)
                | (Inr _, c2) \<Rightarrow> handshake_loop sz no_zeroes c2))"
  by pat_completeness auto

lemma conn_write_in [simp]: "cn_in (snd (conn_write_all bs c)) = cn_in c"
  by (simp add: conn_write_all_def split: option.split)

lemma send_reply_in: "send_reply a b p c = (r, c') \<Longrightarrow> cn_in c' = cn_in c"
  using conn_write_in [of "option_reply a b p" c] by (simp add: send_reply_def)

lemma conn_read_shrinks: "conn_read_exact n c = (Inr b, c') \<Longrightarrow> length (cn_in c') + n = length (cn_in c)"
  by (auto simp: conn_read_exact_def split: if_splits)

lemma read_shrinks:
  "read_u16 c = (Inr a, c') \<Longrightarrow> length (cn_in c') < length (cn_in c)"
  "read_u32 c = (Inr b, c') \<Longrightarrow> length (cn_in c') < length (cn_in c)"
  "read_u64 c = (Inr d, c') \<Longrightarrow> length (cn_in c') < length (cn_in c)"
  by (auto simp: read_u16_def read_u32_def read_u64_def map_res_def dest!: conn_read_shrinks
      split: prod.splits sum.splits)

lemma read_option_shrinks:
  assumes "read_option c = (Inr x, c')"
  shows "length (cn_in c') < length (cn_in c)"
  using assms
  by (auto simp: read_option_def and_then_def dest!: conn_read_shrinks read_shrinks
      split: prod.splits sum.splits if_splits)

termination handshake_loop
  by (relation "measure (\<lambda>(sz, nz, c). length (cn_in c))")
     (auto dest!: read_option_shrinks [OF sym] send_reply_in [OF sym])

definition handshake :: "u64 \<Rightarrow> conn \<Rightarrow> (io_error + bool) \<times> conn" where
  "handshake sz =
     and_then (conn_write_all (to_be 8 NBD_MAGIC @ to_be 8 IHAVEOPT
                 @ to_be 2 (FLAG_FIXED_NEWSTYLE OR FLAG_NO_ZEROES))) (\<lambda>_.
     and_then read_u32 (\<lambda>client_flags.
       handshake_loop sz (client_flags AND CLIENT_FLAG_NO_ZEROES \<noteq> 0)))"

section \<open>Transmission\<close>

record request =
  rq_flags :: u16
  rq_command :: u16
  rq_cookie :: u64
  rq_offset :: u64
  rq_length :: u32
  rq_payload :: "bytes option"

definition simple_reply :: "u32 \<Rightarrow> u64 \<Rightarrow> bytes \<Rightarrow> bytes" where
  "simple_reply error cookie data = to_be 4 SIMPLE_REPLY_MAGIC @ to_be 4 error @ to_be 8 cookie @ data"

definition send_simple_reply :: "u32 \<Rightarrow> u64 \<Rightarrow> bytes \<Rightarrow> conn \<Rightarrow> (io_error + unit) \<times> conn" where
  "send_simple_reply error cookie data = conn_write_all (simple_reply error cookie data)"

text \<open>
  A request with its payload, read before any verdict; \<open>None\<close> when the client is gone
  before a request begins.
\<close>

definition read_payload :: "u16 \<Rightarrow> u32 \<Rightarrow> conn \<Rightarrow> (io_error + bytes option) \<times> conn" where
  "read_payload command len c =
     (if command = CMD_WRITE then map_res Some (conn_read_exact (unat len) c) else (Inr None, c))"

definition read_request :: "conn \<Rightarrow> (io_error + request option) \<times> conn" where
  "read_request c =
     (case read_u32 c of
        (Inl UnexpectedEof, c1) \<Rightarrow> (Inr None, c1)
      | (Inl e, c1) \<Rightarrow> (Inl e, c1)
      | (Inr magic, c1) \<Rightarrow>
          if magic \<noteq> REQUEST_MAGIC then (Inl InvalidData, c1)
          else and_then read_u16 (\<lambda>flags.
               and_then read_u16 (\<lambda>command.
               and_then read_u64 (\<lambda>cookie.
               and_then read_u64 (\<lambda>offset.
               and_then read_u32 (\<lambda>len.
               and_then (read_payload command len) (\<lambda>payload c.
                 (Inr (Some \<lparr>rq_flags = flags, rq_command = command, rq_cookie = cookie,
                       rq_offset = offset, rq_length = len, rq_payload = payload\<rparr>), c))))))) c1)"

definition reply_of :: "(io_error + 'a) \<Rightarrow> ('a \<Rightarrow> bytes) \<Rightarrow> u32 \<times> bytes" where
  "reply_of r data = (case r of Inl _ \<Rightarrow> (NBD_EIO, []) | Inr a \<Rightarrow> (0, data a))"

text \<open>
  What the server does with a request: the error and data of its reply, or \<open>None\<close> for a
  disconnect.
\<close>

definition exec_command :: "request \<Rightarrow> shared \<Rightarrow> (u32 \<times> bytes) option \<times> shared" where
  "exec_command rq sh =
     (if rq_command rq = CMD_READ then
        let (r, d) = disk_read (rq_offset rq) (unat (rq_length rq)) (sh_state sh)
        in (Some (reply_of r (\<lambda>data. data)), sh\<lparr>sh_state := d\<rparr>)
      else if rq_command rq = CMD_WRITE then
        let (r, d) = disk_write (rq_offset rq) (the (rq_payload rq)) (sh_state sh);
            (r', d') = (if \<not> isl r \<and> rq_flags rq AND CMD_FLAG_FUA \<noteq> 0 then disk_flush d else (r, d))
        in (Some (reply_of r' (\<lambda>_. [])), sh\<lparr>sh_state := d'\<rparr>)
      else if rq_command rq = CMD_FLUSH then
        let (r, d) = disk_flush (sh_state sh)
        in (Some (reply_of r (\<lambda>_. [])), sh\<lparr>sh_state := d\<rparr>)
      else if rq_command rq = CMD_DISC then (None, sh)
      else (Some (NBD_EINVAL, []), sh))"

definition exec_request :: "request \<Rightarrow> shared \<Rightarrow> (u32 \<times> bytes) option \<times> shared" where
  "exec_request rq sh =
     (if rq_command rq \<in> {CMD_READ, CMD_WRITE, CMD_FLUSH} then
        let (fails, sh1) = consult (rq_command rq) (rq_offset rq) (rq_length rq) sh
        in if fails then (Some (NBD_EIO, []), sh1) else exec_command rq sh1
      else exec_command rq sh)"

function transmission :: "shared \<Rightarrow> conn \<Rightarrow> (io_error + unit) \<times> shared \<times> conn" where
  "transmission sh c =
     (if sh_shutdown sh then (Inr (), sh, c)
      else case read_request c of
             (Inl e, c1) \<Rightarrow> (Inl e, sh, c1)
           | (Inr None, c1) \<Rightarrow> (Inr (), sh, c1)
           | (Inr (Some rq), c1) \<Rightarrow>
               (case exec_request rq sh of
                  (None, sh1) \<Rightarrow> (Inr (), sh1, c1)
                | (Some reply, sh1) \<Rightarrow>
                    (case send_simple_reply (fst reply) (rq_cookie rq) (snd reply) c1 of
                       (Inl e, c2) \<Rightarrow> (Inl e, sh1, c2)
                     | (Inr _, c2) \<Rightarrow> transmission sh1 c2)))"
  by pat_completeness auto

lemma read_request_shrinks:
  assumes "read_request c = (Inr (Some rq), c')"
  shows "length (cn_in c') < length (cn_in c)"
proof -
  have pay: "length (cn_in c2) \<le> length (cn_in c1)" if "read_payload cmd n c1 = (Inr x, c2)" for cmd n c1 x c2
    using that by (auto simp: read_payload_def map_res_def dest!: conn_read_shrinks split: if_splits prod.splits sum.splits)
  show ?thesis
    using assms
    by (auto simp: read_request_def and_then_def dest!: pay read_shrinks
        split: prod.splits sum.splits if_splits io_error.splits)
qed

lemma send_simple_reply_in: "send_simple_reply a b p c = (r, c') \<Longrightarrow> cn_in c' = cn_in c"
  using conn_write_in [of "simple_reply a b p" c] by (simp add: send_simple_reply_def)

termination transmission
  by (relation "measure (\<lambda>(sh, c). length (cn_in c))")
     (auto dest!: read_request_shrinks [OF sym] send_simple_reply_in [OF sym])

declare handshake_loop.simps [simp del] transmission.simps [simp del]

definition serve :: "shared \<Rightarrow> conn \<Rightarrow> (io_error + unit) \<times> shared \<times> conn" where
  "serve sh c =
     (case handshake (of_nat (ds_size (sh_state sh))) c of
        (Inl e, c1) \<Rightarrow> (Inl e, sh, c1)
      | (Inr False, c1) \<Rightarrow> (Inr (), sh, c1)
      | (Inr True, c1) \<Rightarrow> transmission sh c1)"

text \<open>
  The accept loop over what \<open>accept\<close> returns, in order: a client (and whether its socket
  could be made blocking), nothing yet, or an error that ends the loop. A session's result
  is ignored.
\<close>

datatype accept_result = Accepted bool conn | AcceptWouldBlock | AcceptFails

fun accept_loop :: "accept_result list \<Rightarrow> shared \<Rightarrow> conn list \<times> shared" where
  "accept_loop [] sh = ([], sh)"
| "accept_loop (ev # evs) sh =
     (if sh_shutdown sh then ([], sh)
      else case ev of
             Accepted ok c \<Rightarrow>
               if \<not> ok then accept_loop evs sh
               else let (r, sh1, c1) = serve (sh\<lparr>sh_connections := sh_connections sh + 1\<rparr>) c;
                        (cs, sh2) = accept_loop evs sh1
                    in (c1 # cs, sh2)
           | AcceptWouldBlock \<Rightarrow> accept_loop evs (sh\<lparr>sh_slept := sh_slept sh + 5000000\<rparr>)
           | AcceptFails \<Rightarrow> ([], sh))"

end
