(* ===== verification/Nbd_Session.thy ===== *)
theory Nbd_Session
  imports Nbd_Protocol
begin

unbundle bit_operations_syntax

text \<open>
  Sessions of the NBD server seen from the client: what a client that encodes its options
  and requests by the protocol gets back, with injected faults and without.
\<close>

section \<open>The client's side\<close>

definition encode_option :: "u32 \<times> bytes \<Rightarrow> bytes" where
  "encode_option x = to_be 8 IHAVEOPT @ to_be 4 (fst x) @ to_be 4 (of_nat (length (snd x)) :: u32) @ snd x"

definition encode_request :: "request \<Rightarrow> bytes" where
  "encode_request rq =
     to_be 4 REQUEST_MAGIC @ to_be 2 (rq_flags rq) @ to_be 2 (rq_command rq) @ to_be 8 (rq_cookie rq)
     @ to_be 8 (rq_offset rq) @ to_be 4 (rq_length rq)
     @ (case rq_payload rq of None \<Rightarrow> [] | Some p \<Rightarrow> p)"

definition well_formed :: "request \<Rightarrow> bool" where
  "well_formed rq \<longleftrightarrow>
     (if rq_command rq = CMD_WRITE
      then (case rq_payload rq of None \<Rightarrow> False | Some p \<Rightarrow> length p = unat (rq_length rq))
      else rq_payload rq = None)"

text \<open>The requests executed one after the other, without the wire.\<close>

fun serve_all :: "request list \<Rightarrow> shared \<Rightarrow> (u32 \<times> bytes) list \<times> shared" where
  "serve_all [] sh = ([], sh)"
| "serve_all (rq # rqs) sh =
     (case exec_request rq sh of
        (None, sh1) \<Rightarrow> ([], sh1)
      | (Some reply, sh1) \<Rightarrow> (let (rs, sh2) = serve_all rqs sh1 in (reply # rs, sh2)))"

definition wire_replies :: "request list \<Rightarrow> (u32 \<times> bytes) list \<Rightarrow> bytes" where
  "wire_replies rqs rs =
     concat (map (\<lambda>(rq, e, data). simple_reply e (rq_cookie rq) data) (zip rqs rs))"

section \<open>Reading what was encoded\<close>

lemma conn_read_encoded:
  "length b = n \<Longrightarrow> cn_in c = b @ rest \<Longrightarrow> conn_read_exact n c = (Inr b, c\<lparr>cn_in := rest\<rparr>)"
  by (simp add: conn_read_exact_def)

lemma read_u16_encoded: "cn_in c = to_be 2 w @ rest \<Longrightarrow> read_u16 c = (Inr w, c\<lparr>cn_in := rest\<rparr>)"
  by (simp add: read_u16_def map_res_def conn_read_encoded [OF be16.enc_length] be16.dec_enc)

lemma read_u32_encoded: "cn_in c = to_be 4 w @ rest \<Longrightarrow> read_u32 c = (Inr w, c\<lparr>cn_in := rest\<rparr>)"
  by (simp add: read_u32_def map_res_def conn_read_encoded [OF be32.enc_length] be32.dec_enc)

lemma read_u64_encoded: "cn_in c = to_be 8 w @ rest \<Longrightarrow> read_u64 c = (Inr w, c\<lparr>cn_in := rest\<rparr>)"
  by (simp add: read_u64_def map_res_def conn_read_encoded [OF be64.enc_length] be64.dec_enc)

lemmas read_encoded = read_u16_encoded read_u32_encoded read_u64_encoded conn_read_encoded

lemma read_request_encoded:
  assumes "well_formed rq" and "cn_in c = encode_request rq @ rest"
  shows "read_request c = (Inr (Some rq), c\<lparr>cn_in := rest\<rparr>)"
proof -
  obtain fl cmd ck off len pl where rq: "rq = \<lparr>rq_flags = fl, rq_command = cmd, rq_cookie = ck,
      rq_offset = off, rq_length = len, rq_payload = pl\<rparr>" by (cases rq)
  have pay: "read_payload cmd len (c\<lparr>cn_in := (case pl of None \<Rightarrow> [] | Some p \<Rightarrow> p) @ rest\<rparr>)
      = (Inr pl, c\<lparr>cn_in := rest\<rparr>)"
    using assms(1)
    by (auto simp: read_payload_def well_formed_def rq map_res_def conn_read_encoded split: if_splits option.splits)
  show ?thesis
    using assms(2) pay
    by (simp add: read_request_def and_then_def rq encode_request_def read_u16_encoded read_u32_encoded read_u64_encoded)
qed

lemma read_request_eof: "cn_in c = [] \<Longrightarrow> read_request c = (Inr None, c)"
  by (simp add: read_request_def read_u32_def map_res_def conn_read_exact_def)

lemma exec_command_shutdown: "sh_shutdown (snd (exec_command rq sh)) = sh_shutdown sh"
  by (simp add: exec_command_def split_def Let_def)

lemma exec_request_shutdown: "exec_request rq sh = (r, sh') \<Longrightarrow> sh_shutdown sh' = sh_shutdown sh"
proof -
  assume e: "exec_request rq sh = (r, sh')"
  have "sh_shutdown (snd (consult a b d sh)) = sh_shutdown sh" for a b d
    by (simp add: consult_def Let_def)
  then have "sh_shutdown (snd (exec_request rq sh)) = sh_shutdown sh"
    by (simp add: exec_request_def split_def Let_def exec_command_shutdown)
  with e show ?thesis by simp
qed

lemma exec_request_replies: "rq_command rq \<noteq> CMD_DISC \<Longrightarrow> \<exists>reply sh'. exec_request rq sh = (Some reply, sh')"
  by (auto simp: exec_request_def exec_command_def Let_def split: prod.split)

lemma transmission_encoded:
  assumes "list_all (\<lambda>rq. well_formed rq \<and> rq_command rq \<noteq> CMD_DISC) rqs" and "\<not> sh_shutdown sh"
    and "cn_in c = concat (map encode_request rqs)" and "cn_room c = None"
  shows "transmission sh c = (Inr (), snd (serve_all rqs sh),
      c\<lparr>cn_in := [], cn_out := cn_out c @ wire_replies rqs (fst (serve_all rqs sh))\<rparr>)
    \<and> length (fst (serve_all rqs sh)) = length rqs"
  using assms
proof (induction rqs arbitrary: sh c)
  case Nil
  then show ?case by (simp add: transmission.simps [of sh] read_request_eof wire_replies_def)
next
  case (Cons rq rqs)
  from Cons.prems exec_request_replies [of rq sh] obtain e data sh1
    where ex: "exec_request rq sh = (Some (e, data), sh1)" by auto
  let ?c1 = "c\<lparr>cn_in := concat (map encode_request rqs)\<rparr>"
  let ?c2 = "?c1\<lparr>cn_out := cn_out c @ simple_reply e (rq_cookie rq) data\<rparr>"
  have rd: "read_request c = (Inr (Some rq), ?c1)"
    using Cons.prems by (intro read_request_encoded) simp_all
  have wr: "send_simple_reply e (rq_cookie rq) data ?c1 = (Inr (), ?c2)"
    using Cons.prems(4) by (simp add: send_simple_reply_def conn_write_all_def)
  have step: "transmission sh c = transmission sh1 ?c2"
    using Cons.prems(2) by (simp add: transmission.simps [of sh] rd ex wr)
  have "\<not> sh_shutdown sh1" using exec_request_shutdown [OF ex] Cons.prems(2) by simp
  with Cons.IH [of sh1 ?c2] Cons.prems have ih: "transmission sh1 ?c2 = (Inr (), snd (serve_all rqs sh1),
      ?c2\<lparr>cn_in := [], cn_out := cn_out ?c2 @ wire_replies rqs (fst (serve_all rqs sh1))\<rparr>)"
    "length (fst (serve_all rqs sh1)) = length rqs" by simp_all
  have "\<And>a b d e. c\<lparr>cn_in := a, cn_out := b, cn_in := d, cn_out := e\<rparr> = c\<lparr>cn_in := d, cn_out := e\<rparr>" by simp
  with ih show ?case
    by (simp add: step ex split_def Let_def wire_replies_def)
qed

section \<open>Negotiation\<close>

definition unsupported :: "u32 \<times> bytes \<Rightarrow> bool" where
  "unsupported x \<longleftrightarrow> fst x \<notin> {OPT_EXPORT_NAME, OPT_ABORT, OPT_INFO, OPT_GO} \<and> length (snd x) < 2 ^ 32"

lemma read_option_encoded:
  assumes "length data < 2 ^ 32" and "cn_in c = encode_option (opt, data) @ rest"
  shows "read_option c = (Inr (opt, data), c\<lparr>cn_in := rest\<rparr>)"
proof -
  have len: "unat (of_nat (length data) :: u32) = length data" using assms(1) by (simp add: unat_of_nat)
  show ?thesis
    using assms(2)
    by (simp add: read_option_def and_then_def encode_option_def read_u64_encoded read_u32_encoded
        conn_read_encoded len)
qed

lemma send_reply_open: "cn_room c = None \<Longrightarrow> send_reply a b p c = (Inr (), c\<lparr>cn_out := cn_out c @ option_reply a b p\<rparr>)"
  by (simp add: send_reply_def conn_write_all_def)

lemma handshake_loop_encoded:
  assumes "list_all unsupported opts" and "length name < 2 ^ 32" and "cn_room c = None"
    and "cn_in c = concat (map encode_option opts) @ encode_option (OPT_GO, name) @ rest"
  shows "handshake_loop sz nz c = (Inr True, c\<lparr>cn_in := rest, cn_out := cn_out c
      @ concat (map (\<lambda>x. option_reply (fst x) REP_ERR_UNSUP []) opts)
      @ option_reply OPT_GO REP_INFO (export_info sz) @ option_reply OPT_GO REP_ACK []\<rparr>)"
  using assms(1,3,4)
proof (induction opts arbitrary: c)
  case Nil
  then have "read_option c = (Inr (OPT_GO, name), c\<lparr>cn_in := rest\<rparr>)"
    by (intro read_option_encoded assms(2)) simp
  then show ?case
    using Nil by (simp add: handshake_loop.simps [of sz nz c] send_reply_open OPT_GO_def OPT_EXPORT_NAME_def)
next
  case (Cons x opts)
  obtain opt data where x: "x = (opt, data)" by (cases x)
  let ?rest = "concat (map encode_option opts) @ encode_option (OPT_GO, name) @ rest"
  let ?c2 = "c\<lparr>cn_in := ?rest, cn_out := cn_out c @ option_reply (fst x) REP_ERR_UNSUP []\<rparr>"
  have "read_option c = (Inr (opt, data), c\<lparr>cn_in := ?rest\<rparr>)"
    using Cons.prems by (intro read_option_encoded) (simp_all add: unsupported_def x)
  then have "handshake_loop sz nz c = handshake_loop sz nz ?c2"
    using Cons.prems by (simp add: handshake_loop.simps [of sz nz c] send_reply_open unsupported_def x)
  moreover have "\<And>a b d e. c\<lparr>cn_in := a, cn_out := b, cn_in := d, cn_out := e\<rparr> = c\<lparr>cn_in := d, cn_out := e\<rparr>" by simp
  ultimately show ?case
    using Cons.IH [of ?c2] Cons.prems by simp
qed

section \<open>Injected faults\<close>

definition data_command :: "request \<Rightarrow> bool" where
  "data_command rq \<longleftrightarrow> rq_command rq \<in> {CMD_READ, CMD_WRITE, CMD_FLUSH}"

lemma consult_armed:
  assumes "sh_policy sh \<noteq> policy_default"
  shows "sh_policy (snd (consult cmd off len sh)) = sh_policy sh"
    "sh_io_count (snd (consult cmd off len sh)) = sh_io_count sh + 1"
    "sh_state (snd (consult cmd off len sh)) = sh_state sh"
  using assms by (simp_all add: consult_def Let_def)

lemma exec_command_policy:
  "sh_policy (snd (exec_command rq sh)) = sh_policy sh" "sh_io_count (snd (exec_command rq sh)) = sh_io_count sh"
  by (simp_all add: exec_command_def split_def Let_def)

lemma exec_request_armed:
  assumes "sh_policy sh \<noteq> policy_default" and "data_command rq"
  shows "sh_policy (snd (exec_request rq sh)) = sh_policy sh"
    "sh_io_count (snd (exec_request rq sh)) = sh_io_count sh + 1"
  using assms by (simp_all add: exec_request_def data_command_def split_def Let_def exec_command_policy consult_armed)

lemma exec_request_dead:
  assumes "sh_policy sh \<noteq> policy_default" and "data_command rq"
    and "fail_after (sh_policy sh) = Some n" and "n \<le> sh_io_count sh + 1"
  shows "fst (exec_request rq sh) = Some (NBD_EIO, []) \<and> sh_state (snd (exec_request rq sh)) = sh_state sh"
proof -
  have "fst (consult (rq_command rq) (rq_offset rq) (rq_length rq) sh)"
    using assms(1,3,4) by (simp add: consult_def Let_def)
  with assms(1,2) show ?thesis
    by (simp add: exec_request_def data_command_def split_def Let_def consult_armed)
qed

lemma data_command_replies:
  assumes "data_command rq"
  obtains reply where "exec_request rq sh = (Some reply, snd (exec_request rq sh))"
proof -
  have "rq_command rq \<noteq> CMD_DISC" using assms by (auto simp: data_command_def cmd_defs)
  from exec_request_replies [OF this, of sh] that show thesis by (metis snd_conv)
qed

lemma serve_all_dead:
  assumes "sh_policy sh \<noteq> policy_default" and "list_all data_command rqs"
    and "fail_after (sh_policy sh) = Some n" and "sh_io_count sh = of_nat k" and "k + length rqs < 2 ^ 64"
  shows "(\<forall>i < length rqs. unat n \<le> k + i + 1 \<longrightarrow> fst (serve_all rqs sh) ! i = (NBD_EIO, []))
    \<and> sh_state (snd (serve_all rqs sh)) = sh_state (snd (serve_all (take (unat n - 1 - k) rqs) sh))"
  using assms
proof (induction rqs arbitrary: sh k)
  case Nil
  then show ?case by simp
next
  case (Cons rq rqs)
  have data: "data_command rq" "list_all data_command rqs" using Cons.prems(2) by simp_all
  obtain reply where ex: "exec_request rq sh = (Some reply, snd (exec_request rq sh))"
    by (rule data_command_replies [OF data(1)])
  define sh1 where "sh1 = snd (exec_request rq sh)"
  have arm: "sh_policy sh1 = sh_policy sh" "sh_io_count sh1 = of_nat (Suc k)"
    using exec_request_armed [OF Cons.prems(1) data(1)] Cons.prems(4) by (simp_all add: sh1_def add.commute)
  have ih: "(\<forall>i < length rqs. unat n \<le> Suc k + i + 1 \<longrightarrow> fst (serve_all rqs sh1) ! i = (NBD_EIO, []))"
    "sh_state (snd (serve_all rqs sh1)) = sh_state (snd (serve_all (take (unat n - 1 - Suc k) rqs) sh1))"
    using Cons.IH [of sh1 "Suc k"] Cons.prems data arm by simp_all
  have run: "serve_all (rq # xs) sh = (reply # fst (serve_all xs sh1), snd (serve_all xs sh1))" for xs
    by (simp only: serve_all.simps(2) ex [folded sh1_def] prod.case option.case) (simp add: split_def Let_def)
  show ?case
  proof (cases "unat n \<le> k + 1")
    case True
    have "unat (of_nat (Suc k) :: u64) = Suc k" using Cons.prems(5) by (simp add: unat_of_nat del: of_nat_Suc)
    then have "n \<le> sh_io_count sh + 1"
      using True Cons.prems(4) by (simp add: word_le_nat_alt add.commute)
    from exec_request_dead [OF Cons.prems(1) data(1) Cons.prems(3) this]
    have dead: "reply = (NBD_EIO, [])" "sh_state sh1 = sh_state sh" using ex by (simp_all add: sh1_def) (metis fst_conv option.inject)
    from True have "unat n - 1 - k = 0" "unat n - 1 - Suc k = 0" by simp_all
    with ih dead run [of rqs] True show ?thesis
      by (auto simp: nth_Cons split: nat.split simp del: serve_all.simps(2)) 
  next
    case False
    then have take: "take (unat n - 1 - k) (rq # rqs) = rq # take (unat n - 1 - Suc k) rqs"
    proof -
      from False have "unat n - 1 - k = Suc (unat n - 1 - Suc k)" by simp
      then show ?thesis by (simp only: take_Suc_Cons)
    qed
    show ?thesis
      unfolding take run using ih False
      by (auto simp: nth_Cons split: nat.split)
  qed
qed

lemma range_hit_overlap:
  assumes "fail_range p = Some (sector, count)" and "(unat sector + unat count) * 512 < 2 ^ 64"
    and "unat off + unat len < 2 ^ 64"
  shows "range_hit p off len \<longleftrightarrow>
    (\<exists>i. unat off \<le> i \<and> i < unat off + unat len \<and> unat sector \<le> i div 512 \<and> i div 512 < unat sector + unat count)"
proof -
  have len: "unat (ucast len :: u64) = unat len"
    using unat_lt_pow [of len] by (simp add: unsigned_ucast_eq take_bit_nat_eq_self)
  have prod: "unat (sector * 512) = unat sector * 512" "unat (count * 512) = unat count * 512"
    using assms(2) by (simp_all add: unat_word_ariths)
  have sums: "unat (sat_add (sector * 512) (count * 512)) = (unat sector + unat count) * 512"
    "unat (sat_add off (ucast len)) = unat off + unat len"
    using assms(2,3) by (simp_all add: unat_sat_add prod len)
  have "range_hit p off len \<longleftrightarrow> 0 < unat len \<and> 0 < unat count
      \<and> unat off < (unat sector + unat count) * 512 \<and> unat sector * 512 < unat off + unat len"
    using assms(1) by (simp add: range_hit_def Let_def word_less_nat_alt sums prod)
  also have "\<dots> \<longleftrightarrow> (\<exists>i. unat off \<le> i \<and> i < unat off + unat len
      \<and> unat sector * 512 \<le> i \<and> i < (unat sector + unat count) * 512)"
    by (auto intro!: exI [of _ "max (unat off) (unat sector * 512)"])
  also have "\<dots> \<longleftrightarrow> (\<exists>i. unat off \<le> i \<and> i < unat off + unat len
      \<and> unat sector \<le> i div 512 \<and> i div 512 < unat sector + unat count)"
    by (simp add: less_eq_div_iff_mult_less_eq div_less_iff_less_mult)
  finally show ?thesis .
qed

section \<open>Durable replies\<close>

lemma reply_ok: "reply_of r f = (0, data) \<longleftrightarrow> (\<exists>a. r = Inr a \<and> data = f a)"
  by (auto simp: reply_of_def NBD_EIO_def split: sum.split)

lemma flush_durable:
  assumes "disk_ok d" and "fst (disk_flush d) = Inr ()"
  shows "view (snd (disk_flush d)) = view d" "durable (snd (disk_flush d)) = view d"
proof -
  have ack: "acknowledged (fst (disk_do DoFlush d))" using assms(2) by (simp add: split_def Let_def)
  from acknowledged_refines [OF assms(1) ack]
  have "spec_do DoFlush (contents d) (ResUnit (Inr ())) (contents (snd (disk_flush d)))"
    using assms(2) by (simp add: split_def Let_def)
  then show "view (snd (disk_flush d)) = view d" "durable (snd (disk_flush d)) = view d"
    by (auto simp: contents_def elim: spec_do.cases)
qed

lemma write_visible:
  assumes "disk_ok d" and "fst (disk_write off data d) = Inr ()"
  shows "view (snd (disk_write off data d)) = splice_at (unat off) data (view d)"
proof -
  have ack: "acknowledged (fst (disk_do (DoWrite off data) d))" using assms(2) by (simp add: split_def Let_def)
  from acknowledged_refines [OF assms(1) ack]
  have "spec_do (DoWrite off data) (contents d) (ResUnit (Inr ())) (contents (snd (disk_write off data d)))"
    using assms(2) by (simp add: split_def Let_def)
  then show ?thesis by (auto simp: contents_def elim: spec_do.cases)
qed

lemma consult_state: "sh_state (snd (consult cmd off len sh)) = sh_state sh"
  by (simp add: consult_def Let_def)

lemma exec_request_ok:
  assumes "data_command rq" and "exec_request rq sh = (Some (0, data), sh')"
  obtains sh1 where "exec_command rq sh1 = (Some (0, data), sh')" "sh_state sh1 = sh_state sh"
proof -
  let ?c = "consult (rq_command rq) (rq_offset rq) (rq_length rq) sh"
  have "\<not> fst ?c" "exec_command rq (snd ?c) = (Some (0, data), sh')"
    using assms by (auto simp: exec_request_def data_command_def split_def Let_def NBD_EIO_def split: if_splits)
  then show thesis using that consult_state by blast
qed

lemma exec_fua_durable:
  assumes ok: "disk_ok (sh_state sh)" and cmd: "rq_command rq = CMD_WRITE" and fua: "rq_flags rq AND CMD_FLAG_FUA \<noteq> 0"
    and ex: "exec_command rq sh = (Some (0, data), sh')"
  shows "view (sh_state sh') = splice_at (unat (rq_offset rq)) (the (rq_payload rq)) (view (sh_state sh))
    \<and> durable (sh_state sh') = view (sh_state sh')"
proof -
  let ?w = "disk_write (rq_offset rq) (the (rq_payload rq)) (sh_state sh)"
  let ?f = "disk_flush (snd ?w)"
  have ne: "CMD_WRITE \<noteq> CMD_READ" by (simp add: cmd_defs)
  have w: "\<not> isl (fst ?w)"
    using ex cmd fua ne by (auto simp: exec_command_def split_def Let_def reply_ok split: if_splits)
  with ex cmd fua ne have f: "\<exists>a. fst ?f = Inr a" "sh_state sh' = snd ?f"
    by (auto simp: exec_command_def split_def Let_def reply_ok split: if_splits)
  have wok: "fst ?w = Inr ()" "fst ?f = Inr ()" using w f by (cases "fst ?w"; auto)+
  have "disk_ok (snd ?w)" by (rule disk_write_keeps_ok [OF ok])
  from flush_durable [OF this wok(2)] write_visible [OF ok wok(1)] f(2) show ?thesis by simp
qed

section \<open>Properties\<close>

definition demo_shared :: shared where
  "demo_shared = mediated_start \<lparr>vf_bytes = replicate (2 * SECTOR) 0, vf_faults = []\<rparr>"

definition demo_write :: request where
  "demo_write = \<lparr>rq_flags = 1, rq_command = CMD_WRITE, rq_cookie = 17, rq_offset = 3, rq_length = 2,
     rq_payload = Some [7, 7]\<rparr>"

definition demo_read :: request where
  "demo_read = \<lparr>rq_flags = 0, rq_command = CMD_READ, rq_cookie = 18, rq_offset = 0, rq_length = 8,
     rq_payload = None\<rparr>"

definition demo_conn :: "bytes \<Rightarrow> conn" where
  "demo_conn bs = \<lparr>cn_in = bs, cn_out = [], cn_room = None\<rparr>"

lemmas demo_nbd = demo_write_def demo_read_def demo_shared_def mediated_start_def demo_conn_def

text \<open>
  C11: A session stays in step. Whatever sequence of well-formed requests a client sends,
  and whatever faults are injected, the server reads each request whole (the payload of a
  write too when the write is failed), answers each exactly once, in order and under its
  own cookie, and ends without an error when the client closes.
\<close>

theorem session_in_sync:
  assumes "list_all (\<lambda>rq. well_formed rq \<and> rq_command rq \<noteq> CMD_DISC) rqs" and "\<not> sh_shutdown sh"
    and "cn_in c = concat (map encode_request rqs)" and "cn_room c = None"
  shows "transmission sh c = (Inr (), snd (serve_all rqs sh),
      c\<lparr>cn_in := [], cn_out := cn_out c @ wire_replies rqs (fst (serve_all rqs sh))\<rparr>)
    \<and> length (fst (serve_all rqs sh)) = length rqs"
  using assms by (rule transmission_encoded)

theorem session_in_sync_witness:
  "cn_in (snd (snd (transmission demo_shared (demo_conn (encode_request demo_write @ encode_request demo_read))))) = []
   \<and> length (fst (serve_all [demo_write, demo_read] demo_shared)) = 2"
  using session_in_sync [of "[demo_write, demo_read]" demo_shared
      "demo_conn (encode_request demo_write @ encode_request demo_read)"]
  by (simp add: demo_nbd well_formed_def cmd_defs)

text \<open>
  A disk armed with \<open>fail_after = n\<close> dies at the n-th command after the arming and stays
  dead: that command and every later read, write and flush is answered with \<open>EIO\<close>, and the
  disk is as the first n - 1 commands left it.
\<close>

theorem fail_after_kills:
  assumes "fail_after p = Some n" and "list_all data_command rqs" and "length rqs < 2 ^ 64"
  shows "(\<forall>i < length rqs. unat n \<le> i + 1 \<longrightarrow> fst (serve_all rqs (set_policy p sh)) ! i = (NBD_EIO, []))
    \<and> sh_state (snd (serve_all rqs (set_policy p sh)))
        = sh_state (snd (serve_all (take (unat n - 1) rqs) (set_policy p sh)))"
proof -
  have "sh_policy (set_policy p sh) \<noteq> policy_default" "fail_after (sh_policy (set_policy p sh)) = Some n"
    "sh_io_count (set_policy p sh) = of_nat 0"
    using assms(1) by (auto simp: set_policy_def policy_default_def)
  from serve_all_dead [OF this(1) assms(2) this(2,3)] assms(3) show ?thesis by simp
qed

theorem fail_after_kills_witness:
  "fst (serve_all [demo_read, demo_write] (set_policy (policy_default\<lparr>fail_after := Some 2\<rparr>) demo_shared)) ! 1
     = (NBD_EIO, [])"
  using fail_after_kills [of "policy_default\<lparr>fail_after := Some 2\<rparr>" 2 "[demo_read, demo_write]" demo_shared]
  by (auto simp: data_command_def demo_nbd cmd_defs)

text \<open>
  C23: An acknowledged \<open>FLUSH\<close>, and an acknowledged write with \<open>FUA\<close>, are durable: everything
  the guest sees then survives a power cut, whatever faults the host file has, and the
  write is part of it.
\<close>

theorem acknowledged_is_durable:
  assumes "disk_ok (sh_state sh)" and "exec_request rq sh = (Some (0, data), sh')"
    and "rq_command rq = CMD_FLUSH \<or> rq_command rq = CMD_WRITE \<and> rq_flags rq AND CMD_FLAG_FUA \<noteq> 0"
  shows "view (power_cut (sh_state sh')) = view (sh_state sh')
    \<and> view (sh_state sh') =
        (if rq_command rq = CMD_FLUSH then view (sh_state sh)
         else splice_at (unat (rq_offset rq)) (the (rq_payload rq)) (view (sh_state sh)))"
proof -
  have "data_command rq" using assms(3) by (auto simp: data_command_def)
  from exec_request_ok [OF this assms(2)] obtain sh1
    where ex: "exec_command rq sh1 = (Some (0, data), sh')" and st: "sh_state sh1 = sh_state sh" .
  have keep: "disk_ok (sh_state (snd (exec_command rq sh1)))"
    using assms(1) st
    by (auto simp: exec_command_def split_def Let_def disk_read_keeps_ok disk_write_keeps_ok disk_flush_keeps_ok)
  then have cut: "view (power_cut (sh_state sh')) = durable (sh_state sh')" using ex by (simp add: cut_view)
  show ?thesis
  proof (cases "rq_command rq = CMD_FLUSH")
    case True
    then have fl: "fst (disk_flush (sh_state sh)) = Inr ()" "sh_state sh' = snd (disk_flush (sh_state sh))"
      using ex st by (auto simp: exec_command_def cmd_defs split_def Let_def reply_ok split: if_splits)
    with flush_durable [OF assms(1) fl(1)] cut True show ?thesis by simp
  next
    case False
    with assms(3) exec_fua_durable [of sh1 rq data sh'] ex st assms(1) cut show ?thesis by simp
  qed
qed

theorem acknowledged_is_durable_witness:
  "view (power_cut (sh_state (snd (exec_request demo_write demo_shared))))
     = splice_at 3 [7, 7] (view (sh_state demo_shared))"
proof -
  have ok: "disk_ok (sh_state demo_shared)" "sound (sh_state demo_shared)"
    using demo_disk_ok [of "[]"] by (simp_all add: demo_shared_def mediated_start_def demo_disk_def)
  let ?w = "disk_write 3 [7, 7] (sh_state demo_shared)"
  have w: "fst ?w = Inr ()"
    using disk_write_succeeds [OF ok, of "[7, 7]" 3] by (simp add: demo_nbd disk_start_def SECTOR_def)
  have "fst (disk_flush (snd ?w)) = Inr ()"
    using disk_do_keeps_ok [OF ok(1), of "DoWrite 3 [7, 7]"] disk_do_sound [OF ok, of "DoWrite 3 [7, 7]"]
    by (intro disk_flush_ok(1)) (simp_all add: Let_def split_def)
  with w have "fst (exec_request demo_write demo_shared) = Some (0, [])"
    by (simp add: exec_request_def consult_def exec_command_def demo_write_def cmd_defs split_def Let_def
        reply_of_def CMD_FLAG_FUA_def) (simp add: demo_shared_def mediated_start_def)
  then have "exec_request demo_write demo_shared = (Some (0, []), snd (exec_request demo_write demo_shared))"
    by (metis prod.collapse)
  from acknowledged_is_durable [OF ok(1) this] show ?thesis
    by (simp add: demo_write_def cmd_defs CMD_FLAG_FUA_def)
qed

text \<open>
  Negotiation falls back to the classic protocol. Every option outside \<open>EXPORT_NAME\<close>,
  \<open>ABORT\<close>, \<open>INFO\<close> and \<open>GO\<close> (extended headers and structured replies among them) is answered
  with \<open>ERR_UNSUP\<close>; the \<open>GO\<close> that follows is answered with the export's size and flags and
  an acknowledgement, and what the client sends next is left for the transmission phase.
\<close>

theorem handshake_falls_back:
  assumes "list_all unsupported opts" and "length name < 2 ^ 32" and "cn_room c = None"
    and "cn_in c = to_be 4 (flags :: u32) @ concat (map encode_option opts) @ encode_option (OPT_GO, name) @ rest"
  shows "handshake sz c = (Inr True, c\<lparr>cn_in := rest, cn_out := cn_out c
      @ (to_be 8 NBD_MAGIC @ to_be 8 IHAVEOPT @ to_be 2 (FLAG_FIXED_NEWSTYLE OR FLAG_NO_ZEROES))
      @ concat (map (\<lambda>x. option_reply (fst x) REP_ERR_UNSUP []) opts)
      @ option_reply OPT_GO REP_INFO (export_info sz) @ option_reply OPT_GO REP_ACK []\<rparr>)"
proof -
  let ?hello = "to_be 8 NBD_MAGIC @ to_be 8 IHAVEOPT @ to_be 2 (FLAG_FIXED_NEWSTYLE OR FLAG_NO_ZEROES)"
  let ?c1 = "c\<lparr>cn_in := concat (map encode_option opts) @ encode_option (OPT_GO, name) @ rest, cn_out := cn_out c @ ?hello\<rparr>"
  have swap: "\<And>a b. c\<lparr>cn_out := a, cn_in := b\<rparr> = c\<lparr>cn_in := b, cn_out := a\<rparr>"
    "\<And>a b d e. c\<lparr>cn_in := a, cn_out := b, cn_in := d, cn_out := e\<rparr> = c\<lparr>cn_in := d, cn_out := e\<rparr>" by simp_all
  have "handshake sz c = handshake_loop sz (flags AND CLIENT_FLAG_NO_ZEROES \<noteq> 0) ?c1"
    using assms(3,4)
    by (simp add: handshake_def and_then_def conn_write_all_def read_u32_encoded swap)
  then show ?thesis
    using handshake_loop_encoded [OF assms(1,2), of ?c1 rest] assms(3) by (simp add: swap)
qed

theorem handshake_falls_back_witness:
  "fst (handshake 1024 (demo_conn (to_be 4 (3::u32) @ encode_option (11, []) @ encode_option (OPT_GO, [97]) @ [1, 2])))
     = Inr True"
  using handshake_falls_back [of "[(11, [])]" "[97]"
      "demo_conn (to_be 4 (3::u32) @ encode_option (11, []) @ encode_option (OPT_GO, [97]) @ [1, 2])" 3 "[1, 2]" 1024]
  by (simp add: demo_conn_def unsupported_def OPT_GO_def OPT_INFO_def OPT_ABORT_def OPT_EXPORT_NAME_def)

text \<open>
  The verdict of a fault policy: a command fails exactly when the policy is armed and
  the command is at or past \<open>fail_after\<close>, or is of a kind the policy fails, or one of its
  bytes lies in a sector of \<open>fail_range\<close>. A flush (no bytes) is failed by \<open>fail_after\<close> alone.
\<close>

theorem policy_verdict:
  assumes "fail_range (sh_policy sh) = Some (sector, count)" and "(unat sector + unat count) * 512 < 2 ^ 64"
    and "unat off + unat len < 2 ^ 64"
  shows "fst (consult cmd off len sh) \<longleftrightarrow>
     (case fail_after (sh_policy sh) of None \<Rightarrow> False | Some n \<Rightarrow> n \<le> sh_io_count sh + 1)
   \<or> cmd = CMD_READ \<and> fail_reads (sh_policy sh) \<or> cmd = CMD_WRITE \<and> fail_writes (sh_policy sh)
   \<or> (\<exists>i. unat off \<le> i \<and> i < unat off + unat len \<and> unat sector \<le> i div 512 \<and> i div 512 < unat sector + unat count)"
proof -
  have "sh_policy sh \<noteq> policy_default" using assms(1) by (auto simp: policy_default_def)
  then show ?thesis
    unfolding range_hit_overlap [OF assms, symmetric] by (auto simp: consult_def Let_def)
qed

theorem policy_verdict_witness:
  "fst (consult CMD_READ 600 8 (set_policy (policy_default\<lparr>fail_range := Some (1, 1)\<rparr>) demo_shared))"
proof -
  have hit: "600 \<le> (600::nat) \<and> (600::nat) < 600 + 8 \<and> 1 \<le> (600::nat) div 512 \<and> (600::nat) div 512 < 1 + 1" by simp
  show ?thesis
    using policy_verdict [of "set_policy (policy_default\<lparr>fail_range := Some (1, 1)\<rparr>) demo_shared" 1 1 600 8 CMD_READ] hit
    by (auto simp: set_policy_def policy_default_def)
qed

end
