(* ===== verification/Wire_Types.thy ===== *)
theory Wire_Types
  imports Provium_Prelude
begin

text \<open>
  The wire of \<open>provium-protocol\<close>: every argument and result structure of
  \<open>src/wire\<close>, the two message types and their kinds. A structure is a record whose field
  names carry a prefix of their own, an enum is a datatype, \<open>BTreeMap<String, String>\<close> is
  the association list of its entries in order, \<open>[i64; 6]\<close> is a list. \<open>GetTimeArgs\<close> and
  \<open>SpawnWorkerArgs\<close> are unit structures and carry nothing; \<open>BatchOpArgs\<close> and
  \<open>BatchOpResult\<close> are their one field, the list of messages.
\<close>

section \<open>Errors and results\<close>

record os_error =
  oe_errno :: i32
  oe_message :: string

datatype agent_error_kind = BadRequest | Unsupported | UnknownHandle | Internal

record agent_error =
  ae_kind :: agent_error_kind
  ae_message :: string

datatype protocol_error =
    VersionMismatch u32 u32
  | HandshakeMissing string
  | UnexpectedMessage string string

datatype 'a op_result = OpOk 'a | OpErr os_error

fun into_result :: "'a op_result \<Rightarrow> os_error + 'a" where
  "into_result (OpOk t) = Inr t"
| "into_result (OpErr e) = Inl e"

fun is_ok :: "'a op_result \<Rightarrow> bool" where
  "is_ok (OpOk _) = True"
| "is_ok (OpErr _) = False"

fun op_result_from :: "os_error + 'a \<Rightarrow> 'a op_result" where
  "op_result_from (Inr t) = OpOk t"
| "op_result_from (Inl e) = OpErr e"

section \<open>Handles\<close>

text \<open>The handle types are distinct newtypes over \<open>u64\<close>.\<close>

datatype file_handle = FileHandle u64

datatype process_handle = ProcessHandle u64

datatype worker_handle = WorkerHandle u64

section \<open>The handshake\<close>

record hello =
  he_protocol_version :: u32

record agent_info =
  ai_os :: string
  ai_agent_version :: string
  ai_kernel :: "string option"
  ai_capabilities :: "string list"

record hello_ok_msg =
  ho_protocol_version :: u32
  ho_agent :: agent_info

record hello_err_msg =
  hx_host_version :: u32
  hx_agent_version :: u32

section \<open>Exec\<close>

record exec_args =
  ea_cmd :: string
  ea_args :: "string list"
  ea_env :: "(string \<times> string) list"
  ea_env_clear :: bool
  ea_stdin :: bytes
  ea_cwd :: "string option"
  ea_timeout_ms :: "u64 option"

datatype exit_status = Exited i32 | Signalled i32 | ExitTimedOut

record exec_ok =
  eo_status :: exit_status
  eo_stdout :: bytes
  eo_stderr :: bytes

datatype exec_result = ExecOk exec_ok | ExecErr os_error

fun exit_code :: "exit_status \<Rightarrow> i32 option" where
  "exit_code (Exited code) = Some code"
| "exit_code _ = None"

definition is_clean_exit :: "exit_status \<Rightarrow> bool" where
  "is_clean_exit s \<longleftrightarrow> exit_code s = Some 0"

section \<open>Files\<close>

record open_mode =
  om_read :: bool
  om_write :: bool
  om_create :: bool
  om_truncate :: bool
  om_append :: bool
  om_exclusive :: bool

record open_file_args =
  of_path :: string
  of_mode :: open_mode
  of_create_perm :: "u32 option"

record read_args =
  rd_handle :: file_handle
  rd_max_bytes :: u64

record read_ok =
  ro_data :: bytes

record write_args =
  wa_handle :: file_handle
  wa_data :: bytes

record write_ok =
  wo_written :: u64

record close_args =
  cl_handle :: file_handle

record read_file_args =
  rf_path :: string

datatype write_file_mode = WfReplace | WfAppend | WfExclusive

record write_file_args =
  wf_path :: string
  wf_data :: bytes
  wf_mode :: write_file_mode
  wf_create_perm :: "u32 option"

datatype entry_type = EtFile | EtDirectory | EtSymlink | EtFifo | EtSocket | EtBlockDevice | EtCharDevice | EtOther

record listdir_args =
  ld_path :: string

record dir_entry =
  de_name :: string
  de_entry_type :: entry_type

record mkdir_args =
  mk_path :: string
  mk_parents :: bool
  mk_create_perm :: "u32 option"

record unlink_args =
  ul_path :: string

record rename_args =
  rn_from :: string
  rn_to :: string

datatype seek_whence = SeekSet | SeekCur | SeekEnd

record seek_args =
  sk_handle :: file_handle
  sk_offset :: i64
  sk_whence :: seek_whence

record stat_args =
  st_path :: string
  st_follow_symlinks :: bool

record file_metadata =
  fm_size :: u64
  fm_mtime_ns :: i64
  fm_entry_type :: entry_type
  fm_perm :: u32

section \<open>Streams\<close>

datatype tail_start = TailBeginning | TailEnd | TailOffset u64

record tail_file_args =
  tf_path :: string
  tf_start :: tail_start

record fd_stream_args =
  fs_handle :: file_handle

record stream_frame =
  sf_data :: bytes

datatype stream_end = SeEof | SeError os_error

section \<open>Processes\<close>

record run_async_args =
  ra_cmd :: string
  ra_args :: "string list"
  ra_env :: "(string \<times> string) list"
  ra_env_clear :: bool
  ra_cwd :: "string option"

record wait_args =
  wt_handle :: process_handle
  wt_timeout_ms :: "u64 option"

record kill_args =
  kl_handle :: process_handle
  kl_signal :: i32

record get_pid_args =
  gp_handle :: process_handle

record proc_stdin_write_args =
  sw_handle :: process_handle
  sw_data :: bytes

record proc_stdin_write_ok =
  swo_written :: u64

record proc_stdin_close_args =
  sc_handle :: process_handle

record proc_status_args =
  ps_handle :: process_handle

datatype process_live_status = PlRunning | PlExited | PlUnknown

datatype proc_stream_channel = ChStdout | ChStderr

record proc_stream_args =
  pst_handle :: process_handle
  pst_channel :: proc_stream_channel

section \<open>Clock, memory, ioctls and system calls\<close>

record clock_time =
  ct_ns :: i64

record set_time_args =
  stm_ns :: i64

record sleep_clock_args =
  slc_ns :: u64

record advance_clock_args =
  ac_ns :: i64

record read_mem_args =
  rm_addr :: u64
  rm_len :: u32

record read_mem_ok =
  rmo_bytes :: bytes

record ioctl_args =
  io_handle :: file_handle
  io_cmd :: u64
  io_data :: bytes
  io_bufs :: "bytes list"
  io_ptr_offsets :: "u32 list"

record ioctl_ok =
  ioo_ret :: i64
  ioo_out_data :: bytes
  ioo_out_bufs :: "bytes list"

record nested_ptr =
  np_parent :: u8
  np_child :: u8
  np_offset :: u32

record syscall_args =
  sy_nr :: i64
  sy_args :: "i64 list"
  sy_bufs :: "bytes list"
  sy_ptrs :: "u8 list"
  sy_nested :: "nested_ptr list"

record syscall_result =
  sr_ret :: i64
  sr_errno :: i32
  sr_out_bufs :: "bytes list"

section \<open>Workers\<close>

record worker_exec_args =
  we_handle :: worker_handle
  we_exec :: exec_args

record worker_join_args =
  wj_handle :: worker_handle

record worker_join_payload =
  wjp_exit_status :: i32

record worker_run_async_args =
  wr_handle :: worker_handle
  wr_args :: run_async_args

record worker_open_file_args =
  wof_handle :: worker_handle
  wof_args :: open_file_args

record worker_syscall_args =
  ws_handle :: worker_handle
  ws_args :: syscall_args

record worker_syscall_begin_args =
  wb_handle :: worker_handle
  wb_args :: syscall_args

record worker_syscall_await_args =
  ww_handle :: worker_handle
  ww_async_id :: u64

record worker_kill_args =
  wk_handle :: worker_handle
  wk_signal :: i32

record batch_exec_args =
  be_items :: "exec_args list"

record batch_exec_result =
  ber_results :: "exec_result list"

section \<open>Messages\<close>

datatype (plugins only: code size) host_message =
    HmHello hello
  | HmExec exec_args
  | HmOpenFile open_file_args
  | HmRead read_args
  | HmWrite write_args
  | HmClose close_args
  | HmReadFile read_file_args
  | HmWriteFile write_file_args
  | HmStat stat_args
  | HmTailFile tail_file_args
  | HmRunAsync run_async_args
  | HmWait wait_args
  | HmKill kill_args
  | HmGetPid get_pid_args
  | HmGetTime
  | HmSetTime set_time_args
  | HmSleepClock sleep_clock_args
  | HmAdvanceClock advance_clock_args
  | HmSyscall syscall_args
  | HmReadMem read_mem_args
  | HmSpawnWorker
  | HmWorkerExec worker_exec_args
  | HmWorkerJoin worker_join_args
  | HmListdir listdir_args
  | HmMkdir mkdir_args
  | HmUnlink unlink_args
  | HmRename rename_args
  | HmSeek seek_args
  | HmIoctl ioctl_args
  | HmProcStdinWrite proc_stdin_write_args
  | HmProcStdinClose proc_stdin_close_args
  | HmProcStatus proc_status_args
  | HmProcStream proc_stream_args
  | HmFdStream fd_stream_args
  | HmWorkerRunAsync worker_run_async_args
  | HmWorkerOpenFile worker_open_file_args
  | HmWorkerSyscall worker_syscall_args
  | HmWorkerSyscallBegin worker_syscall_begin_args
  | HmWorkerSyscallAwait worker_syscall_await_args
  | HmWorkerKill worker_kill_args
  | HmBatchExec batch_exec_args
  | HmBatchOp "host_message list"

datatype (plugins only: code size) agent_message =
    AmHelloOk hello_ok_msg
  | AmHelloErr hello_err_msg
  | AmExecResult exec_result
  | AmOpenFileResult "file_handle op_result"
  | AmReadResult "read_ok op_result"
  | AmWriteResult "write_ok op_result"
  | AmCloseResult "unit op_result"
  | AmReadFileResult "read_ok op_result"
  | AmWriteFileResult "unit op_result"
  | AmStatResult "file_metadata op_result"
  | AmTailFileResult "unit op_result"
  | AmRunAsyncResult "process_handle op_result"
  | AmWaitResult "exec_ok op_result"
  | AmKillResult "unit op_result"
  | AmGetPidResult "u32 op_result"
  | AmGetTimeResult "clock_time op_result"
  | AmSetTimeResult "unit op_result"
  | AmSleepClockResult "unit op_result"
  | AmAdvanceClockResult "unit op_result"
  | AmSyscallResult syscall_result
  | AmReadMemResult "read_mem_ok op_result"
  | AmSpawnWorkerResult "worker_handle op_result"
  | AmWorkerExecResult exec_result
  | AmWorkerJoinResult "worker_join_payload op_result"
  | AmListdirResult "dir_entry list op_result"
  | AmMkdirResult "unit op_result"
  | AmUnlinkResult "unit op_result"
  | AmRenameResult "unit op_result"
  | AmSeekResult "u64 op_result"
  | AmIoctlResult "ioctl_ok op_result"
  | AmProcStdinWriteResult "proc_stdin_write_ok op_result"
  | AmProcStdinCloseResult "unit op_result"
  | AmProcStatusResult "process_live_status op_result"
  | AmProcStreamResult "unit op_result"
  | AmFdStreamResult "unit op_result"
  | AmWorkerRunAsyncResult "process_handle op_result"
  | AmWorkerOpenFileResult "file_handle op_result"
  | AmWorkerSyscallResult syscall_result
  | AmWorkerSyscallBeginResult "u64 op_result"
  | AmWorkerSyscallAwaitResult syscall_result
  | AmWorkerKillResult "u32 op_result"
  | AmBatchExecResult batch_exec_result
  | AmBatchOpResult "agent_message list"
  | AmStreamFrame stream_frame
  | AmStreamEnd stream_end
  | AmAgentError agent_error

definition host_kind :: "host_message \<Rightarrow> string" where
  "host_kind m = (case m of
      HmHello _ \<Rightarrow> ''hello''
    | HmExec _ \<Rightarrow> ''exec''
    | HmOpenFile _ \<Rightarrow> ''open_file''
    | HmRead _ \<Rightarrow> ''read''
    | HmWrite _ \<Rightarrow> ''write''
    | HmClose _ \<Rightarrow> ''close''
    | HmReadFile _ \<Rightarrow> ''read_file''
    | HmWriteFile _ \<Rightarrow> ''write_file''
    | HmStat _ \<Rightarrow> ''stat''
    | HmTailFile _ \<Rightarrow> ''tail_file''
    | HmRunAsync _ \<Rightarrow> ''run_async''
    | HmWait _ \<Rightarrow> ''wait''
    | HmKill _ \<Rightarrow> ''kill''
    | HmGetPid _ \<Rightarrow> ''get_pid''
    | HmGetTime \<Rightarrow> ''get_time''
    | HmSetTime _ \<Rightarrow> ''set_time''
    | HmSleepClock _ \<Rightarrow> ''sleep_clock''
    | HmAdvanceClock _ \<Rightarrow> ''advance_clock''
    | HmSyscall _ \<Rightarrow> ''syscall''
    | HmReadMem _ \<Rightarrow> ''read_mem''
    | HmSpawnWorker \<Rightarrow> ''spawn_worker''
    | HmWorkerExec _ \<Rightarrow> ''worker_exec''
    | HmWorkerJoin _ \<Rightarrow> ''worker_join''
    | HmListdir _ \<Rightarrow> ''listdir''
    | HmMkdir _ \<Rightarrow> ''mkdir''
    | HmUnlink _ \<Rightarrow> ''unlink''
    | HmRename _ \<Rightarrow> ''rename''
    | HmSeek _ \<Rightarrow> ''seek''
    | HmIoctl _ \<Rightarrow> ''ioctl''
    | HmProcStdinWrite _ \<Rightarrow> ''proc_stdin_write''
    | HmProcStdinClose _ \<Rightarrow> ''proc_stdin_close''
    | HmProcStatus _ \<Rightarrow> ''proc_status''
    | HmProcStream _ \<Rightarrow> ''proc_stream''
    | HmFdStream _ \<Rightarrow> ''fd_stream''
    | HmWorkerRunAsync _ \<Rightarrow> ''worker_run_async''
    | HmWorkerOpenFile _ \<Rightarrow> ''worker_open_file''
    | HmWorkerSyscall _ \<Rightarrow> ''worker_syscall''
    | HmWorkerSyscallBegin _ \<Rightarrow> ''worker_syscall_begin''
    | HmWorkerSyscallAwait _ \<Rightarrow> ''worker_syscall_await''
    | HmWorkerKill _ \<Rightarrow> ''worker_kill''
    | HmBatchExec _ \<Rightarrow> ''batch_exec''
    | HmBatchOp _ \<Rightarrow> ''batch_op'')"

definition agent_kind :: "agent_message \<Rightarrow> string" where
  "agent_kind m = (case m of
      AmHelloOk _ \<Rightarrow> ''hello_ok''
    | AmHelloErr _ \<Rightarrow> ''hello_err''
    | AmExecResult _ \<Rightarrow> ''exec_result''
    | AmOpenFileResult _ \<Rightarrow> ''open_file_result''
    | AmReadResult _ \<Rightarrow> ''read_result''
    | AmWriteResult _ \<Rightarrow> ''write_result''
    | AmCloseResult _ \<Rightarrow> ''close_result''
    | AmReadFileResult _ \<Rightarrow> ''read_file_result''
    | AmWriteFileResult _ \<Rightarrow> ''write_file_result''
    | AmStatResult _ \<Rightarrow> ''stat_result''
    | AmTailFileResult _ \<Rightarrow> ''tail_file_result''
    | AmRunAsyncResult _ \<Rightarrow> ''run_async_result''
    | AmWaitResult _ \<Rightarrow> ''wait_result''
    | AmKillResult _ \<Rightarrow> ''kill_result''
    | AmGetPidResult _ \<Rightarrow> ''get_pid_result''
    | AmGetTimeResult _ \<Rightarrow> ''get_time_result''
    | AmSetTimeResult _ \<Rightarrow> ''set_time_result''
    | AmSleepClockResult _ \<Rightarrow> ''sleep_clock_result''
    | AmAdvanceClockResult _ \<Rightarrow> ''advance_clock_result''
    | AmSyscallResult _ \<Rightarrow> ''syscall_result''
    | AmReadMemResult _ \<Rightarrow> ''read_mem_result''
    | AmSpawnWorkerResult _ \<Rightarrow> ''spawn_worker_result''
    | AmWorkerExecResult _ \<Rightarrow> ''worker_exec_result''
    | AmWorkerJoinResult _ \<Rightarrow> ''worker_join_result''
    | AmListdirResult _ \<Rightarrow> ''listdir_result''
    | AmMkdirResult _ \<Rightarrow> ''mkdir_result''
    | AmUnlinkResult _ \<Rightarrow> ''unlink_result''
    | AmRenameResult _ \<Rightarrow> ''rename_result''
    | AmSeekResult _ \<Rightarrow> ''seek_result''
    | AmIoctlResult _ \<Rightarrow> ''ioctl_result''
    | AmProcStdinWriteResult _ \<Rightarrow> ''proc_stdin_write_result''
    | AmProcStdinCloseResult _ \<Rightarrow> ''proc_stdin_close_result''
    | AmProcStatusResult _ \<Rightarrow> ''proc_status_result''
    | AmProcStreamResult _ \<Rightarrow> ''proc_stream_result''
    | AmFdStreamResult _ \<Rightarrow> ''fd_stream_result''
    | AmWorkerRunAsyncResult _ \<Rightarrow> ''worker_run_async_result''
    | AmWorkerOpenFileResult _ \<Rightarrow> ''worker_open_file_result''
    | AmWorkerSyscallResult _ \<Rightarrow> ''worker_syscall_result''
    | AmWorkerSyscallBeginResult _ \<Rightarrow> ''worker_syscall_begin_result''
    | AmWorkerSyscallAwaitResult _ \<Rightarrow> ''worker_syscall_await_result''
    | AmWorkerKillResult _ \<Rightarrow> ''worker_kill_result''
    | AmBatchExecResult _ \<Rightarrow> ''batch_exec_result''
    | AmBatchOpResult _ \<Rightarrow> ''batch_op_result''
    | AmStreamFrame _ \<Rightarrow> ''stream_frame''
    | AmStreamEnd _ \<Rightarrow> ''stream_end''
    | AmAgentError _ \<Rightarrow> ''agent_error'')"

definition PROTOCOL_VERSION :: u32 where
  "PROTOCOL_VERSION = 1"

end
