(* ===== verification/Frame_Codec.thy ===== *)
theory Frame_Codec
  imports Provium_Prelude
begin

text \<open>
  Length-prefixed framing, \<open>provium-protocol/src/frame.rs\<close>: the resumable \<open>FrameReader\<close>,
  \<open>read_full\<close>, \<open>read_frame\<close> and \<open>write_frame\<close>.

  A reader is the sequence of what its \<open>read\<close> calls meet: bytes that have arrived (an
  empty arrival is an end of file), or an error. A call takes at most as many bytes as it
  has room for and leaves the rest of the arrival for the next call; past the last entry
  the reader is at its end. The message bodies are encoded by \<open>rmp_serde\<close>, which is not
  part of the repository: \<open>enc\<close> and \<open>dec\<close> are parameters, \<open>None\<close> its errors.
\<close>

section \<open>Readers\<close>

datatype arrival = Chunk bytes | ReadFails io_error

type_synonym reader = "arrival list"

fun reader_read :: "nat \<Rightarrow> reader \<Rightarrow> (io_error + bytes) \<times> reader" where
  "reader_read n [] = (Inr [], [])"
| "reader_read n (ReadFails e # rd) = (Inl e, rd)"
| "reader_read n (Chunk bs # rd) =
     (Inr (take n bs), if length bs \<le> n then rd else Chunk (drop n bs) # rd)"

fun arrival_size :: "arrival \<Rightarrow> nat" where
  "arrival_size (Chunk bs) = Suc (length bs)"
| "arrival_size (ReadFails e) = 1"

definition reader_size :: "reader \<Rightarrow> nat" where
  "reader_size rd = (\<Sum>a\<leftarrow>rd. arrival_size a)"

lemma reader_size_simps [simp]:
  "reader_size [] = 0" "reader_size (a # rd) = arrival_size a + reader_size rd"
  by (simp_all add: reader_size_def)

lemma reader_read_shrinks:
  assumes "reader_read n rd = (r, rd')" and "0 < n" and "r = Inl e \<or> (r = Inr bs \<and> bs \<noteq> [])"
  shows "reader_size rd' < reader_size rd"
  using assms by (cases "(n, rd)" rule: reader_read.cases) (auto split: if_splits)

section \<open>The frame reader\<close>

datatype frame_error =
    Eof
  | FrameUnexpectedEof nat nat
  | FrameTooLarge nat nat
  | FrameIo io_error
  | FrameEncode
  | FrameDecode

definition DEFAULT_MAX_FRAME_BYTES :: nat where
  "DEFAULT_MAX_FRAME_BYTES = 128 * 1024 * 1024"

definition HEADER_LEN :: nat where
  "HEADER_LEN = 4"

record frame_reader =
  max_body_bytes :: nat
  header :: bytes
  header_read :: nat
  body :: bytes
  body_read :: nat

definition frame_reader_new :: "nat \<Rightarrow> frame_reader" where
  "frame_reader_new mx =
     \<lparr>max_body_bytes = mx, header = replicate HEADER_LEN 0, header_read = 0, body = [], body_read = 0\<rparr>"

text \<open>\<open>read_full\<close>: the result, the buffer and its count of bytes, and the reader.\<close>

function read_full :: "reader \<Rightarrow> bytes \<Rightarrow> nat \<Rightarrow> (io_error + unit) \<times> (bytes \<times> nat) \<times> reader" where
  "read_full rd buf tot =
     (if length buf \<le> tot then (Inr (), (buf, tot), rd)
      else case reader_read (length buf - tot) rd of
             (Inr [], rd') \<Rightarrow> (Inr (), (buf, tot), rd')
           | (Inr (b # bs), rd') \<Rightarrow>
               read_full rd' (splice_at tot (b # bs) buf) (tot + length (b # bs))
           | (Inl Interrupted, rd') \<Rightarrow> read_full rd' buf tot
           | (Inl e, rd') \<Rightarrow> (Inl e, (buf, tot), rd'))"
  by pat_completeness auto

termination read_full
  by (relation "measure (\<lambda>(rd, buf, tot). reader_size rd)")
     (auto intro: reader_read_shrinks [OF sym])

declare read_full.simps [simp del]

definition resize :: "nat \<Rightarrow> bytes \<Rightarrow> bytes" where
  "resize n bs = take n bs @ replicate (n - length bs) 0"

definition frame_read ::
  "(bytes \<Rightarrow> 'm option) \<Rightarrow> frame_reader \<Rightarrow> reader \<Rightarrow> (frame_error + 'm) \<times> frame_reader \<times> reader" where
  "frame_read dec fr rd =
     (case read_full rd (header fr) (header_read fr) of
        (Inl e, (h, n), rd1) \<Rightarrow> (Inl (FrameIo e), fr\<lparr>header := h, header_read := n\<rparr>, rd1)
      | (Inr _, (h, n), rd1) \<Rightarrow>
          let fr1 = fr\<lparr>header := h, header_read := n\<rparr>
          in if n = 0 then (Inl Eof, fr1, rd1)
             else if n < HEADER_LEN then (Inl (FrameUnexpectedEof n HEADER_LEN), fr1, rd1)
             else let body_len = unat (from_be h :: u32)
                  in if max_body_bytes fr < body_len
                     then (Inl (FrameTooLarge body_len (max_body_bytes fr)), fr1, rd1)
                     else case read_full rd1 (resize body_len (body fr)) (body_read fr) of
                            (Inl e, (b, k), rd2) \<Rightarrow>
                              (Inl (FrameIo e), fr1\<lparr>body := b, body_read := k\<rparr>, rd2)
                          | (Inr _, (b, k), rd2) \<Rightarrow>
                              let fr2 = fr1\<lparr>body := b, body_read := k\<rparr>
                              in if k < body_len then (Inl (FrameUnexpectedEof k body_len), fr2, rd2)
                                 else case dec b of
                                        None \<Rightarrow> (Inl FrameDecode, fr2, rd2)
                                      | Some m \<Rightarrow>
                                          (Inr m, fr2\<lparr>header_read := 0, body_read := 0, body := []\<rparr>, rd2))"

definition read_frame :: "(bytes \<Rightarrow> 'm option) \<Rightarrow> reader \<Rightarrow> nat \<Rightarrow> (frame_error + 'm) \<times> reader" where
  "read_frame dec rd mx = (let (r, fr, rd') = frame_read dec (frame_reader_new mx) rd in (r, rd'))"

section \<open>Writing\<close>

text \<open>\<open>wr_room\<close>: how many more bytes the writer takes before it fails, if it ever does.\<close>

record writer =
  wr_out :: bytes
  wr_room :: "nat option"

definition writer_write_all :: "bytes \<Rightarrow> writer \<Rightarrow> (io_error + unit) \<times> writer" where
  "writer_write_all bs w =
     (case wr_room w of
        None \<Rightarrow> (Inr (), w\<lparr>wr_out := wr_out w @ bs\<rparr>)
      | Some n \<Rightarrow>
          if length bs \<le> n then (Inr (), w\<lparr>wr_out := wr_out w @ bs, wr_room := Some (n - length bs)\<rparr>)
          else (Inl BrokenPipe, w\<lparr>wr_out := wr_out w @ take n bs, wr_room := Some 0\<rparr>))"

definition write_frame :: "('m \<Rightarrow> bytes option) \<Rightarrow> 'm \<Rightarrow> nat \<Rightarrow> writer \<Rightarrow> (frame_error + unit) \<times> writer" where
  "write_frame enc message mx w =
     (case enc message of
        None \<Rightarrow> (Inl FrameEncode, w)
      | Some b \<Rightarrow>
          let buf = replicate HEADER_LEN 0 @ b;
              body_len = length buf - HEADER_LEN;
              mx' = min mx (2 ^ 32 - 1)
          in if mx' < body_len then (Inl (FrameTooLarge body_len mx'), w)
             else case writer_write_all (splice_at 0 (to_be 4 (of_nat body_len :: u32)) buf) w of
                    (Inl e, w') \<Rightarrow> (Inl (FrameIo e), w')
                  | (Inr _, w') \<Rightarrow> (Inr (), w'))"

end
