(* ===== verification/Agent_State.thy ===== *)
theory Agent_State
  imports Wire_Types Frame_Codec "HOL-Library.AList" "HOL-Library.Monad_Syntax"
begin

text \<open>
  The agent's shared state, \<open>provium-agent/src/state.rs\<close>: one counter of handles and the
  tables of open files, async processes, workers and worker-spawned processes. The
  operating system is a parameter, a record of functions on a world of any type: what the
  agent calls and what it gets back. A handler that does not return, because a loop of it
  never ends or because it panics, has no result: such handlers are option-valued.
\<close>

section \<open>The operating system\<close>

text \<open>An \<open>io::Error\<close>: its errno if it has one, whether its kind is \<open>IsADirectory\<close>, its text.\<close>

record os_io_error =
  ie_errno :: "i32 option"
  ie_is_directory :: bool
  ie_text :: string

record open_options =
  oo_read :: bool
  oo_write :: bool
  oo_create :: bool
  oo_truncate :: bool
  oo_append :: bool
  oo_create_new :: bool
  oo_mode :: u32

text \<open>What \<open>FileType\<close> and its Unix extension answer.\<close>

record file_type =
  ft_is_file :: bool
  ft_is_dir :: bool
  ft_is_symlink :: bool
  ft_is_fifo :: bool
  ft_is_socket :: bool
  ft_is_block_device :: bool
  ft_is_char_device :: bool

record metadata =
  md_len :: u64
  md_mtime :: i64
  md_mtime_nsec :: i64
  md_file_type :: file_type
  md_mode :: u32

datatype seek_from = FromStart u64 | FromCurrent i64 | FromEnd i64

text \<open>A spawned child: its pid and the parent's ends of its three pipes.\<close>

record child =
  ch_pid :: u32
  ch_stdin :: nat
  ch_stdout :: nat
  ch_stderr :: nat

record command =
  cd_program :: string
  cd_args :: "string list"
  cd_env :: "(string \<times> string) list"
  cd_env_clear :: bool
  cd_cwd :: "string option"

text \<open>How a process ended: with a code or by a signal.\<close>

record raw_status =
  rs_code :: "i32 option"
  rs_signal :: "i32 option"

text \<open>What \<open>recv\<close> or \<open>recv_timeout\<close> on the waiting thread's channel comes to.\<close>

datatype received_status = StatusSent "os_io_error + raw_status" | StatusTimeout | StatusDisconnected

text \<open>
  File descriptors, sockets and pipes are numbers, times are nanoseconds. \<open>os_spawn\<close> starts a
  command with three pipes, in a process group of its own; \<open>os_read_to_end\<close> gives what it read
  and the error it stopped at, if any. A control socket is a frame reader and a frame writer:
  \<open>os_sock_room\<close> and \<open>os_sock_incoming\<close> are what the peer lets through, \<open>os_sock_sent\<close> and
  \<open>os_sock_left\<close> record what was written and what is still unread. The last four fields are
  the codec \<open>rmp_serde\<close> of the two message types.
\<close>

record 'w os =
  os_open :: "open_options \<Rightarrow> string \<Rightarrow> 'w \<Rightarrow> (os_io_error + nat) \<times> 'w"
  os_read :: "nat \<Rightarrow> nat \<Rightarrow> 'w \<Rightarrow> (os_io_error + bytes) \<times> 'w"
  os_write :: "nat \<Rightarrow> bytes \<Rightarrow> 'w \<Rightarrow> (os_io_error + nat) \<times> 'w"
  os_close :: "nat \<Rightarrow> 'w \<Rightarrow> 'w"
  os_read_to_end :: "nat \<Rightarrow> 'w \<Rightarrow> (bytes \<times> os_io_error option) \<times> 'w"
  os_write_all :: "nat \<Rightarrow> bytes \<Rightarrow> 'w \<Rightarrow> (os_io_error + unit) \<times> 'w"
  os_seek :: "nat \<Rightarrow> seek_from \<Rightarrow> 'w \<Rightarrow> (os_io_error + u64) \<times> 'w"
  os_metadata :: "bool \<Rightarrow> string \<Rightarrow> 'w \<Rightarrow> os_io_error + metadata"
  os_read_dir :: "string \<Rightarrow> 'w \<Rightarrow> os_io_error + (os_io_error + string \<times> file_type option) list"
  os_fd_len :: "nat \<Rightarrow> 'w \<Rightarrow> os_io_error + u64"
  os_mkdir :: "bool \<Rightarrow> u32 \<Rightarrow> string \<Rightarrow> 'w \<Rightarrow> (os_io_error + unit) \<times> 'w"
  os_remove_file :: "string \<Rightarrow> 'w \<Rightarrow> (os_io_error + unit) \<times> 'w"
  os_remove_dir :: "string \<Rightarrow> 'w \<Rightarrow> (os_io_error + unit) \<times> 'w"
  os_rename :: "string \<Rightarrow> string \<Rightarrow> 'w \<Rightarrow> (os_io_error + unit) \<times> 'w"
  os_spawn :: "command \<Rightarrow> 'w \<Rightarrow> (os_io_error + child) \<times> 'w"
  os_child_wait :: "u32 \<Rightarrow> 'w \<Rightarrow> (os_io_error + raw_status) \<times> 'w"
  os_try_wait :: "u32 \<Rightarrow> 'w \<Rightarrow> (os_io_error + raw_status option) \<times> 'w"
  os_recv_status :: "u32 \<Rightarrow> nat option \<Rightarrow> 'w \<Rightarrow> received_status \<times> 'w"
  os_kill :: "int \<Rightarrow> i32 \<Rightarrow> 'w \<Rightarrow> (os_io_error + unit) \<times> 'w"
  os_now :: "'w \<Rightarrow> nat"
  os_sleep :: "nat \<Rightarrow> 'w \<Rightarrow> 'w"
  os_clock_gettime :: "'w \<Rightarrow> (os_io_error + i64 \<times> i64) \<times> 'w"
  os_clock_settime :: "i64 \<times> i64 \<Rightarrow> 'w \<Rightarrow> (os_io_error + unit) \<times> 'w"
  os_read_exact_at :: "nat \<Rightarrow> u64 \<Rightarrow> nat \<Rightarrow> 'w \<Rightarrow> (os_io_error + bytes) \<times> 'w"
  os_ioctl :: "nat \<Rightarrow> u64 \<Rightarrow> bytes \<Rightarrow> bytes list \<Rightarrow> 'w \<Rightarrow> (i32 \<times> os_io_error \<times> bytes \<times> bytes list) \<times> 'w"
  os_syscall :: "i64 \<Rightarrow> i64 list \<Rightarrow> bytes list \<Rightarrow> 'w \<Rightarrow> (i64 \<times> os_io_error \<times> bytes list) \<times> 'w"
  os_buf_addr :: "bytes list \<Rightarrow> nat \<Rightarrow> 'w \<Rightarrow> u64"
  os_strerror :: "i32 \<Rightarrow> string"
  os_current_exe :: "'w \<Rightarrow> os_io_error + string"
  os_socketpair :: "'w \<Rightarrow> (os_io_error + nat \<times> nat) \<times> 'w"
  os_spawn_worker :: "string \<Rightarrow> nat \<Rightarrow> 'w \<Rightarrow> (os_io_error + u32) \<times> 'w"
  os_shutdown :: "nat \<Rightarrow> 'w \<Rightarrow> 'w"
  os_sock_room :: "nat \<Rightarrow> 'w \<Rightarrow> nat option"
  os_sock_sent :: "nat \<Rightarrow> bytes \<Rightarrow> 'w \<Rightarrow> 'w"
  os_sock_incoming :: "nat \<Rightarrow> 'w \<Rightarrow> reader"
  os_sock_left :: "nat \<Rightarrow> reader \<Rightarrow> 'w \<Rightarrow> 'w"
  os_io_text :: "io_error \<Rightarrow> string"
  os_codec_text :: string
  os_kernel_release :: "'w \<Rightarrow> string option"
  os_enc_host :: "host_message \<Rightarrow> bytes option"
  os_dec_host :: "bytes \<Rightarrow> host_message option"
  os_enc_agent :: "agent_message \<Rightarrow> bytes option"
  os_dec_agent :: "bytes \<Rightarrow> agent_message option"

section \<open>The text of handles\<close>

fun file_text :: "file_handle \<Rightarrow> string" where
  "file_text (FileHandle i) = ''file#'' @ show_nat (unat i)"

fun proc_text :: "process_handle \<Rightarrow> string" where
  "proc_text (ProcessHandle i) = ''proc#'' @ show_nat (unat i)"

fun worker_text :: "worker_handle \<Rightarrow> string" where
  "worker_text (WorkerHandle i) = ''worker#'' @ show_nat (unat i)"

text \<open>The \<open>Display\<close> of \<open>FrameError\<close>; the texts of the errors it wraps are the system's.\<close>

fun frame_error_text :: "'w os \<Rightarrow> frame_error \<Rightarrow> string" where
  "frame_error_text os (FrameIo e) = ''frame I/O: '' @ os_io_text os e"
| "frame_error_text os Eof = ''connection closed at frame boundary''"
| "frame_error_text os (FrameUnexpectedEof n ex) =
     ''connection closed mid-frame after '' @ show_nat n @ '' bytes (expected '' @ show_nat ex @ '')''"
| "frame_error_text os (FrameTooLarge n mx) =
     ''frame too large: '' @ show_nat n @ '' bytes (max '' @ show_nat mx @ '')''"
| "frame_error_text os FrameDecode = ''decode: '' @ os_codec_text os"
| "frame_error_text os FrameEncode = ''encode: '' @ os_codec_text os"

section \<open>The tables\<close>

record worker_conn =
  wc_child :: u32
  wc_control :: nat

text \<open>
  A buffer of captured output is a cell of the agent's heap, shared by the slot, the drain
  thread and any stream. A drain thread is the pipe it reads from.
\<close>

record process_slot =
  sl_child :: "u32 option"
  sl_stdout_buf :: nat
  sl_stderr_buf :: nat
  sl_stdout_join :: "nat option"
  sl_stderr_join :: "nat option"
  sl_stdin :: "nat option"

record agent_state =
  as_worker_executable :: "string option"
  as_next_handle :: u64
  as_files :: "(file_handle \<times> nat) list"
  as_processes :: "(process_handle \<times> process_slot) list"
  as_workers :: "(worker_handle \<times> worker_conn) list"
  as_worker_processes :: "(process_handle \<times> (worker_handle \<times> process_handle)) list"
  as_bufs :: "bytes list"

definition agent_new :: agent_state where
  "agent_new =
     \<lparr>as_worker_executable = None, as_next_handle = 1, as_files = [], as_processes = [],
      as_workers = [], as_worker_processes = [], as_bufs = []\<rparr>"

definition with_worker_executable :: "string \<Rightarrow> agent_state \<Rightarrow> agent_state" where
  "with_worker_executable exe st = st\<lparr>as_worker_executable := Some exe\<rparr>"

definition worker_executable :: "'w os \<Rightarrow> agent_state \<Rightarrow> 'w \<Rightarrow> os_io_error + string" where
  "worker_executable os st w =
     (case as_worker_executable st of Some p \<Rightarrow> Inr p | None \<Rightarrow> os_current_exe os w)"

definition alloc_id :: "agent_state \<Rightarrow> u64 \<times> agent_state" where
  "alloc_id st = (as_next_handle st, st\<lparr>as_next_handle := as_next_handle st + 1\<rparr>)"

subsection \<open>Workers\<close>

definition insert_worker_conn :: "worker_conn \<Rightarrow> agent_state \<Rightarrow> worker_handle \<times> agent_state" where
  "insert_worker_conn conn st =
     (let (i, st1) = alloc_id st; h = WorkerHandle i
      in (h, st1\<lparr>as_workers := AList.update h conn (as_workers st1)\<rparr>))"

definition worker_conn_of :: "worker_handle \<Rightarrow> agent_state \<Rightarrow> worker_conn option" where
  "worker_conn_of h st = map_of (as_workers st) h"

definition remove_worker_conn :: "worker_handle \<Rightarrow> agent_state \<Rightarrow> worker_conn option \<times> agent_state" where
  "remove_worker_conn h st =
     (map_of (as_workers st) h, st\<lparr>as_workers := AList.delete h (as_workers st)\<rparr>)"

definition has_worker :: "worker_handle \<Rightarrow> agent_state \<Rightarrow> bool" where
  "has_worker h st \<longleftrightarrow> map_of (as_workers st) h \<noteq> None"

definition open_worker_count :: "agent_state \<Rightarrow> nat" where
  "open_worker_count st = length (as_workers st)"

subsection \<open>Worker-spawned processes\<close>

definition insert_worker_process ::
  "worker_handle \<Rightarrow> process_handle \<Rightarrow> agent_state \<Rightarrow> process_handle \<times> agent_state" where
  "insert_worker_process worker inner st =
     (let (i, st1) = alloc_id st; outer = ProcessHandle i
      in (outer, st1\<lparr>as_worker_processes := AList.update outer (worker, inner) (as_worker_processes st1)\<rparr>))"

definition worker_process :: "process_handle \<Rightarrow> agent_state \<Rightarrow> (worker_handle \<times> process_handle) option" where
  "worker_process h st = map_of (as_worker_processes st) h"

definition remove_worker_process ::
  "process_handle \<Rightarrow> agent_state \<Rightarrow> (worker_handle \<times> process_handle) option \<times> agent_state" where
  "remove_worker_process h st =
     (map_of (as_worker_processes st) h,
      st\<lparr>as_worker_processes := AList.delete h (as_worker_processes st)\<rparr>)"

definition remove_worker_processes_of :: "worker_handle \<Rightarrow> agent_state \<Rightarrow> agent_state" where
  "remove_worker_processes_of worker st =
     st\<lparr>as_worker_processes := filter (\<lambda>x. fst (snd x) \<noteq> worker) (as_worker_processes st)\<rparr>"

subsection \<open>Processes\<close>

definition insert_process :: "process_slot \<Rightarrow> agent_state \<Rightarrow> process_handle \<times> agent_state" where
  "insert_process slot st =
     (let (i, st1) = alloc_id st; h = ProcessHandle i
      in (h, st1\<lparr>as_processes := AList.update h slot (as_processes st1)\<rparr>))"

definition take_process :: "process_handle \<Rightarrow> agent_state \<Rightarrow> process_slot option \<times> agent_state" where
  "take_process h st =
     (map_of (as_processes st) h, st\<lparr>as_processes := AList.delete h (as_processes st)\<rparr>)"

definition with_process_mut ::
  "process_handle \<Rightarrow> (process_slot \<Rightarrow> 'r \<times> process_slot) \<Rightarrow> agent_state \<Rightarrow> 'r option \<times> agent_state" where
  "with_process_mut h f st =
     (case map_of (as_processes st) h of
        None \<Rightarrow> (None, st)
      | Some slot \<Rightarrow>
          let (r, slot') = f slot
          in (Some r, st\<lparr>as_processes := AList.update h slot' (as_processes st)\<rparr>))"

definition open_process_count :: "agent_state \<Rightarrow> nat" where
  "open_process_count st = length (as_processes st)"

fun signal_each :: "'w os \<Rightarrow> i32 \<Rightarrow> process_slot list \<Rightarrow> 'w \<Rightarrow> u32 \<times> 'w" where
  "signal_each os signal [] w = (0, w)"
| "signal_each os signal (slot # slots) w =
     (case sl_child slot of
        None \<Rightarrow> signal_each os signal slots w
      | Some pid \<Rightarrow>
          let (_, w1) = os_kill os (sint pid) signal w;
              (n, w2) = signal_each os signal slots w1
          in (n + 1, w2))"

definition signal_all :: "'w os \<Rightarrow> i32 \<Rightarrow> agent_state \<Rightarrow> 'w \<Rightarrow> u32 \<times> 'w" where
  "signal_all os signal st w = signal_each os signal (map snd (as_processes st)) w"

text \<open>
  The thread \<open>drain_into\<close> (\<open>ops/process.rs\<close>) reads its pipe to the end; it has no result when
  the pipe never ends. Joining it makes its bytes appear in the shared buffer; the pipe is
  closed with the thread. A slot that goes out of scope closes the child's standard input.
\<close>

definition drop_slot :: "'w os \<Rightarrow> process_slot \<Rightarrow> 'w \<Rightarrow> 'w" where
  "drop_slot os slot w = (case sl_stdin slot of None \<Rightarrow> w | Some pipe \<Rightarrow> os_close os pipe w)"

partial_function (option) drain_into :: "'w os \<Rightarrow> nat \<Rightarrow> bytes \<Rightarrow> 'w \<Rightarrow> (bytes \<times> 'w) option" where
  "drain_into os pipe sink w =
     (case os_read os pipe 4096 w of
        (Inr [], w1) \<Rightarrow> Some (sink, w1)
      | (Inr (b # bs), w1) \<Rightarrow> drain_into os pipe (sink @ b # bs) w1
      | (Inl e, w1) \<Rightarrow> Some (sink, w1))"

definition join_drain ::
  "'w os \<Rightarrow> nat option \<Rightarrow> nat \<Rightarrow> agent_state \<Rightarrow> 'w \<Rightarrow> (agent_state \<times> 'w) option" where
  "join_drain os join buf st w =
     (case join of
        None \<Rightarrow> Some (st, w)
      | Some pipe \<Rightarrow>
          do {
            (sink, w1) \<leftarrow> drain_into os pipe (as_bufs st ! buf) w;
            Some (st\<lparr>as_bufs := (as_bufs st)[buf := sink]\<rparr>, os_close os pipe w1)
          })"

definition worst_status :: "i32 \<Rightarrow> os_io_error + raw_status \<Rightarrow> i32" where
  "worst_status worst r =
     (let s = (case r of
                 Inr status \<Rightarrow>
                   (case rs_code status of
                      Some c \<Rightarrow> c
                    | None \<Rightarrow> 128 + (case rs_signal status of Some g \<Rightarrow> g | None \<Rightarrow> 0))
               | Inl e \<Rightarrow> 1)
      in if worst <s s then s else worst)"

fun reap_slots ::
  "'w os \<Rightarrow> process_slot list \<Rightarrow> i32 \<Rightarrow> agent_state \<Rightarrow> 'w \<Rightarrow> (i32 \<times> agent_state \<times> 'w) option" where
  "reap_slots os [] worst st w = Some (worst, st, w)"
| "reap_slots os (slot # slots) worst st w =
     (let (worst1, w1) =
            (case sl_child slot of
               None \<Rightarrow> (worst, w)
             | Some pid \<Rightarrow> let (r, w1) = os_child_wait os pid w in (worst_status worst r, w1))
      in do {
           (st2, w2) \<leftarrow> join_drain os (sl_stdout_join slot) (sl_stdout_buf slot) st w1;
           (st3, w3) \<leftarrow> join_drain os (sl_stderr_join slot) (sl_stderr_buf slot) st2 w2;
           reap_slots os slots worst1 st3 (drop_slot os slot w3)
         })"

definition reap_all_processes :: "'w os \<Rightarrow> agent_state \<Rightarrow> 'w \<Rightarrow> (i32 \<times> agent_state \<times> 'w) option" where
  "reap_all_processes os st w =
     reap_slots os (map snd (as_processes st)) 0 (st\<lparr>as_processes := []\<rparr>) w"

subsection \<open>Files\<close>

definition insert_file :: "nat \<Rightarrow> agent_state \<Rightarrow> file_handle \<times> agent_state" where
  "insert_file fd st =
     (let (i, st1) = alloc_id st; h = FileHandle i
      in (h, st1\<lparr>as_files := AList.update h fd (as_files st1)\<rparr>))"

definition take_file :: "file_handle \<Rightarrow> agent_state \<Rightarrow> nat option \<times> agent_state" where
  "take_file h st = (map_of (as_files st) h, st\<lparr>as_files := AList.delete h (as_files st)\<rparr>)"

definition file_of :: "file_handle \<Rightarrow> agent_state \<Rightarrow> nat option" where
  "file_of h st = map_of (as_files st) h"

definition open_file_count :: "agent_state \<Rightarrow> nat" where
  "open_file_count st = length (as_files st)"

end
