(* ===== verification/Agent_Files.thy ===== *)
theory Agent_Files
  imports Agent_State
begin

text \<open>
  The file operations of the agent, \<open>provium-agent/src/ops/file.rs\<close>, with the helpers of
  \<open>ops/util.rs\<close>. Every handler takes the arguments of its request, the agent's state and the
  world, and gives the reply, the state and the world.
\<close>

section \<open>Helpers\<close>

definition os_error_from_io :: "os_io_error \<Rightarrow> os_error" where
  "os_error_from_io e =
     \<lparr>oe_errno = (case ie_errno e of Some n \<Rightarrow> n | None \<Rightarrow> 0), oe_message = ie_text e\<rparr>"

definition from_errno :: "'w os \<Rightarrow> i32 \<Rightarrow> os_error" where
  "from_errno os errno = \<lparr>oe_errno = errno, oe_message = os_strerror os errno\<rparr>"

definition kill_process_group :: "'w os \<Rightarrow> u32 \<Rightarrow> i32 \<Rightarrow> 'w \<Rightarrow> 'w" where
  "kill_process_group os pid signal w =
     (if sint pid \<le> 1 then w
      else snd (os_kill os (sint pid) signal (snd (os_kill os (- sint pid) signal w))))"

text \<open>The \<open>match\<close> every handler ends with: \<open>Ok\<close> values through \<open>f\<close>, errors onto the wire.\<close>

fun to_op :: "('a \<Rightarrow> 'b) \<Rightarrow> os_io_error + 'a \<Rightarrow> 'b op_result" where
  "to_op f (Inr x) = OpOk (f x)"
| "to_op f (Inl e) = OpErr (os_error_from_io e)"

definition agent_error_of :: "agent_error_kind \<Rightarrow> string \<Rightarrow> agent_message" where
  "agent_error_of k msg = AmAgentError \<lparr>ae_kind = k, ae_message = msg\<rparr>"

definition unknown_handle :: "string \<Rightarrow> agent_message" where
  "unknown_handle detail = agent_error_of UnknownHandle detail"

definition with_file_mut ::
  "file_handle \<Rightarrow> (nat \<Rightarrow> 'w \<Rightarrow> 'r \<times> 'w) \<Rightarrow> agent_state \<Rightarrow> 'w \<Rightarrow> 'r option \<times> 'w" where
  "with_file_mut h f st w =
     (case map_of (as_files st) h of
        None \<Rightarrow> (None, w)
      | Some fd \<Rightarrow> let (r, w1) = f fd w in (Some r, w1))"

section \<open>Open, read, write, close\<close>

definition DEFAULT_CREATE_PERM :: u32 where
  "DEFAULT_CREATE_PERM = 420"

text \<open>Permissions are written in decimal: \<open>0o644\<close> is 420, \<open>0o666\<close> is 438, \<open>0o755\<close> is 493. \<open>OpenOptions::new\<close>: no access, and the mode that the standard library starts from.\<close>

definition open_options_new :: open_options where
  "open_options_new =
     \<lparr>oo_read = False, oo_write = False, oo_create = False, oo_truncate = False,
      oo_append = False, oo_create_new = False, oo_mode = 438\<rparr>"

definition apply_open_mode :: "open_options \<Rightarrow> open_mode \<Rightarrow> open_options" where
  "apply_open_mode opts mode =
     opts\<lparr>oo_read := om_read mode, oo_write := om_write mode, oo_create := om_create mode,
          oo_truncate := om_truncate mode, oo_append := om_append mode,
          oo_create_new := om_create mode \<and> om_exclusive mode\<rparr>"

definition open_opts :: "open_file_args \<Rightarrow> open_options" where
  "open_opts args =
     (let opts = apply_open_mode open_options_new (of_mode args)
      in if om_create (of_mode args)
         then opts\<lparr>oo_mode := (case of_create_perm args of Some p \<Rightarrow> p | None \<Rightarrow> DEFAULT_CREATE_PERM)\<rparr>
         else opts)"

definition open_file ::
  "'w os \<Rightarrow> open_file_args \<Rightarrow> agent_state \<Rightarrow> 'w \<Rightarrow> agent_message \<times> agent_state \<times> 'w" where
  "open_file os args st w =
     (case os_open os (open_opts args) (of_path args) w of
        (Inr fd, w1) \<Rightarrow>
          let (h, st1) = insert_file fd st in (AmOpenFileResult (OpOk h), st1, w1)
      | (Inl e, w1) \<Rightarrow> (AmOpenFileResult (OpErr (os_error_from_io e)), st, w1))"

definition PER_CALL_CAP :: u64 where
  "PER_CALL_CAP = 4 * 1024 * 1024"

definition read_op ::
  "'w os \<Rightarrow> read_args \<Rightarrow> agent_state \<Rightarrow> 'w \<Rightarrow> agent_message \<times> agent_state \<times> 'w" where
  "read_op os args st w =
     (let to_read = unat (min (rd_max_bytes args) PER_CALL_CAP)
      in case with_file_mut (rd_handle args)
                (\<lambda>fd w. let (r, w1) = os_read os fd to_read w
                        in (to_op (\<lambda>bs. \<lparr>ro_data = bs\<rparr>) r, w1)) st w of
           (Some result, w1) \<Rightarrow> (AmReadResult result, st, w1)
         | (None, w1) \<Rightarrow> (unknown_handle (''read on '' @ file_text (rd_handle args)), st, w1))"

definition write_op ::
  "'w os \<Rightarrow> write_args \<Rightarrow> agent_state \<Rightarrow> 'w \<Rightarrow> agent_message \<times> agent_state \<times> 'w" where
  "write_op os args st w =
     (case with_file_mut (wa_handle args)
             (\<lambda>fd w. let (r, w1) = os_write os fd (wa_data args) w
                     in (to_op (\<lambda>n. \<lparr>wo_written = of_nat n\<rparr>) r, w1)) st w of
        (Some result, w1) \<Rightarrow> (AmWriteResult result, st, w1)
      | (None, w1) \<Rightarrow> (unknown_handle (''write on '' @ file_text (wa_handle args)), st, w1))"

definition close_op ::
  "'w os \<Rightarrow> close_args \<Rightarrow> agent_state \<Rightarrow> 'w \<Rightarrow> agent_message \<times> agent_state \<times> 'w" where
  "close_op os args st w =
     (case take_file (cl_handle args) st of
        (Some fd, st1) \<Rightarrow> (AmCloseResult (OpOk ()), st1, os_close os fd w)
      | (None, st1) \<Rightarrow> (unknown_handle (''close on '' @ file_text (cl_handle args)), st1, w))"

section \<open>Whole files\<close>

text \<open>A \<open>File\<close> that goes out of scope is closed.\<close>

definition read_file_op :: "'w os \<Rightarrow> read_file_args \<Rightarrow> 'w \<Rightarrow> agent_message \<times> 'w" where
  "read_file_op os args w =
     (case os_open os (open_options_new\<lparr>oo_read := True\<rparr>) (rf_path args) w of
        (Inr fd, w1) \<Rightarrow>
          let ((buf, err), w2) = os_read_to_end os fd w1;
              w3 = os_close os fd w2
          in (AmReadFileResult (case err of None \<Rightarrow> OpOk \<lparr>ro_data = buf\<rparr> | Some e \<Rightarrow> OpErr (os_error_from_io e)), w3)
      | (Inl e, w1) \<Rightarrow> (AmReadFileResult (OpErr (os_error_from_io e)), w1))"

fun write_file_options :: "write_file_mode \<Rightarrow> open_options \<Rightarrow> open_options" where
  "write_file_options WfReplace opts = opts\<lparr>oo_create := True, oo_truncate := True\<rparr>"
| "write_file_options WfAppend opts = opts\<lparr>oo_create := True, oo_append := True\<rparr>"
| "write_file_options WfExclusive opts = opts\<lparr>oo_create_new := True\<rparr>"

definition write_file_op :: "'w os \<Rightarrow> write_file_args \<Rightarrow> 'w \<Rightarrow> agent_message \<times> 'w" where
  "write_file_op os args w =
     (let opts = write_file_options (wf_mode args) (open_options_new\<lparr>oo_write := True\<rparr>);
          opts = opts\<lparr>oo_mode := (case wf_create_perm args of Some p \<Rightarrow> p | None \<Rightarrow> DEFAULT_CREATE_PERM)\<rparr>
      in case os_open os opts (wf_path args) w of
           (Inr fd, w1) \<Rightarrow>
             let (r, w2) = os_write_all os fd (wf_data args) w1
             in (AmWriteFileResult (to_op (\<lambda>u. u) r), os_close os fd w2)
         | (Inl e, w1) \<Rightarrow> (AmWriteFileResult (OpErr (os_error_from_io e)), w1))"

section \<open>Metadata\<close>

text \<open>Saturating signed arithmetic at 64 bits.\<close>

definition sat_i64 :: "int \<Rightarrow> i64" where
  "sat_i64 x = word_of_int (max (- (2 ^ 63)) (min (2 ^ 63 - 1) x))"

definition saturating_mul :: "i64 \<Rightarrow> i64 \<Rightarrow> i64" where
  "saturating_mul a b = sat_i64 (sint a * sint b)"

definition saturating_add :: "i64 \<Rightarrow> i64 \<Rightarrow> i64" where
  "saturating_add a b = sat_i64 (sint a + sint b)"

definition mtime_ns :: "metadata \<Rightarrow> i64" where
  "mtime_ns m = saturating_add (saturating_mul (md_mtime m) 1000000000) (md_mtime_nsec m)"

definition classify_file_type :: "file_type \<Rightarrow> entry_type" where
  "classify_file_type t =
     (if ft_is_file t then EtFile
      else if ft_is_dir t then EtDirectory
      else if ft_is_symlink t then EtSymlink
      else if ft_is_fifo t then EtFifo
      else if ft_is_socket t then EtSocket
      else if ft_is_block_device t then EtBlockDevice
      else if ft_is_char_device t then EtCharDevice
      else EtOther)"

definition classify :: "metadata \<Rightarrow> entry_type" where
  "classify m =
     (let ft = md_file_type m
      in if ft_is_file ft then EtFile
         else if ft_is_dir ft then EtDirectory
         else if ft_is_symlink ft then EtSymlink
         else if ft_is_fifo ft then EtFifo
         else if ft_is_socket ft then EtSocket
         else if ft_is_block_device ft then EtBlockDevice
         else if ft_is_char_device ft then EtCharDevice
         else EtOther)"

definition metadata_to_wire :: "metadata \<Rightarrow> file_metadata" where
  "metadata_to_wire m =
     \<lparr>fm_size = md_len m, fm_mtime_ns = mtime_ns m, fm_entry_type = classify m,
      fm_perm = take_bit 12 (md_mode m)\<rparr>"

definition stat_op :: "'w os \<Rightarrow> stat_args \<Rightarrow> 'w \<Rightarrow> agent_message \<times> 'w" where
  "stat_op os args w =
     (AmStatResult (to_op metadata_to_wire (os_metadata os (st_follow_symlinks args) (st_path args) w)), w)"

section \<open>Directories\<close>

fun dir_entries :: "(os_io_error + string \<times> file_type option) list \<Rightarrow> dir_entry list" where
  "dir_entries [] = []"
| "dir_entries (Inl e # es) = dir_entries es"
| "dir_entries (Inr (name, t) # es) =
     \<lparr>de_name = name, de_entry_type = (case t of Some ty \<Rightarrow> classify_file_type ty | None \<Rightarrow> EtOther)\<rparr> # dir_entries es"

definition listdir_op :: "'w os \<Rightarrow> listdir_args \<Rightarrow> 'w \<Rightarrow> agent_message \<times> 'w" where
  "listdir_op os args w = (AmListdirResult (to_op dir_entries (os_read_dir os (ld_path args) w)), w)"

definition mkdir_op :: "'w os \<Rightarrow> mkdir_args \<Rightarrow> 'w \<Rightarrow> agent_message \<times> 'w" where
  "mkdir_op os args w =
     (let mode = (case mk_create_perm args of Some p \<Rightarrow> p | None \<Rightarrow> 493);
          (r, w1) = os_mkdir os (mk_parents args) mode (mk_path args) w
      in (AmMkdirResult (to_op (\<lambda>u. u) r), w1))"

definition unlink_op :: "'w os \<Rightarrow> unlink_args \<Rightarrow> 'w \<Rightarrow> agent_message \<times> 'w" where
  "unlink_op os args w =
     (case os_remove_file os (ul_path args) w of
        (Inr u, w1) \<Rightarrow> (AmUnlinkResult (OpOk ()), w1)
      | (Inl e, w1) \<Rightarrow>
          if ie_is_directory e
          then let (r, w2) = os_remove_dir os (ul_path args) w1 in (AmUnlinkResult (to_op (\<lambda>u. u) r), w2)
          else (AmUnlinkResult (OpErr (os_error_from_io e)), w1))"

definition rename_op :: "'w os \<Rightarrow> rename_args \<Rightarrow> 'w \<Rightarrow> agent_message \<times> 'w" where
  "rename_op os args w =
     (let (r, w1) = os_rename os (rn_from args) (rn_to args) w in (AmRenameResult (to_op (\<lambda>u. u) r), w1))"

section \<open>Seek\<close>

fun seek_target :: "seek_whence \<Rightarrow> i64 \<Rightarrow> seek_from" where
  "seek_target SeekSet off = FromStart (if off <s 0 then 0 else off)"
| "seek_target SeekCur off = FromCurrent off"
| "seek_target SeekEnd off = FromEnd off"

definition seek_op ::
  "'w os \<Rightarrow> seek_args \<Rightarrow> agent_state \<Rightarrow> 'w \<Rightarrow> agent_message \<times> agent_state \<times> 'w" where
  "seek_op os args st w =
     (case with_file_mut (sk_handle args)
             (\<lambda>fd w. let (r, w1) = os_seek os fd (seek_target (sk_whence args) (sk_offset args)) w
                     in (to_op (\<lambda>o'. o') r, w1)) st w of
        (Some r, w1) \<Rightarrow> (AmSeekResult r, st, w1)
      | (None, w1) \<Rightarrow> (unknown_handle (''seek on '' @ file_text (sk_handle args)), st, w1))"

end
