(* ===== verification/Agent_Process.thy ===== *)
theory Agent_Process
  imports Agent_Files "HOL-Library.Signed_Division"
begin

text \<open>
  Running things: \<open>ops/exec.rs\<close>, \<open>ops/clock.rs\<close>, \<open>ops/ioctl.rs\<close>, \<open>ops/syscall.rs\<close>,
  \<open>ops/read_mem.rs\<close> and the worker-independent part of \<open>ops/process.rs\<close>. The helper
  threads of \<open>Exec\<close> appear where their effect is needed: standard input is written when
  the child starts, the output is read to its end when the reading threads are joined.
\<close>

section \<open>Exec\<close>

definition SIGKILL :: i32 where
  "SIGKILL = 9"

definition spawn_child :: "'w os \<Rightarrow> exec_args \<Rightarrow> 'w \<Rightarrow> (os_io_error + child) \<times> 'w" where
  "spawn_child os args w =
     os_spawn os \<lparr>cd_program = ea_cmd args, cd_args = ea_args args, cd_env = ea_env args,
                  cd_env_clear = ea_env_clear args, cd_cwd = ea_cwd args\<rparr> w"

definition drain :: "'w os \<Rightarrow> nat \<Rightarrow> 'w \<Rightarrow> bytes \<times> 'w" where
  "drain os pipe w = (let ((buf, err), w1) = os_read_to_end os pipe w in (buf, os_close os pipe w1))"

definition disconnected :: os_io_error where
  "disconnected =
     \<lparr>ie_errno = None, ie_is_directory = False,
      ie_text = ''child wait disconnected before producing a status''\<rparr>"

definition millis :: "u64 \<Rightarrow> nat" where
  "millis ms = unat ms * 1000000"

text \<open>
  The waiting of \<open>wait_with_capture\<close>: whether the deadline passed, and the status. It has no
  result when the waiter disappears after the kill, where the code panics.
\<close>

definition capture_wait ::
  "'w os \<Rightarrow> u32 \<Rightarrow> u64 option \<Rightarrow> 'w \<Rightarrow> ((os_io_error + bool \<times> (os_io_error + raw_status)) \<times> 'w) option" where
  "capture_wait os pid timeout w =
     (case timeout of
        Some ms \<Rightarrow>
          (case os_recv_status os pid (Some (millis ms)) w of
             (StatusSent r, w1) \<Rightarrow> Some (Inr (False, r), w1)
           | (StatusTimeout, w1) \<Rightarrow>
               (case os_recv_status os pid None (kill_process_group os pid SIGKILL w1) of
                  (StatusSent r, w2) \<Rightarrow> Some (Inr (True, r), w2)
                | _ \<Rightarrow> None)
           | (StatusDisconnected, w1) \<Rightarrow> Some (Inl disconnected, w1))
      | None \<Rightarrow>
          (case os_recv_status os pid None w of
             (StatusSent r, w1) \<Rightarrow> Some (Inr (False, r), w1)
           | (_, w1) \<Rightarrow> Some (Inl disconnected, w1)))"

definition exit_of :: "bool \<Rightarrow> raw_status \<Rightarrow> exit_status" where
  "exit_of timed_out s =
     (if timed_out then ExitTimedOut
      else case rs_code s of
             Some code \<Rightarrow> Exited code
           | None \<Rightarrow> (case rs_signal s of Some sig \<Rightarrow> Signalled sig | None \<Rightarrow> Exited (- 1)))"

definition wait_with_capture ::
  "'w os \<Rightarrow> child \<Rightarrow> exec_args \<Rightarrow> 'w \<Rightarrow> ((os_io_error + exec_ok) \<times> 'w) option" where
  "wait_with_capture os c args w =
     (let (_, w1) = os_write_all os (ch_stdin c) (ea_stdin args) w;
          w2 = os_close os (ch_stdin c) w1
      in do {
           (r, w3) \<leftarrow> capture_wait os (ch_pid c) (ea_timeout_ms args) w2;
           case r of
             Inl e \<Rightarrow> Some (Inl e, w3)
           | Inr (timed_out, status) \<Rightarrow>
               let (out, w4) = drain os (ch_stdout c) w3;
                   (err, w5) = drain os (ch_stderr c) w4
               in Some (case status of
                          Inl e \<Rightarrow> Inl e
                        | Inr s \<Rightarrow> Inr \<lparr>eo_status = exit_of timed_out s, eo_stdout = out, eo_stderr = err\<rparr>, w5)
         })"

definition exec_run :: "'w os \<Rightarrow> exec_args \<Rightarrow> 'w \<Rightarrow> (exec_result \<times> 'w) option" where
  "exec_run os args w =
     (case spawn_child os args w of
        (Inl e, w1) \<Rightarrow> Some (ExecErr (os_error_from_io e), w1)
      | (Inr c, w1) \<Rightarrow>
          do {
            (r, w2) \<leftarrow> wait_with_capture os c args w1;
            Some (case r of Inr ok \<Rightarrow> ExecOk ok | Inl e \<Rightarrow> ExecErr (os_error_from_io e), w2)
          })"

section \<open>Clock\<close>

definition timespec_ns :: "i64 \<times> i64 \<Rightarrow> i64" where
  "timespec_ns ts = saturating_add (saturating_mul (fst ts) 1000000000) (snd ts)"

definition ns_timespec :: "i64 \<Rightarrow> i64 \<times> i64" where
  "ns_timespec ns =
     (word_of_int (sint ns sdiv 1000000000), word_of_int (sint ns smod 1000000000))"

definition get_time :: "'w os \<Rightarrow> 'w \<Rightarrow> agent_message \<times> 'w" where
  "get_time os w =
     (let (r, w1) = os_clock_gettime os w
      in (AmGetTimeResult (to_op (\<lambda>ts. \<lparr>ct_ns = timespec_ns ts\<rparr>) r), w1))"

definition set_time :: "'w os \<Rightarrow> set_time_args \<Rightarrow> 'w \<Rightarrow> agent_message \<times> 'w" where
  "set_time os args w =
     (let (r, w1) = os_clock_settime os (ns_timespec (stm_ns args)) w
      in (AmSetTimeResult (to_op (\<lambda>u. u) r), w1))"

definition sleep_clock :: "'w os \<Rightarrow> sleep_clock_args \<Rightarrow> 'w \<Rightarrow> agent_message \<times> 'w" where
  "sleep_clock os args w =
     (let secs = unat (slc_ns args) div 1000000000;
          nanos = unat (slc_ns args) mod 1000000000
      in (AmSleepClockResult (OpOk ()), os_sleep os (secs * 1000000000 + nanos) w))"

definition advance_clock :: "'w os \<Rightarrow> advance_clock_args \<Rightarrow> 'w \<Rightarrow> agent_message \<times> 'w" where
  "advance_clock os args w =
     (case os_clock_gettime os w of
        (Inl e, w1) \<Rightarrow> (AmAdvanceClockResult (OpErr (os_error_from_io e)), w1)
      | (Inr ts, w1) \<Rightarrow>
          let target = saturating_add (timespec_ns ts) (ac_ns args);
              (r, w2) = os_clock_settime os (ns_timespec target) w1
          in (AmAdvanceClockResult (to_op (\<lambda>u. u) r), w2))"

section \<open>Ioctls, system calls and memory\<close>

text \<open>\<open>usize::to_ne_bytes\<close> on the 64-bit little-endian machines the agent is built for.\<close>

definition ne_bytes :: "u64 \<Rightarrow> bytes" where
  "ne_bytes a = rev (to_be 8 a)"

definition splice_ptr :: "nat \<Rightarrow> u64 \<Rightarrow> bytes \<Rightarrow> bytes" where
  "splice_ptr off addr buf =
     (if off + length (ne_bytes addr) \<le> length buf then splice_at off (ne_bytes addr) buf else buf)"

fun splice_offsets :: "(nat \<Rightarrow> u64) \<Rightarrow> nat \<Rightarrow> nat \<Rightarrow> u32 list \<Rightarrow> bytes \<Rightarrow> bytes" where
  "splice_offsets addr n i [] buf = buf"
| "splice_offsets addr n i (off # offs) buf =
     splice_offsets addr n (Suc i) offs (if i < n then splice_ptr (unat off) (addr i) buf else buf)"

definition ioctl_op ::
  "'w os \<Rightarrow> ioctl_args \<Rightarrow> agent_state \<Rightarrow> 'w \<Rightarrow> agent_message \<times> agent_state \<times> 'w" where
  "ioctl_op os args st w =
     (let bufs = io_bufs args;
          buf = splice_offsets (\<lambda>i. os_buf_addr os bufs i w) (length bufs) 0 (io_ptr_offsets args) (io_data args)
      in case with_file_mut (io_handle args)
                (\<lambda>fd w. let ((ret, err, buf1, bufs1), w1) = os_ioctl os fd (io_cmd args) buf bufs w
                        in (if ret <s 0 then OpErr (os_error_from_io err)
                            else OpOk \<lparr>ioo_ret = scast ret, ioo_out_data = buf1, ioo_out_bufs = bufs1\<rparr>, w1)) st w of
           (Some r, w1) \<Rightarrow> (AmIoctlResult r, st, w1)
         | (None, w1) \<Rightarrow> (agent_error_of UnknownHandle (''ioctl on '' @ file_text (io_handle args)), st, w1))"

definition splice_nested :: "i64 list \<Rightarrow> nested_ptr \<Rightarrow> bytes list \<Rightarrow> bytes list" where
  "splice_nested addrs n bufs =
     (if unat (np_parent n) < length bufs
      then let addr = (if unat (np_child n) < length addrs then addrs ! unat (np_child n) else 0)
           in bufs[unat (np_parent n) := splice_ptr (unat (np_offset n)) addr (bufs ! unat (np_parent n))]
      else bufs)"

fun place_ptrs :: "i64 list \<Rightarrow> nat \<Rightarrow> u8 list \<Rightarrow> i64 list \<Rightarrow> i64 list" where
  "place_ptrs addrs i [] args = args"
| "place_ptrs addrs i (p # ps) args =
     place_ptrs addrs (Suc i) ps
       (if unat p < length args \<and> i < length addrs then args[unat p := addrs ! i] else args)"

definition syscall_op :: "'w os \<Rightarrow> syscall_args \<Rightarrow> 'w \<Rightarrow> agent_message \<times> 'w" where
  "syscall_op os args w =
     (let bufs = sy_bufs args;
          addrs = map (\<lambda>i. os_buf_addr os bufs i w) [0..<length bufs];
          bufs1 = fold (splice_nested addrs) (sy_nested args) bufs;
          regs = place_ptrs addrs 0 (sy_ptrs args) (sy_args args);
          ((ret, err, bufs2), w1) = os_syscall os (sy_nr args) regs bufs1 w;
          errno = (if ret <s 0 then (case ie_errno err of Some n \<Rightarrow> n | None \<Rightarrow> 0) else 0)
      in (AmSyscallResult \<lparr>sr_ret = ret, sr_errno = errno, sr_out_bufs = bufs2\<rparr>, w1))"

definition MAX_READ_LEN :: nat where
  "MAX_READ_LEN = 64 * 1024 * 1024"

definition EINVAL :: i32 where
  "EINVAL = 22"

definition read_self_mem :: "'w os \<Rightarrow> u64 \<Rightarrow> nat \<Rightarrow> 'w \<Rightarrow> (os_io_error + bytes) \<times> 'w" where
  "read_self_mem os addr len w =
     (case os_open os (open_options_new\<lparr>oo_read := True\<rparr>) ''/proc/self/mem'' w of
        (Inl e, w1) \<Rightarrow> (Inl e, w1)
      | (Inr fd, w1) \<Rightarrow>
          let (r, w2) = os_read_exact_at os fd addr len w1 in (r, os_close os fd w2))"

definition read_mem :: "'w os \<Rightarrow> read_mem_args \<Rightarrow> 'w \<Rightarrow> agent_message \<times> 'w" where
  "read_mem os args w =
     (let len = unat (rm_len args)
      in if MAX_READ_LEN < len then (AmReadMemResult (OpErr (from_errno os EINVAL)), w)
         else let (r, w1) = read_self_mem os (rm_addr args) len w
              in (AmReadMemResult (to_op (\<lambda>bs. \<lparr>rmo_bytes = bs\<rparr>) r), w1))"

section \<open>Async processes\<close>

definition alloc_buf :: "agent_state \<Rightarrow> nat \<times> agent_state" where
  "alloc_buf st = (length (as_bufs st), st\<lparr>as_bufs := as_bufs st @ [[]]\<rparr>)"

definition run_async ::
  "'w os \<Rightarrow> run_async_args \<Rightarrow> agent_state \<Rightarrow> 'w \<Rightarrow> agent_message \<times> agent_state \<times> 'w" where
  "run_async os args st w =
     (case os_spawn os \<lparr>cd_program = ra_cmd args, cd_args = ra_args args, cd_env = ra_env args,
                        cd_env_clear = ra_env_clear args, cd_cwd = ra_cwd args\<rparr> w of
        (Inl e, w1) \<Rightarrow> (AmRunAsyncResult (OpErr (os_error_from_io e)), st, w1)
      | (Inr c, w1) \<Rightarrow>
          let (ob, st1) = alloc_buf st;
              (eb, st2) = alloc_buf st1;
              (h, st3) = insert_process
                \<lparr>sl_child = Some (ch_pid c), sl_stdout_buf = ob, sl_stderr_buf = eb,
                 sl_stdout_join = Some (ch_stdout c), sl_stderr_join = Some (ch_stderr c),
                 sl_stdin = Some (ch_stdin c)\<rparr> st2
          in (AmRunAsyncResult (OpOk h), st3, w1))"

datatype wait_outcome = WaitExited raw_status | TimedOutKilled raw_status | WaitErr os_io_error

text \<open>\<open>wait_with_timeout\<close> polls every 20 ms; the deadline is fixed when it starts.\<close>

partial_function (option) wait_poll :: "'w os \<Rightarrow> u32 \<Rightarrow> nat \<Rightarrow> 'w \<Rightarrow> (wait_outcome \<times> 'w) option" where
  "wait_poll os pid deadline w =
     (case os_try_wait os pid w of
        (Inr (Some s), w1) \<Rightarrow> Some (WaitExited s, w1)
      | (Inr None, w1) \<Rightarrow>
          if deadline \<le> os_now os w1
          then (case os_child_wait os pid (kill_process_group os pid SIGKILL w1) of
                  (Inr s, w2) \<Rightarrow> Some (TimedOutKilled s, w2)
                | (Inl e, w2) \<Rightarrow> Some (WaitErr e, w2))
          else wait_poll os pid deadline (os_sleep os 20000000 w1)
      | (Inl e, w1) \<Rightarrow> Some (WaitErr e, w1))"

definition wait_with_timeout :: "'w os \<Rightarrow> u32 \<Rightarrow> nat \<Rightarrow> 'w \<Rightarrow> (wait_outcome \<times> 'w) option" where
  "wait_with_timeout os pid timeout w = wait_poll os pid (os_now os w + timeout) w"

text \<open>How \<open>wait\<close> waits for the child: whether it was killed at the deadline, and its status.\<close>

definition wait_child ::
  "'w os \<Rightarrow> u32 \<Rightarrow> u64 option \<Rightarrow> 'w \<Rightarrow> ((bool \<times> (os_io_error + raw_status)) \<times> 'w) option" where
  "wait_child os pid timeout w =
     (case timeout of
        Some ms \<Rightarrow>
          do {
            (r, w1) \<leftarrow> wait_with_timeout os pid (millis ms) w;
            Some (case r of
                    WaitExited s \<Rightarrow> (False, Inr s)
                  | TimedOutKilled s \<Rightarrow> (True, Inr s)
                  | WaitErr e \<Rightarrow> (False, Inl e), w1)
          }
      | None \<Rightarrow> let (r, w1) = os_child_wait os pid w in Some ((False, r), w1))"

definition take_buf :: "nat \<Rightarrow> agent_state \<Rightarrow> bytes \<times> agent_state" where
  "take_buf b st = (as_bufs st ! b, st\<lparr>as_bufs := (as_bufs st)[b := []]\<rparr>)"

definition wait_own ::
  "'w os \<Rightarrow> wait_args \<Rightarrow> agent_state \<Rightarrow> 'w \<Rightarrow> (agent_message \<times> agent_state \<times> 'w) option" where
  "wait_own os args st w =
     (case take_process (wt_handle args) st of
        (None, st1) \<Rightarrow> Some (agent_error_of UnknownHandle (''wait on '' @ proc_text (wt_handle args)), st1, w)
      | (Some slot, st1) \<Rightarrow>
          (case sl_child slot of
             None \<Rightarrow> Some (agent_error_of Internal ''process slot has no child (already waited?)'', st1, drop_slot os slot w)
           | Some pid \<Rightarrow>
               do {
                 ((timed_out, status), w1) \<leftarrow> wait_child os pid (wt_timeout_ms args) w;
                 (st2, w2) \<leftarrow> join_drain os (sl_stdout_join slot) (sl_stdout_buf slot) st1 w1;
                 (st3, w3) \<leftarrow> join_drain os (sl_stderr_join slot) (sl_stderr_buf slot) st2 w2;
                 let (out, st4) = take_buf (sl_stdout_buf slot) st3;
                     (err, st5) = take_buf (sl_stderr_buf slot) st4
                 in Some (AmWaitResult
                            (to_op (\<lambda>s. \<lparr>eo_status = exit_of timed_out s, eo_stdout = out, eo_stderr = err\<rparr>) status),
                          st5, drop_slot os slot w3)
               }))"

end
