(* ===== verification/Agent_Worker.thy ===== *)
theory Agent_Worker
  imports Agent_Process
begin

text \<open>
  Workers, \<open>ops/worker.rs\<close>, and the process operations of \<open>ops/process.rs\<close> that are relayed
  to a worker when the process was spawned by one.
\<close>

section \<open>Errors\<close>

definition worker_gone :: "string \<Rightarrow> worker_handle \<Rightarrow> agent_message" where
  "worker_gone op worker =
     agent_error_of UnknownHandle
       (op @ '': the process was spawned by '' @ worker_text worker @ '', which has been joined'')"

definition unknown_worker :: "string \<Rightarrow> worker_handle \<Rightarrow> agent_message" where
  "unknown_worker op handle = agent_error_of UnknownHandle (op @ '' on unknown worker '' @ worker_text handle)"

definition spawn_err :: "string \<Rightarrow> agent_message" where
  "spawn_err message = AmSpawnWorkerResult (OpErr \<lparr>oe_errno = 0, oe_message = message\<rparr>)"

definition relay_io_err :: "string \<Rightarrow> string \<Rightarrow> agent_message" where
  "relay_io_err op detail = agent_error_of BadRequest (op @ '': worker control channel error: '' @ detail)"

definition relay_shape_err :: "string \<Rightarrow> agent_message \<Rightarrow> agent_message" where
  "relay_shape_err op got =
     agent_error_of BadRequest (op @ '': unexpected reply shape from worker: '' @ agent_kind got)"

section \<open>The control channel\<close>

text \<open>Flushing a Unix socket does nothing and cannot fail.\<close>

definition relay :: "'w os \<Rightarrow> worker_conn \<Rightarrow> host_message \<Rightarrow> 'w \<Rightarrow> (string + agent_message) \<times> 'w" where
  "relay os conn op w =
     (let fd = wc_control conn;
          (r, wr) = write_frame (os_enc_host os) op DEFAULT_MAX_FRAME_BYTES
                      \<lparr>wr_out = [], wr_room = os_sock_room os fd w\<rparr>;
          w1 = os_sock_sent os fd (wr_out wr) w
      in case r of
           Inl e \<Rightarrow> (Inl (''write: '' @ frame_error_text os e), w1)
         | Inr _ \<Rightarrow>
             let (r2, rd) = read_frame (os_dec_agent os) (os_sock_incoming os fd w1) DEFAULT_MAX_FRAME_BYTES;
                 w2 = os_sock_left os fd rd w1
             in (case r2 of Inl e \<Rightarrow> Inl (''read: '' @ frame_error_text os e) | Inr m \<Rightarrow> Inr m, w2))"

definition reap_worker :: "'w os \<Rightarrow> worker_conn \<Rightarrow> 'w \<Rightarrow> i32 \<times> 'w" where
  "reap_worker os conn w =
     (case os_child_wait os (wc_child conn) (os_shutdown os (wc_control conn) w) of
        (Inr status, w1) \<Rightarrow>
          (case rs_code status of
             Some c \<Rightarrow> c
           | None \<Rightarrow> 128 + (case rs_signal status of Some g \<Rightarrow> g | None \<Rightarrow> 0), w1)
      | (Inl e, w1) \<Rightarrow> (1, w1))"

section \<open>Worker operations\<close>

definition spawn_worker ::
  "'w os \<Rightarrow> agent_state \<Rightarrow> 'w \<Rightarrow> agent_message \<times> agent_state \<times> 'w" where
  "spawn_worker os st w =
     (case worker_executable os st w of
        Inl e \<Rightarrow> (spawn_err (''worker spawn: current_exe: '' @ ie_text e), st, w)
      | Inr exe \<Rightarrow>
          (case os_socketpair os w of
             (Inl e, w1) \<Rightarrow> (spawn_err (''worker spawn: socketpair: '' @ ie_text e), st, w1)
           | (Inr (parent_fd, child_fd), w1) \<Rightarrow>
               (case os_spawn_worker os exe child_fd w1 of
                  (Inl e, w2) \<Rightarrow>
                    (spawn_err (''worker spawn: exec '' @ exe @ '': '' @ ie_text e), st,
                     os_close os child_fd (os_close os parent_fd w2))
                | (Inr pid, w2) \<Rightarrow>
                    let (h, st1) = insert_worker_conn \<lparr>wc_child = pid, wc_control = parent_fd\<rparr> st
                    in (AmSpawnWorkerResult (OpOk h), st1, os_close os child_fd w2))))"

definition worker_syscall ::
  "'w os \<Rightarrow> worker_syscall_args \<Rightarrow> agent_state \<Rightarrow> 'w \<Rightarrow> agent_message \<times> agent_state \<times> 'w" where
  "worker_syscall os args st w =
     (case worker_conn_of (ws_handle args) st of
        None \<Rightarrow> (unknown_worker ''worker_syscall'' (ws_handle args), st, w)
      | Some conn \<Rightarrow>
          (case relay os conn (HmSyscall (ws_args args)) w of
             (Inr (AmSyscallResult payload), w1) \<Rightarrow> (AmWorkerSyscallResult payload, st, w1)
           | (Inr other, w1) \<Rightarrow> (relay_shape_err ''worker_syscall'' other, st, w1)
           | (Inl msg, w1) \<Rightarrow> (relay_io_err ''worker_syscall'' msg, st, w1)))"

definition worker_syscall_begin ::
  "'w os \<Rightarrow> worker_syscall_begin_args \<Rightarrow> agent_state \<Rightarrow> 'w \<Rightarrow> agent_message \<times> agent_state \<times> 'w" where
  "worker_syscall_begin os args st w =
     (case worker_conn_of (wb_handle args) st of
        None \<Rightarrow> (unknown_worker ''worker_syscall_begin'' (wb_handle args), st, w)
      | Some conn \<Rightarrow>
          (case relay os conn (HmWorkerSyscallBegin args) w of
             (Inr (AmWorkerSyscallBeginResult payload), w1) \<Rightarrow> (AmWorkerSyscallBeginResult payload, st, w1)
           | (Inr other, w1) \<Rightarrow> (relay_shape_err ''worker_syscall_begin'' other, st, w1)
           | (Inl msg, w1) \<Rightarrow> (relay_io_err ''worker_syscall_begin'' msg, st, w1)))"

definition worker_syscall_await ::
  "'w os \<Rightarrow> worker_syscall_await_args \<Rightarrow> agent_state \<Rightarrow> 'w \<Rightarrow> agent_message \<times> agent_state \<times> 'w" where
  "worker_syscall_await os args st w =
     (case worker_conn_of (ww_handle args) st of
        None \<Rightarrow> (unknown_worker ''worker_syscall_await'' (ww_handle args), st, w)
      | Some conn \<Rightarrow>
          (case relay os conn (HmWorkerSyscallAwait args) w of
             (Inr (AmWorkerSyscallAwaitResult payload), w1) \<Rightarrow> (AmWorkerSyscallAwaitResult payload, st, w1)
           | (Inr other, w1) \<Rightarrow> (relay_shape_err ''worker_syscall_await'' other, st, w1)
           | (Inl msg, w1) \<Rightarrow> (relay_io_err ''worker_syscall_await'' msg, st, w1)))"

definition worker_exec ::
  "'w os \<Rightarrow> worker_exec_args \<Rightarrow> agent_state \<Rightarrow> 'w \<Rightarrow> agent_message \<times> agent_state \<times> 'w" where
  "worker_exec os args st w =
     (case worker_conn_of (we_handle args) st of
        None \<Rightarrow> (unknown_worker ''worker_exec'' (we_handle args), st, w)
      | Some conn \<Rightarrow>
          (case relay os conn (HmExec (we_exec args)) w of
             (Inr (AmExecResult payload), w1) \<Rightarrow> (AmWorkerExecResult payload, st, w1)
           | (Inr other, w1) \<Rightarrow> (relay_shape_err ''worker_exec'' other, st, w1)
           | (Inl msg, w1) \<Rightarrow> (relay_io_err ''worker_exec'' msg, st, w1)))"

definition worker_kill ::
  "'w os \<Rightarrow> worker_kill_args \<Rightarrow> agent_state \<Rightarrow> 'w \<Rightarrow> agent_message \<times> agent_state \<times> 'w" where
  "worker_kill os args st w =
     (case worker_conn_of (wk_handle args) st of
        None \<Rightarrow> (unknown_worker ''worker_kill'' (wk_handle args), st, w)
      | Some conn \<Rightarrow>
          (case os_kill os (sint (wc_child conn)) (wk_signal args) w of
             (Inr _, w1) \<Rightarrow> (AmWorkerKillResult (OpOk 1), st, w1)
           | (Inl e, w1) \<Rightarrow> (AmWorkerKillResult (OpOk 0), st, w1)))"

text \<open>
  \<open>worker_join\<close> reaps the same way whether or not it holds the last reference to the
  connection; the socket is closed with it.
\<close>

definition worker_join ::
  "'w os \<Rightarrow> worker_join_args \<Rightarrow> agent_state \<Rightarrow> 'w \<Rightarrow> agent_message \<times> agent_state \<times> 'w" where
  "worker_join os args st w =
     (case remove_worker_conn (wj_handle args) st of
        (None, st1) \<Rightarrow> (unknown_worker ''worker_join'' (wj_handle args), st1, w)
      | (Some conn, st1) \<Rightarrow>
          let st2 = remove_worker_processes_of (wj_handle args) st1;
              (status, w1) = reap_worker os conn w
          in (AmWorkerJoinResult (OpOk \<lparr>wjp_exit_status = status\<rparr>), st2, os_close os (wc_control conn) w1))"

definition ellipsis :: string where
  "ellipsis = [CHR 0xE2, CHR 0x80, CHR 0xA6]"

definition worker_open_file ::
  "worker_open_file_args \<Rightarrow> agent_state \<Rightarrow> 'w \<Rightarrow> agent_message \<times> agent_state \<times> 'w" where
  "worker_open_file args st w =
     (if \<not> has_worker (wof_handle args) st
      then (unknown_worker ''worker_open_file'' (wof_handle args), st, w)
      else (agent_error_of BadRequest
              (''worker_open_file: not supported for a process-isolated worker; use worker:syscall(openat, ''
               @ ellipsis @ '') so the fd lives in the worker process''), st, w))"

definition worker_run_async ::
  "'w os \<Rightarrow> worker_run_async_args \<Rightarrow> agent_state \<Rightarrow> 'w \<Rightarrow> agent_message \<times> agent_state \<times> 'w" where
  "worker_run_async os args st w =
     (case worker_conn_of (wr_handle args) st of
        None \<Rightarrow> (unknown_worker ''worker_run_async'' (wr_handle args), st, w)
      | Some conn \<Rightarrow>
          (case relay os conn (HmRunAsync (wr_args args)) w of
             (Inr (AmRunAsyncResult (OpOk inner)), w1) \<Rightarrow>
               let (outer, st1) = insert_worker_process (wr_handle args) inner st
               in (AmWorkerRunAsyncResult (OpOk outer), st1, w1)
           | (Inr (AmRunAsyncResult (OpErr e)), w1) \<Rightarrow> (AmWorkerRunAsyncResult (OpErr e), st, w1)
           | (Inr other, w1) \<Rightarrow> (relay_shape_err ''worker_run_async'' other, st, w1)
           | (Inl msg, w1) \<Rightarrow> (relay_io_err ''worker_run_async'' msg, st, w1)))"

section \<open>Relayed process operations\<close>

definition relay_process_op ::
  "'w os \<Rightarrow> string \<Rightarrow> worker_handle \<Rightarrow> host_message \<Rightarrow> agent_state \<Rightarrow> 'w \<Rightarrow> agent_message \<times> agent_state \<times> 'w" where
  "relay_process_op os op_name worker op st w =
     (case worker_conn_of worker st of
        None \<Rightarrow> (worker_gone op_name worker, st, w)
      | Some conn \<Rightarrow>
          (case relay os conn op w of
             (Inr reply, w1) \<Rightarrow> (reply, st, w1)
           | (Inl msg, w1) \<Rightarrow> (relay_io_err op_name msg, st, w1)))"

definition WORKER_WAIT_POLL :: nat where
  "WORKER_WAIT_POLL = 20 * 1000000"

text \<open>
  The polling loop of \<open>worker_wait\<close>: a reply to return at once, or whether the deadline
  passed.
\<close>

partial_function (option) worker_poll ::
  "'w os \<Rightarrow> worker_conn \<Rightarrow> process_handle \<Rightarrow> nat option \<Rightarrow> 'w \<Rightarrow> ((agent_message + bool) \<times> 'w) option" where
  "worker_poll os conn inner deadline w =
     (case relay os conn (HmProcStatus \<lparr>ps_handle = inner\<rparr>) w of
        (Inr (AmProcStatusResult (OpOk PlRunning)), w1) \<Rightarrow>
          if (case deadline of None \<Rightarrow> False | Some d \<Rightarrow> d \<le> os_now os w1) then Some (Inr True, w1)
          else worker_poll os conn inner deadline (os_sleep os WORKER_WAIT_POLL w1)
      | (Inr (AmProcStatusResult _), w1) \<Rightarrow> Some (Inr False, w1)
      | (Inr other, w1) \<Rightarrow> Some (Inl (relay_shape_err ''wait'' other), w1)
      | (Inl msg, w1) \<Rightarrow> Some (Inl (relay_io_err ''wait'' msg), w1))"

definition worker_wait ::
  "'w os \<Rightarrow> process_handle \<Rightarrow> worker_handle \<Rightarrow> process_handle \<Rightarrow> u64 option \<Rightarrow> agent_state \<Rightarrow> 'w
     \<Rightarrow> (agent_message \<times> agent_state \<times> 'w) option" where
  "worker_wait os outer worker inner timeout_ms st w =
     (case worker_conn_of worker st of
        None \<Rightarrow> Some (worker_gone ''wait'' worker, snd (remove_worker_process outer st), w)
      | Some conn \<Rightarrow>
          do {
            (r, w1) \<leftarrow> worker_poll os conn inner (map_option (\<lambda>ms. os_now os w + millis ms) timeout_ms) w;
            case r of
              Inl m \<Rightarrow> Some (m, st, w1)
            | Inr timed_out \<Rightarrow>
                let (reply, w2) = relay os conn
                      (HmWait \<lparr>wt_handle = inner, wt_timeout_ms = (if timed_out then Some 0 else None)\<rparr>) w1;
                    st1 = snd (remove_worker_process outer st)
                in Some (case reply of Inr m \<Rightarrow> m | Inl msg \<Rightarrow> relay_io_err ''wait'' msg, st1, w2)
          })"

section \<open>Process operations\<close>

definition wait_op ::
  "'w os \<Rightarrow> wait_args \<Rightarrow> agent_state \<Rightarrow> 'w \<Rightarrow> (agent_message \<times> agent_state \<times> 'w) option" where
  "wait_op os args st w =
     (case worker_process (wt_handle args) st of
        Some (worker, inner) \<Rightarrow> worker_wait os (wt_handle args) worker inner (wt_timeout_ms args) st w
      | None \<Rightarrow> wait_own os args st w)"

definition ESRCH :: i32 where
  "ESRCH = 3"

definition kill_op ::
  "'w os \<Rightarrow> kill_args \<Rightarrow> agent_state \<Rightarrow> 'w \<Rightarrow> agent_message \<times> agent_state \<times> 'w" where
  "kill_op os args st w =
     (case worker_process (kl_handle args) st of
        Some (worker, inner) \<Rightarrow> relay_process_op os ''kill'' worker (HmKill (args\<lparr>kl_handle := inner\<rparr>)) st w
      | None \<Rightarrow>
          (case with_process_mut (kl_handle args) (\<lambda>slot. (sl_child slot, slot)) st of
             (Some (Some pid), st1) \<Rightarrow>
               (case os_kill os (sint pid) (kl_signal args) w of
                  (Inr _, w1) \<Rightarrow> (AmKillResult (OpOk ()), st1, w1)
                | (Inl err, w1) \<Rightarrow>
                    if ie_errno err = Some ESRCH then (AmKillResult (OpOk ()), st1, w1)
                    else (AmKillResult (OpErr (os_error_from_io err)), st1, w1))
           | (Some None, st1) \<Rightarrow>
               (agent_error_of Internal (''process '' @ proc_text (kl_handle args) @ '' has no child to signal''), st1, w)
           | (None, st1) \<Rightarrow>
               (agent_error_of UnknownHandle (''kill on '' @ proc_text (kl_handle args)), st1, w)))"

definition get_pid ::
  "'w os \<Rightarrow> get_pid_args \<Rightarrow> agent_state \<Rightarrow> 'w \<Rightarrow> agent_message \<times> agent_state \<times> 'w" where
  "get_pid os args st w =
     (case worker_process (gp_handle args) st of
        Some (worker, inner) \<Rightarrow> relay_process_op os ''get_pid'' worker (HmGetPid \<lparr>gp_handle = inner\<rparr>) st w
      | None \<Rightarrow>
          (case with_process_mut (gp_handle args) (\<lambda>slot. (sl_child slot, slot)) st of
             (Some (Some p), st1) \<Rightarrow> (AmGetPidResult (OpOk p), st1, w)
           | (Some None, st1) \<Rightarrow>
               (agent_error_of Internal (''get_pid: process '' @ proc_text (gp_handle args) @ '' already reaped''), st1, w)
           | (None, st1) \<Rightarrow>
               (agent_error_of UnknownHandle (''get_pid on '' @ proc_text (gp_handle args)), st1, w)))"

definition proc_stdin_write ::
  "'w os \<Rightarrow> proc_stdin_write_args \<Rightarrow> agent_state \<Rightarrow> 'w \<Rightarrow> agent_message \<times> agent_state \<times> 'w" where
  "proc_stdin_write os args st w =
     (case worker_process (sw_handle args) st of
        Some (worker, inner) \<Rightarrow>
          relay_process_op os ''proc_stdin_write'' worker (HmProcStdinWrite (args\<lparr>sw_handle := inner\<rparr>)) st w
      | None \<Rightarrow>
          (case with_process_mut (sw_handle args)
                  (\<lambda>slot. (case sl_stdin slot of
                     None \<Rightarrow>
                       (agent_error_of Internal (''process '' @ proc_text (sw_handle args) @ '' has no live stdin''), w)
                   | Some pipe \<Rightarrow>
                       let (r, w1) = os_write os pipe (sw_data args) w
                       in (AmProcStdinWriteResult (to_op (\<lambda>n. \<lparr>swo_written = of_nat n\<rparr>) r), w1), slot)) st of
             (Some (m, w1), st1) \<Rightarrow> (m, st1, w1)
           | (None, st1) \<Rightarrow>
               (agent_error_of UnknownHandle (''proc_stdin_write on '' @ proc_text (sw_handle args)), st1, w)))"

definition proc_stdin_close ::
  "'w os \<Rightarrow> proc_stdin_close_args \<Rightarrow> agent_state \<Rightarrow> 'w \<Rightarrow> agent_message \<times> agent_state \<times> 'w" where
  "proc_stdin_close os args st w =
     (case worker_process (sc_handle args) st of
        Some (worker, inner) \<Rightarrow>
          relay_process_op os ''proc_stdin_close'' worker (HmProcStdinClose \<lparr>sc_handle = inner\<rparr>) st w
      | None \<Rightarrow>
          (case with_process_mut (sc_handle args)
                  (\<lambda>slot. (drop_slot os slot w, slot\<lparr>sl_stdin := None\<rparr>)) st of
             (Some w1, st1) \<Rightarrow> (AmProcStdinCloseResult (OpOk ()), st1, w1)
           | (None, st1) \<Rightarrow>
               (agent_error_of UnknownHandle (''proc_stdin_close on '' @ proc_text (sc_handle args)), st1, w)))"

definition proc_status ::
  "'w os \<Rightarrow> proc_status_args \<Rightarrow> agent_state \<Rightarrow> 'w \<Rightarrow> agent_message \<times> agent_state \<times> 'w" where
  "proc_status os args st w =
     (case worker_process (ps_handle args) st of
        Some (worker, inner) \<Rightarrow>
          relay_process_op os ''proc_status'' worker (HmProcStatus \<lparr>ps_handle = inner\<rparr>) st w
      | None \<Rightarrow>
          (case with_process_mut (ps_handle args)
                  (\<lambda>slot. (case sl_child slot of
                     None \<Rightarrow> (PlUnknown, w)
                   | Some pid \<Rightarrow>
                       (case os_try_wait os pid w of
                          (Inr None, w1) \<Rightarrow> (PlRunning, w1)
                        | (Inr (Some _), w1) \<Rightarrow> (PlExited, w1)
                        | (Inl e, w1) \<Rightarrow> (PlUnknown, w1)), slot)) st of
             (Some (s, w1), st1) \<Rightarrow> (AmProcStatusResult (OpOk s), st1, w1)
           | (None, st1) \<Rightarrow> (AmProcStatusResult (OpOk PlUnknown), st1, w)))"

end
