(* ===== verification/Agent_Stream.thy ===== *)
theory Agent_Stream
  imports Agent_Worker
begin

text \<open>
  The operations that own their connection, \<open>ops/stream.rs\<close>, with the message I/O of
  \<open>io.rs\<close> and the errors of \<open>error.rs\<close>.

  A stream shares the agent's state with the other connections. What they do between two
  of its accesses is the parameter \<open>others\<close>, applied before each lock the stream takes after
  its first reply; it may depend on the world, which can hold any schedule. A stream that
  never ends has no result.
\<close>

datatype agent_runtime_error = RtFrame frame_error | RtProtocol string

definition read_host_message :: "'w os \<Rightarrow> reader \<Rightarrow> (agent_runtime_error + host_message) \<times> reader" where
  "read_host_message os rd =
     (let (r, rd1) = read_frame (os_dec_host os) rd DEFAULT_MAX_FRAME_BYTES
      in (map_sum RtFrame (\<lambda>m. m) r, rd1))"

definition write_agent_message ::
  "'w os \<Rightarrow> agent_message \<Rightarrow> writer \<Rightarrow> (agent_runtime_error + unit) \<times> writer" where
  "write_agent_message os message wr =
     (let (r, wr1) = write_frame (os_enc_agent os) message DEFAULT_MAX_FRAME_BYTES wr
      in (map_sum RtFrame (\<lambda>m. m) r, wr1))"

definition READ_CHUNK :: nat where
  "READ_CHUNK = 64 * 1024"

definition IDLE_POLL :: nat where
  "IDLE_POLL = 50 * 1000000"

section \<open>Tail\<close>

fun seek_to_start :: "'w os \<Rightarrow> nat \<Rightarrow> tail_start \<Rightarrow> 'w \<Rightarrow> (os_io_error + unit) \<times> 'w" where
  "seek_to_start os fd TailBeginning w = (let (r, w1) = os_seek os fd (FromStart 0) w in (map_sum (\<lambda>e. e) (\<lambda>_. ()) r, w1))"
| "seek_to_start os fd TailEnd w = (let (r, w1) = os_seek os fd (FromEnd 0) w in (map_sum (\<lambda>e. e) (\<lambda>_. ()) r, w1))"
| "seek_to_start os fd (TailOffset off) w =
     (let (r, w1) = os_seek os fd (FromStart off) w in (map_sum (\<lambda>e. e) (\<lambda>_. ()) r, w1))"

partial_function (option) tail_loop :: "'w os \<Rightarrow> nat \<Rightarrow> writer \<Rightarrow> 'w \<Rightarrow> (writer \<times> 'w) option" where
  "tail_loop os fd wr w =
     (case os_read os fd READ_CHUNK w of
        (Inr [], w1) \<Rightarrow>
          (let (p, w2) = os_seek os fd (FromCurrent 0) w1;
               pos = (case p of Inr n \<Rightarrow> n | Inl e \<Rightarrow> 0);
               file_size = (case os_fd_len os fd w2 of Inr n \<Rightarrow> n | Inl e \<Rightarrow> pos)
           in if file_size < pos then Some (snd (write_agent_message os (AmStreamEnd SeEof) wr), w2)
              else tail_loop os fd wr (os_sleep os IDLE_POLL w2))
      | (Inr (b # bs), w1) \<Rightarrow>
          (case write_agent_message os (AmStreamFrame \<lparr>sf_data = b # bs\<rparr>) wr of
             (Inl e, wr1) \<Rightarrow> Some (wr1, w1)
           | (Inr _, wr1) \<Rightarrow> tail_loop os fd wr1 w1)
      | (Inl e, w1) \<Rightarrow> Some (snd (write_agent_message os (AmStreamEnd (SeError (os_error_from_io e))) wr), w1))"

definition tail_file ::
  "'w os \<Rightarrow> tail_file_args \<Rightarrow> writer \<Rightarrow> 'w \<Rightarrow> ((agent_runtime_error + unit) \<times> writer \<times> 'w) option" where
  "tail_file os args wr w =
     (case os_open os (open_options_new\<lparr>oo_read := True\<rparr>) (tf_path args) w of
        (Inl e, w1) \<Rightarrow>
          let (r, wr1) = write_agent_message os (AmTailFileResult (OpErr (os_error_from_io e))) wr
          in Some (r, wr1, w1)
      | (Inr fd, w1) \<Rightarrow>
          (case seek_to_start os fd (tf_start args) w1 of
             (Inl e, w2) \<Rightarrow>
               let (r, wr1) = write_agent_message os (AmTailFileResult (OpErr (os_error_from_io e))) wr
               in Some (r, wr1, os_close os fd w2)
           | (Inr _, w2) \<Rightarrow>
               (case write_agent_message os (AmTailFileResult (OpOk ())) wr of
                  (Inl e, wr1) \<Rightarrow> Some (Inl e, wr1, os_close os fd w2)
                | (Inr _, wr1) \<Rightarrow>
                    do {
                      (wr2, w3) \<leftarrow> tail_loop os fd wr1 w2;
                      Some (Inr (), wr2, os_close os fd w3)
                    })))"

section \<open>Process output\<close>

fun channel_buf :: "proc_stream_channel \<Rightarrow> process_slot \<Rightarrow> nat" where
  "channel_buf ChStdout slot = sl_stdout_buf slot"
| "channel_buf ChStderr slot = sl_stderr_buf slot"

fun channel_join :: "proc_stream_channel \<Rightarrow> process_slot \<Rightarrow> nat option" where
  "channel_join ChStdout slot = sl_stdout_join slot"
| "channel_join ChStderr slot = sl_stderr_join slot"

partial_function (option) proc_stream_loop ::
  "(agent_state \<Rightarrow> 'w \<Rightarrow> agent_state \<times> 'w) \<Rightarrow> 'w os \<Rightarrow> process_handle \<Rightarrow> proc_stream_channel \<Rightarrow> nat \<Rightarrow> nat
     \<Rightarrow> agent_state \<Rightarrow> writer \<Rightarrow> 'w \<Rightarrow> (agent_state \<times> writer \<times> 'w) option" where
  "proc_stream_loop others os h ch buf consumed st wr w =
     (let (st1, w1) = others st w;
          g = as_bufs st1 ! buf
      in if consumed < length g
         then (case write_agent_message os (AmStreamFrame \<lparr>sf_data = drop consumed g\<rparr>) wr of
                 (Inl e, wr1) \<Rightarrow> Some (st1, wr1, w1)
               | (Inr _, wr1) \<Rightarrow> proc_stream_loop others os h ch buf (length g) st1 wr1 w1)
         else
           let (st2, w2) = others st1 w1;
               (d, st3) = with_process_mut h (\<lambda>slot. (channel_join ch slot = None, slot)) st2;
               finished = (case d of Some x \<Rightarrow> x | None \<Rightarrow> True)
           in if finished
              then let (st4, w3) = others st3 w2;
                       g2 = as_bufs st4 ! buf;
                       wr1 = (if consumed < length g2
                              then snd (write_agent_message os (AmStreamFrame \<lparr>sf_data = drop consumed g2\<rparr>) wr)
                              else wr)
                   in Some (st4, snd (write_agent_message os (AmStreamEnd SeEof) wr1), w3)
              else proc_stream_loop others os h ch buf consumed st3 wr (os_sleep os IDLE_POLL w2))"

definition dash :: string where
  "dash = [CHR 0xE2, CHR 0x80, CHR 0x94]"

definition proc_stream ::
  "(agent_state \<Rightarrow> 'w \<Rightarrow> agent_state \<times> 'w) \<Rightarrow> 'w os \<Rightarrow> proc_stream_args \<Rightarrow> agent_state \<Rightarrow> writer \<Rightarrow> 'w
     \<Rightarrow> ((agent_runtime_error + unit) \<times> agent_state \<times> writer \<times> 'w) option" where
  "proc_stream others os args st wr w =
     (case worker_process (pst_handle args) st of
        Some (worker, inner) \<Rightarrow>
          let (r, wr1) = write_agent_message os
                (agent_error_of BadRequest
                   (''proc_stream: '' @ proc_text (pst_handle args) @ '' was spawned by '' @ worker_text worker
                    @ ''; a worker-spawned process cannot be streamed '' @ dash
                    @ '' read its output from proc:wait instead'')) wr
          in Some (r, st, wr1, w)
      | None \<Rightarrow>
          (case with_process_mut (pst_handle args) (\<lambda>slot. (channel_buf (pst_channel args) slot, slot)) st of
             (None, st1) \<Rightarrow>
               let (r, wr1) = write_agent_message os
                     (AmProcStreamResult (OpErr \<lparr>oe_errno = 9,
                        oe_message = ''proc stream: process already waited or unknown handle (open streams BEFORE proc:wait)''\<rparr>)) wr
               in Some (r, st1, wr1, w)
           | (Some buf, st1) \<Rightarrow>
               (case write_agent_message os (AmProcStreamResult (OpOk ())) wr of
                  (Inl e, wr1) \<Rightarrow> Some (Inl e, st1, wr1, w)
                | (Inr _, wr1) \<Rightarrow>
                    do {
                      (st2, wr2, w1) \<leftarrow> proc_stream_loop others os (pst_handle args) (pst_channel args) buf 0 st1 wr1 w;
                      Some (Inr (), st2, wr2, w1)
                    })))"

section \<open>Descriptors\<close>

partial_function (option) fd_stream_loop ::
  "(agent_state \<Rightarrow> 'w \<Rightarrow> agent_state \<times> 'w) \<Rightarrow> 'w os \<Rightarrow> file_handle
     \<Rightarrow> agent_state \<Rightarrow> writer \<Rightarrow> 'w \<Rightarrow> (agent_state \<times> writer \<times> 'w) option" where
  "fd_stream_loop others os h st wr w =
     (let (st1, w1) = others st w;
          (r, w2) = with_file_mut h (\<lambda>fd w. os_read os fd READ_CHUNK w) st1 w1
      in case (case r of Some x \<Rightarrow> x | None \<Rightarrow> Inr []) of
           Inr [] \<Rightarrow>
             let (st2, w3) = others st1 (os_sleep os IDLE_POLL w2)
             in if map_of (as_files st2) h = None
                then Some (st2, snd (write_agent_message os (AmStreamEnd SeEof) wr), w3)
                else fd_stream_loop others os h st2 wr w3
         | Inr (b # bs) \<Rightarrow>
             (case write_agent_message os (AmStreamFrame \<lparr>sf_data = b # bs\<rparr>) wr of
                (Inl e, wr1) \<Rightarrow> Some (st1, wr1, w2)
              | (Inr _, wr1) \<Rightarrow> fd_stream_loop others os h st1 wr1 w2)
         | Inl e \<Rightarrow>
             Some (st1, snd (write_agent_message os (AmStreamEnd (SeError (os_error_from_io e))) wr), w2))"

definition EBADF :: i32 where
  "EBADF = 9"

definition fd_stream ::
  "(agent_state \<Rightarrow> 'w \<Rightarrow> agent_state \<times> 'w) \<Rightarrow> 'w os \<Rightarrow> fd_stream_args \<Rightarrow> agent_state \<Rightarrow> writer \<Rightarrow> 'w
     \<Rightarrow> ((agent_runtime_error + unit) \<times> agent_state \<times> writer \<times> 'w) option" where
  "fd_stream others os args st wr w =
     (if map_of (as_files st) (fs_handle args) = None
      then let (r, wr1) = write_agent_message os (AmFdStreamResult (OpErr (from_errno os EBADF))) wr
           in Some (r, st, wr1, w)
      else case write_agent_message os (AmFdStreamResult (OpOk ())) wr of
             (Inl e, wr1) \<Rightarrow> Some (Inl e, st, wr1, w)
           | (Inr _, wr1) \<Rightarrow>
               do {
                 (st1, wr2, w1) \<leftarrow> fd_stream_loop others os (fs_handle args) st wr1 w;
                 Some (Inr (), st1, wr2, w1)
               })"

end
