(* ===== verification/Agent_Connection.thy ===== *)
theory Agent_Connection
  imports Agent_Stream
begin

text \<open>
  One connection, \<open>provium-agent/src/connection.rs\<close>: the handshake, the dispatch of one
  operation, and the loop a worker serves its control channel with.
\<close>

section \<open>Dispatch\<close>

text \<open>A handler that leaves the state alone.\<close>

definition keep_state :: "agent_state \<Rightarrow> agent_message \<times> 'w \<Rightarrow> (agent_message \<times> agent_state \<times> 'w) option" where
  "keep_state st r = Some (fst r, st, snd r)"

fun exec_items :: "'w os \<Rightarrow> exec_args list \<Rightarrow> 'w \<Rightarrow> (exec_result list \<times> 'w) option" where
  "exec_items os [] w = Some ([], w)"
| "exec_items os (item # items) w =
     do {
       (r, w1) \<leftarrow> exec_run os item w;
       (rs, w2) \<leftarrow> exec_items os items w1;
       Some (r # rs, w2)
     }"

definition not_in_batch :: "host_message \<Rightarrow> agent_message" where
  "not_in_batch op = agent_error_of BadRequest (CHR 0x60 # host_kind op @ CHR 0x60 # '' cannot appear inside a batch'')"

definition dispatch_short ::
  "'w os \<Rightarrow> host_message \<Rightarrow> agent_state \<Rightarrow> 'w \<Rightarrow> (agent_message \<times> agent_state \<times> 'w) option" where
  "dispatch_short os op st w =
     (case op of
        HmHello _ \<Rightarrow> Some (not_in_batch op, st, w)
      | HmTailFile _ \<Rightarrow> Some (not_in_batch op, st, w)
      | HmProcStream _ \<Rightarrow> Some (not_in_batch op, st, w)
      | HmFdStream _ \<Rightarrow> Some (not_in_batch op, st, w)
      | HmBatchOp _ \<Rightarrow> Some (not_in_batch op, st, w)
      | HmExec args \<Rightarrow> do { (r, w1) \<leftarrow> exec_run os args w; Some (AmExecResult r, st, w1) }
      | HmOpenFile args \<Rightarrow> Some (open_file os args st w)
      | HmRead args \<Rightarrow> Some (read_op os args st w)
      | HmWrite args \<Rightarrow> Some (write_op os args st w)
      | HmClose args \<Rightarrow> Some (close_op os args st w)
      | HmReadFile args \<Rightarrow> keep_state st (read_file_op os args w)
      | HmWriteFile args \<Rightarrow> keep_state st (write_file_op os args w)
      | HmStat args \<Rightarrow> keep_state st (stat_op os args w)
      | HmRunAsync args \<Rightarrow> Some (run_async os args st w)
      | HmWait args \<Rightarrow> wait_op os args st w
      | HmKill args \<Rightarrow> Some (kill_op os args st w)
      | HmGetPid args \<Rightarrow> Some (get_pid os args st w)
      | HmGetTime \<Rightarrow> keep_state st (get_time os w)
      | HmSetTime args \<Rightarrow> keep_state st (set_time os args w)
      | HmSleepClock args \<Rightarrow> keep_state st (sleep_clock os args w)
      | HmAdvanceClock args \<Rightarrow> keep_state st (advance_clock os args w)
      | HmSyscall args \<Rightarrow> keep_state st (syscall_op os args w)
      | HmReadMem args \<Rightarrow> keep_state st (read_mem os args w)
      | HmSpawnWorker \<Rightarrow> Some (spawn_worker os st w)
      | HmWorkerExec args \<Rightarrow> Some (worker_exec os args st w)
      | HmWorkerJoin args \<Rightarrow> Some (worker_join os args st w)
      | HmWorkerRunAsync args \<Rightarrow> Some (worker_run_async os args st w)
      | HmWorkerOpenFile args \<Rightarrow> Some (worker_open_file args st w)
      | HmWorkerSyscall args \<Rightarrow> Some (worker_syscall os args st w)
      | HmWorkerSyscallBegin args \<Rightarrow> Some (worker_syscall_begin os args st w)
      | HmWorkerSyscallAwait args \<Rightarrow> Some (worker_syscall_await os args st w)
      | HmWorkerKill args \<Rightarrow> Some (worker_kill os args st w)
      | HmListdir args \<Rightarrow> keep_state st (listdir_op os args w)
      | HmMkdir args \<Rightarrow> keep_state st (mkdir_op os args w)
      | HmUnlink args \<Rightarrow> keep_state st (unlink_op os args w)
      | HmRename args \<Rightarrow> keep_state st (rename_op os args w)
      | HmSeek args \<Rightarrow> Some (seek_op os args st w)
      | HmIoctl args \<Rightarrow> Some (ioctl_op os args st w)
      | HmProcStdinWrite args \<Rightarrow> Some (proc_stdin_write os args st w)
      | HmProcStdinClose args \<Rightarrow> Some (proc_stdin_close os args st w)
      | HmProcStatus args \<Rightarrow> Some (proc_status os args st w)
      | HmBatchExec args \<Rightarrow>
          do {
            (rs, w1) \<leftarrow> exec_items os (be_items args) w;
            Some (AmBatchExecResult \<lparr>ber_results = rs\<rparr>, st, w1)
          })"

fun batch_items ::
  "'w os \<Rightarrow> host_message list \<Rightarrow> agent_state \<Rightarrow> 'w \<Rightarrow> (agent_message list \<times> agent_state \<times> 'w) option" where
  "batch_items os [] st w = Some ([], st, w)"
| "batch_items os (item # items) st w =
     do {
       (r, st1, w1) \<leftarrow> dispatch_short os item st w;
       (rs, st2, w2) \<leftarrow> batch_items os items st1 w1;
       Some (r # rs, st2, w2)
     }"

definition respond ::
  "'w os \<Rightarrow> writer \<Rightarrow> agent_message \<times> agent_state \<times> 'w
     \<Rightarrow> ((agent_runtime_error + unit) \<times> agent_state \<times> writer \<times> 'w) option" where
  "respond os wr r =
     (let (m, st, w) = r; (e, wr1) = write_agent_message os m wr in Some (e, st, wr1, w))"

definition dispatch ::
  "(agent_state \<Rightarrow> 'w \<Rightarrow> agent_state \<times> 'w) \<Rightarrow> 'w os \<Rightarrow> host_message \<Rightarrow> agent_state \<Rightarrow> writer \<Rightarrow> 'w
     \<Rightarrow> ((agent_runtime_error + unit) \<times> agent_state \<times> writer \<times> 'w) option" where
  "dispatch others os op st wr w =
     (case op of
        HmHello _ \<Rightarrow>
          Some (Inl (RtProtocol ''received a second Hello after handshake completed''), st, wr, w)
      | HmTailFile args \<Rightarrow>
          do { (r, wr1, w1) \<leftarrow> tail_file os args wr w; Some (r, st, wr1, w1) }
      | HmProcStream args \<Rightarrow> proc_stream others os args st wr w
      | HmFdStream args \<Rightarrow> fd_stream others os args st wr w
      | HmBatchOp items \<Rightarrow>
          do {
            (rs, st1, w1) \<leftarrow> batch_items os items st w;
            respond os wr (AmBatchOpResult rs, st1, w1)
          }
      | other \<Rightarrow> dispatch_short os other st w \<bind> respond os wr)"

section \<open>The handshake\<close>

definition AGENT_OS :: string where
  "AGENT_OS = ''peios''"

text \<open>\<open>AGENT_VERSION\<close> is the version of the package that the build fills in.\<close>

definition hello_ok :: "'w os \<Rightarrow> string \<Rightarrow> 'w \<Rightarrow> hello_ok_msg" where
  "hello_ok os agent_version w =
     \<lparr>ho_protocol_version = PROTOCOL_VERSION,
      ho_agent = \<lparr>ai_os = AGENT_OS, ai_agent_version = agent_version,
                  ai_kernel = os_kernel_release os w, ai_capabilities = []\<rparr>\<rparr>"

fun describe_handshake_violation :: "host_message \<Rightarrow> string" where
  "describe_handshake_violation (HmHello _) = ''handshake-state hello (unreachable)''"
| "describe_handshake_violation (HmExec _) = ''received '' @ CHR 0x60 # ''exec'' @ CHR 0x60 # '' before handshake''"
| "describe_handshake_violation (HmOpenFile _) = ''received '' @ CHR 0x60 # ''open_file'' @ CHR 0x60 # '' before handshake''"
| "describe_handshake_violation (HmRead _) = ''received '' @ CHR 0x60 # ''read'' @ CHR 0x60 # '' before handshake''"
| "describe_handshake_violation (HmWrite _) = ''received '' @ CHR 0x60 # ''write'' @ CHR 0x60 # '' before handshake''"
| "describe_handshake_violation (HmClose _) = ''received '' @ CHR 0x60 # ''close'' @ CHR 0x60 # '' before handshake''"
| "describe_handshake_violation (HmReadFile _) = ''received '' @ CHR 0x60 # ''read_file'' @ CHR 0x60 # '' before handshake''"
| "describe_handshake_violation (HmWriteFile _) = ''received '' @ CHR 0x60 # ''write_file'' @ CHR 0x60 # '' before handshake''"
| "describe_handshake_violation (HmStat _) = ''received '' @ CHR 0x60 # ''stat'' @ CHR 0x60 # '' before handshake''"
| "describe_handshake_violation (HmTailFile _) = ''received '' @ CHR 0x60 # ''tail_file'' @ CHR 0x60 # '' before handshake''"
| "describe_handshake_violation (HmRunAsync _) = ''received '' @ CHR 0x60 # ''run_async'' @ CHR 0x60 # '' before handshake''"
| "describe_handshake_violation (HmWait _) = ''received '' @ CHR 0x60 # ''wait'' @ CHR 0x60 # '' before handshake''"
| "describe_handshake_violation (HmKill _) = ''received '' @ CHR 0x60 # ''kill'' @ CHR 0x60 # '' before handshake''"
| "describe_handshake_violation (HmGetPid _) = ''received '' @ CHR 0x60 # ''get_pid'' @ CHR 0x60 # '' before handshake''"
| "describe_handshake_violation HmGetTime = ''received '' @ CHR 0x60 # ''get_time'' @ CHR 0x60 # '' before handshake''"
| "describe_handshake_violation (HmSetTime _) = ''received '' @ CHR 0x60 # ''set_time'' @ CHR 0x60 # '' before handshake''"
| "describe_handshake_violation (HmSleepClock _) = ''received '' @ CHR 0x60 # ''sleep_clock'' @ CHR 0x60 # '' before handshake''"
| "describe_handshake_violation (HmAdvanceClock _) = ''received '' @ CHR 0x60 # ''advance_clock'' @ CHR 0x60 # '' before handshake''"
| "describe_handshake_violation (HmSyscall _) = ''received '' @ CHR 0x60 # ''syscall'' @ CHR 0x60 # '' before handshake''"
| "describe_handshake_violation (HmReadMem _) = ''received '' @ CHR 0x60 # ''read_mem'' @ CHR 0x60 # '' before handshake''"
| "describe_handshake_violation HmSpawnWorker = ''received '' @ CHR 0x60 # ''spawn_worker'' @ CHR 0x60 # '' before handshake''"
| "describe_handshake_violation (HmWorkerExec _) = ''received '' @ CHR 0x60 # ''worker_exec'' @ CHR 0x60 # '' before handshake''"
| "describe_handshake_violation (HmWorkerJoin _) = ''received '' @ CHR 0x60 # ''worker_join'' @ CHR 0x60 # '' before handshake''"
| "describe_handshake_violation (HmListdir _) = ''received '' @ CHR 0x60 # ''listdir'' @ CHR 0x60 # '' before handshake''"
| "describe_handshake_violation (HmMkdir _) = ''received '' @ CHR 0x60 # ''mkdir'' @ CHR 0x60 # '' before handshake''"
| "describe_handshake_violation (HmUnlink _) = ''received '' @ CHR 0x60 # ''unlink'' @ CHR 0x60 # '' before handshake''"
| "describe_handshake_violation (HmRename _) = ''received '' @ CHR 0x60 # ''rename'' @ CHR 0x60 # '' before handshake''"
| "describe_handshake_violation (HmSeek _) = ''received '' @ CHR 0x60 # ''seek'' @ CHR 0x60 # '' before handshake''"
| "describe_handshake_violation (HmIoctl _) = ''received '' @ CHR 0x60 # ''ioctl'' @ CHR 0x60 # '' before handshake''"
| "describe_handshake_violation (HmProcStdinWrite _) = ''received '' @ CHR 0x60 # ''proc_stdin_write'' @ CHR 0x60 # '' before handshake''"
| "describe_handshake_violation (HmProcStdinClose _) = ''received '' @ CHR 0x60 # ''proc_stdin_close'' @ CHR 0x60 # '' before handshake''"
| "describe_handshake_violation (HmProcStatus _) = ''received '' @ CHR 0x60 # ''proc_status'' @ CHR 0x60 # '' before handshake''"
| "describe_handshake_violation (HmProcStream _) = ''received '' @ CHR 0x60 # ''proc_stream'' @ CHR 0x60 # '' before handshake''"
| "describe_handshake_violation (HmFdStream _) = ''received '' @ CHR 0x60 # ''fd_stream'' @ CHR 0x60 # '' before handshake''"
| "describe_handshake_violation (HmWorkerRunAsync _) = ''received '' @ CHR 0x60 # ''worker_run_async'' @ CHR 0x60 # '' before handshake''"
| "describe_handshake_violation (HmWorkerOpenFile _) = ''received '' @ CHR 0x60 # ''worker_open_file'' @ CHR 0x60 # '' before handshake''"
| "describe_handshake_violation (HmWorkerSyscall _) = ''received '' @ CHR 0x60 # ''worker_syscall'' @ CHR 0x60 # '' before handshake''"
| "describe_handshake_violation (HmWorkerSyscallBegin _) = ''received '' @ CHR 0x60 # ''worker_syscall_begin'' @ CHR 0x60 # '' before handshake''"
| "describe_handshake_violation (HmWorkerSyscallAwait _) = ''received '' @ CHR 0x60 # ''worker_syscall_await'' @ CHR 0x60 # '' before handshake''"
| "describe_handshake_violation (HmWorkerKill _) = ''received '' @ CHR 0x60 # ''worker_kill'' @ CHR 0x60 # '' before handshake''"
| "describe_handshake_violation (HmBatchExec _) = ''received '' @ CHR 0x60 # ''batch_exec'' @ CHR 0x60 # '' before handshake''"
| "describe_handshake_violation (HmBatchOp _) = ''received '' @ CHR 0x60 # ''batch_op'' @ CHR 0x60 # '' before handshake''"

datatype connection_outcome = Handled | VersionRejected u32

definition handle_connection ::
  "(agent_state \<Rightarrow> 'w \<Rightarrow> agent_state \<times> 'w) \<Rightarrow> 'w os \<Rightarrow> string \<Rightarrow> reader \<Rightarrow> writer \<Rightarrow> agent_state \<Rightarrow> 'w
     \<Rightarrow> ((agent_runtime_error + connection_outcome) \<times> reader \<times> writer \<times> agent_state \<times> 'w) option" where
  "handle_connection others os agent_version rd wr st w =
     (case read_host_message os rd of
        (Inl e, rd1) \<Rightarrow> Some (Inl e, rd1, wr, st, w)
      | (Inr (HmHello hello), rd1) \<Rightarrow>
          if he_protocol_version hello \<noteq> PROTOCOL_VERSION
          then (case write_agent_message os
                       (AmHelloErr \<lparr>hx_host_version = he_protocol_version hello,
                                    hx_agent_version = PROTOCOL_VERSION\<rparr>) wr of
                  (Inl e, wr1) \<Rightarrow> Some (Inl e, rd1, wr1, st, w)
                | (Inr _, wr1) \<Rightarrow> Some (Inr (VersionRejected (he_protocol_version hello)), rd1, wr1, st, w))
          else (case write_agent_message os (AmHelloOk (hello_ok os agent_version w)) wr of
                  (Inl e, wr1) \<Rightarrow> Some (Inl e, rd1, wr1, st, w)
                | (Inr _, wr1) \<Rightarrow>
                    (case read_host_message os rd1 of
                       (Inl e, rd2) \<Rightarrow> Some (Inl e, rd2, wr1, st, w)
                     | (Inr op, rd2) \<Rightarrow>
                         do {
                           (r, st1, wr2, w1) \<leftarrow> dispatch others os op st wr1 w;
                           Some (map_sum (\<lambda>e. e) (\<lambda>_. Handled) r, rd2, wr2, st1, w1)
                         }))
      | (Inr other, rd1) \<Rightarrow> Some (Inl (RtProtocol (describe_handshake_violation other)), rd1, wr, st, w))"

section \<open>The worker's loop\<close>

text \<open>
  The threads of \<open>WorkerSyscallBegin\<close> run at once; what they will answer is kept until it is
  awaited.
\<close>

record worker_loop =
  wl_state :: agent_state
  wl_pending :: "(u64 \<times> agent_message) list"
  wl_next_async :: u64

definition worker_loop_new :: worker_loop where
  "worker_loop_new = \<lparr>wl_state = agent_new, wl_pending = [], wl_next_async = 1\<rparr>"

definition worker_answer ::
  "'w os \<Rightarrow> host_message \<Rightarrow> worker_loop \<Rightarrow> 'w \<Rightarrow> (agent_message \<times> worker_loop \<times> 'w) option" where
  "worker_answer os op wl w =
     (case op of
        HmWorkerSyscallBegin args \<Rightarrow>
          let i = wl_next_async wl;
              (r, w1) = syscall_op os (wb_args args) w;
              answer = (case r of AmSyscallResult p \<Rightarrow> AmWorkerSyscallAwaitResult p | other \<Rightarrow> other)
          in Some (AmWorkerSyscallBeginResult (OpOk i),
                   wl\<lparr>wl_next_async := i + 1, wl_pending := AList.update i answer (wl_pending wl)\<rparr>, w1)
      | HmWorkerSyscallAwait args \<Rightarrow>
          (case map_of (wl_pending wl) (ww_async_id args) of
             Some answer \<Rightarrow> Some (answer, wl\<lparr>wl_pending := AList.delete (ww_async_id args) (wl_pending wl)\<rparr>, w)
           | None \<Rightarrow>
               Some (agent_error_of UnknownHandle
                       (''worker_syscall_await: unknown async handle '' @ show_nat (unat (ww_async_id args))), wl, w))
      | other \<Rightarrow>
          do {
            (r, st1, w1) \<leftarrow> dispatch_short os other (wl_state wl) w;
            Some (r, wl\<lparr>wl_state := st1\<rparr>, w1)
          })"

partial_function (option) serve_worker ::
  "'w os \<Rightarrow> worker_loop \<Rightarrow> reader \<Rightarrow> writer \<Rightarrow> 'w
     \<Rightarrow> ((agent_runtime_error + unit) \<times> worker_loop \<times> writer \<times> 'w) option" where
  "serve_worker os wl rd wr w =
     (case read_host_message os rd of
        (Inl e, rd1) \<Rightarrow> Some (Inr (), wl, wr, w)
      | (Inr op, rd1) \<Rightarrow>
          Option.bind (worker_answer os op wl w) (\<lambda>(m, wl1, w1).
            case write_agent_message os m wr of
              (Inl e, wr1) \<Rightarrow> Some (Inl e, wl1, wr1, w1)
            | (Inr _, wr1) \<Rightarrow> serve_worker os wl1 rd1 wr1 w1))"

definition serve_worker_child ::
  "'w os \<Rightarrow> reader \<Rightarrow> writer \<Rightarrow> 'w \<Rightarrow> ((agent_runtime_error + unit) \<times> worker_loop \<times> writer \<times> 'w) option" where
  "serve_worker_child os rd wr w = serve_worker os worker_loop_new rd wr w"

end
