(* ===== verification/Agent_Handles.thy ===== *)
theory Agent_Handles
  imports Agent_State
begin

text \<open>
  The contract of the agent's handle tables. One counter serves four tables: a handle is
  never given out twice, so an insert gives a handle that nobody holds, a removed handle is
  unknown, and it stays unknown whatever is inserted later. The contract is the locale
  \<open>handle_table\<close>, interpreted on each of the four tables of \<open>state.rs\<close>; \<open>agent_step\<close> is what
  one operation may do to the tables.
\<close>

section \<open>The invariant\<close>

primrec file_id :: "file_handle \<Rightarrow> u64" where
  "file_id (FileHandle i) = i"

primrec process_id :: "process_handle \<Rightarrow> u64" where
  "process_id (ProcessHandle i) = i"

primrec worker_id :: "worker_handle \<Rightarrow> u64" where
  "worker_id (WorkerHandle i) = i"

lemma file_id_eq [simp]: "file_id h = file_id k \<longleftrightarrow> h = k"
  by (cases h; cases k) simp

lemma process_id_eq [simp]: "process_id h = process_id k \<longleftrightarrow> h = k"
  by (cases h; cases k) simp

lemma worker_id_eq [simp]: "worker_id h = worker_id k \<longleftrightarrow> h = k"
  by (cases h; cases k) simp

definition handle_ids :: "agent_state \<Rightarrow> u64 list" where
  "handle_ids st =
     map (file_id \<circ> fst) (as_files st) @ map (process_id \<circ> fst) (as_processes st)
     @ map (worker_id \<circ> fst) (as_workers st) @ map (process_id \<circ> fst) (as_worker_processes st)"

definition slots_ok :: "agent_state \<Rightarrow> bool" where
  "slots_ok st \<longleftrightarrow>
     (\<forall>x \<in> set (as_processes st).
        sl_stdout_buf (snd x) < length (as_bufs st) \<and> sl_stderr_buf (snd x) < length (as_bufs st))"

definition owners_ok :: "agent_state \<Rightarrow> bool" where
  "owners_ok st \<longleftrightarrow> (\<forall>x \<in> set (as_worker_processes st). worker_conn_of (fst (snd x)) st \<noteq> None)"

text \<open>
  No id is used twice in all the tables, every id was given out by the counter, every slot's
  buffers exist and every worker-spawned process belongs to a live worker.
\<close>

definition handles_ok :: "agent_state \<Rightarrow> bool" where
  "handles_ok st \<longleftrightarrow>
     distinct (handle_ids st) \<and> (\<forall>i \<in> set (handle_ids st). 0 < i \<and> i < as_next_handle st)
     \<and> 0 < as_next_handle st \<and> slots_ok st \<and> owners_ok st"

text \<open>The counter can still give out \<open>n\<close> handles.\<close>

definition handles_left :: "nat \<Rightarrow> agent_state \<Rightarrow> bool" where
  "handles_left n st \<longleftrightarrow> unat (as_next_handle st) + n < 2 ^ 64"

lemma handles_left_next:
  "handles_left (Suc n) st \<Longrightarrow> unat (as_next_handle st + 1) = unat (as_next_handle st) + 1"
  by (simp add: handles_left_def unat_word_ariths)

lemma next_greater:
  "handles_left (Suc n) st \<Longrightarrow> as_next_handle st < as_next_handle st + 1"
  using handles_left_next [of n st] by (simp add: word_less_nat_alt)

lemma agent_new_ok: "handles_ok agent_new"
  by (simp add: handles_ok_def handle_ids_def agent_new_def slots_ok_def owners_ok_def)

section \<open>Lists as tables\<close>

lemma map_of_fresh:
  assumes "inj g" and "g k \<notin> (g \<circ> fst) ` set xs"
  shows "map_of xs k = None"
  using assms by (force simp: map_of_eq_None_iff)

lemma update_absent: "k \<notin> fst ` set xs \<Longrightarrow> AList.update k v xs = xs @ [(k, v)]"
  by (induction xs) auto

lemma update_keys: "k \<in> fst ` set xs \<Longrightarrow> map fst (AList.update k v xs) = map fst xs"
  by (induction xs) auto

lemma set_delete_subset: "set (AList.delete k xs) \<subseteq> set xs"
  by (induction xs) auto

lemma delete_absent: "map_of xs h = None \<Longrightarrow> AList.delete h xs = xs"
  by (induction xs) (auto split: if_splits)

lemma update_same: "map_of xs h = Some v \<Longrightarrow> AList.update h v xs = xs"
  by (induction xs) auto

lemma injs: "inj file_id" "inj process_id" "inj worker_id"
  by (auto intro: injI)

section \<open>The contract of a table\<close>

locale handle_table =
  fixes insert :: "'v \<Rightarrow> agent_state \<Rightarrow> 'h \<times> agent_state"
    and lookup :: "'h \<Rightarrow> agent_state \<Rightarrow> 'v option"
    and remove :: "'h \<Rightarrow> agent_state \<Rightarrow> 'v option \<times> agent_state"
    and ident :: "'h \<Rightarrow> u64"
  assumes insert_ident: "ident (fst (insert v st)) = as_next_handle st"
    and insert_next: "as_next_handle (snd (insert v st)) = as_next_handle st + 1"
    and lookup_insert: "lookup h (snd (insert v st)) = (if ident h = as_next_handle st then Some v else lookup h st)"
    and remove_result: "fst (remove h st) = lookup h st"
    and remove_next: "as_next_handle (snd (remove h st)) = as_next_handle st"
    and lookup_remove: "lookup k (snd (remove h st)) = (if k = h then None else lookup k st)"
    and lookup_known: "lookup h st \<noteq> None \<Longrightarrow> ident h \<in> set (handle_ids st)"
    and ident_inj: "ident h = ident k \<Longrightarrow> h = k"
begin

lemma unknown: "ident h \<notin> set (handle_ids st) \<Longrightarrow> lookup h st = None"
  using lookup_known by blast

lemma insert_get: "lookup (fst (insert v st)) (snd (insert v st)) = Some v"
  by (simp add: lookup_insert insert_ident)

lemma insert_fresh:
  assumes "handles_ok st"
  shows "ident (fst (insert v st)) \<notin> set (handle_ids st)"
  using assms by (auto simp: handles_ok_def insert_ident)

lemma insert_keeps:
  assumes "handles_ok st" and "lookup h st = Some u"
  shows "lookup h (snd (insert v st)) = Some u"
proof -
  have "ident h \<noteq> as_next_handle st"
    using assms lookup_known [of h st] by (auto simp: handles_ok_def)
  with assms(2) show ?thesis
    by (simp add: lookup_insert)
qed

lemma removed_unknown: "lookup h (snd (remove h st)) = None"
  by (simp add: lookup_remove)

lemma insert_remove:
  assumes "handles_ok st"
  shows "lookup k (snd (remove (fst (insert v st)) (snd (insert v st)))) = lookup k st"
proof (cases "k = fst (insert v st)")
  case True
  have "lookup (fst (insert v st)) st = None"
    using insert_fresh [OF assms, of v] lookup_known by blast
  with True show ?thesis
    by (simp add: lookup_remove)
next
  case False
  then have "ident k \<noteq> as_next_handle st"
    using ident_inj [of k "fst (insert v st)"] by (auto simp: insert_ident)
  with False show ?thesis
    by (simp add: lookup_remove lookup_insert)
qed

end

section \<open>The four tables\<close>

lemma map_of_known: "map_of xs h \<noteq> None \<Longrightarrow> g h \<in> (g \<circ> fst) ` set xs"
  by (auto dest: map_of_SomeD intro!: rev_image_eqI)

lemmas table_defs = alloc_id_def Let_def update_conv' delete_conv'

lemma file_is_next: "FileHandle i = h \<longleftrightarrow> file_id h = i"
  by (cases h) auto

lemma process_is_next: "ProcessHandle i = h \<longleftrightarrow> process_id h = i"
  by (cases h) auto

lemma worker_is_next: "WorkerHandle i = h \<longleftrightarrow> worker_id h = i"
  by (cases h) auto

lemmas is_next = file_is_next process_is_next worker_is_next
  file_is_next [unfolded eq_commute [of "FileHandle _"]]
  process_is_next [unfolded eq_commute [of "ProcessHandle _"]]
  worker_is_next [unfolded eq_commute [of "WorkerHandle _"]]

interpretation files: handle_table insert_file file_of take_file file_id
proof
  show "file_of h st \<noteq> None \<Longrightarrow> file_id h \<in> set (handle_ids st)" for h st
    using map_of_known [of "as_files st" h file_id] by (simp add: file_of_def handle_ids_def)
qed (auto simp: insert_file_def take_file_def file_of_def table_defs is_next)

interpretation processes:
  handle_table insert_process "\<lambda>h st. map_of (as_processes st) h" take_process process_id
proof
  show "map_of (as_processes st) h \<noteq> None \<Longrightarrow> process_id h \<in> set (handle_ids st)" for h st
    using map_of_known [of "as_processes st" h process_id] by (simp add: handle_ids_def)
qed (auto simp: insert_process_def take_process_def table_defs is_next)

interpretation workers: handle_table insert_worker_conn worker_conn_of remove_worker_conn worker_id
proof
  show "worker_conn_of h st \<noteq> None \<Longrightarrow> worker_id h \<in> set (handle_ids st)" for h st
    using map_of_known [of "as_workers st" h worker_id] by (simp add: worker_conn_of_def handle_ids_def)
qed (auto simp: insert_worker_conn_def remove_worker_conn_def worker_conn_of_def table_defs is_next)

interpretation worker_procs:
  handle_table "case_prod insert_worker_process" worker_process remove_worker_process process_id
proof
  show "worker_process h st \<noteq> None \<Longrightarrow> process_id h \<in> set (handle_ids st)" for h st
    using map_of_known [of "as_worker_processes st" h process_id] by (simp add: worker_process_def handle_ids_def)
qed (auto simp: insert_worker_process_def remove_worker_process_def worker_process_def table_defs is_next)

section \<open>What one operation does to the tables\<close>

inductive agent_step :: "agent_state \<Rightarrow> agent_state \<Rightarrow> bool" where
  stay: "length (as_bufs st) \<le> length bs \<Longrightarrow> agent_step st (st\<lparr>as_bufs := bs\<rparr>)"
| open_f: "agent_step st (snd (insert_file fd st))"
| close_f: "agent_step st (snd (take_file h st))"
| start: "length (as_bufs st) \<le> length bs \<Longrightarrow> sl_stdout_buf slot < length bs \<Longrightarrow> sl_stderr_buf slot < length bs
    \<Longrightarrow> agent_step st (snd (insert_process slot (st\<lparr>as_bufs := bs\<rparr>)))"
| collect: "length (as_bufs st) \<le> length bs \<Longrightarrow> agent_step st ((snd (take_process h st))\<lparr>as_bufs := bs\<rparr>)"
| adjust: "map_of (as_processes st) h = Some slot \<Longrightarrow> sl_stdout_buf slot' = sl_stdout_buf slot
    \<Longrightarrow> sl_stderr_buf slot' = sl_stderr_buf slot
    \<Longrightarrow> agent_step st (st\<lparr>as_processes := AList.update h slot' (as_processes st)\<rparr>)"
| spawn: "agent_step st (snd (insert_worker_conn conn st))"
| join: "agent_step st (remove_worker_processes_of h (snd (remove_worker_conn h st)))"
| register: "worker_conn_of wk st \<noteq> None \<Longrightarrow> agent_step st (snd (insert_worker_process wk inner st))"
| forget: "agent_step st (snd (remove_worker_process h st))"

lemma agent_step_refl [simp]: "agent_step st st"
  using stay [of st "as_bufs st"] by simp

text \<open>An id that was given out and that no table holds any more.\<close>

definition retired :: "u64 \<Rightarrow> agent_state \<Rightarrow> bool" where
  "retired i st \<longleftrightarrow> i < as_next_handle st \<and> i \<notin> set (handle_ids st)"

definition same_or_next :: "agent_state \<Rightarrow> agent_state \<Rightarrow> bool" where
  "same_or_next st st' \<longleftrightarrow>
     as_next_handle st' = as_next_handle st \<and> distinct (handle_ids st') \<and> set (handle_ids st') \<subseteq> set (handle_ids st)
     \<or> as_next_handle st' = as_next_handle st + 1 \<and> distinct (handle_ids st')
       \<and> set (handle_ids st') \<subseteq> insert (as_next_handle st) (set (handle_ids st))"

lemma next_not_used: "handles_ok st \<Longrightarrow> as_next_handle st \<notin> set (handle_ids st)"
  by (auto simp: handles_ok_def)

lemma next_keys:
  assumes "handles_ok st"
  shows "FileHandle (as_next_handle st) \<notin> fst ` set (as_files st)"
    and "ProcessHandle (as_next_handle st) \<notin> fst ` set (as_processes st)"
    and "WorkerHandle (as_next_handle st) \<notin> fst ` set (as_workers st)"
    and "ProcessHandle (as_next_handle st) \<notin> fst ` set (as_worker_processes st)"
  using next_not_used [OF assms] by (force simp: handle_ids_def is_next)+

lemmas insert_defs = insert_file_def insert_process_def insert_worker_conn_def insert_worker_process_def
lemmas remove_defs = take_file_def take_process_def remove_worker_conn_def remove_worker_process_def
  remove_worker_processes_of_def

lemma same_or_next_insert:
  assumes "handles_ok st"
  shows "same_or_next st (snd (insert_file fd st))"
    and "same_or_next st (snd (insert_process slot (st\<lparr>as_bufs := bs\<rparr>)))"
    and "same_or_next st (snd (insert_worker_conn conn st))"
    and "same_or_next st (snd (insert_worker_process wk inner st))"
  using next_not_used [OF assms] next_keys [OF assms] assms
  by (auto simp: same_or_next_def insert_defs table_defs update_absent handle_ids_def handles_ok_def)

lemma same_or_next_remove:
  assumes "handles_ok st"
  shows "same_or_next st (snd (take_file h st))"
    and "same_or_next st ((snd (take_process p st))\<lparr>as_bufs := bs\<rparr>)"
    and "same_or_next st (remove_worker_processes_of wk (snd (remove_worker_conn wk st)))"
    and "same_or_next st (snd (remove_worker_process p st))"
proof -
  have "distinct (handle_ids st)"
    using assms by (simp add: handles_ok_def)
  then show "same_or_next st (snd (take_file h st))"
    and "same_or_next st ((snd (take_process p st))\<lparr>as_bufs := bs\<rparr>)"
    and "same_or_next st (remove_worker_processes_of wk (snd (remove_worker_conn wk st)))"
    and "same_or_next st (snd (remove_worker_process p st))"
    unfolding same_or_next_def handle_ids_def
    by (auto simp: remove_defs AList.delete_eq distinct_map_filter)
qed

lemma same_or_next_adjust:
  assumes "handles_ok st" and "map_of (as_processes st) h = Some slot"
  shows "same_or_next st (st\<lparr>as_processes := AList.update h slot' (as_processes st)\<rparr>)"
proof -
  have "h \<in> fst ` set (as_processes st)"
    using assms(2) by (force dest: map_of_SomeD)
  then have "map fst (AList.update h slot' (as_processes st)) = map fst (as_processes st)"
    by (rule update_keys)
  then have "map (process_id \<circ> fst) (AList.update h slot' (as_processes st)) = map (process_id \<circ> fst) (as_processes st)"
    by (simp only: map_map [symmetric])
  then show ?thesis
    using assms(1) by (simp add: same_or_next_def handle_ids_def handles_ok_def)
qed

lemma agent_step_ids:
  assumes "agent_step st st'" and "handles_ok st"
  shows "same_or_next st st'"
  using assms
proof (cases rule: agent_step.cases)
  case (stay bs)
  with assms(2) show ?thesis by (simp add: same_or_next_def handle_ids_def handles_ok_def)
next
  case (adjust h slot slot')
  with same_or_next_adjust [OF assms(2)] show ?thesis by simp
qed (simp_all only: same_or_next_insert [OF assms(2)] same_or_next_remove [OF assms(2)])

lemma slots_okD:
  "slots_ok st \<Longrightarrow> (h, s) \<in> set (as_processes st)
     \<Longrightarrow> sl_stdout_buf s < length (as_bufs st) \<and> sl_stderr_buf s < length (as_bufs st)"
  by (force simp: slots_ok_def)

lemma set_update_subset: "set (AList.update k v xs) \<subseteq> insert (k, v) (set xs)"
  by (induction xs) auto

lemma agent_step_slots:
  assumes "agent_step st st'" and "slots_ok st"
  shows "slots_ok st'"
  using assms
proof (cases rule: agent_step.cases)
  case (stay bs)
  with assms(2) show ?thesis by (force simp: slots_ok_def)
next
  case (start bs slot)
  with assms(2) show ?thesis
    using set_update_subset [of "ProcessHandle (as_next_handle st)" slot "as_processes st"]
    by (force simp: slots_ok_def insert_process_def table_defs)
next
  case (collect bs h)
  with assms(2) show ?thesis by (force simp: slots_ok_def take_process_def AList.delete_eq)
next
  case (adjust h slot slot')
  have "(h, slot) \<in> set (as_processes st)"
    using adjust(2) by (rule map_of_SomeD)
  with assms(2) adjust show ?thesis
    using set_update_subset [of h slot' "as_processes st"]
    by (fastforce simp: slots_ok_def)
qed (simp_all add: slots_ok_def insert_defs remove_defs table_defs)

lemma owners_okD:
  "owners_ok st \<Longrightarrow> (h, (wk, inner)) \<in> set (as_worker_processes st) \<Longrightarrow> wk \<in> dom (map_of (as_workers st))"
  by (force simp: owners_ok_def worker_conn_of_def)

lemma owners_ok_alt:
  "owners_ok st \<longleftrightarrow> (\<forall>x \<in> set (as_worker_processes st). fst (snd x) \<in> dom (map_of (as_workers st)))"
  by (auto simp: owners_ok_def worker_conn_of_def)

lemma agent_step_owners:
  assumes "agent_step st st'" and "owners_ok st"
  shows "owners_ok st'"
  using assms
proof (cases rule: agent_step.cases)
  case (spawn conn)
  with assms(2) show ?thesis
    by (simp add: owners_ok_alt insert_worker_conn_def table_defs)
next
  case (join h)
  with assms(2) show ?thesis
    by (simp add: owners_ok_alt remove_defs table_defs)
next
  case (register wk inner)
  with assms(2) show ?thesis
    using set_update_subset [of "ProcessHandle (as_next_handle st)" "(wk, inner)" "as_worker_processes st"]
    by (fastforce simp: owners_ok_alt insert_worker_process_def worker_conn_of_def table_defs)
next
  case (forget h)
  with assms(2) show ?thesis
    by (simp add: owners_ok_alt remove_worker_process_def AList.delete_eq)
qed (simp_all add: owners_ok_alt insert_defs remove_defs table_defs)

lemma agent_step_keeps:
  assumes "agent_step st st'" and "handles_ok st" and "handles_left 1 st"
  shows "handles_ok st'"
proof -
  have lt: "as_next_handle st < as_next_handle st + 1"
    using assms(3) next_greater [of 0 st] by simp
  have "slots_ok st'" "owners_ok st'"
    using assms(1,2) agent_step_slots agent_step_owners by (auto simp: handles_ok_def)
  moreover have "distinct (handle_ids st') \<and> (\<forall>i \<in> set (handle_ids st'). 0 < i \<and> i < as_next_handle st') \<and> 0 < as_next_handle st'"
    using agent_step_ids [OF assms(1,2)] assms(2) lt
    by (fastforce simp: same_or_next_def handles_ok_def)
  ultimately show ?thesis
    by (simp add: handles_ok_def)
qed

lemma agent_step_retired:
  assumes "agent_step st st'" and "handles_ok st" and "handles_left 1 st" and "retired i st"
  shows "retired i st'"
  using agent_step_ids [OF assms(1,2)] assms(4) next_greater [of 0 st] assms(3)
  by (fastforce simp: same_or_next_def retired_def)

lemma agent_step_left:
  assumes "agent_step st st'" and "handles_ok st" and "handles_left (Suc n) st"
  shows "handles_left n st'"
  using agent_step_ids [OF assms(1,2)] handles_left_next [OF assms(3)] assms(3)
  by (auto simp: same_or_next_def handles_left_def)

end
