(* ===== verification/Agent_Steps.thy ===== *)
theory Agent_Steps
  imports Agent_Connection Agent_Handles
begin

text \<open>
  Every handler of the agent changes the tables of \<open>state.rs\<close> by at most one \<open>agent_step\<close>,
  whatever the operating system answers. This is the lemma through which the properties of the
  tables reach \<open>dispatch_short\<close>.
\<close>


lemma open_file_step: "agent_step st (fst (snd (open_file os args st w)))"
  by (auto simp: open_file_def Let_def case_prod_beta intro: agent_step.open_f split: sum.split)

lemma close_step: "agent_step st (fst (snd (close_op os args st w)))"
  using agent_step.close_f [of st "cl_handle args"]
  by (simp add: close_op_def case_prod_beta split: option.split)

lemma file_ops_state:
  "fst (snd (read_op os ra st w)) = st"
  "fst (snd (write_op os wa st w)) = st"
  "fst (snd (seek_op os sa st w)) = st"
  "fst (snd (ioctl_op os ia st w)) = st"
  by (simp_all add: read_op_def write_op_def seek_op_def ioctl_op_def Let_def case_prod_beta split: option.split)

lemma run_async_step: "agent_step st (fst (snd (run_async os args st w)))"
proof (cases "fst (os_spawn os \<lparr>cd_program = ra_cmd args, cd_args = ra_args args, cd_env = ra_env args,
                        cd_env_clear = ra_env_clear args, cd_cwd = ra_cwd args\<rparr> w)")
  case (Inl e)
  then show ?thesis by (simp add: run_async_def case_prod_beta)
next
  case (Inr c)
  let ?bs = "as_bufs st @ [[]] @ [[]]"
  let ?slot = "\<lparr>sl_child = Some (ch_pid c), sl_stdout_buf = length (as_bufs st), sl_stderr_buf = Suc (length (as_bufs st)),
                 sl_stdout_join = Some (ch_stdout c), sl_stderr_join = Some (ch_stderr c), sl_stdin = Some (ch_stdin c)\<rparr>"
  have "fst (snd (run_async os args st w)) = snd (insert_process ?slot (st\<lparr>as_bufs := ?bs\<rparr>))"
    using Inr by (simp add: run_async_def case_prod_beta alloc_buf_def Let_def)
  moreover have "agent_step st (snd (insert_process ?slot (st\<lparr>as_bufs := ?bs\<rparr>)))"
    by (rule agent_step.start) simp_all
  ultimately show ?thesis by simp
qed

lemma worker_relay_state:
  "fst (snd (worker_syscall os a1 st w)) = st"
  "fst (snd (worker_syscall_begin os a2 st w)) = st"
  "fst (snd (worker_syscall_await os a3 st w)) = st"
  "fst (snd (worker_exec os a4 st w)) = st"
  "fst (snd (worker_kill os a5 st w)) = st"
  "fst (snd (worker_open_file a6 st w)) = st"
  "fst (snd (relay_process_op os nm wk op st w)) = st"
  by (simp_all add: worker_syscall_def worker_syscall_begin_def worker_syscall_await_def worker_exec_def
      worker_kill_def worker_open_file_def relay_process_op_def case_prod_beta
      split: option.split sum.split agent_message.split)

lemma spawn_worker_step: "agent_step st (fst (snd (spawn_worker os st w)))"
  by (auto simp: spawn_worker_def Let_def case_prod_beta intro: agent_step.spawn split: sum.split)

lemma worker_join_step: "agent_step st (fst (snd (worker_join os args st w)))"
proof (cases "worker_conn_of (wj_handle args) st")
  case None
  then show ?thesis
    by (simp add: worker_join_def remove_worker_conn_def worker_conn_of_def delete_absent)
next
  case (Some conn)
  then show ?thesis
    using agent_step.join [of st "wj_handle args"]
    by (simp add: worker_join_def remove_worker_conn_def worker_conn_of_def case_prod_beta Let_def)
qed

lemma worker_run_async_step: "agent_step st (fst (snd (worker_run_async os args st w)))"
proof (cases "worker_conn_of (wr_handle args) st")
  case None
  then show ?thesis by (simp add: worker_run_async_def)
next
  case (Some conn)
  then have reg: "agent_step st (snd (insert_worker_process (wr_handle args) inner st))" for inner
    by (intro agent_step.register) simp
  with Some show ?thesis
    by (simp add: worker_run_async_def case_prod_beta Let_def
        split: sum.split agent_message.split op_result.split)
qed


lemma join_drain_state:
  assumes "join_drain os j b st w = Some (st', w')"
  obtains bs where "st' = st\<lparr>as_bufs := bs\<rparr>" and "length bs = length (as_bufs st)"
proof (cases j)
  case None
  with assms that [of "as_bufs st"] show ?thesis by (simp add: join_drain_def)
next
  case (Some p)
  with assms that show ?thesis
    by (auto simp: join_drain_def Option.bind_eq_Some_conv)
qed

lemma wait_own_state:
  assumes "wait_own os args st w = Some (r, st', w')"
  obtains bs where "st' = (snd (take_process (wt_handle args) st))\<lparr>as_bufs := bs\<rparr>" and "length bs = length (as_bufs st)"
proof -
  let ?st1 = "snd (take_process (wt_handle args) st)"
  have same: "?st1\<lparr>as_bufs := as_bufs st\<rparr> = ?st1"
    by (simp add: take_process_def)
  show ?thesis
  proof (cases "map_of (as_processes st) (wt_handle args)")
    case None
    with assms that [of "as_bufs st"] same show ?thesis
      by (auto simp: wait_own_def take_process_def)
  next
    case (Some slot)
    show ?thesis
    proof (cases "sl_child slot")
      case None
      with assms Some that [of "as_bufs st"] same show ?thesis
        by (auto simp: wait_own_def take_process_def)
    next
      case pid: (Some pid)
      obtain st2 w1 st3 w2 w3 where j1: "join_drain os (sl_stdout_join slot) (sl_stdout_buf slot) ?st1 w1 = Some (st2, w2)"
        and j2: "join_drain os (sl_stderr_join slot) (sl_stderr_buf slot) st2 w2 = Some (st3, w3)"
        and st': "st' = snd (take_buf (sl_stderr_buf slot) (snd (take_buf (sl_stdout_buf slot) st3)))"
        using assms Some pid
        by (auto simp: wait_own_def take_process_def Option.bind_eq_Some_conv case_prod_beta Let_def)
      obtain b2 where b2: "st2 = ?st1\<lparr>as_bufs := b2\<rparr>" "length b2 = length (as_bufs ?st1)"
        using j1 by (rule join_drain_state)
      obtain b3 where b3: "st3 = st2\<lparr>as_bufs := b3\<rparr>" "length b3 = length (as_bufs st2)"
        using j2 by (rule join_drain_state)
      have "st' = ?st1\<lparr>as_bufs := b3[sl_stdout_buf slot := [], sl_stderr_buf slot := []]\<rparr>"
        by (simp add: st' b3 b2 take_buf_def)
      moreover have "length b3 = length (as_bufs st)"
        by (simp add: b3 b2 take_process_def)
      ultimately show ?thesis
        using that by simp
    qed
  qed
qed

lemma worker_wait_state:
  assumes "worker_wait os outer wk inner t st w = Some (r, st', w')"
  shows "st' = st \<or> st' = snd (remove_worker_process outer st)"
proof (cases "worker_conn_of wk st")
  case None
  with assms show ?thesis
    by (auto simp: worker_wait_def)
next
  case (Some conn)
  with assms obtain a w1 where poll: "worker_poll os conn inner (map_option (\<lambda>ms. os_now os w + millis ms) t) w = Some (a, w1)"
    by (auto simp: worker_wait_def Option.bind_eq_Some_conv)
  with assms Some show ?thesis
    by (cases a) (auto simp: worker_wait_def Let_def case_prod_beta)
qed

lemma wait_state:
  assumes "wait_op os args st w = Some (r, st', w')"
  obtains "st' = st" | h where "st' = snd (remove_worker_process h st)"
  | bs where "st' = (snd (take_process (wt_handle args) st))\<lparr>as_bufs := bs\<rparr>" and "length bs = length (as_bufs st)"
proof (cases "worker_process (wt_handle args) st")
  case None
  with assms have "wait_own os args st w = Some (r, st', w')"
    by (simp add: wait_op_def)
  then show ?thesis
    by (rule wait_own_state) (rule that(3))
next
  case (Some x)
  with assms show ?thesis
    using worker_wait_state that(1,2) by (cases x) (fastforce simp: wait_op_def)
qed

lemma wait_step:
  assumes "wait_op os args st w = Some (r, st', w')"
  shows "agent_step st st'"
  using assms by (rule wait_state) (auto intro: agent_step.forget agent_step.collect)

lemma with_process_keeps [simp]:
  "snd (with_process_mut h (\<lambda>slot. (f slot, slot)) st) = st"
  by (simp add: with_process_mut_def update_same split: option.split)

lemma process_ops_state:
  "fst (snd (kill_op os a1 st w)) = st"
  "fst (snd (get_pid os a2 st w)) = st"
  "fst (snd (proc_stdin_write os a3 st w)) = st"
  "fst (snd (proc_status os a4 st w)) = st"
  by (simp_all add: kill_op_def get_pid_def proc_stdin_write_def proc_status_def case_prod_beta worker_relay_state
      split: option.split sum.split)

lemma proc_stdin_close_step: "agent_step st (fst (snd (proc_stdin_close os args st w)))"
proof (cases "worker_process (sc_handle args) st")
  case (Some x)
  then show ?thesis
    by (cases x) (simp add: proc_stdin_close_def worker_relay_state)
next
  case None
  then show ?thesis
    by (auto simp: proc_stdin_close_def with_process_mut_def Let_def intro: agent_step.adjust split: option.split)
qed

lemma step_of: "agent_step st (fst (snd x)) \<Longrightarrow> x = (r, st', w') \<Longrightarrow> agent_step st st'"
  by simp

lemma step_keep: "fst (snd x) = st \<Longrightarrow> x = (r, st', w') \<Longrightarrow> agent_step st st'"
  by auto

lemma step_keep_state: "keep_state st x = Some (r, st', w') \<Longrightarrow> agent_step st st'"
  by (auto simp: keep_state_def)

lemmas handler_steps = step_of [OF open_file_step] step_of [OF close_step] step_of [OF run_async_step]
  step_of [OF spawn_worker_step] step_of [OF worker_join_step] step_of [OF worker_run_async_step]
  step_of [OF proc_stdin_close_step] wait_step step_keep_state

lemmas handler_keeps = file_ops_state [THEN step_keep] worker_relay_state [THEN step_keep]
  process_ops_state [THEN step_keep]

lemma dispatch_short_step:
  assumes "dispatch_short os op st w = Some (r, st', w')"
  shows "agent_step st st'"
  using assms
  by (cases op)
     (auto simp only: dispatch_short_def host_message.case Option.bind_eq_Some_conv case_prod_beta
       option.inject prod.inject fst_conv snd_conv agent_step_refl
       intro: handler_steps handler_keeps)

end
