(* ===== verification/Agent_Example.thy ===== *)
theory Agent_Example
  imports Agent_Steps
begin

text \<open>
  A concrete operating system, on which the witnesses evaluate the agent: the world is a clock
  in nanoseconds that only sleeping advances; every path opens, as descriptor 3, and reads are
  at their end; a child never exits by itself and dies of the signal it is sent. A host
  message of one byte is the hello of that version, the empty one closes the first file; the
  agent's messages are coded in one byte or none.
\<close>

definition demo_error :: os_io_error where
  "demo_error = \<lparr>ie_errno = Some 22, ie_is_directory = False, ie_text = ''Invalid argument''\<rparr>"

definition demo_hello :: hello_ok_msg where
  "demo_hello =
     \<lparr>ho_protocol_version = 1,
      ho_agent = \<lparr>ai_os = ''peios'', ai_agent_version = ''1'', ai_kernel = None, ai_capabilities = []\<rparr>\<rparr>"

definition demo_enc_host :: "host_message \<Rightarrow> bytes option" where
  "demo_enc_host m =
     (case m of
        HmHello h \<Rightarrow> if he_protocol_version h = 1 then Some [1] else None
      | HmClose a \<Rightarrow> if cl_handle a = FileHandle 1 then Some [] else None
      | _ \<Rightarrow> None)"

fun demo_dec_host :: "bytes \<Rightarrow> host_message option" where
  "demo_dec_host [] = Some (HmClose \<lparr>cl_handle = FileHandle 1\<rparr>)"
| "demo_dec_host [v] = Some (HmHello \<lparr>he_protocol_version = ucast v\<rparr>)"
| "demo_dec_host _ = None"

definition demo_enc_agent :: "agent_message \<Rightarrow> bytes option" where
  "demo_enc_agent m =
     (case m of
        AmHelloOk h \<Rightarrow> if h = demo_hello then Some [1] else None
      | AmHelloErr e \<Rightarrow> if e = \<lparr>hx_host_version = 9, hx_agent_version = 1\<rparr> then Some [2] else None
      | AmCloseResult r \<Rightarrow> if r = OpOk () then Some [] else None
      | _ \<Rightarrow> None)"

fun demo_dec_agent :: "bytes \<Rightarrow> agent_message option" where
  "demo_dec_agent [] = Some (AmCloseResult (OpOk ()))"
| "demo_dec_agent [v] =
     (if v = 1 then Some (AmHelloOk demo_hello)
      else if v = 2 then Some (AmHelloErr \<lparr>hx_host_version = 9, hx_agent_version = 1\<rparr>) else None)"
| "demo_dec_agent _ = None"

lemma demo_codec_host: "\<forall>m b. demo_enc_host m = Some b \<longrightarrow> demo_dec_host b = Some m"
  by (auto simp: demo_enc_host_def split: host_message.splits if_splits)

lemma demo_codec_agent: "\<forall>m b. demo_enc_agent m = Some b \<longrightarrow> demo_dec_agent b = Some m"
  by (auto simp: demo_enc_agent_def split: agent_message.splits if_splits)

definition demo_os :: "nat os" where
  "demo_os =
     \<lparr>os_open = (\<lambda>_ _ w. (Inr 3, w)),
      os_read = (\<lambda>_ _ w. (Inr [], w)),
      os_write = (\<lambda>_ bs w. (Inr (length bs), w)),
      os_close = (\<lambda>_ w. w),
      os_read_to_end = (\<lambda>_ w. (([], None), w)),
      os_write_all = (\<lambda>_ _ w. (Inr (), w)),
      os_seek = (\<lambda>_ _ w. (Inr 0, w)),
      os_metadata = (\<lambda>_ _ _. Inl demo_error),
      os_read_dir = (\<lambda>_ _. Inl demo_error),
      os_fd_len = (\<lambda>_ _. Inr 0),
      os_mkdir = (\<lambda>_ _ _ w. (Inr (), w)),
      os_remove_file = (\<lambda>_ w. (Inr (), w)),
      os_remove_dir = (\<lambda>_ w. (Inr (), w)),
      os_rename = (\<lambda>_ _ w. (Inr (), w)),
      os_spawn = (\<lambda>_ w. (Inr \<lparr>ch_pid = 7, ch_stdin = 10, ch_stdout = 11, ch_stderr = 12\<rparr>, w)),
      os_child_wait = (\<lambda>_ w. (Inr \<lparr>rs_code = None, rs_signal = Some 9\<rparr>, w)),
      os_try_wait = (\<lambda>_ w. (Inr None, w)),
      os_recv_status = (\<lambda>_ _ w. (StatusSent (Inr \<lparr>rs_code = Some 0, rs_signal = None\<rparr>), w)),
      os_kill = (\<lambda>_ _ w. (Inr (), w)),
      os_now = (\<lambda>w. w),
      os_sleep = (\<lambda>d w. w + d),
      os_clock_gettime = (\<lambda>w. (Inr (0, 0), w)),
      os_clock_settime = (\<lambda>_ w. (Inr (), w)),
      os_read_exact_at = (\<lambda>_ _ n w. (Inr (replicate n 0), w)),
      os_ioctl = (\<lambda>_ _ b bs w. ((0, demo_error, b, bs), w)),
      os_syscall = (\<lambda>_ _ bs w. ((0, demo_error, bs), w)),
      os_buf_addr = (\<lambda>_ i _. 4096 * of_nat (Suc i)),
      os_strerror = (\<lambda>_. ''error''),
      os_current_exe = (\<lambda>_. Inr ''/agent''),
      os_socketpair = (\<lambda>w. (Inr (20, 21), w)),
      os_spawn_worker = (\<lambda>_ _ w. (Inr 8, w)),
      os_shutdown = (\<lambda>_ w. w),
      os_sock_room = (\<lambda>_ _. None),
      os_sock_sent = (\<lambda>_ _ w. w),
      os_sock_incoming = (\<lambda>_ _. []),
      os_sock_left = (\<lambda>_ _ w. w),
      os_io_text = (\<lambda>_. ''error''),
      os_codec_text = ''error'',
      os_kernel_release = (\<lambda>_. None),
      os_enc_host = demo_enc_host,
      os_dec_host = demo_dec_host,
      os_enc_agent = demo_enc_agent,
      os_dec_agent = demo_dec_agent\<rparr>"

lemma demo_os_simps [simp]:
  "os_open demo_os = (\<lambda>_ _ w. (Inr 3, w))"
  "os_read demo_os = (\<lambda>_ _ w. (Inr [], w))"
  "os_close demo_os = (\<lambda>_ w. w)"
  "os_child_wait demo_os = (\<lambda>_ w. (Inr \<lparr>rs_code = None, rs_signal = Some 9\<rparr>, w))"
  "os_try_wait demo_os = (\<lambda>_ w. (Inr None, w))"
  "os_spawn demo_os = (\<lambda>_ w. (Inr \<lparr>ch_pid = 7, ch_stdin = 10, ch_stdout = 11, ch_stderr = 12\<rparr>, w))"
  "os_kill demo_os = (\<lambda>_ _ w. (Inr (), w))"
  "os_now demo_os = (\<lambda>w. w)"
  "os_sleep demo_os = (\<lambda>d w. w + d)"
  "os_dec_host demo_os = demo_dec_host"
  "os_enc_agent demo_os = demo_enc_agent"
  "os_enc_host demo_os = demo_enc_host"
  "os_dec_agent demo_os = demo_dec_agent"
  "os_kernel_release demo_os = (\<lambda>_. None)"
  "os_syscall demo_os = (\<lambda>_ _ bs w. ((0, demo_error, bs), w))"
  "os_buf_addr demo_os = (\<lambda>_ i _. 4096 * of_nat (Suc i))"
  "os_current_exe demo_os = (\<lambda>_. Inr ''/agent'')"
  "os_socketpair demo_os = (\<lambda>w. (Inr (20, 21), w))"
  "os_spawn_worker demo_os = (\<lambda>_ _ w. (Inr 8, w))"
  by (simp_all add: demo_os_def)

end
