(* ===== verification/Frame_Stream.thy ===== *)
theory Frame_Stream
  imports Frame_Codec
begin

text \<open>
  Streams of frames: what a \<open>FrameReader\<close> returns from a connection, however its bytes
  arrive and whenever reads time out, and that it is what \<open>write_frame\<close> sent.
\<close>

section \<open>What a reader still holds\<close>

fun arrived :: "arrival \<Rightarrow> bytes" where
  "arrived (Chunk bs) = bs"
| "arrived (ReadFails e) = []"

definition reader_data :: "reader \<Rightarrow> bytes" where
  "reader_data rd = concat (map arrived rd)"

definition timeout :: "io_error \<Rightarrow> bool" where
  "timeout e \<longleftrightarrow> e = WouldBlock \<or> e = TimedOut"

text \<open>A connection that is slow or interrupted, but not broken.\<close>

definition live :: "reader \<Rightarrow> bool" where
  "live rd \<longleftrightarrow> list_all (\<lambda>a. case a of Chunk bs \<Rightarrow> bs \<noteq> [] | ReadFails e \<Rightarrow> e = Interrupted \<or> timeout e) rd"

definition encoded :: "bytes \<Rightarrow> bytes" where
  "encoded b = to_be 4 (of_nat (length b) :: u32) @ b"

definition received :: "frame_reader \<Rightarrow> bytes" where
  "received fr = take (header_read fr) (header fr) @ take (body_read fr) (body fr)"

text \<open>Between calls: nothing of the body before the header is complete.\<close>

definition resumable :: "frame_reader \<Rightarrow> bool" where
  "resumable fr \<longleftrightarrow>
     length (header fr) = HEADER_LEN \<and> header_read fr \<le> HEADER_LEN
   \<and> (if header_read fr < HEADER_LEN then body fr = [] \<and> body_read fr = 0
      else length (body fr) = unat (from_be (header fr) :: u32) \<and> body_read fr \<le> length (body fr))"

text \<open>A caller that calls again after a timeout.\<close>

function read_retry ::
  "(bytes \<Rightarrow> 'm option) \<Rightarrow> frame_reader \<Rightarrow> reader \<Rightarrow> (frame_error + 'm) \<times> frame_reader \<times> reader" where
  "read_retry dec fr rd =
     (case frame_read dec fr rd of
        (Inl (FrameIo e), fr', rd') \<Rightarrow>
          if timeout e then read_retry dec fr' rd' else (Inl (FrameIo e), fr', rd')
      | x \<Rightarrow> x)"
  by pat_completeness auto

section \<open>\<open>read_full\<close>\<close>

lemma reader_data_simps [simp]:
  "reader_data [] = []" "reader_data (Chunk bs # rd) = bs @ reader_data rd"
  "reader_data (ReadFails e # rd) = reader_data rd"
  by (simp_all add: reader_data_def)

lemma live_simps [simp]:
  "live []" "live (Chunk bs # rd) \<longleftrightarrow> bs \<noteq> [] \<and> live rd"
  "live (ReadFails e # rd) \<longleftrightarrow> (e = Interrupted \<or> timeout e) \<and> live rd"
  by (simp_all add: live_def)

lemma reader_read_spec:
  assumes "reader_read n rd = (r, rd')"
  shows "reader_size rd' \<le> reader_size rd"
    and "live rd \<Longrightarrow> live rd'"
    and "r = Inl e \<Longrightarrow> reader_data rd' = reader_data rd \<and> reader_size rd' < reader_size rd \<and> (live rd \<longrightarrow> e = Interrupted \<or> timeout e)"
    and "r = Inr bs \<Longrightarrow> bs @ reader_data rd' = reader_data rd \<and> length bs \<le> n"
    and "r = Inr [] \<Longrightarrow> live rd \<Longrightarrow> 0 < n \<Longrightarrow> rd = [] \<and> rd' = []"
  using assms by (cases "(n, rd)" rule: reader_read.cases; auto split: if_splits)+

lemma take_splice_at:
  "tot \<le> length buf \<Longrightarrow> take (tot + length bs) (splice_at tot bs buf) = take tot buf @ bs"
  by (simp add: splice_at_def)

lemma read_full_spec:
  assumes "tot \<le> length buf" and "read_full rd buf tot = (r, (buf', tot'), rd')"
  shows "length buf' = length buf \<and> tot \<le> tot' \<and> tot' \<le> length buf
    \<and> take tot' buf' @ reader_data rd' = take tot buf @ reader_data rd
    \<and> take tot buf' = take tot buf
    \<and> reader_size rd' \<le> reader_size rd \<and> (live rd \<longrightarrow> live rd')
    \<and> (\<forall>e. r = Inl e \<longrightarrow> reader_size rd' < reader_size rd \<and> tot' < length buf \<and> (live rd \<longrightarrow> timeout e))
    \<and> (r = Inr () \<and> tot' < length buf \<and> live rd \<longrightarrow> rd' = [])"
  using assms
proof (induction rd buf tot arbitrary: r buf' tot' rd' rule: read_full.induct)
  case (1 rd buf tot)
  show ?case
  proof (cases "length buf \<le> tot")
    case True
    then have "(r, (buf', tot'), rd') = (Inr (), (buf, tot), rd)"
      using "1.prems"(2) by (simp add: read_full.simps [of rd buf tot])
    with "1.prems"(1) True show ?thesis by auto
  next
    case False
    obtain x rd1 where rr: "reader_read (length buf - tot) rd = (x, rd1)"
      by (cases "reader_read (length buf - tot) rd")
    note rs = reader_read_spec [OF rr]
    show ?thesis
    proof (cases x)
      case (Inl e)
      show ?thesis
      proof (cases "e = Interrupted")
        case True
        then have eq: "read_full rd buf tot = read_full rd1 buf tot"
          using False rr Inl by (simp add: read_full.simps [of rd buf tot])
        from "1.IH"(1) [OF False rr [symmetric] Inl True "1.prems"(1)] "1.prems"(2) eq rs(1,2) rs(3) [OF Inl]
        show ?thesis by auto
      next
        case ne: False
        have "(r, (buf', tot'), rd') = (Inl e, (buf, tot), rd1)"
          using "1.prems"(2) False rr Inl ne by (cases e) (simp_all add: read_full.simps [of rd buf tot])
        with "1.prems"(1) False rs(1,2) rs(3) [OF Inl] ne show ?thesis by auto
      qed
    next
      case (Inr bs)
      show ?thesis
      proof (cases bs)
        case Nil
        have "(r, (buf', tot'), rd') = (Inr (), (buf, tot), rd1)"
          using "1.prems"(2) False rr Inr Nil by (simp add: read_full.simps [of rd buf tot])
        with "1.prems"(1) False rs(1,2) rs(4) [OF Inr] rs(5) [OF Inr [unfolded Nil]] Nil show ?thesis by auto
      next
        case (Cons b bs')
        have len: "tot + length bs \<le> length buf" using rs(4) [OF Inr] False by linarith
        have eq: "read_full rd buf tot = read_full rd1 (splice_at tot bs buf) (tot + length bs)"
          using False rr Inr Cons by (simp add: read_full.simps [of rd buf tot])
        have sl: "length (splice_at tot bs buf) = length buf" using len by (simp add: length_splice_at)
        have pre: "take tot (splice_at tot bs buf) = take tot buf"
          using len by (simp add: splice_at_def)
        from "1.IH"(2) [OF False rr [symmetric] Inr Cons, of r buf' tot' rd'] "1.prems"(2) eq len sl
        have ih: "length buf' = length buf \<and> tot + length bs \<le> tot' \<and> tot' \<le> length buf
            \<and> take tot' buf' @ reader_data rd' = take (tot + length bs) (splice_at tot bs buf) @ reader_data rd1
            \<and> take (tot + length bs) buf' = take (tot + length bs) (splice_at tot bs buf)
            \<and> reader_size rd' \<le> reader_size rd1 \<and> (live rd1 \<longrightarrow> live rd')
            \<and> (\<forall>e. r = Inl e \<longrightarrow> reader_size rd' < reader_size rd1 \<and> tot' < length buf \<and> (live rd1 \<longrightarrow> timeout e))
            \<and> (r = Inr () \<and> tot' < length buf \<and> live rd1 \<longrightarrow> rd' = [])"
          using Cons by simp
        have "take tot buf' = take tot (take (tot + length bs) buf')" by simp
        also have "\<dots> = take tot buf" using ih pre by (simp add: min_def)
        finally have tk: "take tot buf' = take tot buf" .
        have "take (tot + length bs) (splice_at tot bs buf) @ reader_data rd1 = take tot buf @ reader_data rd"
          using "1.prems"(1) rs(4) [OF Inr] by (simp add: take_splice_at)
        with ih tk rs(1,2) show ?thesis by auto
      qed
    qed
  qed
qed

section \<open>One call\<close>

lemma read_full_fails_shrinks:
  assumes "read_full rd buf tot = (Inl e, x, rd')"
  shows "reader_size rd' < reader_size rd"
proof (cases "tot \<le> length buf")
  case True
  with assms show ?thesis using read_full_spec [OF True, of rd "Inl e" "fst x" "snd x" rd'] by simp
next
  case False
  with assms show ?thesis by (simp add: read_full.simps)
qed

lemma read_full_size:
  assumes "read_full rd buf tot = (r, x, rd')"
  shows "reader_size rd' \<le> reader_size rd"
proof (cases "tot \<le> length buf")
  case True
  with assms show ?thesis using read_full_spec [OF True, of rd r "fst x" "snd x" rd'] by simp
next
  case False
  with assms show ?thesis by (simp add: read_full.simps)
qed

lemma frame_read_fails_shrinks:
  assumes "frame_read dec fr rd = (Inl (FrameIo e), fr', rd')"
  shows "reader_size rd' < reader_size rd"
proof -
  obtain x h n rd1 where rf: "read_full rd (header fr) (header_read fr) = (x, (h, n), rd1)"
    by (metis prod.collapse)
  show ?thesis
  proof (cases x)
    case (Inl e')
    with assms rf show ?thesis using read_full_fails_shrinks [of rd "header fr"] by (simp add: frame_read_def)
  next
    case (Inr u)
    obtain y b k rd2 where rf2: "read_full rd1 (resize (unat (from_be h :: u32)) (body fr)) (body_read fr) = (y, (b, k), rd2)"
      by (metis prod.collapse)
    have "y = Inl e" "rd' = rd2"
      using assms rf Inr rf2
      by (auto simp: frame_read_def Let_def split: if_splits sum.splits option.splits)
    with read_full_fails_shrinks [of rd1] read_full_size [OF rf] rf2 show ?thesis
      by (metis order_less_le_trans)
  qed
qed

termination read_retry
  by (relation "measure (\<lambda>(dec, fr, rd). reader_size rd)") (auto intro: frame_read_fails_shrinks [OF sym])

declare read_retry.simps [simp del]

fun read_messages ::
  "(bytes \<Rightarrow> 'm option) \<Rightarrow> nat \<Rightarrow> frame_reader \<Rightarrow> reader \<Rightarrow> (frame_error + 'm list) \<times> frame_reader \<times> reader" where
  "read_messages dec 0 fr rd = (Inr [], fr, rd)"
| "read_messages dec (Suc n) fr rd =
     (case read_retry dec fr rd of
        (Inl e, fr', rd') \<Rightarrow> (Inl e, fr', rd')
      | (Inr m, fr', rd') \<Rightarrow>
          (case read_messages dec n fr' rd' of
             (Inl e, x) \<Rightarrow> (Inl e, x)
           | (Inr ms, x) \<Rightarrow> (Inr (m # ms), x)))"

text \<open>
  A call on a connection whose next bytes, with those already received, are a frame and
  \<open>rest\<close>: the message, with nothing of \<open>rest\<close> consumed, or a timeout, with nothing lost.
\<close>

definition got_frame :: "bytes \<Rightarrow> bytes \<Rightarrow> nat \<Rightarrow> frame_reader \<Rightarrow> reader \<Rightarrow> bool" where
  "got_frame b rest mx fr rd \<longleftrightarrow>
     resumable fr \<and> live rd \<and> max_body_bytes fr = mx \<and> received fr @ reader_data rd = encoded b @ rest"

lemma header_complete:
  assumes "length h = HEADER_LEN" and "h @ xs = encoded b @ rest" and "length b < 2 ^ 32"
  shows "unat (from_be h :: u32) = length b" "xs = b @ rest"
proof -
  have "h @ xs = to_be 4 (of_nat (length b) :: u32) @ (b @ rest)" using assms(2) by (simp add: encoded_def)
  then have "h = to_be 4 (of_nat (length b) :: u32)" "xs = b @ rest"
    using assms(1) by (simp_all add: HEADER_LEN_def append_eq_append_conv)
  then show "unat (from_be h :: u32) = length b" "xs = b @ rest"
    using assms(3) be32.dec_enc [of "of_nat (length b)"] by (simp_all add: unat_of_nat)
qed

lemma read_full_live:
  assumes "tot \<le> length buf" and "read_full rd buf tot = (r, (buf', tot'), rd')" and "live rd"
    and "length (take tot buf @ reader_data rd) \<ge> length buf"
  shows "length buf' = length buf" "tot' \<le> length buf" "live rd'"
    "take tot' buf' @ reader_data rd' = take tot buf @ reader_data rd"
    "r = Inr () \<Longrightarrow> tot' = length buf" "r = Inl e \<Longrightarrow> timeout e \<and> tot' < length buf"
    "tot \<le> tot'"
proof -
  note sp = read_full_spec [OF assms(1,2)]
  then show "length buf' = length buf" "tot' \<le> length buf" "live rd'"
    "take tot' buf' @ reader_data rd' = take tot buf @ reader_data rd"
    "r = Inl e \<Longrightarrow> timeout e \<and> tot' < length buf" "tot \<le> tot'"
    using assms(3) by auto
  show "tot' = length buf" if "r = Inr ()"
  proof (rule ccontr)
    assume "tot' \<noteq> length buf"
    with sp that assms(3) have "tot' < length buf" "rd' = []" by auto
    with sp have "take tot buf @ reader_data rd = take tot' buf'" by auto
    then have "length (take tot buf @ reader_data rd) = tot'" using sp \<open>tot' < length buf\<close> by simp
    with \<open>tot' < length buf\<close> assms(4) show False by simp
  qed
qed


lemma resize_same: "length bs = n \<Longrightarrow> resize n bs = bs"
  by (simp add: resize_def)

text \<open>The body of a frame whose header is complete.\<close>

lemma body_phase:
  assumes h: "length h = HEADER_LEN" "unat (from_be h :: u32) = length b"
    and k: "k \<le> length bb" "length bb = length b" and lv: "live rd"
    and data: "take k bb @ reader_data rd = b @ rest"
    and rf: "read_full rd bb k = (y, (bb', k'), rd')"
  shows "live rd' \<and> length bb' = length b \<and> k' \<le> length b \<and> take k' bb' @ reader_data rd' = b @ rest
    \<and> (y = Inr () \<longrightarrow> k' = length b \<and> bb' = b \<and> reader_data rd' = rest)
    \<and> (\<forall>e. y = Inl e \<longrightarrow> timeout e)"
proof -
  have "length bb \<le> length (take k bb @ reader_data rd)" using data k by simp
  note rl = read_full_live [OF k(1) rf lv this]
  have "bb' = b \<and> reader_data rd' = rest" if "y = Inr ()"
  proof -
    have "bb' @ reader_data rd' = b @ rest" using rl(1,4) rl(5) [OF that] data by simp
    then show ?thesis using rl(1) k(2) by (simp add: append_eq_append_conv)
  qed
  with rl k data show ?thesis by (cases y) auto
qed

lemma frame_read_body:
  assumes hd: "read_full rd (header fr) (header_read fr) = (Inr (), (h, HEADER_LEN), rd1)" "length h = HEADER_LEN"
    "unat (from_be h :: u32) = length b" and mx: "max_body_bytes fr = mx" "length b \<le> mx" and lv: "live rd1"
    and bd: "length (resize (length b) (body fr)) = length b" "body_read fr \<le> length b"
    and data: "take (body_read fr) (resize (length b) (body fr)) @ reader_data rd1 = b @ rest"
    and rd: "frame_read dec fr rd = (r, fr', rd')"
  shows "(r = (case dec b of None \<Rightarrow> Inl FrameDecode | Some m \<Rightarrow> Inr m) \<and> live rd' \<and> reader_data rd' = rest
        \<and> (dec b \<noteq> None \<longrightarrow> resumable fr' \<and> received fr' = [] \<and> max_body_bytes fr' = mx))
    \<or> (\<exists>e. r = Inl (FrameIo e) \<and> timeout e \<and> live rd' \<and> resumable fr' \<and> max_body_bytes fr' = mx
        \<and> received fr' @ reader_data rd' = h @ b @ rest)"
proof -
  obtain y bb k rd2 where rf: "read_full rd1 (resize (length b) (body fr)) (body_read fr) = (y, (bb, k), rd2)"
    by (metis prod.collapse)
  have bp: "live rd2 \<and> length bb = length b \<and> k \<le> length b \<and> take k bb @ reader_data rd2 = b @ rest
      \<and> (y = Inr () \<longrightarrow> k = length b \<and> bb = b \<and> reader_data rd2 = rest) \<and> (\<forall>e. y = Inl e \<longrightarrow> timeout e)"
    using body_phase [OF hd(2,3) _ bd(1) lv data rf] bd by simp
  have h0: "HEADER_LEN \<noteq> 0" by (simp add: HEADER_LEN_def)
  show ?thesis
  proof (cases y)
    case (Inl e)
    then have "r = Inl (FrameIo e)" "rd' = rd2"
      "fr' = fr\<lparr>header := h, header_read := HEADER_LEN, body := bb, body_read := k\<rparr>"
      using rd hd(1,3) mx rf h0 by (simp_all add: frame_read_def Let_def)
    with bp hd(2,3) mx Inl show ?thesis by (simp add: resumable_def received_def)
  next
    case (Inr u)
    with bp have bb: "bb = b" "k = length b" by simp_all
    have fin: "frame_read dec fr rd = (case dec b of
        None \<Rightarrow> (Inl FrameDecode, fr\<lparr>header := h, header_read := HEADER_LEN, body := b, body_read := length b\<rparr>, rd2)
      | Some m \<Rightarrow> (Inr m, fr\<lparr>header := h, header_read := HEADER_LEN, body := b, body_read := length b,
          header_read := 0, body_read := 0, body := []\<rparr>, rd2))"
      using hd(1,3) mx rf h0 Inr bb by (simp add: frame_read_def Let_def)
    with rd bp Inr hd(2) mx h0 show ?thesis
      by (cases "dec b") (auto simp: resumable_def received_def)
  qed
qed

lemma frame_read_got:
  assumes got: "got_frame b rest mx fr rd" and b: "length b \<le> mx" "length b < 2 ^ 32"
    and rd: "frame_read dec fr rd = (r, fr', rd')"
  shows "(r = (case dec b of None \<Rightarrow> Inl FrameDecode | Some m \<Rightarrow> Inr m) \<and> live rd' \<and> reader_data rd' = rest
        \<and> (dec b \<noteq> None \<longrightarrow> resumable fr' \<and> received fr' = [] \<and> max_body_bytes fr' = mx))
    \<or> (\<exists>e. r = Inl (FrameIo e) \<and> timeout e \<and> got_frame b rest mx fr' rd')"
proof -
  from got have res: "resumable fr" and lv: "live rd" and mx: "max_body_bytes fr = mx"
    and data: "received fr @ reader_data rd = encoded b @ rest" by (simp_all add: got_frame_def)
  have hlen: "length (header fr) = HEADER_LEN" "header_read fr \<le> length (header fr)"
    using res by (simp_all add: resumable_def)
  obtain x h n rd1 where rf: "read_full rd (header fr) (header_read fr) = (x, (h, n), rd1)"
    by (metis prod.collapse)
  have done_body: ?thesis if hd: "read_full rd (header fr) (header_read fr) = (Inr (), (h, HEADER_LEN), rd1)"
    "length h = HEADER_LEN" "live rd1"
    "h @ take (body_read fr) (resize (length b) (body fr)) @ reader_data rd1 = encoded b @ rest"
    and bd: "length (resize (length b) (body fr)) = length b" "body_read fr \<le> length b" for h rd1
  proof -
    note hc = header_complete [OF hd(2,4) b(2)]
    have "h = to_be 4 (of_nat (length b) :: u32)"
      using hd(2,4) by (simp add: encoded_def HEADER_LEN_def append_eq_append_conv)
    then have eq: "h @ b @ rest = encoded b @ rest" by (simp add: encoded_def)
    from frame_read_body [OF hd(1,2) hc(1) mx b(1) hd(3) bd hc(2) rd] show ?thesis
      unfolding eq got_frame_def by blast
  qed
  show ?thesis
  proof (cases "header_read fr < HEADER_LEN")
    case True
    with res have nobody: "body fr = []" "body_read fr = 0" by (simp_all add: resumable_def)
    then have rec: "received fr = take (header_read fr) (header fr)" by (simp add: received_def)
    have "length (encoded b @ rest) = length (take (header_read fr) (header fr) @ reader_data rd)"
      using data by (simp add: rec)
    then have "length (header fr) \<le> length (take (header_read fr) (header fr) @ reader_data rd)"
      by (simp add: hlen encoded_def HEADER_LEN_def)
    note rl = read_full_live [OF hlen(2) rf lv this]
    show ?thesis
    proof (cases x)
      case (Inl e)
      then have out: "r = Inl (FrameIo e)" "fr' = fr\<lparr>header := h, header_read := n\<rparr>" "rd' = rd1"
        using rd rf by (simp_all add: frame_read_def)
      have "received fr' @ reader_data rd' = encoded b @ rest"
        using rl(4) data rec nobody out by (simp add: received_def)
      moreover have "resumable fr'"
        using rl(1) rl(6) [OF Inl] hlen nobody out by (simp add: resumable_def)
      ultimately show ?thesis using rl(3) rl(6) [OF Inl] mx out by (simp add: got_frame_def)
    next
      case (Inr u)
      have hn: "n = HEADER_LEN" "length h = HEADER_LEN" using rl(1) rl(5) Inr hlen by simp_all
      have e: "read_full rd (header fr) (header_read fr) = (Inr (), (h, HEADER_LEN), rd1)"
        using rf hn Inr by simp
      have "take n h @ reader_data rd1 = encoded b @ rest" using rl(4) data rec by simp
      then have d: "h @ take (body_read fr) (resize (length b) (body fr)) @ reader_data rd1 = encoded b @ rest"
        using hn by (simp add: nobody)
      show ?thesis
        by (rule done_body [OF e hn(2) rl(3) d]) (simp_all add: nobody resize_def)
    qed
  next
    case False
    then have hr: "header_read fr = HEADER_LEN" using hlen by simp
    with res have bd: "length (body fr) = unat (from_be (header fr) :: u32)" "body_read fr \<le> length (body fr)"
      by (simp_all add: resumable_def)
    have rec: "received fr = header fr @ take (body_read fr) (body fr)"
      using hr hlen by (simp add: received_def)
    have "header fr @ (take (body_read fr) (body fr) @ reader_data rd) = encoded b @ rest"
      using data unfolding rec append_assoc .
    from header_complete(1) [OF hlen(1) this b(2)] bd(1) have "length b = length (body fr)" by (rule trans [OF sym sym])
    moreover have "x = Inr ()" "h = header fr" "n = HEADER_LEN" "rd1 = rd"
      using rf hr hlen by (simp_all add: read_full.simps)
    ultimately have e: "read_full rd (header fr) (header_read fr) = (Inr (), (header fr, HEADER_LEN), rd)"
      "resize (length b) (body fr) = body fr" "length b = length (body fr)"
      using rf by (simp_all add: resize_same)
    have d: "header fr @ take (body_read fr) (resize (length b) (body fr)) @ reader_data rd = encoded b @ rest"
      using data rec e(2) by simp
    show ?thesis
      by (rule done_body [OF e(1) hlen(1) lv d]) (use bd e in simp_all)
  qed
qed

section \<open>Calls until the message is there\<close>

lemma read_retry_got:
  assumes "got_frame b rest mx fr rd" and "length b \<le> mx" and "length b < 2 ^ 32" and "dec b = Some m"
  shows "\<exists>fr' rd'. read_retry dec fr rd = (Inr m, fr', rd') \<and> live rd' \<and> reader_data rd' = rest
    \<and> resumable fr' \<and> received fr' = [] \<and> max_body_bytes fr' = mx"
  using assms
proof (induction dec fr rd rule: read_retry.induct)
  case (1 dec fr rd)
  obtain r fr1 rd1 where rd: "frame_read dec fr rd = (r, fr1, rd1)" by (metis prod.collapse)
  from frame_read_got [OF "1.prems"(1-3) rd] "1.prems"(4)
  consider (message) "r = Inr m" "live rd1" "reader_data rd1 = rest" "resumable fr1" "received fr1 = []" "max_body_bytes fr1 = mx"
    | (late) e where "r = Inl (FrameIo e)" "timeout e" "got_frame b rest mx fr1 rd1" by auto
  then show ?case
  proof cases
    case message
    then show ?thesis using rd by (simp add: read_retry.simps [of dec fr rd])
  next
    case late
    then have "read_retry dec fr rd = read_retry dec fr1 rd1" using rd by (simp add: read_retry.simps [of dec fr rd])
    with "1.IH" [OF rd [symmetric] late(1) refl refl late(2,3) "1.prems"(2-4)] show ?thesis by simp
  qed
qed

lemma read_messages_got:
  assumes "list_all (\<lambda>x. length (fst x) \<le> mx \<and> length (fst x) < 2 ^ 32 \<and> dec (fst x) = Some (snd x)) xs"
    and "resumable fr" "received fr = []" "max_body_bytes fr = mx" and "live rd"
    and "reader_data rd = concat (map (\<lambda>x. encoded (fst x)) xs) @ rest"
  shows "\<exists>fr' rd'. read_messages dec (length xs) fr rd = (Inr (map snd xs), fr', rd') \<and> reader_data rd' = rest"
  using assms
proof (induction xs arbitrary: fr rd)
  case Nil
  then show ?case by simp
next
  case (Cons x xs)
  have "got_frame (fst x) (concat (map (\<lambda>x. encoded (fst x)) xs) @ rest) mx fr rd"
    using Cons.prems by (simp add: got_frame_def)
  from read_retry_got [OF this, of dec "snd x"] Cons.prems(1) obtain fr1 rd1
    where r: "read_retry dec fr rd = (Inr (snd x), fr1, rd1)" "live rd1" "resumable fr1" "received fr1 = []"
      "max_body_bytes fr1 = mx" "reader_data rd1 = concat (map (\<lambda>x. encoded (fst x)) xs) @ rest" by auto
  from Cons.IH [OF _ r(3-5,2,6)] Cons.prems(1) obtain fr2 rd2
    where "read_messages dec (length xs) fr1 rd1 = (Inr (map snd xs), fr2, rd2)" "reader_data rd2 = rest" by auto
  then show ?case using r(1) by simp
qed

section \<open>Writing frames\<close>

fun write_frames :: "('m \<Rightarrow> bytes option) \<Rightarrow> nat \<Rightarrow> 'm list \<Rightarrow> writer \<Rightarrow> (frame_error + unit) \<times> writer" where
  "write_frames enc mx [] w = (Inr (), w)"
| "write_frames enc mx (m # ms) w =
     (case write_frame enc m mx w of
        (Inl e, w') \<Rightarrow> (Inl e, w')
      | (Inr _, w') \<Rightarrow> write_frames enc mx ms w')"

lemma write_frame_buf:
  "splice_at 0 (to_be 4 (of_nat (length b) :: u32)) (replicate HEADER_LEN 0 @ b) = encoded b"
  by (simp add: splice_at_def encoded_def HEADER_LEN_def)

lemma write_frame_eq:
  "write_frame enc m mx w =
     (case enc m of
        None \<Rightarrow> (Inl FrameEncode, w)
      | Some b \<Rightarrow>
          if min mx (2 ^ 32 - 1) < length b then (Inl (FrameTooLarge (length b) (min mx (2 ^ 32 - 1))), w)
          else map_prod (map_sum FrameIo id) id (writer_write_all (encoded b) w))"
  by (auto simp: write_frame_def Let_def write_frame_buf split: option.split prod.split sum.split)

lemma write_frame_success:
  assumes "write_frame enc m mx w = (Inr (), w')"
  obtains b where "enc m = Some b" "length b \<le> mx" "length b < 2 ^ 32" "wr_out w' = wr_out w @ encoded b"
proof (cases "enc m")
  case None
  with assms show thesis by (simp add: write_frame_eq)
next
  case (Some b)
  with assms have "\<not> min mx (2 ^ 32 - 1) < length b" by (auto simp: write_frame_eq split: if_splits)
  moreover have "wr_out w' = wr_out w @ encoded b"
    using assms Some by (auto simp: write_frame_eq writer_write_all_def split: if_splits option.splits)
  ultimately show thesis using Some by (intro that [of b]) auto
qed

lemma write_frames_success:
  assumes "write_frames enc mx ms w = (Inr (), w')"
  shows "\<exists>bs. map enc ms = map Some bs \<and> list_all (\<lambda>b. length b \<le> mx \<and> length b < 2 ^ 32) bs
    \<and> wr_out w' = wr_out w @ concat (map encoded bs)"
  using assms
proof (induction ms arbitrary: w)
  case Nil
  then show ?case by (intro exI [of _ "[]"]) simp
next
  case (Cons m ms)
  then obtain w1 where w1: "write_frame enc m mx w = (Inr (), w1)" "write_frames enc mx ms w1 = (Inr (), w')"
    by (auto split: prod.splits sum.splits)
  from write_frame_success [OF w1(1)] obtain b where b: "enc m = Some b" "length b \<le> mx" "length b < 2 ^ 32"
    "wr_out w1 = wr_out w @ encoded b" .
  from Cons.IH [OF w1(2)] obtain bs where "map enc ms = map Some bs" "list_all (\<lambda>b. length b \<le> mx \<and> length b < 2 ^ 32) bs"
    "wr_out w' = wr_out w1 @ concat (map encoded bs)" by auto
  with b show ?case by (intro exI [of _ "b # bs"]) simp
qed

section \<open>A reader that does not fail\<close>

definition prompt :: "reader \<Rightarrow> bool" where
  "prompt rd \<longleftrightarrow> list_all (\<lambda>a. case a of Chunk bs \<Rightarrow> bs \<noteq> [] | ReadFails e \<Rightarrow> False) rd"

lemma prompt_simps [simp]:
  "prompt []" "prompt (Chunk bs # rd) \<longleftrightarrow> bs \<noteq> [] \<and> prompt rd" "\<not> prompt (ReadFails e # rd)"
  by (simp_all add: prompt_def)

lemma prompt_live: "prompt rd \<Longrightarrow> live rd"
  by (auto simp: prompt_def live_def list_all_iff split: arrival.splits)

lemma reader_read_prompt:
  assumes "reader_read n rd = (r, rd')" and "prompt rd"
  shows "prompt rd'" "\<not> isl r"
  using assms by (cases "(n, rd)" rule: reader_read.cases; auto split: if_splits)+

lemma read_full_prompt:
  assumes "read_full rd buf tot = (r, x, rd')" and "prompt rd"
  shows "prompt rd' \<and> r = Inr ()"
  using assms
proof (induction rd buf tot arbitrary: r x rd' rule: read_full.induct)
  case (1 rd buf tot)
  show ?case
  proof (cases "length buf \<le> tot")
    case True
    with "1.prems" show ?thesis by (simp add: read_full.simps [of rd buf tot])
  next
    case False
    obtain y rd1 where rr: "reader_read (length buf - tot) rd = (y, rd1)" by (cases "reader_read (length buf - tot) rd")
    note rp = reader_read_prompt [OF rr "1.prems"(2)]
    then obtain bs where y: "y = Inr bs" by (cases y) auto
    show ?thesis
    proof (cases bs)
      case Nil
      with "1.prems" False rr y rp show ?thesis by (simp add: read_full.simps [of rd buf tot])
    next
      case (Cons b bs')
      then have "read_full rd buf tot = read_full rd1 (splice_at tot (b # bs') buf) (tot + length (b # bs'))"
        using False rr y by (simp add: read_full.simps [of rd buf tot])
      with "1.IH"(2) [OF False rr [symmetric] y Cons] "1.prems"(1) rp show ?thesis by simp
    qed
  qed
qed

lemma read_full_fresh:
  assumes "prompt rd" and "read_full rd buf 0 = (r, (buf', n), rd')"
  shows "prompt rd'" "r = Inr ()" "n = min (length buf) (length (reader_data rd))"
    "take n buf' = take n (reader_data rd)" "reader_data rd' = drop n (reader_data rd)" "length buf' = length buf"
proof -
  note pr = read_full_prompt [OF assms(2,1)] and sp = read_full_spec [OF _ assms(2)] and lv = prompt_live [OF assms(1)]
  then show "prompt rd'" "r = Inr ()" "length buf' = length buf" by simp_all
  have cat: "take n buf' @ reader_data rd' = reader_data rd" and n: "n \<le> length buf" "length buf' = length buf"
    and fin: "n < length buf \<Longrightarrow> rd' = []"
    using sp lv pr by auto
  then have len: "length (reader_data rd) = n + length (reader_data rd')" by (metis length_append length_take min.absorb2)
  show "n = min (length buf) (length (reader_data rd))"
    using n fin len by (cases "n < length buf") auto
  show "take n buf' = take n (reader_data rd)" "reader_data rd' = drop n (reader_data rd)"
    using n by (simp_all flip: cat)
qed

definition read_frame_spec :: "(bytes \<Rightarrow> 'm option) \<Rightarrow> nat \<Rightarrow> bytes \<Rightarrow> (frame_error + 'm) \<times> bytes" where
  "read_frame_spec dec mx stream =
     (if stream = [] then (Inl Eof, [])
      else if length stream < 4 then (Inl (FrameUnexpectedEof (length stream) 4), [])
      else let n = unat (from_be (take 4 stream) :: u32); after = drop 4 stream
           in if mx < n then (Inl (FrameTooLarge n mx), after)
              else if length after < n then (Inl (FrameUnexpectedEof (length after) n), [])
              else case dec (take n after) of
                     None \<Rightarrow> (Inl FrameDecode, drop n after)
                   | Some m \<Rightarrow> (Inr m, drop n after))"

lemma frame_read_prompt:
  assumes "prompt rd"
  shows "fst (read_frame dec rd mx) = fst (read_frame_spec dec mx (reader_data rd))
    \<and> reader_data (snd (read_frame dec rd mx)) = snd (read_frame_spec dec mx (reader_data rd))"
proof -
  let ?d = "reader_data rd" and ?fr = "frame_reader_new mx"
  obtain x h n rd1 where rf: "read_full rd (replicate HEADER_LEN 0) 0 = (x, (h, n), rd1)" by (metis prod.collapse)
  note f1 = read_full_fresh [OF assms rf]
  have n: "n = min 4 (length ?d)" using f1(3) by (simp add: HEADER_LEN_def)
  show ?thesis
  proof (cases "length ?d < 4")
    case True
    with f1 rf n show ?thesis
      by (simp add: read_frame_def frame_read_def frame_reader_new_def read_frame_spec_def HEADER_LEN_def Let_def)
  next
    case False
    then have h: "n = 4" "h = take 4 ?d" "reader_data rd1 = drop 4 ?d" "?d \<noteq> []"
      using f1(4-6) n by (auto simp: HEADER_LEN_def)
    let ?n = "unat (from_be h :: u32)"
    obtain y b k rd2 where rf2: "read_full rd1 (resize ?n []) 0 = (y, (b, k), rd2)" by (metis prod.collapse)
    note f2 = read_full_fresh [OF f1(1) rf2]
    have k: "k = min ?n (length ?d - 4)" "length b = ?n" using f2(3,6) h by (simp_all add: resize_def)
    have b: "b = take ?n (drop 4 ?d)" if "?n \<le> length ?d - 4" using f2(4) k h(3) that by simp
    have run: "read_frame dec rd mx =
       (if mx < ?n then (Inl (FrameTooLarge ?n mx), rd1)
        else if k < ?n then (Inl (FrameUnexpectedEof k ?n), rd2)
        else case dec b of None \<Rightarrow> (Inl FrameDecode, rd2) | Some m \<Rightarrow> (Inr m, rd2))"
      using rf f1(2) rf2 f2(2) h
      by (simp add: read_frame_def frame_read_def frame_reader_new_def HEADER_LEN_def Let_def split: option.split)
    show ?thesis
      unfolding run read_frame_spec_def Let_def using False h k b f2(5)
      by (auto split: option.split)
  qed
qed

lemma frames_delivered:
  assumes "\<forall>m b. enc m = Some b \<longrightarrow> dec b = Some m"
    and "write_frames enc mx ms w = (Inr (), w')"
    and "live rd" and "wr_out w @ reader_data rd = wr_out w' @ rest"
  shows "\<exists>fr' rd'. read_messages dec (length ms) (frame_reader_new mx) rd = (Inr ms, fr', rd') \<and> reader_data rd' = rest"
proof -
  from write_frames_success [OF assms(2)] obtain bs where bs: "map enc ms = map Some bs"
    "list_all (\<lambda>b. length b \<le> mx \<and> length b < 2 ^ 32) bs" "wr_out w' = wr_out w @ concat (map encoded bs)" by blast
  have len: "length bs = length ms" using bs(1) by (metis length_map)
  have dec: "dec (bs ! i) = Some (ms ! i)" if "i < length ms" for i
    using arg_cong [OF bs(1), of "\<lambda>xs. xs ! i"] that len assms(1) by simp
  let ?xs = "zip bs ms"
  have zs: "map fst ?xs = bs" "map snd ?xs = ms" using len by simp_all
  have "list_all (\<lambda>x. length (fst x) \<le> mx \<and> length (fst x) < 2 ^ 32 \<and> dec (fst x) = Some (snd x)) ?xs"
    using bs(2) dec len by (auto simp: list_all_length)
  moreover have "reader_data rd = concat (map (\<lambda>x. encoded (fst x)) ?xs) @ rest"
    using assms(4) bs(3) zs(1) by (simp flip: map_map [of encoded fst, unfolded comp_def])
  ultimately show ?thesis
    using read_messages_got [of mx dec ?xs "frame_reader_new mx" rd rest] assms(3) zs(2) len
    by (simp add: resumable_def received_def frame_reader_new_def HEADER_LEN_def)
qed

section \<open>Properties\<close>

text \<open>
  C14: What one side writes with \<open>write_frame\<close> the other side reads, message for message and
  in order, however the bytes are split into arrivals and however often reads time out or
  are interrupted, at a frame boundary or in the middle of a header or a body. No byte
  after the last message is consumed.
\<close>

theorem frames_roundtrip:
  assumes "\<forall>m b. enc m = Some b \<longrightarrow> dec b = Some m"
    and "write_frames enc mx ms w = (Inr (), w')"
    and "live rd" and "wr_out w @ reader_data rd = wr_out w' @ rest"
  shows "\<exists>fr' rd'. read_messages dec (length ms) (frame_reader_new mx) rd = (Inr ms, fr', rd') \<and> reader_data rd' = rest"
  using assms by (rule frames_delivered)

theorem frames_roundtrip_witness:
  "\<exists>fr' rd'. read_messages Some (Suc (Suc 0)) (frame_reader_new 16)
     [Chunk [0, 0], ReadFails TimedOut, Chunk [0, 2, 7], ReadFails Interrupted, Chunk [8, 0, 0, 0], Chunk [0, 99]]
     = (Inr [[7, 8], []], fr', rd') \<and> reader_data rd' = [99]"
proof -
  let ?w = "\<lparr>wr_out = [], wr_room = None\<rparr>"
  let ?w' = "\<lparr>wr_out = [0, 0, 0, 2, 7, 8, 0, 0, 0, 0], wr_room = None\<rparr>"
  have "write_frames Some 16 [[7, 8], []] ?w = (Inr (), ?w')"
    by (simp add: write_frame_eq writer_write_all_def encoded_def to_be_def be_digits_4)
  then show ?thesis
    using frames_roundtrip [of Some Some 16 "[[7, 8], []]" ?w ?w' "[Chunk [0, 0], ReadFails TimedOut,
      Chunk [0, 2, 7], ReadFails Interrupted, Chunk [8, 0, 0, 0], Chunk [0, 99]]" "[99]"]
    by (simp add: timeout_def del: read_messages.simps)
qed



text \<open>
  \<open>write_frame\<close> is all or nothing where it can be: a message that does not encode, or
  whose body exceeds the cap (never more than a 32-bit length can say), leaves the writer
  untouched; otherwise header and body go out as one write of the length followed by the
  body.
\<close>

theorem write_frame_bounded:
  "write_frame enc m mx w =
     (case enc m of
        None \<Rightarrow> (Inl FrameEncode, w)
      | Some b \<Rightarrow>
          if min mx (2 ^ 32 - 1) < length b then (Inl (FrameTooLarge (length b) (min mx (2 ^ 32 - 1))), w)
          else map_prod (map_sum FrameIo id) id
                 (writer_write_all (to_be 4 (of_nat (length b) :: u32) @ b) w))"
  unfolding write_frame_eq encoded_def by (rule refl)

end
