(* ===== verification/Agent_Exchange.thy ===== *)
theory Agent_Exchange
  imports Agent_Example Frame_Stream
begin

text \<open>
  A whole connection: the handshake, and one operation exchanged between a host and the agent
  over framed byte streams.
\<close>

section \<open>The handshake\<close>

lemma violation_text:
  assumes "\<forall>h. m \<noteq> HmHello h"
  shows "describe_handshake_violation m = ''received '' @ CHR 0x60 # host_kind m @ CHR 0x60 # '' before handshake''"
  using assms by (cases m) (auto simp: host_kind_def)

lemma not_hello_connection:
  assumes "read_host_message os rd = (Inr m, rd1)" and "\<forall>h. m \<noteq> HmHello h"
  shows "handle_connection others os ver rd wr st w
    = Some (Inl (RtProtocol (describe_handshake_violation m)), rd1, wr, st, w)"
  using assms by (cases m) (simp_all add: handle_connection_def)

text \<open>
  C33: Before a hello of the agent's own protocol version nothing happens: an operation sent
  first, an unreadable frame or a hello of another version leave the state and the system
  untouched; the first two are answered with nothing, the last with exactly one \<open>HelloErr\<close>.
\<close>

theorem handshake_guards:
  assumes "\<forall>h. fst (read_host_message os rd) = Inr (HmHello h) \<longrightarrow> he_protocol_version h \<noteq> PROTOCOL_VERSION"
  shows "\<exists>res rd' wr'. handle_connection others os ver rd wr st w = Some (res, rd', wr', st, w) \<and> res \<noteq> Inr Handled
    \<and> (case fst (read_host_message os rd) of
         Inl e \<Rightarrow> res = Inl e \<and> wr' = wr
       | Inr m \<Rightarrow>
           (\<forall>h. m = HmHello h \<longrightarrow>
              (snd (write_agent_message os (AmHelloErr \<lparr>hx_host_version = he_protocol_version h,
                                                        hx_agent_version = PROTOCOL_VERSION\<rparr>) wr) = wr'))
         \<and> ((\<forall>h. m \<noteq> HmHello h) \<longrightarrow>
              wr' = wr \<and> res = Inl (RtProtocol (''received '' @ CHR 0x60 # host_kind m @ CHR 0x60 # '' before handshake''))))"
proof -
  obtain r rd1 where rd: "read_host_message os rd = (r, rd1)"
    by (cases "read_host_message os rd")
  show ?thesis
  proof (cases r)
    case (Inl e)
    with rd show ?thesis by (simp add: handle_connection_def)
  next
    case (Inr m)
    show ?thesis
    proof (cases "\<exists>h. m = HmHello h")
      case False
      with rd Inr show ?thesis
        using not_hello_connection [of os rd m rd1] violation_text [of m] by auto
    next
      case True
      then obtain h where m: "m = HmHello h" by blast
      then have v: "he_protocol_version h \<noteq> PROTOCOL_VERSION"
        using assms rd Inr by simp
      obtain e wr1 where wm: "write_agent_message os (AmHelloErr \<lparr>hx_host_version = he_protocol_version h,
                                                        hx_agent_version = PROTOCOL_VERSION\<rparr>) wr = (e, wr1)"
        by (cases "write_agent_message os (AmHelloErr \<lparr>hx_host_version = he_protocol_version h,
                                                        hx_agent_version = PROTOCOL_VERSION\<rparr>) wr")
      have "handle_connection others os ver rd wr st w
          = Some (map_sum id (\<lambda>_. VersionRejected (he_protocol_version h)) e, rd1, wr1, st, w)"
        using rd Inr m v wm by (cases e) (simp_all add: handle_connection_def)
      then show ?thesis
        using rd Inr m wm by (cases e) auto
    qed
  qed
qed

lemma demo_bad_hello:
  "read_host_message demo_os [Chunk [0, 0, 0, 1, 9, 0, 0, 0, 0]]
     = (Inr (HmHello \<lparr>he_protocol_version = 9\<rparr>), [Chunk [0, 0, 0, 0]])"
  by (simp add: read_host_message_def read_frame_def frame_read_def frame_reader_new_def read_full.simps HEADER_LEN_def
     DEFAULT_MAX_FRAME_BYTES_def splice_at_def resize_def from_be_def be_value_def Let_def)

theorem handshake_guards_witness:
  "\<exists>res rd' wr'. handle_connection (\<lambda>st w. (st, w)) demo_os ''1'' [Chunk [0, 0, 0, 1, 9, 0, 0, 0, 0]]
      \<lparr>wr_out = [], wr_room = None\<rparr> agent_new 0 = Some (res, rd', wr', agent_new, 0) \<and> res \<noteq> Inr Handled"
proof -
  have "\<forall>h. fst (read_host_message demo_os [Chunk [0, 0, 0, 1, 9, 0, 0, 0, 0]]) = Inr (HmHello h)
      \<longrightarrow> he_protocol_version h \<noteq> PROTOCOL_VERSION"
    by (auto simp: demo_bad_hello PROTOCOL_VERSION_def)
  from handshake_guards [OF this] show ?thesis
    by blast
qed

section \<open>An exchange\<close>

lemma read_frame_keeps_prompt:
  assumes "prompt rd"
  shows "prompt (snd (read_frame dec rd mx))"
proof -
  have *: "prompt (snd (snd (frame_read dec fr rd)))" for fr
  proof -
    obtain x h n rd1 where rf: "read_full rd (header fr) (header_read fr) = (x, (h, n), rd1)"
      by (metis prod.collapse)
    obtain y b k rd2 where rf2: "read_full rd1 (resize (unat (from_be h :: u32)) (body fr)) (body_read fr) = (y, (b, k), rd2)"
      by (metis prod.collapse)
    have 1: "prompt rd1" using read_full_prompt [OF rf assms] by simp
    have 2: "prompt rd2" using read_full_prompt [OF rf2 1] by simp
    show ?thesis
      using rf rf2 1 2 by (simp add: frame_read_def Let_def split: sum.split option.split)
  qed
  from * [of "frame_reader_new mx"] show ?thesis
    by (simp add: read_frame_def case_prod_beta)
qed

lemma read_frame_got:
  assumes "prompt rd" and "reader_data rd = encoded b @ rest" and "length b \<le> mx" and "length b < 2 ^ 32" and "dec b = Some m"
  shows "\<exists>rd'. read_frame dec rd mx = (Inr m, rd') \<and> prompt rd' \<and> reader_data rd' = rest"
proof -
  have n: "unat (from_be (take 4 (encoded b @ rest)) :: u32) = length b"
    using assms(4) by (simp add: encoded_def from_to_be unat_of_nat)
  have d: "drop 4 (encoded b @ rest) = b @ rest" and len: "4 \<le> length (encoded b)"
    by (simp_all add: encoded_def)
  then have ne: "encoded b \<noteq> []"
    by auto
  have "read_frame_spec dec mx (encoded b @ rest) = (Inr m, rest)"
    using ne len assms(3,5) unfolding read_frame_spec_def Let_def n d by simp
  with frame_read_prompt [OF assms(1), of dec mx] assms(2) read_frame_keeps_prompt [OF assms(1), of dec mx]
  show ?thesis
    by (cases "read_frame dec rd mx") simp
qed

definition short_op :: "host_message \<Rightarrow> bool" where
  "short_op op \<longleftrightarrow>
     (case op of HmHello _ \<Rightarrow> False | HmTailFile _ \<Rightarrow> False | HmProcStream _ \<Rightarrow> False | HmFdStream _ \<Rightarrow> False
      | HmBatchOp _ \<Rightarrow> False | _ \<Rightarrow> True)"

lemma dispatch_short_op:
  assumes "short_op op"
  shows "dispatch others os op st wr w = dispatch_short os op st w \<bind> respond os wr"
  using assms by (cases op) (simp_all add: short_op_def dispatch_def)

lemma write_unlimited:
  assumes "os_enc_agent os m = Some b" and "length b \<le> DEFAULT_MAX_FRAME_BYTES"
  shows "write_agent_message os m \<lparr>wr_out = bs, wr_room = None\<rparr> = (Inr (), \<lparr>wr_out = bs @ encoded b, wr_room = None\<rparr>)"
  using assms by (simp add: write_agent_message_def write_frame_eq writer_write_all_def DEFAULT_MAX_FRAME_BYTES_def)

text \<open>
  C4: Host and agent together: a host that writes its hello and a short operation as frames,
  delivered in any pieces, has the operation executed once, and reads back the agent's hello
  and the operation's reply, in any pieces and with any timeouts.
\<close>

theorem exchange_over_the_wire:
  assumes "\<forall>m b. os_enc_host os m = Some b \<longrightarrow> os_dec_host os b = Some m"
    and "\<forall>m b. os_enc_agent os m = Some b \<longrightarrow> os_dec_agent os b = Some m"
    and "write_frames (os_enc_host os) DEFAULT_MAX_FRAME_BYTES [HmHello \<lparr>he_protocol_version = PROTOCOL_VERSION\<rparr>, op]
           \<lparr>wr_out = [], wr_room = None\<rparr> = (Inr (), hw)"
    and "prompt rd" and "reader_data rd = wr_out hw" and "short_op op"
    and "dispatch_short os op st w = Some (r, st', w')"
    and "os_enc_agent os (AmHelloOk (hello_ok os ver w)) = Some b1" and "length b1 \<le> DEFAULT_MAX_FRAME_BYTES"
    and "os_enc_agent os r = Some b2" and "length b2 \<le> DEFAULT_MAX_FRAME_BYTES"
  shows "\<exists>rd' wr'. handle_connection others os ver rd \<lparr>wr_out = [], wr_room = None\<rparr> st w
             = Some (Inr Handled, rd', wr', st', w')
         \<and> (\<forall>rdh. live rdh \<longrightarrow> reader_data rdh = wr_out wr' \<longrightarrow>
              (\<exists>fr' rdh'. read_messages (os_dec_agent os) 2 (frame_reader_new DEFAULT_MAX_FRAME_BYTES) rdh
                 = (Inr [AmHelloOk (hello_ok os ver w), r], fr', rdh')))"
proof -
  let ?hello = "HmHello \<lparr>he_protocol_version = PROTOCOL_VERSION\<rparr>" and ?mx = DEFAULT_MAX_FRAME_BYTES
  obtain c1 c2 where c: "os_enc_host os ?hello = Some c1" "os_enc_host os op = Some c2"
      "length c1 \<le> ?mx" "length c1 < 2 ^ 32" "length c2 \<le> ?mx" "length c2 < 2 ^ 32" "wr_out hw = encoded c1 @ encoded c2"
    using write_frames_success [OF assms(3)] by (auto simp: map_eq_Cons_conv Cons_eq_map_conv)
  obtain rd1 where rd1: "read_frame (os_dec_host os) rd ?mx = (Inr ?hello, rd1)" "prompt rd1" "reader_data rd1 = encoded c2"
    using read_frame_got [OF assms(4) _ c(3,4), of "encoded c2" "os_dec_host os" ?hello] assms(1,5) c(1,7) by auto
  obtain rd2 where rd2: "read_frame (os_dec_host os) rd1 ?mx = (Inr op, rd2)"
    using read_frame_got [OF rd1(2) _ c(5,6), of "[]" "os_dec_host os" op] assms(1) c(2) rd1(3) by auto
  let ?wr = "\<lparr>wr_out = encoded b1 @ encoded b2, wr_room = None\<rparr>"
  have run: "handle_connection others os ver rd \<lparr>wr_out = [], wr_room = None\<rparr> st w = Some (Inr Handled, rd2, ?wr, st', w')"
    using rd1(1) rd2 assms(7)
    by (simp add: handle_connection_def read_host_message_def write_unlimited [OF assms(8,9)] dispatch_short_op [OF assms(6)]
        respond_def write_unlimited [OF assms(10,11)])
  have sent: "write_frames (os_enc_agent os) ?mx [AmHelloOk (hello_ok os ver w), r] \<lparr>wr_out = [], wr_room = None\<rparr> = (Inr (), ?wr)"
    using assms(8-11) by (simp add: write_frame_eq writer_write_all_def DEFAULT_MAX_FRAME_BYTES_def)
  have "\<exists>fr' rdh'. read_messages (os_dec_agent os) 2 (frame_reader_new ?mx) rdh
                 = (Inr [AmHelloOk (hello_ok os ver w), r], fr', rdh')"
    if "live rdh" and "reader_data rdh = wr_out ?wr" for rdh
    using frames_delivered [OF assms(2) sent that(1), of "[]"] that(2)
    by (auto simp: numeral_2_eq_2 simp del: read_messages.simps)
  with run show ?thesis
    by blast
qed


theorem exchange_over_the_wire_witness:
  "\<exists>rd' wr'. handle_connection (\<lambda>st w. (st, w)) demo_os ''1'' [Chunk [0, 0, 0], Chunk [1, 1, 0, 0, 0, 0]]
       \<lparr>wr_out = [], wr_room = None\<rparr> (snd (insert_file 3 agent_new)) 0
     = Some (Inr Handled, rd', wr', snd (take_file (FileHandle 1) (snd (insert_file 3 agent_new))), 0)"
proof -
  let ?op = "HmClose \<lparr>cl_handle = FileHandle 1\<rparr>" and ?st = "snd (insert_file 3 agent_new)"
  let ?hw = "\<lparr>wr_out = [0, 0, 0, 1, 1, 0, 0, 0, 0], wr_room = None\<rparr>"
  have codec: "\<forall>m b. os_enc_host demo_os m = Some b \<longrightarrow> os_dec_host demo_os b = Some m"
    "\<forall>m b. os_enc_agent demo_os m = Some b \<longrightarrow> os_dec_agent demo_os b = Some m"
    using demo_codec_host demo_codec_agent by simp_all
  have sent: "write_frames (os_enc_host demo_os) DEFAULT_MAX_FRAME_BYTES [HmHello \<lparr>he_protocol_version = PROTOCOL_VERSION\<rparr>, ?op]
           \<lparr>wr_out = [], wr_room = None\<rparr> = (Inr (), ?hw)"
    by (simp add: write_frame_eq demo_enc_host_def writer_write_all_def encoded_def to_be_def be_digits_4 PROTOCOL_VERSION_def
        DEFAULT_MAX_FRAME_BYTES_def)
  have arr: "prompt [Chunk [0, 0, 0], Chunk [1, 1, 0, 0, 0, 0]]" "reader_data [Chunk [0, 0, 0], Chunk [1, 1, 0, 0, 0, 0]] = wr_out ?hw"
    by simp_all
  have op: "short_op ?op" "dispatch_short demo_os ?op ?st 0 = Some (AmCloseResult (OpOk ()), snd (take_file (FileHandle 1) ?st), 0)"
    by (simp_all add: short_op_def dispatch_short_def close_op_def insert_file_def take_file_def agent_new_def alloc_id_def Let_def)
  have hello: "os_enc_agent demo_os (AmHelloOk (hello_ok demo_os ''1'' 0)) = Some [1]" "length [1] \<le> DEFAULT_MAX_FRAME_BYTES"
    by (simp_all add: demo_enc_agent_def hello_ok_def demo_hello_def PROTOCOL_VERSION_def AGENT_OS_def DEFAULT_MAX_FRAME_BYTES_def)
  have reply: "os_enc_agent demo_os (AmCloseResult (OpOk ())) = Some []" "length [] \<le> DEFAULT_MAX_FRAME_BYTES"
    by (simp_all add: demo_enc_agent_def)
  from exchange_over_the_wire [OF codec sent arr op hello reply] show ?thesis
    by blast
qed

end
