(* ===== verification/Agent_Safety.thy ===== *)
theory Agent_Safety
  imports Agent_Example
begin

text \<open>
  What the agent's handles promise over any run of operations: the invariant of the tables,
  what an open file, a process and a worker can be reached by, and that a handle given up is
  never known again.
\<close>

lemma batch_keeps:
  assumes "batch_items os ops st w = Some (rs, st', w')" and "handles_ok st" and "handles_left (length ops) st"
  shows "handles_ok st' \<and> length rs = length ops \<and> (\<forall>i. retired i st \<longrightarrow> retired i st')"
  using assms
proof (induction ops arbitrary: st w rs)
  case Nil
  then show ?case by simp
next
  case (Cons op ops)
  obtain r st1 w1 rs1 where d: "dispatch_short os op st w = Some (r, st1, w1)"
    and b: "batch_items os ops st1 w1 = Some (rs1, st', w')" and rs: "rs = r # rs1"
    using Cons.prems(1) by (auto simp: Option.bind_eq_Some_conv)
  have left: "handles_left (Suc (length ops)) st" and one: "handles_left 1 st"
    using Cons.prems(3) by (simp_all add: handles_left_def)
  have step: "agent_step st st1"
    using d by (rule dispatch_short_step)
  note * = Cons.IH [OF b agent_step_keeps [OF step Cons.prems(2) one] agent_step_left [OF step Cons.prems(2) left]]
  show ?case
    using * agent_step_retired [OF step Cons.prems(2) one] rs by simp
qed

lemma retired_file: "retired (file_id h) st \<Longrightarrow> file_of h st = None"
  unfolding retired_def using files.lookup_known by blast

lemma retired_process:
  "retired (process_id h) st \<Longrightarrow> map_of (as_processes st) h = None \<and> worker_process h st = None"
  unfolding retired_def using processes.lookup_known worker_procs.lookup_known by blast

lemma retired_worker: "retired (worker_id h) st \<Longrightarrow> worker_conn_of h st = None"
  unfolding retired_def using workers.lookup_known by blast

lemma not_id_delete:
  "distinct (map (g \<circ> fst) xs) \<Longrightarrow> inj g \<Longrightarrow> g k \<notin> (g \<circ> fst) ` set (AList.delete k xs)"
  by (auto simp: AList.delete_eq dest: injD)

lemma removed_retired:
  assumes "handles_ok st"
  shows "file_of h st \<noteq> None \<Longrightarrow> retired (file_id h) (snd (take_file h st))"
    and "map_of (as_processes st) p \<noteq> None \<Longrightarrow> retired (process_id p) ((snd (take_process p st))\<lparr>as_bufs := bs\<rparr>)"
proof -
  have d: "distinct (handle_ids st)" and lt: "\<forall>i \<in> set (handle_ids st). i < as_next_handle st"
    using assms by (simp_all add: handles_ok_def)
  show "retired (file_id h) (snd (take_file h st))" if "file_of h st \<noteq> None"
  proof -
    have k: "file_id h \<in> (file_id \<circ> fst) ` set (as_files st)"
      using map_of_known [of "as_files st" h file_id] that by (simp add: file_of_def)
    with d lt show ?thesis
      using files.lookup_known [OF that]
      by (auto simp: retired_def take_file_def handle_ids_def AList.delete_eq)
  qed
  show "retired (process_id p) ((snd (take_process p st))\<lparr>as_bufs := bs\<rparr>)" if "map_of (as_processes st) p \<noteq> None"
  proof -
    have k: "process_id p \<in> (process_id \<circ> fst) ` set (as_processes st)"
      using map_of_known [of "as_processes st" p process_id] that by simp
    with d lt show ?thesis
      using processes.lookup_known [OF that]
      by (auto simp: retired_def take_process_def handle_ids_def AList.delete_eq)
  qed
qed

lemma close_retires:
  assumes "dispatch_short os (HmClose a) st w = Some (AmCloseResult (OpOk ()), st1, w1)" and "handles_ok st"
  shows "retired (file_id (cl_handle a)) st1"
proof (cases "file_of (cl_handle a) st")
  case None
  with assms(1) show ?thesis
    by (simp add: dispatch_short_def close_op_def take_file_def file_of_def unknown_handle_def agent_error_of_def)
next
  case (Some fd)
  with assms(1) have "st1 = snd (take_file (cl_handle a) st)"
    by (simp add: dispatch_short_def close_op_def take_file_def file_of_def)
  with Some removed_retired(1) [OF assms(2), of "cl_handle a"] show ?thesis
    by simp
qed

lemma unknown_file_replies:
  assumes "file_of h st = None"
  shows "dispatch_short os (HmRead \<lparr>rd_handle = h, rd_max_bytes = n\<rparr>) st w
           = Some (unknown_handle (''read on '' @ file_text h), st, w)"
    and "dispatch_short os (HmWrite \<lparr>wa_handle = h, wa_data = bs\<rparr>) st w
           = Some (unknown_handle (''write on '' @ file_text h), st, w)"
    and "dispatch_short os (HmSeek \<lparr>sk_handle = h, sk_offset = off, sk_whence = wh\<rparr>) st w
           = Some (unknown_handle (''seek on '' @ file_text h), st, w)"
    and "dispatch_short os (HmClose \<lparr>cl_handle = h\<rparr>) st w
           = Some (unknown_handle (''close on '' @ file_text h), st, w)"
  using assms
  by (simp_all add: dispatch_short_def read_op_def write_op_def seek_op_def close_op_def with_file_mut_def
      file_of_def take_file_def delete_absent Let_def)

text \<open>
  C21: A file handle that was closed is unknown for good: whatever operations follow, on
  whatever operating system, reading, writing, seeking or closing it again is answered with
  \<open>UnknownHandle\<close> and touches neither the state nor the system. Ids are not reused, so the
  handle of one file never comes to name another.
\<close>

theorem closed_file_stays_unknown:
  assumes "handles_ok st" and "handles_left (Suc (length ops)) st"
    and "dispatch_short os (HmClose \<lparr>cl_handle = h\<rparr>) st w = Some (AmCloseResult (OpOk ()), st1, w1)"
    and "batch_items os ops st1 w1 = Some (rs, st2, w2)"
  shows "dispatch_short os (HmRead \<lparr>rd_handle = h, rd_max_bytes = n\<rparr>) st2 w2
           = Some (unknown_handle (''read on '' @ file_text h), st2, w2)
       \<and> dispatch_short os (HmWrite \<lparr>wa_handle = h, wa_data = bs\<rparr>) st2 w2
           = Some (unknown_handle (''write on '' @ file_text h), st2, w2)
       \<and> dispatch_short os (HmSeek \<lparr>sk_handle = h, sk_offset = off, sk_whence = wh\<rparr>) st2 w2
           = Some (unknown_handle (''seek on '' @ file_text h), st2, w2)
       \<and> dispatch_short os (HmClose \<lparr>cl_handle = h\<rparr>) st2 w2
           = Some (unknown_handle (''close on '' @ file_text h), st2, w2)"
proof -
  have step: "agent_step st st1"
    using assms(3) by (rule dispatch_short_step)
  have one: "handles_left 1 st"
    using assms(2) by (simp add: handles_left_def)
  have "retired (file_id h) st1"
    using close_retires [OF assms(3,1)] by simp
  then have "retired (file_id h) st2"
    using batch_keeps [OF assms(4) agent_step_keeps [OF step assms(1) one] agent_step_left [OF step assms(1,2)]]
    by blast
  then have "file_of h st2 = None"
    by (rule retired_file)
  then show ?thesis
    by (simp only: unknown_file_replies simp_thms)
qed

lemma demo_open:
  "dispatch_short demo_os (HmOpenFile a) st w
     = Some (AmOpenFileResult (OpOk (FileHandle (as_next_handle st))), snd (insert_file 3 st), w)"
  by (simp add: dispatch_short_def open_file_def Let_def insert_file_def alloc_id_def)

definition demo_read_only :: open_file_args where
  "demo_read_only =
     \<lparr>of_path = ''/etc/hosts'',
      of_mode = \<lparr>om_read = True, om_write = False, om_create = False, om_truncate = False, om_append = False,
                 om_exclusive = False\<rparr>, of_create_perm = None\<rparr>"

definition demo_state :: agent_state where
  "demo_state = snd (insert_file 3 agent_new)"

lemma demo_state_ok: "handles_ok demo_state" "handles_left 8 demo_state" "as_next_handle demo_state = 2"
  by (simp_all add: demo_state_def handles_ok_def handle_ids_def agent_new_def slots_ok_def owners_ok_def
      insert_file_def table_defs handles_left_def)

theorem closed_file_stays_unknown_witness:
  "dispatch_short demo_os (HmRead \<lparr>rd_handle = FileHandle 1, rd_max_bytes = 10\<rparr>) (snd (insert_file 3 (snd (take_file (FileHandle 1) demo_state)))) 0
     = Some (unknown_handle (''read on '' @ file_text (FileHandle 1)), snd (insert_file 3 (snd (take_file (FileHandle 1) demo_state))), 0)"
proof -
  have 1: "dispatch_short demo_os (HmClose \<lparr>cl_handle = FileHandle 1\<rparr>) demo_state 0
     = Some (AmCloseResult (OpOk ()), snd (take_file (FileHandle 1) demo_state), 0)"
    by (simp add: dispatch_short_def close_op_def demo_state_def insert_file_def take_file_def agent_new_def table_defs)
  have 2: "batch_items demo_os [HmOpenFile demo_read_only] (snd (take_file (FileHandle 1) demo_state)) 0
     = Some ([AmOpenFileResult (OpOk (FileHandle 2))], snd (insert_file 3 (snd (take_file (FileHandle 1) demo_state))), 0)"
    by (simp add: demo_open take_file_def demo_state_ok)
  have 3: "handles_left (Suc (length [HmOpenFile demo_read_only])) demo_state"
    by (simp add: handles_left_def demo_state_ok)
  show ?thesis
    using closed_file_stays_unknown [OF demo_state_ok(1) 3 1 2] by blast
qed

lemma handler_files:
  "as_files (fst (snd (run_async os a1 st w))) = as_files st"
  "as_files (fst (snd (spawn_worker os st w))) = as_files st"
  "as_files (fst (snd (worker_join os a2 st w))) = as_files st"
  "as_files (fst (snd (worker_run_async os a3 st w))) = as_files st"
  "as_files (fst (snd (proc_stdin_close os a4 st w))) = as_files st"
  by (simp_all add: run_async_def spawn_worker_def worker_join_def worker_run_async_def proc_stdin_close_def
      insert_defs remove_defs alloc_buf_def alloc_id_def with_process_mut_def worker_relay_state Let_def case_prod_beta
      split: sum.split option.split agent_message.split op_result.split)

lemma join_drain_files: "join_drain os j b st w = Some (st', w') \<Longrightarrow> as_files st' = as_files st"
  by (erule join_drain_state) simp

lemma wait_files: "wait_op os a st w = Some (r, st', w') \<Longrightarrow> as_files st' = as_files st"
  by (erule wait_state) (simp_all add: remove_worker_process_def take_process_def)

lemma files_of: "as_files (fst (snd x)) = as_files st \<Longrightarrow> x = (r, st', w') \<Longrightarrow> as_files st' = as_files st"
  by simp

lemma files_keep: "fst (snd x) = st \<Longrightarrow> x = (r, st', w') \<Longrightarrow> as_files st' = as_files st"
  by auto

lemma files_keep_state: "keep_state st x = Some (r, st', w') \<Longrightarrow> as_files st' = as_files st"
  by (simp add: keep_state_def)

lemmas handler_files_kept = handler_files [THEN files_of] file_ops_state [THEN files_keep]
  worker_relay_state [THEN files_keep] process_ops_state [THEN files_keep] files_keep_state wait_files

lemma dispatch_files:
  assumes "dispatch_short os op st w = Some (r, st', w')"
    and "\<And>a. op \<noteq> HmOpenFile a" and "\<And>a. op \<noteq> HmClose a"
  shows "as_files st' = as_files st"
  using assms
  by (cases op)
     (auto simp only: dispatch_short_def host_message.case Option.bind_eq_Some_conv case_prod_beta
       option.inject prod.inject fst_conv snd_conv host_message.distinct simp_thms
       intro: handler_files_kept)

lemma dispatch_keeps_file:
  assumes "dispatch_short os op st w = Some (r, st', w')" and "handles_ok st"
    and "file_of h st = Some fd" and "op \<noteq> HmClose \<lparr>cl_handle = h\<rparr>"
  shows "file_of h st' = Some fd"
proof -
  consider (open_f) a where "op = HmOpenFile a" | (close_f) a where "op = HmClose a"
    | (other) "\<And>a. op \<noteq> HmOpenFile a" "\<And>a. op \<noteq> HmClose a"
    by blast
  then show ?thesis
  proof cases
    case open_f
    with assms(1,3) show ?thesis
      using files.insert_keeps [OF assms(2,3)]
      by (auto simp: dispatch_short_def open_file_def Let_def case_prod_beta split: sum.splits)
  next
    case close_f
    then have "cl_handle a \<noteq> h"
      using assms(4) by (cases a) auto
    moreover have "st' = snd (take_file (cl_handle a) st)"
      using close_f assms(1) by (auto simp: dispatch_short_def close_op_def case_prod_beta split: option.splits)
    ultimately show ?thesis
      using assms(3) by (simp add: files.lookup_remove)
  next
    case other
    then show ?thesis
      using dispatch_files [OF assms(1)] assms(3) by (simp add: file_of_def)
  qed
qed

lemma batch_keeps_file:
  assumes "batch_items os ops st w = Some (rs, st', w')" and "handles_ok st" and "handles_left (length ops) st"
    and "file_of h st = Some fd" and "HmClose \<lparr>cl_handle = h\<rparr> \<notin> set ops"
  shows "file_of h st' = Some fd"
  using assms
proof (induction ops arbitrary: st w rs)
  case Nil
  then show ?case by simp
next
  case (Cons op ops)
  obtain r st1 w1 rs1 where d: "dispatch_short os op st w = Some (r, st1, w1)"
    and b: "batch_items os ops st1 w1 = Some (rs1, st', w')"
    using Cons.prems(1) by (auto simp: Option.bind_eq_Some_conv)
  have left: "handles_left (Suc (length ops)) st" and one: "handles_left 1 st"
    using Cons.prems(3) by (simp_all add: handles_left_def)
  have step: "agent_step st st1"
    using d by (rule dispatch_short_step)
  have "op \<noteq> HmClose \<lparr>cl_handle = h\<rparr>"
    using Cons.prems(5) by auto
  then have f: "file_of h st1 = Some fd"
    by (rule dispatch_keeps_file [OF d Cons.prems(2,4)])
  show ?case
    using Cons.prems(5)
    by (intro Cons.IH [OF b agent_step_keeps [OF step Cons.prems(2) one]
          agent_step_left [OF step Cons.prems(2) left] f]) simp
qed

lemma read_known_file:
  assumes "file_of h st = Some fd"
  shows "dispatch_short os (HmRead \<lparr>rd_handle = h, rd_max_bytes = n\<rparr>) st w
      = (let (r, w1) = os_read os fd (min (unat n) 4194304) w
         in Some (AmReadResult (to_op (\<lambda>bs. \<lparr>ro_data = bs\<rparr>) r), st, w1))"
proof -
  have "unat (min n PER_CALL_CAP) = min (unat n) 4194304"
    by (simp add: PER_CALL_CAP_def min_def word_le_nat_alt)
  with assms show ?thesis
    by (simp add: dispatch_short_def read_op_def with_file_mut_def file_of_def Let_def case_prod_beta)
qed

text \<open>
  C30: Opening a file gives a handle that no table holds, and until that handle is closed a
  read of it is a read of the descriptor that was opened, of at most 4 MiB, whatever other
  operations ran in between.
\<close>

theorem open_file_reachable:
  assumes "handles_ok st" and "handles_left (Suc (length ops)) st"
    and "dispatch_short os (HmOpenFile a) st w = Some (AmOpenFileResult (OpOk h), st1, w1)"
    and "batch_items os ops st1 w1 = Some (rs, st2, w2)" and "HmClose \<lparr>cl_handle = h\<rparr> \<notin> set ops"
  shows "file_id h \<notin> set (handle_ids st) \<and>
    (\<exists>fd. fst (os_open os (open_opts a) (of_path a) w) = Inr fd \<and>
       dispatch_short os (HmRead \<lparr>rd_handle = h, rd_max_bytes = n\<rparr>) st2 w2
         = (let (r, w3) = os_read os fd (min (unat n) 4194304) w2
            in Some (AmReadResult (to_op (\<lambda>bs. \<lparr>ro_data = bs\<rparr>) r), st2, w3)))"
proof -
  obtain fd where fd: "fst (os_open os (open_opts a) (of_path a) w) = Inr fd"
    and st1: "h = fst (insert_file fd st)" "st1 = snd (insert_file fd st)"
    using assms(3)
    by (auto simp: dispatch_short_def open_file_def Let_def case_prod_beta split: sum.splits)
  have step: "agent_step st st1"
    using assms(3) by (rule dispatch_short_step)
  have one: "handles_left 1 st"
    using assms(2) by (simp add: handles_left_def)
  have known: "file_of h st2 = Some fd"
    using batch_keeps_file [OF assms(4) agent_step_keeps [OF step assms(1) one]
        agent_step_left [OF step assms(1,2)] _ assms(5)] files.insert_get [of fd st]
    by (simp add: st1)
  show ?thesis
  proof (intro conjI exI)
    show "file_id h \<notin> set (handle_ids st)"
      unfolding st1(1) by (rule files.insert_fresh [OF assms(1)])
  qed (rule fd read_known_file [OF known])+
qed

theorem open_file_reachable_witness:
  "file_id (FileHandle 1) \<notin> set (handle_ids agent_new) \<and>
    (\<exists>fd. fst (os_open demo_os (open_opts demo_read_only) (of_path demo_read_only) 0) = Inr fd \<and>
       dispatch_short demo_os (HmRead \<lparr>rd_handle = FileHandle 1, rd_max_bytes = 9\<rparr>) (snd (insert_file 3 demo_state)) 0
         = (let (r, w3) = os_read demo_os fd (min (unat (9::u64)) 4194304) 0
            in Some (AmReadResult (to_op (\<lambda>bs. \<lparr>ro_data = bs\<rparr>) r), snd (insert_file 3 demo_state), w3)))"
proof -
  have new: "handles_left (Suc (length [HmOpenFile demo_read_only])) agent_new"
    by (simp add: handles_left_def agent_new_def)
  have 1: "dispatch_short demo_os (HmOpenFile demo_read_only) agent_new 0
      = Some (AmOpenFileResult (OpOk (FileHandle 1)), demo_state, 0)"
    by (simp add: demo_open demo_state_def agent_new_def)
  have 2: "batch_items demo_os [HmOpenFile demo_read_only] demo_state 0
      = Some ([AmOpenFileResult (OpOk (FileHandle 2))], snd (insert_file 3 demo_state), 0)"
    by (simp add: demo_open demo_state_ok)
  have 3: "HmClose \<lparr>cl_handle = FileHandle 1\<rparr> \<notin> set [HmOpenFile demo_read_only]"
    by simp
  show ?thesis
    by (rule open_file_reachable [OF agent_new_ok new 1 2 3])
qed


section \<open>A waited process\<close>

lemma wait_retires:
  assumes "wait_own os a st w = Some (r, st1, w1)" and "handles_ok st" and "map_of (as_processes st) (wt_handle a) \<noteq> None"
  shows "retired (process_id (wt_handle a)) st1"
  using assms(1)
proof (rule wait_own_state)
  fix bs
  assume "st1 = (snd (take_process (wt_handle a) st))\<lparr>as_bufs := bs\<rparr>"
  then show ?thesis
    using removed_retired(2) [OF assms(2,3)] by simp
qed

lemma unknown_process_replies:
  assumes "map_of (as_processes st) h = None \<and> worker_process h st = None"
  shows "dispatch_short os (HmWait \<lparr>wt_handle = h, wt_timeout_ms = t\<rparr>) st w
           = Some (unknown_handle (''wait on '' @ proc_text h), st, w)"
    and "dispatch_short os (HmKill \<lparr>kl_handle = h, kl_signal = g\<rparr>) st w
           = Some (unknown_handle (''kill on '' @ proc_text h), st, w)"
    and "dispatch_short os (HmGetPid \<lparr>gp_handle = h\<rparr>) st w
           = Some (unknown_handle (''get_pid on '' @ proc_text h), st, w)"
    and "dispatch_short os (HmProcStatus \<lparr>ps_handle = h\<rparr>) st w
           = Some (AmProcStatusResult (OpOk PlUnknown), st, w)"
  using assms
  by (simp_all add: dispatch_short_def wait_op_def wait_own_def kill_op_def get_pid_def proc_status_def
      with_process_mut_def take_process_def delete_absent unknown_handle_def)

text \<open>
  Waiting for a process consumes its handle, also when the wait timed out or failed:
  after any further operations, waiting, signalling or asking for its pid is answered with
  \<open>UnknownHandle\<close>, and its status is \<open>Unknown\<close>.
\<close>

theorem waited_process_stays_unknown:
  assumes "handles_ok st" and "handles_left (Suc (length ops)) st"
    and "map_of (as_processes st) h \<noteq> None"
    and "dispatch_short os (HmWait \<lparr>wt_handle = h, wt_timeout_ms = t\<rparr>) st w = Some (r, st1, w1)"
    and "batch_items os ops st1 w1 = Some (rs, st2, w2)"
  shows "dispatch_short os (HmWait \<lparr>wt_handle = h, wt_timeout_ms = t'\<rparr>) st2 w2
           = Some (unknown_handle (''wait on '' @ proc_text h), st2, w2)
       \<and> dispatch_short os (HmKill \<lparr>kl_handle = h, kl_signal = g\<rparr>) st2 w2
           = Some (unknown_handle (''kill on '' @ proc_text h), st2, w2)
       \<and> dispatch_short os (HmGetPid \<lparr>gp_handle = h\<rparr>) st2 w2
           = Some (unknown_handle (''get_pid on '' @ proc_text h), st2, w2)
       \<and> dispatch_short os (HmProcStatus \<lparr>ps_handle = h\<rparr>) st2 w2
           = Some (AmProcStatusResult (OpOk PlUnknown), st2, w2)"
proof -
  have step: "agent_step st st1"
    using assms(4) by (rule dispatch_short_step)
  have one: "handles_left 1 st"
    using assms(2) by (simp add: handles_left_def)
  have "process_id h \<in> set (map (process_id \<circ> fst) (as_processes st))"
    using map_of_known [OF assms(3), of process_id] by simp
  then have "process_id h \<notin> set (map (process_id \<circ> fst) (as_worker_processes st))"
    using assms(1) by (auto simp: handles_ok_def handle_ids_def)
  then have "worker_process h st = None"
    using map_of_known [of "as_worker_processes st" h process_id] by (force simp: worker_process_def)
  with assms(4) have "wait_own os \<lparr>wt_handle = h, wt_timeout_ms = t\<rparr> st w = Some (r, st1, w1)"
    by (simp add: dispatch_short_def wait_op_def)
  from wait_retires [OF this assms(1)] assms(3) have "retired (process_id h) st1"
    by simp
  then have "retired (process_id h) st2"
    using batch_keeps [OF assms(5) agent_step_keeps [OF step assms(1) one] agent_step_left [OF step assms(1,2)]]
    by blast
  then have "map_of (as_processes st2) h = None \<and> worker_process h st2 = None"
    by (rule retired_process)
  then show ?thesis
    by (simp only: unknown_process_replies simp_thms)
qed

definition demo_slot :: process_slot where
  "demo_slot =
     \<lparr>sl_child = Some 7, sl_stdout_buf = 0, sl_stderr_buf = 1, sl_stdout_join = Some 11,
      sl_stderr_join = Some 12, sl_stdin = Some 10\<rparr>"

definition demo_running :: agent_state where
  "demo_running = snd (insert_process demo_slot (agent_new\<lparr>as_bufs := [[], []]\<rparr>))"

lemma demo_running_ok: "handles_ok demo_running" "handles_left 8 demo_running" "as_next_handle demo_running = 2"
  by (simp_all add: demo_running_def demo_slot_def handles_ok_def handle_ids_def agent_new_def slots_ok_def owners_ok_def
      insert_process_def table_defs handles_left_def)

lemma demo_drain: "drain_into demo_os p s w = Some (s, w)"
  by (subst drain_into.simps) simp

lemma demo_wait_timeout: "wait_with_timeout demo_os 7 0 w = Some (TimedOutKilled \<lparr>rs_code = None, rs_signal = Some 9\<rparr>, w)"
  unfolding wait_with_timeout_def by (subst wait_poll.simps) (simp add: kill_process_group_def)

lemma demo_wait:
  "dispatch_short demo_os (HmWait \<lparr>wt_handle = ProcessHandle 1, wt_timeout_ms = Some 0\<rparr>) demo_running 5
     = Some (AmWaitResult (OpOk \<lparr>eo_status = ExitTimedOut, eo_stdout = [], eo_stderr = []\<rparr>),
             agent_new\<lparr>as_next_handle := 2, as_bufs := [[], []]\<rparr>, 5)"
  by (simp add: dispatch_short_def wait_op_def wait_own_def worker_process_def demo_running_def demo_slot_def
      insert_process_def take_process_def agent_new_def table_defs wait_child_def demo_wait_timeout millis_def
      join_drain_def demo_drain take_buf_def drop_slot_def exit_of_def)

theorem waited_process_stays_unknown_witness:
  "dispatch_short demo_os (HmGetPid \<lparr>gp_handle = ProcessHandle 1\<rparr>) (agent_new\<lparr>as_next_handle := 2, as_bufs := [[], []]\<rparr>) 5
     = Some (unknown_handle (''get_pid on '' @ proc_text (ProcessHandle 1)), agent_new\<lparr>as_next_handle := 2, as_bufs := [[], []]\<rparr>, 5)"
proof -
  have 1: "handles_left (Suc (length ([] :: host_message list))) demo_running"
    by (simp add: handles_left_def demo_running_ok)
  have 2: "map_of (as_processes demo_running) (ProcessHandle 1) \<noteq> None"
    by (simp add: demo_running_def insert_process_def agent_new_def table_defs)
  have 3: "batch_items demo_os [] (agent_new\<lparr>as_next_handle := 2, as_bufs := [[], []]\<rparr>) 5
      = Some ([], agent_new\<lparr>as_next_handle := 2, as_bufs := [[], []]\<rparr>, 5)"
    by simp
  show ?thesis
    using waited_process_stays_unknown [OF demo_running_ok(1) 1 2 demo_wait 3] by blast
qed

section \<open>A joined worker\<close>

lemma join_retires:
  assumes "dispatch_short os (HmWorkerJoin \<lparr>wj_handle = wk\<rparr>) st w = Some (AmWorkerJoinResult r, st1, w1)" and "handles_ok st"
  shows "retired (worker_id wk) st1"
    and "worker_process p st = Some (wk, inner) \<Longrightarrow> retired (process_id p) st1"
proof -
  have d: "distinct (handle_ids st)" and lt: "\<forall>i \<in> set (handle_ids st). i < as_next_handle st"
    using assms(2) by (simp_all add: handles_ok_def)
  have known: "worker_conn_of wk st \<noteq> None"
    and st1: "st1 = remove_worker_processes_of wk (snd (remove_worker_conn wk st))"
    using assms(1)
    by (auto simp: dispatch_short_def worker_join_def remove_worker_conn_def worker_conn_of_def Let_def case_prod_beta
        unknown_worker_def agent_error_of_def split: option.splits)
  have "worker_id wk \<in> (worker_id \<circ> fst) ` set (as_workers st)"
    using map_of_known [of "as_workers st" wk worker_id] known by (simp add: worker_conn_of_def)
  with d lt show "retired (worker_id wk) st1"
    using workers.lookup_known [OF known]
    by (auto simp: retired_def st1 remove_defs handle_ids_def AList.delete_eq)
  show "retired (process_id p) st1" if wp: "worker_process p st = Some (wk, inner)"
  proof -
    have mem: "(p, (wk, inner)) \<in> set (as_worker_processes st)"
      using wp by (auto simp: worker_process_def dest: map_of_SomeD)
    have uniq: "x = (wk, inner)" if "(p, x) \<in> set (as_worker_processes st)" for x
    proof -
      have "distinct (map (process_id \<circ> fst) (as_worker_processes st))"
        using d by (simp add: handle_ids_def)
      then have "distinct (map fst (as_worker_processes st))"
        by (auto simp: distinct_map inj_on_def)
      with that wp show ?thesis by (simp add: worker_process_def)
    qed
    have last: "process_id p \<in> set (map (process_id \<circ> fst) (as_worker_processes st))"
      using mem by force
    have gone: "process_id p \<notin> set (map (process_id \<circ> fst) (filter (\<lambda>x. fst (snd x) \<noteq> wk) (as_worker_processes st)))"
    proof
      assume "process_id p \<in> set (map (process_id \<circ> fst) (filter (\<lambda>x. fst (snd x) \<noteq> wk) (as_worker_processes st)))"
      then obtain x where "(p, x) \<in> set (as_worker_processes st)" and "fst x \<noteq> wk"
        by auto
      then show False
        using uniq by fastforce
    qed
    have "process_id p \<notin> set (map (worker_id \<circ> fst) (AList.delete wk (as_workers st)))"
      using last d set_delete_subset [of wk "as_workers st"] by (auto simp: handle_ids_def)
    moreover have "process_id p \<notin> set (map (file_id \<circ> fst) (as_files st))" "process_id p \<notin> set (map (process_id \<circ> fst) (as_processes st))"
      using last d by (auto simp: handle_ids_def)
    moreover have "process_id p < as_next_handle st"
      using last lt by (simp add: handle_ids_def)
    ultimately show ?thesis
      using gone by (simp add: retired_def st1 remove_defs handle_ids_def)
  qed
qed

text \<open>
  Joining a worker forgets the worker and every process it spawned, for good.
\<close>

theorem joined_worker_forgotten:
  assumes "handles_ok st" and "handles_left (Suc (length ops)) st"
    and "worker_process p st = Some (wk, inner)"
    and "dispatch_short os (HmWorkerJoin \<lparr>wj_handle = wk\<rparr>) st w = Some (AmWorkerJoinResult r, st1, w1)"
    and "batch_items os ops st1 w1 = Some (rs, st2, w2)"
  shows "dispatch_short os (HmWorkerExec \<lparr>we_handle = wk, we_exec = e\<rparr>) st2 w2
           = Some (unknown_worker ''worker_exec'' wk, st2, w2)
       \<and> dispatch_short os (HmKill \<lparr>kl_handle = p, kl_signal = g\<rparr>) st2 w2
           = Some (unknown_handle (''kill on '' @ proc_text p), st2, w2)
       \<and> dispatch_short os (HmWait \<lparr>wt_handle = p, wt_timeout_ms = t\<rparr>) st2 w2
           = Some (unknown_handle (''wait on '' @ proc_text p), st2, w2)"
proof -
  have step: "agent_step st st1"
    using assms(4) by (rule dispatch_short_step)
  have one: "handles_left 1 st"
    using assms(2) by (simp add: handles_left_def)
  note keeps = batch_keeps [OF assms(5) agent_step_keeps [OF step assms(1) one] agent_step_left [OF step assms(1,2)]]
  have "retired (worker_id wk) st2"
    using keeps join_retires(1) [OF assms(4,1)] by blast
  then have wk: "worker_conn_of wk st2 = None"
    by (rule retired_worker)
  have "retired (process_id p) st2"
    using keeps join_retires(2) [OF assms(4,1,3)] by blast
  then have "map_of (as_processes st2) p = None \<and> worker_process p st2 = None"
    by (rule retired_process)
  with wk show ?thesis
    by (simp only: unknown_process_replies simp_thms) (simp add: dispatch_short_def worker_exec_def)
qed

section \<open>A process of a live worker\<close>

text \<open>
  A process that a worker spawned belongs to a worker that is still connected: process
  operations on its handle are relayed to that worker under the worker's own handle, and the
  answer is the worker's. The reply that the worker has been joined does not occur between
  operations that do not overlap.
\<close>

theorem worker_process_relayed:
  assumes "handles_ok st" and "worker_process h st = Some (wk, inner)"
  shows "\<exists>conn. worker_conn_of wk st = Some conn
     \<and> dispatch_short os (HmKill \<lparr>kl_handle = h, kl_signal = g\<rparr>) st w
         = (let (r, w1) = relay os conn (HmKill \<lparr>kl_handle = inner, kl_signal = g\<rparr>) w
            in Some (case r of Inr m \<Rightarrow> m | Inl e \<Rightarrow> relay_io_err ''kill'' e, st, w1))
     \<and> dispatch_short os (HmGetPid \<lparr>gp_handle = h\<rparr>) st w
         = (let (r, w1) = relay os conn (HmGetPid \<lparr>gp_handle = inner\<rparr>) w
            in Some (case r of Inr m \<Rightarrow> m | Inl e \<Rightarrow> relay_io_err ''get_pid'' e, st, w1))
     \<and> dispatch_short os (HmProcStatus \<lparr>ps_handle = h\<rparr>) st w
         = (let (r, w1) = relay os conn (HmProcStatus \<lparr>ps_handle = inner\<rparr>) w
            in Some (case r of Inr m \<Rightarrow> m | Inl e \<Rightarrow> relay_io_err ''proc_status'' e, st, w1))"
proof -
  have "(h, (wk, inner)) \<in> set (as_worker_processes st)"
    using assms(2) by (auto simp: worker_process_def dest: map_of_SomeD)
  then obtain conn where conn: "worker_conn_of wk st = Some conn"
    using assms(1) by (force simp: handles_ok_def owners_ok_def)
  have kill: "dispatch_short os (HmKill \<lparr>kl_handle = h, kl_signal = g\<rparr>) st w
         = (let (r, w1) = relay os conn (HmKill \<lparr>kl_handle = inner, kl_signal = g\<rparr>) w
            in Some (case r of Inr m \<Rightarrow> m | Inl e \<Rightarrow> relay_io_err ''kill'' e, st, w1))"
    and pid: "dispatch_short os (HmGetPid \<lparr>gp_handle = h\<rparr>) st w
         = (let (r, w1) = relay os conn (HmGetPid \<lparr>gp_handle = inner\<rparr>) w
            in Some (case r of Inr m \<Rightarrow> m | Inl e \<Rightarrow> relay_io_err ''get_pid'' e, st, w1))"
    and status: "dispatch_short os (HmProcStatus \<lparr>ps_handle = h\<rparr>) st w
         = (let (r, w1) = relay os conn (HmProcStatus \<lparr>ps_handle = inner\<rparr>) w
            in Some (case r of Inr m \<Rightarrow> m | Inl e \<Rightarrow> relay_io_err ''proc_status'' e, st, w1))"
    using assms(2) conn
    by (simp_all add: dispatch_short_def kill_op_def get_pid_def proc_status_def relay_process_op_def case_prod_beta
        Let_def split: sum.split)
  show ?thesis
    by (intro exI conjI) (rule conn kill pid status)+
qed

definition demo_workers :: agent_state where
  "demo_workers =
     snd (insert_worker_process (WorkerHandle 1) (ProcessHandle 1)
            (snd (insert_worker_conn \<lparr>wc_child = 8, wc_control = 20\<rparr> agent_new)))"

lemmas demo_worker_defs = demo_workers_def insert_worker_process_def insert_worker_conn_def agent_new_def table_defs

lemma demo_workers_ok: "handles_ok demo_workers" "as_next_handle demo_workers = 3"
  by (simp_all add: demo_worker_defs handles_ok_def handle_ids_def slots_ok_def owners_ok_def worker_conn_of_def)

lemma demo_workers_process: "worker_process (ProcessHandle 2) demo_workers = Some (WorkerHandle 1, ProcessHandle 1)"
  by (simp add: demo_worker_defs worker_process_def)

theorem worker_process_relayed_witness:
  "\<exists>conn. worker_conn_of (WorkerHandle 1) demo_workers = Some conn
     \<and> dispatch_short demo_os (HmGetPid \<lparr>gp_handle = ProcessHandle 2\<rparr>) demo_workers 0
         = (let (r, w1) = relay demo_os conn (HmGetPid \<lparr>gp_handle = ProcessHandle 1\<rparr>) 0
            in Some (case r of Inr m \<Rightarrow> m | Inl e \<Rightarrow> relay_io_err ''get_pid'' e, demo_workers, w1))"
  using worker_process_relayed [OF demo_workers_ok(1) demo_workers_process, of demo_os _ 0] by blast

theorem joined_worker_forgotten_witness:
  "dispatch_short demo_os (HmKill \<lparr>kl_handle = ProcessHandle 2, kl_signal = 9\<rparr>) (agent_new\<lparr>as_next_handle := 3\<rparr>) 0
     = Some (unknown_handle (''kill on '' @ proc_text (ProcessHandle 2)), agent_new\<lparr>as_next_handle := 3\<rparr>, 0)"
proof -
  have 1: "handles_left (Suc (length ([] :: host_message list))) demo_workers"
    by (simp add: handles_left_def demo_workers_ok)
  have 2: "dispatch_short demo_os (HmWorkerJoin \<lparr>wj_handle = WorkerHandle 1\<rparr>) demo_workers 0
      = Some (AmWorkerJoinResult (OpOk \<lparr>wjp_exit_status = 137\<rparr>), agent_new\<lparr>as_next_handle := 3\<rparr>, 0)"
    by (simp add: dispatch_short_def worker_join_def remove_defs reap_worker_def demo_worker_defs demo_os_def)
  have 3: "batch_items demo_os [] (agent_new\<lparr>as_next_handle := 3\<rparr>) 0 = Some ([], agent_new\<lparr>as_next_handle := 3\<rparr>, 0)"
    by simp
  show ?thesis
    using joined_worker_forgotten [OF demo_workers_ok(1) 1 demo_workers_process 2 3] by blast
qed

text \<open>
  C9: Every run of operations keeps the invariant of the handle tables (no id in use twice
  over all four tables, every id below the counter, buffers of every slot allocated, every
  worker-spawned process owned by a live worker), answers each operation once, and never
  revives an id that was given up.
\<close>

theorem handles_never_clash:
  assumes "handles_ok st" and "handles_left (length ops) st" and "batch_items os ops st w = Some (rs, st', w')"
  shows "handles_ok st' \<and> length rs = length ops \<and> (retired i st \<longrightarrow> retired i st')"
  using batch_keeps [OF assms(3,1,2)] by blast

theorem handles_never_clash_witness:
  "handles_ok demo_state \<and> length [AmOpenFileResult (OpOk (FileHandle 1))] = length [HmOpenFile demo_read_only]"
proof -
  have 1: "handles_left (length [HmOpenFile demo_read_only]) agent_new"
    by (simp add: handles_left_def agent_new_def)
  have 2: "batch_items demo_os [HmOpenFile demo_read_only] agent_new 0
      = Some ([AmOpenFileResult (OpOk (FileHandle 1))], demo_state, 0)"
    by (simp add: demo_open demo_state_def agent_new_def)
  show ?thesis
    using handles_never_clash [OF agent_new_ok 1 2] by blast
qed

end
