(* ===== verification/Agent_System.thy ===== *)
theory Agent_System
  imports Agent_Example
begin

text \<open>
  How the agent drives the operating system: waiting with a deadline, clock arithmetic, and
  the arguments of raw system calls.
\<close>

section \<open>Waiting with a deadline\<close>

text \<open>
  What \<open>std::time::Instant\<close> and \<open>std::thread::sleep\<close> promise: the clock never goes back, and
  sleeping lasts at least as long as asked.
\<close>

definition clock_monotone :: "'w os \<Rightarrow> bool" where
  "clock_monotone os \<longleftrightarrow>
     (\<forall>pid w. os_now os w \<le> os_now os (snd (os_try_wait os pid w)))
     \<and> (\<forall>d w. os_now os w + d \<le> os_now os (os_sleep os d w))"

fun outcome_justified :: "'w os \<Rightarrow> u32 \<Rightarrow> nat \<Rightarrow> wait_outcome \<Rightarrow> 'w \<Rightarrow> bool" where
  "outcome_justified os pid deadline (WaitExited s) w' \<longleftrightarrow> (\<exists>w1. os_try_wait os pid w1 = (Inr (Some s), w'))"
| "outcome_justified os pid deadline (TimedOutKilled s) w' \<longleftrightarrow>
     (\<exists>w1 w2. os_try_wait os pid w1 = (Inr None, w2) \<and> deadline \<le> os_now os w2
        \<and> os_child_wait os pid (kill_process_group os pid SIGKILL w2) = (Inr s, w'))"
| "outcome_justified os pid deadline (WaitErr e) w' \<longleftrightarrow>
     (\<exists>w1. os_try_wait os pid w1 = (Inl e, w'))
     \<or> (\<exists>w1 w2. os_try_wait os pid w1 = (Inr None, w2) \<and> deadline \<le> os_now os w2
        \<and> os_child_wait os pid (kill_process_group os pid SIGKILL w2) = (Inl e, w'))"

lemma wait_poll_returns:
  assumes "clock_monotone os"
  shows "\<exists>r w'. wait_poll os pid deadline w = Some (r, w') \<and> outcome_justified os pid deadline r w'"
proof (induction "deadline - os_now os w" arbitrary: w rule: less_induct)
  case less
  obtain r w1 where tw: "os_try_wait os pid w = (r, w1)"
    by (cases "os_try_wait os pid w")
  show ?case
  proof (cases "r = Inr None \<and> os_now os w1 < deadline")
    case True
    have "os_now os w \<le> os_now os (snd (os_try_wait os pid w))"
      and later: "os_now os w1 + 20000000 \<le> os_now os (os_sleep os 20000000 w1)"
      using assms unfolding clock_monotone_def by blast+
    then have "os_now os w \<le> os_now os w1"
      using tw by simp
    moreover have "os_now os w1 < deadline"
      using True by simp
    ultimately have "deadline - os_now os (os_sleep os 20000000 w1) < deadline - os_now os w"
      using later by linarith
    then obtain r2 w2 where "wait_poll os pid deadline (os_sleep os 20000000 w1) = Some (r2, w2)"
      and "outcome_justified os pid deadline r2 w2"
      using less by blast
    with True tw show ?thesis
      by (subst wait_poll.simps) simp
  next
    case False
    obtain c w2 where cw: "os_child_wait os pid (kill_process_group os pid SIGKILL w1) = (c, w2)"
      by (cases "os_child_wait os pid (kill_process_group os pid SIGKILL w1)")
    consider (err) e where "r = Inl e" | (exited) s where "r = Inr (Some s)" | (late) "r = Inr None" "deadline \<le> os_now os w1"
      using False by (cases r) (auto simp: not_less split: option.splits)
    then show ?thesis
    proof cases
      case late
      with tw cw show ?thesis
        by (subst wait_poll.simps) (cases c; auto)
    qed (use tw in \<open>subst wait_poll.simps, auto\<close>)+
  qed
qed

text \<open>
  C24: A wait with a timeout returns, provided that the monotonic clock does not go back and
  that sleeping lasts at least as long as asked, and what it returns is justified: an exit
  status was reported by the system; a child is reported killed only when it was still running
  at a poll past the deadline, and then its whole process group was sent \<open>SIGKILL\<close> and the
  child reaped.
\<close>

theorem wait_with_timeout_returns:
  assumes "clock_monotone os"
  shows "\<exists>r w'. wait_with_timeout os pid timeout w = Some (r, w')
           \<and> outcome_justified os pid (os_now os w + timeout) r w'"
  using wait_poll_returns [OF assms] by (simp add: wait_with_timeout_def)

theorem wait_with_timeout_returns_witness:
  "\<exists>r w'. wait_with_timeout demo_os 7 50000000 0 = Some (r, w') \<and> outcome_justified demo_os 7 (os_now demo_os 0 + 50000000) r w'"
proof -
  have "clock_monotone demo_os"
    by (simp add: clock_monotone_def)
  then show ?thesis
    by (rule wait_with_timeout_returns)
qed

section \<open>Times\<close>

lemma sint_word_of_int64:
  assumes "- (2 ^ 63) \<le> x" and "x < 2 ^ 63"
  shows "sint (word_of_int x :: i64) = x"
  using assms by (simp add: sint_sbintrunc' signed_take_bit_int_eq_self)

lemma sint_bounds64: "- (2 ^ 63) \<le> sint (a :: i64)" "sint (a :: i64) < 2 ^ 63"
  using sint_ge [of a] sint_lt [of a] by simp_all

lemma sint_sat_i64: "sint (sat_i64 x) = max (- (2 ^ 63)) (min (2 ^ 63 - 1) x)"
  unfolding sat_i64_def by (rule sint_word_of_int64) auto

lemma sint_ns_timespec:
  "sint (fst (ns_timespec ns)) = sint ns sdiv 1000000000"
  "sint (snd (ns_timespec ns)) = sint ns smod 1000000000"
proof -
  have "sint ns sdiv 1000000000 \<in> {- \<bar>sint ns\<bar> .. \<bar>sint ns\<bar>}"
    by (rule sdiv_int_range)
  then have "- (2 ^ 63) \<le> sint ns sdiv 1000000000" "sint ns sdiv 1000000000 \<le> 2 ^ 63"
    using sint_bounds64 [of ns] by (auto simp: abs_if split: if_splits)
  moreover have "sint ns sdiv 1000000000 \<noteq> 2 ^ 63"
  proof
    assume *: "sint ns sdiv 1000000000 = 2 ^ 63"
    have "\<bar>sint ns\<bar> div 1000000000 < 2 ^ 63"
      using sint_bounds64 [of ns] by (auto simp: abs_if split: if_splits)
    with * show False
      by (auto simp: signed_divide_int_def sgn_if split: if_splits)
  qed
  ultimately show "sint (fst (ns_timespec ns)) = sint ns sdiv 1000000000"
    by (simp add: ns_timespec_def sint_word_of_int64)
  have "sint ns smod 1000000000 \<in> {- \<bar>1000000000\<bar> + 1 .. \<bar>1000000000\<bar> - 1}"
    by (rule smod_int_range) simp
  then show "sint (snd (ns_timespec ns)) = sint ns smod 1000000000"
    by (simp add: ns_timespec_def sint_word_of_int64)
qed

lemma timespec_exact: "timespec_ns (ns_timespec ns) = ns"
proof -
  let ?x = "sint ns"
  have eq: "?x sdiv 1000000000 * 1000000000 + ?x smod 1000000000 = ?x"
    by (rule sdiv_mult_smod_eq)
  have "\<bar>?x sdiv 1000000000 * 1000000000\<bar> \<le> \<bar>?x\<bar>"
    by (auto simp: signed_divide_int_def abs_mult sgn_if)
  then have in_range: "- (2 ^ 63) \<le> ?x sdiv 1000000000 * 1000000000" "?x sdiv 1000000000 * 1000000000 \<le> 2 ^ 63"
    using sint_bounds64 [of ns] by (auto simp: abs_if split: if_splits)
  have ne: "?x sdiv 1000000000 * 1000000000 \<noteq> 2 ^ 63"
  proof
    assume "?x sdiv 1000000000 * 1000000000 = 2 ^ 63"
    then have "(?x sdiv 1000000000 * 1000000000) mod 1000000000 = 2 ^ 63 mod 1000000000"
      by (rule arg_cong)
    then show False
      by simp
  qed
  have "sint (saturating_mul (fst (ns_timespec ns)) 1000000000) = ?x sdiv 1000000000 * 1000000000"
    using in_range ne by (simp add: saturating_mul_def sint_sat_i64 sint_ns_timespec)
  then have "sint (timespec_ns (ns_timespec ns)) = ?x"
    using eq sint_bounds64 [of ns] by (simp add: timespec_ns_def saturating_add_def sint_sat_i64 sint_ns_timespec)
  then show ?thesis
    by (rule signed_word_eqI)
qed

lemma smod_nonneg_iff: "0 \<le> x smod b \<and> x smod b < b \<longleftrightarrow> 0 \<le> x \<or> b dvd x" if "0 < b" for x b :: int
proof (cases "0 \<le> x")
  case True
  with that show ?thesis by (simp add: smod_int_compares)
next
  case False
  define m where "m = - x mod b"
  have "x smod b = - m"
    using False that by (simp add: signed_modulo_int_def m_def)
  moreover have "0 \<le> m" "m = 0 \<longleftrightarrow> b dvd x"
    using that by (simp_all add: m_def flip: dvd_eq_mod_eq_0)
  ultimately show ?thesis
    using False that by auto
qed

text \<open>
  nanoseconds survive the conversion to a \<open>timespec\<close> and back at every 64-bit value,
  saturating arithmetic included; the nanosecond field is in the range that \<open>clock_settime\<close>
  accepts exactly for times that are not negative or are whole seconds.
\<close>

theorem clock_times_exact:
  "timespec_ns (ns_timespec ns) = ns
   \<and> (0 \<le> sint (snd (ns_timespec ns)) \<and> sint (snd (ns_timespec ns)) < 1000000000
        \<longleftrightarrow> 0 \<le> sint ns \<or> 1000000000 dvd sint ns)"
  using smod_nonneg_iff [of 1000000000 "sint ns"] by (simp add: timespec_exact sint_ns_timespec)

section \<open>System calls\<close>

lemma length_splice_ptr [simp]: "length (splice_ptr off a buf) = length buf"
  by (simp add: splice_ptr_def splice_at_def)

lemma map_length_splice_nested: "map length (splice_nested addrs n bufs) = map length bufs"
  by (simp add: splice_nested_def Let_def map_update list_update_same_conv)

lemma map_length_nested: "map length (fold (splice_nested addrs) ns bufs) = map length bufs"
  by (induction ns arbitrary: bufs) (simp_all add: map_length_splice_nested)

lemma length_place_ptrs [simp]: "length (place_ptrs addrs i ps args) = length args"
  by (induction addrs i ps args rule: place_ptrs.induct) auto

lemma place_ptrs_other: "k \<notin> unat ` set ps \<Longrightarrow> place_ptrs addrs i ps args ! k = args ! k"
  by (induction addrs i ps args rule: place_ptrs.induct) auto

lemma place_ptrs_nth:
  assumes "distinct ps" and "j < length ps" and "unat (ps ! j) < length args" and "i + j < length addrs"
  shows "place_ptrs addrs i ps args ! unat (ps ! j) = addrs ! (i + j)"
  using assms
proof (induction addrs i ps args arbitrary: j rule: place_ptrs.induct)
  case (1 addrs i args)
  then show ?case by simp
next
  case (2 addrs i p ps args)
  show ?case
  proof (cases j)
    case 0
    have "unat p \<notin> unat ` set ps"
      using "2.prems"(1) by (auto simp: unsigned_word_eqI dest: unsigned_word_eqI)
    with 0 "2.prems" show ?thesis
      by (simp add: place_ptrs_other)
  next
    case (Suc j')
    with 2 show ?thesis by simp
  qed
qed

lemma splice_ptr_slice:
  assumes "off + 8 \<le> length buf"
  shows "slice off (off + 8) (splice_ptr off a buf) = ne_bytes a"
  using assms by (simp add: splice_ptr_def splice_at_def slice_def ne_bytes_def)


text \<open>
  A raw system call is made with the arguments the host asked for: six registers and
  buffers of unchanged lengths, the address of buffer \<open>i\<close> in the register \<open>ptrs[i]\<close> names, every
  other register as given, and the address of a nested buffer in its parent at the offset
  named.
\<close>

theorem syscall_arguments:
  assumes "distinct (sy_ptrs args)"
  shows "\<exists>regs bufs ret err out w1. os_syscall os (sy_nr args) regs bufs w = ((ret, err, out), w1)
     \<and> syscall_op os args w = (AmSyscallResult \<lparr>sr_ret = ret,
          sr_errno = (if sint ret < 0 then case ie_errno err of Some n \<Rightarrow> n | None \<Rightarrow> 0 else 0), sr_out_bufs = out\<rparr>, w1)
     \<and> length regs = length (sy_args args) \<and> map length bufs = map length (sy_bufs args)
     \<and> (\<forall>i < length (sy_ptrs args). unat (sy_ptrs args ! i) < length (sy_args args) \<longrightarrow> i < length (sy_bufs args)
          \<longrightarrow> regs ! unat (sy_ptrs args ! i) = os_buf_addr os (sy_bufs args) i w)
     \<and> (\<forall>k. k \<notin> unat ` set (sy_ptrs args) \<longrightarrow> regs ! k = sy_args args ! k)
     \<and> (\<forall>n ns. sy_nested args = ns @ [n] \<longrightarrow> unat (np_parent n) < length (sy_bufs args)
          \<longrightarrow> unat (np_child n) < length (sy_bufs args)
          \<longrightarrow> unat (np_offset n) + 8 \<le> length (sy_bufs args ! unat (np_parent n))
          \<longrightarrow> slice (unat (np_offset n)) (unat (np_offset n) + 8) (bufs ! unat (np_parent n))
                = ne_bytes (os_buf_addr os (sy_bufs args) (unat (np_child n)) w))"
proof -
  let ?addrs = "map (\<lambda>i. os_buf_addr os (sy_bufs args) i w) [0..<length (sy_bufs args)]"
  let ?bufs = "fold (splice_nested ?addrs) (sy_nested args) (sy_bufs args)"
  let ?regs = "place_ptrs ?addrs 0 (sy_ptrs args) (sy_args args)"
  obtain ret err out w1 where call: "os_syscall os (sy_nr args) ?regs ?bufs w = ((ret, err, out), w1)"
    by (metis prod.collapse)
  have lens: "map length ?bufs = map length (sy_bufs args)"
    by (rule map_length_nested)
  have ptrs: "?regs ! unat (sy_ptrs args ! i) = os_buf_addr os (sy_bufs args) i w"
    if "i < length (sy_ptrs args)" "unat (sy_ptrs args ! i) < length (sy_args args)" "i < length (sy_bufs args)" for i
    using place_ptrs_nth [OF assms that(1,2), of 0 ?addrs] that by simp
  have nested: "slice (unat (np_offset n)) (unat (np_offset n) + 8) (?bufs ! unat (np_parent n))
      = ne_bytes (os_buf_addr os (sy_bufs args) (unat (np_child n)) w)"
    if n: "sy_nested args = ns @ [n]" "unat (np_parent n) < length (sy_bufs args)"
      "unat (np_child n) < length (sy_bufs args)" "unat (np_offset n) + 8 \<le> length (sy_bufs args ! unat (np_parent n))" for n ns
  proof -
    let ?b = "fold (splice_nested ?addrs) ns (sy_bufs args)"
    have bl: "map length ?b = map length (sy_bufs args)"
      by (rule map_length_nested)
    then have len: "length ?b = length (sy_bufs args)"
      using map_eq_imp_length_eq by blast
    then have "length (?b ! unat (np_parent n)) = length (sy_bufs args ! unat (np_parent n))"
      using bl n(2) by (metis nth_map)
    then show ?thesis
      using n len by (simp add: splice_nested_def Let_def splice_ptr_slice)
  qed
  have op: "syscall_op os args w = (AmSyscallResult \<lparr>sr_ret = ret,
          sr_errno = (if sint ret < 0 then case ie_errno err of Some n \<Rightarrow> n | None \<Rightarrow> 0 else 0), sr_out_bufs = out\<rparr>, w1)"
    using call by (simp add: syscall_op_def Let_def word_sless_alt)
  show ?thesis
    by (rule exI [of _ ?regs], rule exI [of _ ?bufs]) (use call op lens ptrs nested place_ptrs_other in \<open>auto\<close>)
qed

theorem syscall_arguments_witness:
  "\<exists>regs bufs ret err out w1. os_syscall demo_os 1 regs bufs 0 = ((ret, err, out), w1)
     \<and> length regs = 6 \<and> regs ! 1 = 4096 \<and> slice 8 16 (bufs ! 0) = ne_bytes 8192"
proof -
  let ?a = "\<lparr>sy_nr = 1, sy_args = [7, 0, 0, 0, 0, 0], sy_bufs = [replicate 16 0, [1, 2]], sy_ptrs = [1],
             sy_nested = [\<lparr>np_parent = 0, np_child = 1, np_offset = 8\<rparr>]\<rparr>"
  have "distinct (sy_ptrs ?a)"
    by simp
  from syscall_arguments [OF this, of demo_os 0] show ?thesis
  proof (elim exE conjE, goal_cases)
    case (1 regs bufs ret err out w1)
    have "regs ! 1 = 4096"
      using 1(5) by (simp add: unsigned_of_nat)
    moreover have "slice 8 16 (bufs ! 0) = ne_bytes 8192"
      using 1(7) [rule_format, of "[]" "\<lparr>np_parent = 0, np_child = 1, np_offset = 8\<rparr>"] by simp
    moreover have "length regs = 6"
      using 1(3) by simp
    moreover have "os_syscall demo_os 1 regs bufs 0 = ((ret, err, out), w1)"
      using 1(1) by simp
    ultimately show ?case
      by blast
  qed
qed

end
