(* ===== verification/Agent_Replies.thy ===== *)
theory Agent_Replies
  imports Agent_Example
begin

text \<open>
  Requests and replies: every handler answers in kind, and the system calls a worker runs in
  the background are collected once each.
\<close>

section \<open>Replies\<close>

text \<open>Operations that are answered by a worker in the worker's own words.\<close>

definition relayed :: "agent_state \<Rightarrow> host_message \<Rightarrow> bool" where
  "relayed st op \<longleftrightarrow>
     (case op of
        HmWait a \<Rightarrow> worker_process (wt_handle a) st \<noteq> None
      | HmKill a \<Rightarrow> worker_process (kl_handle a) st \<noteq> None
      | HmGetPid a \<Rightarrow> worker_process (gp_handle a) st \<noteq> None
      | HmProcStdinWrite a \<Rightarrow> worker_process (sw_handle a) st \<noteq> None
      | HmProcStdinClose a \<Rightarrow> worker_process (sc_handle a) st \<noteq> None
      | HmProcStatus a \<Rightarrow> worker_process (ps_handle a) st \<noteq> None
      | _ \<Rightarrow> False)"

definition answers :: "string \<Rightarrow> agent_message \<Rightarrow> bool" where
  "answers k m \<longleftrightarrow> agent_kind m = k @ ''_result'' \<or> agent_kind m = ''agent_error''"

lemma answers_error [simp]: "answers k (agent_error_of e t)" "answers k (unknown_handle t)"
  "answers k (unknown_worker op h)" "answers k (relay_io_err op t)" "answers k (relay_shape_err op m)"
  by (simp_all add: answers_def agent_error_of_def unknown_handle_def unknown_worker_def relay_io_err_def
      relay_shape_err_def agent_kind_def)

lemma file_answers:
  "answers ''open_file'' (fst (open_file os a1 st w))"
  "answers ''read'' (fst (read_op os a2 st w))"
  "answers ''write'' (fst (write_op os a3 st w))"
  "answers ''close'' (fst (close_op os a4 st w))"
  "answers ''seek'' (fst (seek_op os a5 st w))"
  "answers ''ioctl'' (fst (ioctl_op os a6 st w))"
  "answers ''read_file'' (fst (read_file_op os a7 w))"
  "answers ''write_file'' (fst (write_file_op os a8 w))"
  "answers ''stat'' (fst (stat_op os a9 w))"
  "answers ''listdir'' (fst (listdir_op os a10 w))"
  "answers ''mkdir'' (fst (mkdir_op os a11 w))"
  "answers ''unlink'' (fst (unlink_op os a12 w))"
  "answers ''rename'' (fst (rename_op os a13 w))"
  unfolding open_file_def read_op_def write_op_def close_op_def seek_op_def ioctl_op_def read_file_op_def
    write_file_op_def stat_op_def listdir_op_def mkdir_op_def unlink_op_def rename_op_def Let_def case_prod_beta
  by (simp_all add: answers_def agent_kind_def unknown_handle_def agent_error_of_def split: sum.split option.split)

lemma run_answers:
  "answers ''run_async'' (fst (run_async os a1 st w))"
  "answers ''get_time'' (fst (get_time os w))"
  "answers ''set_time'' (fst (set_time os a2 w))"
  "answers ''sleep_clock'' (fst (sleep_clock os a3 w))"
  "answers ''advance_clock'' (fst (advance_clock os a4 w))"
  "answers ''syscall'' (fst (syscall_op os a5 w))"
  "answers ''read_mem'' (fst (read_mem os a6 w))"
  unfolding run_async_def get_time_def set_time_def sleep_clock_def advance_clock_def syscall_op_def read_mem_def
    Let_def case_prod_beta
  by (simp_all add: answers_def agent_kind_def split: sum.split option.split)

lemma worker_answers:
  "answers ''spawn_worker'' (fst (spawn_worker os st w))"
  "answers ''worker_syscall'' (fst (worker_syscall os a1 st w))"
  "answers ''worker_syscall_begin'' (fst (worker_syscall_begin os a2 st w))"
  "answers ''worker_syscall_await'' (fst (worker_syscall_await os a3 st w))"
  "answers ''worker_exec'' (fst (worker_exec os a4 st w))"
  "answers ''worker_kill'' (fst (worker_kill os a5 st w))"
  "answers ''worker_join'' (fst (worker_join os a6 st w))"
  "answers ''worker_open_file'' (fst (worker_open_file a7 st w))"
  "answers ''worker_run_async'' (fst (worker_run_async os a8 st w))"
  unfolding spawn_worker_def worker_syscall_def worker_syscall_begin_def worker_syscall_await_def worker_exec_def
    worker_kill_def worker_join_def worker_open_file_def worker_run_async_def Let_def case_prod_beta
  by (simp_all add: spawn_err_def split: sum.split option.split agent_message.split op_result.split)
     (simp_all add: answers_def agent_kind_def)

lemma wait_own_answers: "wait_own os a st w = Some (r, st', w') \<Longrightarrow> answers ''wait'' r"
  by (auto simp: wait_own_def Let_def case_prod_beta Option.bind_eq_Some_conv answers_def agent_kind_def
      agent_error_of_def split: option.splits)

lemma process_answers:
  "worker_process (kl_handle a1) st = None \<Longrightarrow> answers ''kill'' (fst (kill_op os a1 st w))"
  "worker_process (gp_handle a2) st = None \<Longrightarrow> answers ''get_pid'' (fst (get_pid os a2 st w))"
  "worker_process (sw_handle a3) st = None \<Longrightarrow> answers ''proc_stdin_write'' (fst (proc_stdin_write os a3 st w))"
  "worker_process (sc_handle a4) st = None \<Longrightarrow> answers ''proc_stdin_close'' (fst (proc_stdin_close os a4 st w))"
  "worker_process (ps_handle a5) st = None \<Longrightarrow> answers ''proc_status'' (fst (proc_status os a5 st w))"
  unfolding kill_op_def get_pid_def proc_stdin_write_def proc_stdin_close_def proc_status_def Let_def case_prod_beta
    with_process_mut_def
  by (simp_all add: answers_def agent_kind_def agent_error_of_def split: sum.split option.split)

lemma exec_answers:
  "answers ''exec'' (AmExecResult x)"
  "answers ''batch_exec'' (AmBatchExecResult y)"
  by (simp_all add: answers_def agent_kind_def)

lemma answers_of: "answers k (fst x) \<Longrightarrow> x = (r, y) \<Longrightarrow> answers k r"
  by simp

lemma answers_keep: "answers k (fst x) \<Longrightarrow> keep_state st x = Some (r, st', w') \<Longrightarrow> answers k r"
  by (auto simp: keep_state_def)

lemmas handler_answers = file_answers [THEN answers_of] run_answers [THEN answers_of] worker_answers [THEN answers_of]
  file_answers [THEN answers_keep] run_answers [THEN answers_keep] process_answers [THEN answers_of] wait_own_answers

text \<open>
  The answer to a request is the result of that kind of request or an \<open>AgentError\<close>,
  except where a worker answers for itself.
\<close>

theorem reply_matches_request:
  assumes "dispatch_short os op st w = Some (r, st', w')" and "\<not> relayed st op"
  shows "agent_kind r = host_kind op @ ''_result'' \<or> agent_kind r = ''agent_error''"
proof -
  have "answers (host_kind op) r"
    using assms
    by (cases op)
       (auto simp only: dispatch_short_def relayed_def host_kind_def host_message.case Option.bind_eq_Some_conv case_prod_beta
         wait_op_def option.case not_in_batch_def answers_error exec_answers simp_thms
         option.inject prod.inject fst_conv snd_conv
         intro: handler_answers)
  then show ?thesis
    by (simp add: answers_def)
qed


theorem reply_matches_request_witness:
  "agent_kind (AmSleepClockResult (OpOk ())) = host_kind (HmSleepClock \<lparr>slc_ns = 5\<rparr>) @ ''_result''
   \<or> agent_kind (AmSleepClockResult (OpOk ())) = ''agent_error''"
proof -
  have 1: "dispatch_short demo_os (HmSleepClock \<lparr>slc_ns = 5\<rparr>) agent_new 0
      = Some (AmSleepClockResult (OpOk ()), agent_new, 5)"
    by (simp add: dispatch_short_def keep_state_def sleep_clock_def)
  have 2: "\<not> relayed agent_new (HmSleepClock \<lparr>slc_ns = 5\<rparr>)"
    by (simp add: relayed_def)
  show ?thesis
    by (rule reply_matches_request [OF 1 2])
qed

section \<open>Asynchronous system calls of a worker\<close>

fun worker_answers_all ::
  "'w os \<Rightarrow> host_message list \<Rightarrow> worker_loop \<Rightarrow> 'w \<Rightarrow> (agent_message list \<times> worker_loop \<times> 'w) option" where
  "worker_answers_all os [] wl w = Some ([], wl, w)"
| "worker_answers_all os (op # ops) wl w =
     do {
       (m, wl1, w1) \<leftarrow> worker_answer os op wl w;
       (ms, wl2, w2) \<leftarrow> worker_answers_all os ops wl1 w1;
       Some (m # ms, wl2, w2)
     }"

definition awaits :: "u64 \<Rightarrow> host_message \<Rightarrow> bool" where
  "awaits i op \<longleftrightarrow> (\<exists>a. op = HmWorkerSyscallAwait a \<and> ww_async_id a = i)"

definition pending_ok :: "nat \<Rightarrow> worker_loop \<Rightarrow> bool" where
  "pending_ok n wl \<longleftrightarrow>
     (\<forall>i \<in> fst ` set (wl_pending wl). i < wl_next_async wl) \<and> unat (wl_next_async wl) + n < 2 ^ 64"

lemma worker_answer_other:
  assumes "worker_answer os op wl w = Some (m, wl1, w1)"
    and "\<forall>b. op \<noteq> HmWorkerSyscallBegin b" and "\<forall>a. op \<noteq> HmWorkerSyscallAwait a"
  shows "wl_pending wl1 = wl_pending wl \<and> wl_next_async wl1 = wl_next_async wl"
proof -
  have "worker_answer os op wl w = do {
            (r, st1, w1) \<leftarrow> dispatch_short os op (wl_state wl) w;
            Some (r, wl\<lparr>wl_state := st1\<rparr>, w1)
          }"
    using assms(2,3) by (cases op) (auto simp: worker_answer_def)
  with assms(1) show ?thesis
    by (auto simp: Option.bind_eq_Some_conv)
qed

lemma set_AList_update: "fst ` set (AList.update k v xs) = insert k (fst ` set xs)"
  by (induction xs) auto

lemma begin_state:
  assumes "worker_answer os (HmWorkerSyscallBegin b) wl w = Some (m, wl1, w1)"
  obtains ans where "wl_pending wl1 = AList.update (wl_next_async wl) ans (wl_pending wl)"
    and "wl_next_async wl1 = wl_next_async wl + 1"
  using assms by (auto simp: worker_answer_def Let_def case_prod_beta)

lemma worker_answer_pending:
  assumes "worker_answer os op wl w = Some (m, wl1, w1)" and "pending_ok (Suc n) wl"
  shows "pending_ok n wl1"
    and "i < wl_next_async wl \<Longrightarrow> \<not> awaits i op \<Longrightarrow> map_of (wl_pending wl1) i = map_of (wl_pending wl) i"
    and "wl_next_async wl \<le> wl_next_async wl1"
proof -
  have nxt: "unat (wl_next_async wl + 1) = unat (wl_next_async wl) + 1"
    using assms(2) by (simp add: pending_ok_def unat_word_ariths)
  then have lt: "wl_next_async wl < wl_next_async wl + 1"
    by (simp add: word_less_nat_alt)
  consider (starts) b where "op = HmWorkerSyscallBegin b" | (await) a where "op = HmWorkerSyscallAwait a"
    | (other) "\<forall>b. op \<noteq> HmWorkerSyscallBegin b" "\<forall>a. op \<noteq> HmWorkerSyscallAwait a"
    by blast
  note cs = this
  show "pending_ok n wl1"
    using cs
  proof cases
    case starts
    obtain ans where "wl_pending wl1 = AList.update (wl_next_async wl) ans (wl_pending wl)"
      and "wl_next_async wl1 = wl_next_async wl + 1"
      using assms(1) unfolding starts by (rule begin_state)
    then have "fst ` set (wl_pending wl1) = insert (wl_next_async wl) (fst ` set (wl_pending wl))"
      and "wl_next_async wl1 = wl_next_async wl + 1"
      by (simp_all add: set_AList_update)
    with assms(2) nxt lt show ?thesis
      by (fastforce simp: pending_ok_def)
  next
    case await
    with assms show ?thesis
      by (fastforce simp: worker_answer_def pending_ok_def AList.delete_eq split: option.splits)
  next
    case other
    with worker_answer_other [OF assms(1)] assms(2) show ?thesis
      by (simp add: pending_ok_def)
  qed
  show "map_of (wl_pending wl1) i = map_of (wl_pending wl) i" if "i < wl_next_async wl" "\<not> awaits i op"
    using cs
  proof cases
    case starts
    obtain ans where "wl_pending wl1 = AList.update (wl_next_async wl) ans (wl_pending wl)"
      using assms(1) unfolding starts by (rule begin_state)
    with that(1) show ?thesis
      by (auto simp: update_conv')
  next
    case await
    with assms(1) that(2) show ?thesis
      by (auto simp: worker_answer_def awaits_def delete_conv' split: option.splits)
  next
    case other
    with worker_answer_other [OF assms(1)] show ?thesis
      by simp
  qed
  show "wl_next_async wl \<le> wl_next_async wl1"
    using cs
  proof cases
    case starts
    with assms(1) lt show ?thesis
      by (auto simp: worker_answer_def Let_def case_prod_beta)
  next
    case await
    with assms(1) show ?thesis
      by (auto simp: worker_answer_def split: option.splits)
  next
    case other
    with worker_answer_other [OF assms(1)] show ?thesis
      by simp
  qed
qed

lemma worker_answers_pending:
  assumes "worker_answers_all os ops wl w = Some (ms, wl', w')" and "pending_ok (length ops + n) wl"
    and "i < wl_next_async wl" and "\<forall>op \<in> set ops. \<not> awaits i op"
  shows "map_of (wl_pending wl') i = map_of (wl_pending wl) i \<and> pending_ok n wl' \<and> i < wl_next_async wl'"
  using assms
proof (induction ops arbitrary: wl w ms)
  case Nil
  then show ?case by simp
next
  case (Cons op ops)
  obtain m wl1 w1 ms1 where a: "worker_answer os op wl w = Some (m, wl1, w1)"
    and b: "worker_answers_all os ops wl1 w1 = Some (ms1, wl', w')"
    using Cons.prems(1) by (auto simp: Option.bind_eq_Some_conv)
  have ok: "pending_ok (Suc (length ops + n)) wl"
    using Cons.prems(2) by simp
  note p = worker_answer_pending [OF a ok]
  have "i < wl_next_async wl1"
    using p(3) Cons.prems(3) by simp
  then show ?case
    using Cons.IH [OF b p(1)] p(2) [OF Cons.prems(3)] Cons.prems(4) by simp
qed

text \<open>
  A system call begun in a worker answers at once with an id of its own; awaiting that
  id, after any operations that do not await it, gives the result of that call, and only the
  first time.
\<close>

theorem async_syscall_collected_once:
  assumes "pending_ok (Suc (length ops)) wl"
    and "worker_answer os (HmWorkerSyscallBegin b) wl w = Some (m, wl1, w1)"
    and "worker_answers_all os ops wl1 w1 = Some (ms, wl2, w2)"
    and "\<forall>op \<in> set ops. \<not> awaits (wl_next_async wl) op"
  shows "m = AmWorkerSyscallBeginResult (OpOk (wl_next_async wl))
     \<and> (\<exists>p wl3. fst (syscall_op os (wb_args b) w) = AmSyscallResult p
          \<and> worker_answer os (HmWorkerSyscallAwait \<lparr>ww_handle = h, ww_async_id = wl_next_async wl\<rparr>) wl2 w2
              = Some (AmWorkerSyscallAwaitResult p, wl3, w2)
          \<and> worker_answer os (HmWorkerSyscallAwait \<lparr>ww_handle = h, ww_async_id = wl_next_async wl\<rparr>) wl3 w2
              = Some (agent_error_of UnknownHandle
                   (''worker_syscall_await: unknown async handle '' @ show_nat (unat (wl_next_async wl))), wl3, w2))"
proof -
  obtain p w0 where sys: "syscall_op os (wb_args b) w = (AmSyscallResult p, w0)"
    by (simp add: syscall_op_def Let_def case_prod_beta)
  have m: "m = AmWorkerSyscallBeginResult (OpOk (wl_next_async wl))"
    and wl1: "map_of (wl_pending wl1) (wl_next_async wl) = Some (AmWorkerSyscallAwaitResult p)"
      "wl_next_async wl1 = wl_next_async wl + 1"
    using assms(2) sys by (auto simp: worker_answer_def Let_def update_conv')
  have "pending_ok (length ops + 0) wl1"
    using worker_answer_pending(1) [OF assms(2,1)] by simp
  moreover have "wl_next_async wl < wl_next_async wl1"
    using assms(1) wl1(2) by (simp add: word_less_nat_alt pending_ok_def unat_word_ariths)
  ultimately have "map_of (wl_pending wl2) (wl_next_async wl) = Some (AmWorkerSyscallAwaitResult p)"
    using worker_answers_pending [OF assms(3), of 0] assms(4) wl1(1) by simp
  then show ?thesis
    using m sys by (simp add: worker_answer_def delete_conv')
qed

theorem async_syscall_collected_once_witness:
  "\<exists>p wl3. fst (syscall_op demo_os \<lparr>sy_nr = 39, sy_args = [0, 0, 0, 0, 0, 0], sy_bufs = [], sy_ptrs = [], sy_nested = []\<rparr> 0)
        = AmSyscallResult p
     \<and> worker_answer demo_os (HmWorkerSyscallAwait \<lparr>ww_handle = WorkerHandle 1, ww_async_id = 1\<rparr>)
         (worker_loop_new\<lparr>wl_next_async := 2, wl_pending := [(1, AmWorkerSyscallAwaitResult \<lparr>sr_ret = 0, sr_errno = 0, sr_out_bufs = []\<rparr>)]\<rparr>) 3
         = Some (AmWorkerSyscallAwaitResult p, wl3, 3)"
proof -
  let ?b = "\<lparr>wb_handle = WorkerHandle 1, wb_args = \<lparr>sy_nr = 39, sy_args = [0, 0, 0, 0, 0, 0], sy_bufs = [], sy_ptrs = [], sy_nested = []\<rparr>\<rparr>"
  let ?wl = "worker_loop_new\<lparr>wl_next_async := 2, wl_pending := [(1, AmWorkerSyscallAwaitResult \<lparr>sr_ret = 0, sr_errno = 0, sr_out_bufs = []\<rparr>)]\<rparr>"
  have next_id: "wl_next_async worker_loop_new = 1"
    by (simp add: worker_loop_new_def)
  have 1: "pending_ok (Suc (length [HmSleepClock \<lparr>slc_ns = 3\<rparr>])) worker_loop_new"
    by (simp add: pending_ok_def worker_loop_new_def)
  have 2: "worker_answer demo_os (HmWorkerSyscallBegin ?b) worker_loop_new 0
      = Some (AmWorkerSyscallBeginResult (OpOk 1), ?wl, 0)"
    by (simp add: worker_answer_def worker_loop_new_def syscall_op_def Let_def)
  have 3: "worker_answers_all demo_os [HmSleepClock \<lparr>slc_ns = 3\<rparr>] ?wl 0 = Some ([AmSleepClockResult (OpOk ())], ?wl, 3)"
    by (simp add: worker_answer_def worker_loop_new_def dispatch_short_def keep_state_def sleep_clock_def)
  have 4: "\<forall>op \<in> set [HmSleepClock \<lparr>slc_ns = 3\<rparr>]. \<not> awaits (wl_next_async worker_loop_new) op"
    by (simp add: awaits_def)
  show ?thesis
    using async_syscall_collected_once [OF 1 2 3 4, of "WorkerHandle 1"] unfolding next_id by auto
qed

end
