(* ===== verification/Rust_Std.thy ===== *)
theory Rust_Std
  imports Provium_Prelude "HOL-Library.Char_ord" "HOL-Library.List_Lexorder" "HOL-Library.Product_Lexorder"
begin

text \<open>
  What the host-side components use of the Rust standard library beyond numbers: the
  UTF-8 \<open>String\<close> (its bytes as a \<open>string\<close>, so that the order of strings is the order of
  the byte lists), \<open>contains\<close>, \<open>trim\<close>, \<open>split_whitespace\<close> and hexadecimal formatting, and
  the ordered containers \<open>BTreeSet\<close> and \<open>BTreeMap\<close>, kept as the strictly increasing lists
  that their iterators give. The contract of the two containers is a locale each, which
  the list operations interpret.
\<close>

section \<open>Strings\<close>

definition byte_of :: "char \<Rightarrow> nat" where
  "byte_of c = of_char c"

definition is_ascii_alphanumeric :: "char \<Rightarrow> bool" where
  "is_ascii_alphanumeric c =
     (48 \<le> byte_of c \<and> byte_of c \<le> 57 \<or> 65 \<le> byte_of c \<and> byte_of c \<le> 90 \<or> 97 \<le> byte_of c \<and> byte_of c \<le> 122)"

text \<open>\<open>chars()\<close> of a UTF-8 string visits one item for each byte that does not continue a character.\<close>

definition is_char_start :: "char \<Rightarrow> bool" where
  "is_char_start c = (byte_of c < 128 \<or> 192 \<le> byte_of c)"

fun contains_str :: "string \<Rightarrow> string \<Rightarrow> bool" where
  "contains_str pat [] = (pat = [])"
| "contains_str pat (c # cs) = (take (length pat) (c # cs) = pat \<or> contains_str pat cs)"

text \<open>The length of the white space character (Unicode \<open>White_Space\<close>) that a string starts with, 0 if it starts with none.\<close>

definition ws_len :: "string \<Rightarrow> nat" where
  "ws_len s = (case map byte_of (take 3 s) of
      [] \<Rightarrow> 0
    | b # bs \<Rightarrow>
        if 9 \<le> b \<and> b \<le> 13 \<or> b = 32 then 1
        else (case bs of
            [] \<Rightarrow> 0
          | b2 # bs2 \<Rightarrow>
              if b = 194 \<and> (b2 = 133 \<or> b2 = 160) then 2
              else (case bs2 of
                  [] \<Rightarrow> 0
                | b3 # _ \<Rightarrow>
                    if (b, b2, b3) = (225, 154, 128) \<or> (b, b2, b3) = (226, 129, 159) \<or> (b, b2, b3) = (227, 128, 128)
                       \<or> (b, b2) = (226, 128) \<and> (128 \<le> b3 \<and> b3 \<le> 138 \<or> b3 = 168 \<or> b3 = 169 \<or> b3 = 175)
                    then 3 else 0)))"

function trim_start :: "string \<Rightarrow> string" where
  "trim_start s = (if ws_len s = 0 \<or> s = [] then s else trim_start (drop (ws_len s) s))"
  by pat_completeness auto
termination
  by (relation "measure length") auto

declare trim_start.simps [simp del]

fun trim_end :: "string \<Rightarrow> string" where
  "trim_end [] = []"
| "trim_end (c # cs) = (if trim_start (c # cs) = [] then [] else c # trim_end cs)"

definition trim :: "string \<Rightarrow> string" where
  "trim s = trim_end (trim_start s)"

text \<open>\<open>split_whitespace\<close>: the maximal runs of characters that are not white space.\<close>

function split_words :: "string \<Rightarrow> string \<Rightarrow> string list" where
  "split_words word s =
     (case s of
        [] \<Rightarrow> (if word = [] then [] else [word])
      | c # cs \<Rightarrow>
          if ws_len s = 0 then split_words (word @ [c]) cs
          else (if word = [] then [] else [word]) @ split_words [] (drop (ws_len s) s))"
  by pat_completeness auto
termination
  by (relation "measure (length \<circ> snd)") auto

declare split_words.simps [simp del]

definition split_whitespace :: "string \<Rightarrow> string list" where
  "split_whitespace s = split_words [] s"

fun join_str :: "string \<Rightarrow> string list \<Rightarrow> string" where
  "join_str sep [] = []"
| "join_str sep [s] = s"
| "join_str sep (s # t # ss) = s @ sep @ join_str sep (t # ss)"

section \<open>Hexadecimal numbers\<close>

definition hex_digit :: "nat \<Rightarrow> char" where
  "hex_digit d = char_of (if d < 10 then 48 + d else 87 + d)"

function show_hex :: "u64 \<Rightarrow> string" where
  "show_hex n = (if n < 16 then [hex_digit (unat n)] else show_hex (n div 16) @ [hex_digit (unat (n mod 16))])"
  by pat_completeness auto
termination
  by (relation "measure unat") (auto simp: unat_div word_less_nat_alt)

declare show_hex.simps [simp del]

text \<open>\<open>{:0kx}\<close>: at least \<open>k\<close> digits, with leading zeros.\<close>

definition hex_pad :: "nat \<Rightarrow> u64 \<Rightarrow> string" where
  "hex_pad k n = replicate (k - length (show_hex n)) (CHR ''0'') @ show_hex n"

section \<open>Ordered sets and maps\<close>

fun set_insert :: "'a::linorder \<Rightarrow> 'a list \<Rightarrow> 'a list" where
  "set_insert x [] = [x]"
| "set_insert x (y # ys) = (if x < y then x # y # ys else if x = y then y # ys else y # set_insert x ys)"

definition set_remove :: "'a \<Rightarrow> 'a list \<Rightarrow> 'a list" where
  "set_remove x xs = filter (\<lambda>y. y \<noteq> x) xs"

fun tree_insert :: "'k::linorder \<Rightarrow> 'v \<Rightarrow> ('k \<times> 'v) list \<Rightarrow> ('k \<times> 'v) list" where
  "tree_insert k v [] = [(k, v)]"
| "tree_insert k v ((j, u) # m) =
     (if k < j then (k, v) # (j, u) # m else if k = j then (k, v) # m else (j, u) # tree_insert k v m)"

definition tree_remove :: "'k \<Rightarrow> ('k \<times> 'v) list \<Rightarrow> ('k \<times> 'v) list" where
  "tree_remove k m = filter (\<lambda>p. fst p \<noteq> k) m"

definition ordered_set :: "'a::linorder list \<Rightarrow> bool" where
  "ordered_set xs = sorted_wrt (<) xs"

definition ordered_map :: "('k::linorder \<times> 'v) list \<Rightarrow> bool" where
  "ordered_map m = sorted_wrt (<) (map fst m)"

text \<open>The contract of a set: membership after each operation, and the representation kept.\<close>

locale set_contract =
  fixes rep_ok :: "'s \<Rightarrow> bool"
    and elems :: "'s \<Rightarrow> 'a set"
    and ins :: "'a \<Rightarrow> 's \<Rightarrow> 's"
    and del :: "'a \<Rightarrow> 's \<Rightarrow> 's"
  assumes elems_ins: "elems (ins x s) = insert x (elems s)"
    and elems_del: "elems (del x s) = elems s - {x}"
    and ok_ins: "rep_ok s \<Longrightarrow> rep_ok (ins x s)"
    and ok_del: "rep_ok s \<Longrightarrow> rep_ok (del x s)"
begin

lemma insert_twice: "elems (ins x (ins x s)) = elems (ins x s)"
  by (simp add: elems_ins)

lemma heals: "elems (del x (ins x s)) = elems (del x s)"
  by (simp add: elems_ins elems_del)

lemma elems_fold_ins: "elems (fold ins xs s) = elems s \<union> set xs"
  by (induction xs arbitrary: s) (auto simp: elems_ins)

end

locale map_contract =
  fixes rep_ok :: "'m \<Rightarrow> bool"
    and look :: "'m \<Rightarrow> 'k \<Rightarrow> 'v option"
    and ins :: "'k \<Rightarrow> 'v \<Rightarrow> 'm \<Rightarrow> 'm"
    and del :: "'k \<Rightarrow> 'm \<Rightarrow> 'm"
  assumes look_ins: "rep_ok m \<Longrightarrow> look (ins k v m) = (look m)(k \<mapsto> v)"
    and look_del: "look (del k m) = (look m)(k := None)"
    and ok_ins: "rep_ok m \<Longrightarrow> rep_ok (ins k v m)"
    and ok_del: "rep_ok m \<Longrightarrow> rep_ok (del k m)"
begin

lemma keys_ins: "rep_ok m \<Longrightarrow> dom (look (ins k v m)) = insert k (dom (look m))"
  by (simp add: look_ins)

lemma other_key_kept: "rep_ok m \<Longrightarrow> j \<noteq> k \<Longrightarrow> look (ins k v m) j = look m j \<and> look (del k m) j = look m j"
  by (simp add: look_ins look_del)

lemma overwrite: "rep_ok m \<Longrightarrow> look (ins k v (ins k u m)) = look (ins k v m)"
  by (simp add: look_ins ok_ins)

end

section \<open>The list operations meet the contracts\<close>

lemma set_set_insert [simp]: "set (set_insert x xs) = insert x (set xs)"
  by (induction xs) auto

lemma set_set_remove [simp]: "set (set_remove x xs) = set xs - {x}"
  by (auto simp: set_remove_def)

lemma ordered_set_insert [intro]: "ordered_set xs \<Longrightarrow> ordered_set (set_insert x xs)"
  unfolding ordered_set_def by (induction xs) auto

lemma ordered_set_filter [intro]: "ordered_set xs \<Longrightarrow> ordered_set (filter P xs)"
  unfolding ordered_set_def by (rule sorted_wrt_filter)

lemma ordered_set_remove [intro]: "ordered_set xs \<Longrightarrow> ordered_set (set_remove x xs)"
  by (auto simp: set_remove_def)

lemma ordered_set_Nil [simp]: "ordered_set []"
  by (simp add: ordered_set_def)

interpretation btree_set: set_contract ordered_set set set_insert set_remove
  by unfold_locales auto

lemma map_of_tree_insert: "ordered_map m \<Longrightarrow> map_of (tree_insert k v m) = (map_of m)(k \<mapsto> v)"
proof (induction m)
  case (Cons p m)
  then show ?case
    by (cases p) (auto simp: ordered_map_def fun_eq_iff)
qed simp

lemma map_of_filter_fst: "map_of (filter (\<lambda>p. P (fst p)) m) k = (if P k then map_of m k else None)"
  by (induction m) auto

lemma map_of_tree_remove: "map_of (tree_remove k m) = (map_of m)(k := None)"
  unfolding tree_remove_def by (induction m) auto

lemma set_tree_insert: "set (tree_insert k v m) \<subseteq> insert (k, v) (set m)"
  by (induction k v m rule: tree_insert.induct) (auto split: if_splits)

lemma keys_tree_insert: "fst ` set (tree_insert k v m) = insert k (fst ` set m)"
  by (induction k v m rule: tree_insert.induct) (auto simp: image_iff)

lemma ordered_map_insert [intro]: "ordered_map m \<Longrightarrow> ordered_map (tree_insert k v m)"
  unfolding ordered_map_def
proof (induction m)
  case (Cons p m)
  have "x \<in> set (map fst (tree_insert k v m)) \<Longrightarrow> x = k \<or> x \<in> set (map fst m)" for x
    using keys_tree_insert [of k v m] by auto
  with Cons show ?case
    by (cases p) fastforce
qed simp

lemma ordered_map_filter [intro]: "ordered_map m \<Longrightarrow> ordered_map (filter P m)"
  unfolding ordered_map_def by (induction m) auto

lemma ordered_map_remove [intro]: "ordered_map m \<Longrightarrow> ordered_map (tree_remove k m)"
  by (auto simp: tree_remove_def)

lemma ordered_map_Nil [simp]: "ordered_map []"
  by (simp add: ordered_map_def)

interpretation btree_map: map_contract ordered_map map_of tree_insert tree_remove
  by unfold_locales (auto simp: map_of_tree_insert map_of_tree_remove)

lemma ordered_map_of: "ordered_map m \<Longrightarrow> map_of m k = Some v \<longleftrightarrow> (k, v) \<in> set m"
  unfolding ordered_map_def
  by (intro map_of_eq_Some_iff) (simp add: strict_sorted_iff)

section \<open>Lemmas on formatting\<close>

lemma length_show_hex: "unat n < 16 ^ Suc k \<Longrightarrow> length (show_hex n) \<le> Suc k"
proof (induction k arbitrary: n)
  case 0
  then show ?case by (subst show_hex.simps) (simp add: word_less_nat_alt)
next
  case (Suc k)
  show ?case
  proof (cases "n < 16")
    case True
    then show ?thesis by (subst show_hex.simps) simp
  next
    case False
    have "unat (n div 16) < 16 ^ Suc k"
      using Suc.prems by (simp add: unat_div less_mult_imp_div_less mult.commute)
    with Suc.IH [of "n div 16"] False show ?thesis
      by (subst show_hex.simps) simp
  qed
qed

lemma length_hex_pad: "unat n < 16 ^ Suc k \<Longrightarrow> length (hex_pad (Suc k) n) = Suc k"
  using length_show_hex [of n k] by (simp add: hex_pad_def)

lemma is_ascii_alphanumeric_hex_digit: "d < 16 \<Longrightarrow> is_ascii_alphanumeric (hex_digit d)"
  by (auto simp: is_ascii_alphanumeric_def byte_of_def hex_digit_def)

lemma show_hex_alphanumeric: "list_all is_ascii_alphanumeric (show_hex n)"
proof (induction n rule: show_hex.induct)
  case (1 n)
  then show ?case
    by (subst show_hex.simps) (auto simp: is_ascii_alphanumeric_hex_digit unat_mod word_less_nat_alt)
qed

lemma hex_pad_alphanumeric: "list_all is_ascii_alphanumeric (hex_pad k n)"
proof -
  have "list_all is_ascii_alphanumeric (replicate j (CHR ''0''))" for j
    by (induction j) (auto simp: is_ascii_alphanumeric_def byte_of_def)
  then show ?thesis
    by (simp add: hex_pad_def show_hex_alphanumeric)
qed

end
