(* ===== verification/Bridge.thy ===== *)
theory Bridge
  imports Rust_Std
begin

text \<open>
  The network bridge of \<open>provium-host/src/bridge.rs\<close> and the name and plan functions of
  \<open>bridge_realize.rs\<close>. A bridge keeps the graph that tests ask for (members, partitions,
  isolation, impairments) and a record of what has been realised on the host; its
  operations change the graph and push the change to the kernel with \<open>ip\<close>, \<open>tc\<close> and
  \<open>nft\<close>. The host is a parameter: running a program on the world of type \<open>'w\<close> gives an
  exit status and two texts. An operation is a function of the bridge and the world; an
  \<open>io::Error\<close> is its text, on the left of a sum.
\<close>

unbundle bit_operations_syntax

section \<open>State\<close>

record directional_impairment =
  di_latency_ms :: u32
  di_drop_rate_pct :: u32
  di_bandwidth_bps :: u64

definition no_impairment :: directional_impairment where
  "no_impairment = \<lparr>di_latency_ms = 0, di_drop_rate_pct = 0, di_bandwidth_bps = 0\<rparr>"

record bridge =
  br_name :: string
  attached :: "string list"
  partitions :: "(string \<times> string) list"
  latency_ms :: u32
  drop_rate_pct :: u32
  bandwidth_bps :: u64
  directional :: "((string \<times> string) \<times> directional_impairment) list"
  fully_partitioned :: bool
  routed_to :: "string list"
  isolated :: "string list"
  realized :: bool
  realized_taps :: "string list"
  realized_netem :: "(u32 \<times> u32) option"
  realized_directional :: "(string \<times> u32 \<times> u32 \<times> u64) list"
  directional_partitions :: "(string \<times> string) list"
  uplink_realized :: bool
  uplink_enabled :: bool
  captures :: u64

definition bridge_new :: "string \<Rightarrow> bridge" where
  "bridge_new name =
     \<lparr>br_name = name, attached = [], partitions = [], latency_ms = 0, drop_rate_pct = 0, bandwidth_bps = 0,
      directional = [], fully_partitioned = False, routed_to = [], isolated = [], realized = False,
      realized_taps = [], realized_netem = None, realized_directional = [], directional_partitions = [],
      uplink_realized = False, uplink_enabled = False, captures = 0\<rparr>"

section \<open>Names\<close>

definition tap_char :: "char \<Rightarrow> bool" where
  "tap_char c = (is_ascii_alphanumeric c \<or> c = CHR ''_'')"

definition tap_name_for_vm :: "string \<Rightarrow> string" where
  "tap_name_for_vm vm_name = ''tap-'' @ take (min (length (filter tap_char vm_name)) 10) (filter tap_char vm_name)"

definition fnv1a_64 :: "string \<Rightarrow> string \<Rightarrow> u64" where
  "fnv1a_64 a b = foldl (\<lambda>h c. (h XOR of_nat (byte_of c)) * 0x00000100000001B3) 0xcbf29ce484222325 (a @ '':'' @ b)"

definition tap_name_for_vm_on_bridge :: "string \<Rightarrow> string \<Rightarrow> string" where
  "tap_name_for_vm_on_bridge vm_name bridge_name =
     (let cleaned = filter tap_char vm_name;
          k = min (length cleaned) 4;
          h = fnv1a_64 vm_name bridge_name;
          hash_part = hex_pad 7 (h AND 0x0FFFFFFF)
      in ''tap-'' @ take k cleaned @ hash_part)"

definition sanitize_nft_name :: "string \<Rightarrow> string" where
  "sanitize_nft_name s = map (\<lambda>c. if is_ascii_alphanumeric c then c else CHR ''_'') (filter is_char_start s)"

definition uplink_table_for :: "string \<Rightarrow> string" where
  "uplink_table_for bridge = ''provium_uplink_'' @ sanitize_nft_name bridge"

definition partition_table_for :: "string \<Rightarrow> string" where
  "partition_table_for bridge = ''provium_'' @ sanitize_nft_name bridge"

definition canonical_pair :: "string \<Rightarrow> string \<Rightarrow> string \<times> string" where
  "canonical_pair a b = (if a \<le> b then (a, b) else (b, a))"

section \<open>Commands on the host\<close>

text \<open>
  \<open>host_output caps program args\<close> spawns a program and waits for it: an error of the
  spawn, or whether it succeeded with the (lossily decoded) text of its standard output
  and standard error. \<open>caps\<close> says whether the child raises the network capabilities
  before it executes the program, as every \<open>run_cmd\<close> asks.
\<close>

record 'w net_host =
  host_output :: "bool \<Rightarrow> string \<Rightarrow> string list \<Rightarrow> 'w \<Rightarrow> (string + bool \<times> string \<times> string) \<times> 'w"
  host_getuid :: nat
  host_write :: "string \<Rightarrow> string \<Rightarrow> 'w \<Rightarrow> (string + unit) \<times> 'w"

definition and_then :: "(string + 'a) \<times> 'w \<Rightarrow> ('a \<Rightarrow> 'w \<Rightarrow> (string + 'b) \<times> 'w) \<Rightarrow> (string + 'b) \<times> 'w" where
  "and_then r k = (case fst r of Inl e \<Rightarrow> (Inl e, snd r) | Inr x \<Rightarrow> k x (snd r))"

definition run_cmd :: "'w net_host \<Rightarrow> string \<Rightarrow> string list \<Rightarrow> 'w \<Rightarrow> (string + unit) \<times> 'w" where
  "run_cmd h program args w =
     (case host_output h True program args w of
        (Inl e, w) \<Rightarrow> (Inl e, w)
      | (Inr (success, _, stderr), w) \<Rightarrow>
          if success then (Inr (), w)
          else (Inl (program @ '' '' @ join_str '' '' args @ '': '' @ trim stderr), w))"

definition run_ip :: "'w net_host \<Rightarrow> string list \<Rightarrow> 'w \<Rightarrow> (string + unit) \<times> 'w" where
  "run_ip h args = run_cmd h ''ip'' args"

definition run_tc :: "'w net_host \<Rightarrow> string list \<Rightarrow> 'w \<Rightarrow> (string + unit) \<times> 'w" where
  "run_tc h args = run_cmd h ''tc'' args"

text \<open>A sequence of commands, each followed by \<open>?\<close>: the first failure ends it.\<close>

fun run_all :: "'w net_host \<Rightarrow> (string \<times> string list) list \<Rightarrow> 'w \<Rightarrow> (string + unit) \<times> 'w" where
  "run_all h [] w = (Inr (), w)"
| "run_all h (c # cs) w = and_then (run_cmd h (fst c) (snd c) w) (\<lambda>_ w. run_all h cs w)"

fun after_dev :: "string list \<Rightarrow> string option" where
  "after_dev [] = None"
| "after_dev (t # ts) = (if t = ''dev'' then (case ts of [] \<Rightarrow> None | i # _ \<Rightarrow> Some i) else after_dev ts)"

definition default_upstream_iface :: "'w net_host \<Rightarrow> 'w \<Rightarrow> string option \<times> 'w" where
  "default_upstream_iface h w =
     (case host_output h False ''ip'' [''-4'', ''route'', ''show'', ''default''] w of
        (Inl _, w) \<Rightarrow> (None, w)
      | (Inr (success, stdout, _), w) \<Rightarrow>
          if \<not> success then (None, w) else (after_dev (split_whitespace stdout), w))"

section \<open>Traffic shaping on an interface\<close>

definition netem_clauses :: "u32 \<Rightarrow> u32 \<Rightarrow> string list" where
  "netem_clauses lat drop_pct =
     (if 0 < lat then [''delay'', show_nat (unat lat) @ ''ms''] else []) @
     (if 0 < drop_pct then [''loss'', show_nat (unat drop_pct) @ ''%''] else [])"

definition burst_of :: "u64 \<Rightarrow> u64" where
  "burst_of bps = max (bps div 800) 1500"

definition install_netem_root :: "'w net_host \<Rightarrow> string \<Rightarrow> u32 \<Rightarrow> u32 \<Rightarrow> 'w \<Rightarrow> (string + unit) \<times> 'w" where
  "install_netem_root h tap lat drop_pct =
     run_tc h ([''qdisc'', ''add'', ''dev'', tap, ''root'', ''netem''] @ netem_clauses lat drop_pct)"

definition install_htb_with_optional_netem ::
  "'w net_host \<Rightarrow> string \<Rightarrow> u32 \<Rightarrow> u32 \<Rightarrow> u64 \<Rightarrow> 'w \<Rightarrow> (string + unit) \<times> 'w" where
  "install_htb_with_optional_netem h tap lat drop_pct bps_bits w =
     and_then (run_tc h [''qdisc'', ''add'', ''dev'', tap, ''root'', ''handle'', ''1:'', ''htb'', ''default'', ''10''] w) (\<lambda>_ w.
     let rate_str = show_nat (unat bps_bits) @ ''bit'';
         burst_str = show_nat (unat (burst_of bps_bits))
     in and_then (run_tc h [''class'', ''add'', ''dev'', tap, ''parent'', ''1:'', ''classid'', ''1:10'', ''htb'',
                            ''rate'', rate_str, ''ceil'', rate_str, ''burst'', burst_str] w) (\<lambda>_ w.
        if 0 < lat \<or> 0 < drop_pct
        then run_tc h ([''qdisc'', ''add'', ''dev'', tap, ''parent'', ''1:10'', ''handle'', ''10:'', ''netem''] @ netem_clauses lat drop_pct) w
        else (Inr (), w)))"

section \<open>Realising the bridge\<close>

text \<open>The directional impairments of one source, merged: the maximum of each axis.\<close>

definition collapse_step :: "string \<Rightarrow> (u32 \<times> u32 \<times> u64) option \<Rightarrow> (string \<times> string) \<times> directional_impairment \<Rightarrow> (u32 \<times> u32 \<times> u64) option" where
  "collapse_step vm acc e =
     (if fst (fst e) \<noteq> vm then acc
      else (case (case acc of None \<Rightarrow> (0, 0, 0) | Some c \<Rightarrow> c) of
              (l, d, s) \<Rightarrow> Some (max l (di_latency_ms (snd e)), max d (di_drop_rate_pct (snd e)), max s (di_bandwidth_bps (snd e)))))"

definition collapsed_directional_for :: "bridge \<Rightarrow> string \<Rightarrow> (u32 \<times> u32 \<times> u64) option" where
  "collapsed_directional_for b vm =
     (case foldl (collapse_step vm) None (directional b) of
        None \<Rightarrow> None
      | Some (l, d, s) \<Rightarrow> if 0 < l \<or> 0 < d \<or> 0 < s then Some (l, d, s) else None)"

definition target_netem :: "bridge \<Rightarrow> (u32 \<times> u32) option" where
  "target_netem b = (if 0 < latency_ms b \<or> 0 < drop_rate_pct b then Some (latency_ms b, drop_rate_pct b) else None)"

definition realize_link :: "'w net_host \<Rightarrow> bridge \<Rightarrow> 'w \<Rightarrow> (string + unit) \<times> 'w" where
  "realize_link h b w =
     (if realized b then (Inr (), w)
      else (let r = run_ip h [''link'', ''add'', br_name b, ''type'', ''bridge''] w
            in case fst r of
                 Inl e \<Rightarrow>
                   if \<not> contains_str ''File exists'' e then (Inl e, snd r)
                   else run_ip h [''link'', ''set'', ''dev'', br_name b, ''up''] (snd r)
               | Inr _ \<Rightarrow> run_ip h [''link'', ''set'', ''dev'', br_name b, ''up''] (snd r)))"

definition realize_netem :: "'w net_host \<Rightarrow> bridge \<Rightarrow> 'w \<Rightarrow> (string + unit) \<times> 'w" where
  "realize_netem h b w =
     (if realized_netem b = target_netem b then (Inr (), w)
      else (case target_netem b of
              Some (lat, drop_pct) \<Rightarrow>
                run_tc h ([''qdisc'', (if realized_netem b \<noteq> None then ''change'' else ''add''), ''dev'', br_name b, ''root'', ''netem'']
                          @ netem_clauses lat drop_pct) w
            | None \<Rightarrow>
                if realized_netem b \<noteq> None
                then (Inr (), snd (run_tc h [''qdisc'', ''del'', ''dev'', br_name b, ''root''] w))
                else (Inr (), w)))"

definition realize_tap :: "'w net_host \<Rightarrow> bridge \<Rightarrow> string \<Rightarrow> string \<Rightarrow> 'w \<Rightarrow> (string + unit) \<times> 'w" where
  "realize_tap h b vm_name tap w =
     (if vm_name \<in> set (realized_taps b) then (Inr (), w)
      else (let r = run_ip h [''tuntap'', ''add'', ''dev'', tap, ''mode'', ''tap'', ''user'', show_nat (host_getuid h)] w;
                attach_up = (\<lambda>w. run_all h [(''ip'', [''link'', ''set'', ''dev'', tap, ''master'', br_name b]),
                                            (''ip'', [''link'', ''set'', ''dev'', tap, ''up''])] w)
            in case fst r of
                 Inl e \<Rightarrow>
                   if \<not> contains_str ''File exists'' e \<and> \<not> contains_str ''busy'' e then (Inl e, snd r)
                   else attach_up (snd r)
               | Inr _ \<Rightarrow> attach_up (snd r)))"

definition realize_directional :: "'w net_host \<Rightarrow> bridge \<Rightarrow> string \<Rightarrow> string \<Rightarrow> 'w \<Rightarrow> (string + unit) \<times> 'w" where
  "realize_directional h b vm_name tap w =
     (let tgt = collapsed_directional_for b vm_name;
          cur = map_of (realized_directional b) vm_name
      in if cur = tgt then (Inr (), w)
         else (let w = (if cur \<noteq> None then snd (run_tc h [''qdisc'', ''del'', ''dev'', tap, ''root''] w) else w)
               in case tgt of
                    None \<Rightarrow> (Inr (), w)
                  | Some (lat, drop_pct, bps) \<Rightarrow>
                      if 0 < bps then install_htb_with_optional_netem h tap lat drop_pct bps w
                      else install_netem_root h tap lat drop_pct w))"

definition record_realized :: "bridge \<Rightarrow> string \<Rightarrow> bridge" where
  "record_realized b vm_name =
     b\<lparr>realized := True, realized_netem := target_netem b, realized_taps := set_insert vm_name (realized_taps b),
       realized_directional :=
         (case collapsed_directional_for b vm_name of
            Some v \<Rightarrow> tree_insert vm_name v (realized_directional b)
          | None \<Rightarrow> tree_remove vm_name (realized_directional b))\<rparr>"

definition realize_for_vm :: "'w net_host \<Rightarrow> bridge \<Rightarrow> string \<Rightarrow> 'w \<Rightarrow> (string + string) \<times> bridge \<times> 'w" where
  "realize_for_vm h b vm_name w =
     (let tap = tap_name_for_vm_on_bridge vm_name (br_name b);
          r = and_then (realize_link h b w) (\<lambda>_ w.
              and_then (realize_netem h b w) (\<lambda>_ w.
              and_then (realize_tap h b vm_name tap w) (\<lambda>_ w.
              realize_directional h b vm_name tap w)))
      in case fst r of
           Inl e \<Rightarrow> (Inl e, b, snd r)
         | Inr _ \<Rightarrow> (Inr tap, record_realized b vm_name, snd r))"

section \<open>Pushing changes to the host\<close>

definition refresh_netem :: "'w net_host \<Rightarrow> bridge \<Rightarrow> 'w \<Rightarrow> (string + unit) \<times> bridge \<times> 'w" where
  "refresh_netem h b w =
     (if \<not> realized b then (Inr (), b, w)
      else if realized_netem b = None \<and> latency_ms b = 0 \<and> drop_rate_pct b = 0 then (Inr (), b, w)
      else (let w = snd (run_cmd h ''tc'' [''qdisc'', ''del'', ''dev'', br_name b, ''root''] w)
            in if latency_ms b = 0 \<and> drop_rate_pct b = 0 then (Inr (), b\<lparr>realized_netem := None\<rparr>, w)
               else (let r = run_cmd h ''tc'' ([''qdisc'', ''add'', ''dev'', br_name b, ''root'', ''netem'']
                                               @ netem_clauses (latency_ms b) (drop_rate_pct b)) w
                     in (fst r, b, snd r))))"

definition refresh_bandwidth :: "'w net_host \<Rightarrow> bridge \<Rightarrow> 'w \<Rightarrow> (string + unit) \<times> bridge \<times> 'w" where
  "refresh_bandwidth h b w =
     (if \<not> realized b then (Inr (), b, w)
      else if bandwidth_bps b = 0 then
        (let w = snd (run_cmd h ''tc'' [''qdisc'', ''del'', ''dev'', br_name b, ''root''] w)
         in if 0 < latency_ms b \<or> 0 < drop_rate_pct b
            then (Inr (), snd (refresh_netem h b w))
            else (Inr (), b, w))
      else if 0 < latency_ms b \<or> 0 < drop_rate_pct b then (Inr (), b, w)
      else (let r = run_cmd h ''tc'' [''qdisc'', ''replace'', ''dev'', br_name b, ''root'', ''handle'', ''1:'', ''tbf'',
                          ''rate'', show_nat (unat (bandwidth_bps b)) @ ''bit'',
                          ''burst'', show_nat (unat (burst_of (bandwidth_bps b))),
                          ''limit'', show_nat (unat (max (bandwidth_bps b div 8) 1500))] w
            in (fst r, b, snd r)))"

definition drop_rule :: "string \<Rightarrow> string \<Rightarrow> string" where
  "drop_rule i out = ''iifname \"'' @ i @ ''\" oifname \"'' @ out @ ''\" drop''"

definition rule_command :: "string \<Rightarrow> string \<times> string \<Rightarrow> string \<times> string list" where
  "rule_command table p = (''nft'', [''add'', ''rule'', ''bridge'', table, ''forward'', drop_rule (fst p) (snd p)])"

text \<open>The pairs of input and output interfaces whose traffic is dropped, in the order of the loops.\<close>

definition partition_rules :: "bridge \<Rightarrow> (string \<times> string) list" where
  "partition_rules b =
     (let tap = (\<lambda>vm. tap_name_for_vm_on_bridge vm (br_name b));
          taps = map tap (realized_taps b)
      in if fully_partitioned b then concat (map (\<lambda>x. concat (map (\<lambda>y. if x = y then [] else [(x, y)]) taps)) taps)
         else concat (map (\<lambda>(va, vb). [(tap va, tap vb), (tap vb, tap va)]) (partitions b))
            @ map (\<lambda>(f, t). (tap f, tap t)) (directional_partitions b)
            @ concat (map (\<lambda>v. concat (map (\<lambda>other. if other = tap v then [] else [(tap v, other), (other, tap v)]) taps)) (isolated b)))"

definition refresh_partitions :: "'w net_host \<Rightarrow> bridge \<Rightarrow> 'w \<Rightarrow> (string + unit) \<times> 'w" where
  "refresh_partitions h b w =
     (if \<not> realized b then (Inr (), w)
      else (let table_name = partition_table_for (br_name b);
                w = snd (run_cmd h ''nft'' [''delete'', ''table'', ''bridge'', table_name] w)
            in if \<not> fully_partitioned b \<and> partitions b = [] \<and> directional_partitions b = [] \<and> isolated b = [] then (Inr (), w)
               else run_all h
                 ([(''nft'', [''add'', ''table'', ''bridge'', table_name]),
                   (''nft'', [''add'', ''chain'', ''bridge'', table_name, ''forward'', ''{ type filter hook forward priority 0 ; }''])]
                  @ map (rule_command table_name) (partition_rules b)) w))"

fun realize_each :: "'w net_host \<Rightarrow> string list \<Rightarrow> bridge \<Rightarrow> 'w \<Rightarrow> (string + unit) \<times> bridge \<times> 'w" where
  "realize_each h [] b w = (Inr (), b, w)"
| "realize_each h (vm # vms) b w =
     (case realize_for_vm h b vm w of
        (Inl e, b, w) \<Rightarrow> (Inl e, b, w)
      | (Inr _, b, w) \<Rightarrow> realize_each h vms b w)"

definition refresh_directional :: "'w net_host \<Rightarrow> bridge \<Rightarrow> 'w \<Rightarrow> (string + unit) \<times> bridge \<times> 'w" where
  "refresh_directional h b w = (if \<not> realized b then (Inr (), b, w) else realize_each h (realized_taps b) b w)"

definition masquerade_args :: "string \<Rightarrow> string \<Rightarrow> string list" where
  "masquerade_args flag upstream = [''-t'', ''nat'', flag, ''POSTROUTING'', ''-o'', upstream, ''-j'', ''MASQUERADE'']"

definition install_uplink :: "'w net_host \<Rightarrow> string \<Rightarrow> string \<Rightarrow> 'w \<Rightarrow> (string + unit) \<times> 'w" where
  "install_uplink h bridge_name upstream w =
     (let table = uplink_table_for bridge_name;
          w = snd (host_write h ''/proc/sys/net/ipv4/ip_forward'' ''1'' w);
          r = and_then (run_cmd h ''nft'' [''add'', ''table'', ''ip'', table] w) (\<lambda>_ w.
              run_cmd h ''nft'' [''add'', ''chain'', ''ip'', table, ''postrouting'', ''{ type nat hook postrouting priority 100 ; }''] w)
      in case fst r of
           Inr _ \<Rightarrow> run_cmd h ''nft'' [''add'', ''rule'', ''ip'', table, ''postrouting'',
                        ''oifname \"'' @ upstream @ ''\" iifname \"'' @ bridge_name @ ''\" masquerade''] (snd r)
         | Inl _ \<Rightarrow> run_cmd h ''iptables'' (masquerade_args ''-A'' upstream) (snd r))"

definition refresh_uplink :: "'w net_host \<Rightarrow> bridge \<Rightarrow> 'w \<Rightarrow> (string + unit) \<times> bridge \<times> 'w" where
  "refresh_uplink h b w =
     (if uplink_enabled b = uplink_realized b then (Inr (), b, w)
      else (case default_upstream_iface h w of
              (None, w) \<Rightarrow> (Inr (), b\<lparr>uplink_realized := uplink_enabled b\<rparr>, w)
            | (Some upstream, w) \<Rightarrow>
                if uplink_enabled b then
                  (let r = install_uplink h (br_name b) upstream w
                   in case fst r of
                        Inl e \<Rightarrow> (Inl e, b, snd r)
                      | Inr _ \<Rightarrow> (Inr (), b\<lparr>uplink_realized := True\<rparr>, snd r))
                else
                  (let w = snd (run_cmd h ''iptables'' (masquerade_args ''-D'' upstream) w);
                       w = snd (run_cmd h ''nft'' [''delete'', ''table'', ''ip'', uplink_table_for (br_name b)] w)
                   in (Inr (), b\<lparr>uplink_realized := False\<rparr>, w))))"

section \<open>Membership\<close>

definition attach :: "bridge \<Rightarrow> string \<Rightarrow> bridge" where
  "attach b vm_name = b\<lparr>attached := set_insert vm_name (attached b)\<rparr>"

definition forget_vm :: "bridge \<Rightarrow> string \<Rightarrow> bridge" where
  "forget_vm b vm_name =
     b\<lparr>attached := set_remove vm_name (attached b), isolated := set_remove vm_name (isolated b),
       partitions := filter (\<lambda>(x, y). x \<noteq> vm_name \<and> y \<noteq> vm_name) (partitions b),
       directional_partitions := filter (\<lambda>(x, y). x \<noteq> vm_name \<and> y \<noteq> vm_name) (directional_partitions b),
       directional := filter (\<lambda>((x, y), _). x \<noteq> vm_name \<and> y \<noteq> vm_name) (directional b),
       realized_taps := set_remove vm_name (realized_taps b)\<rparr>"

definition detach :: "'w net_host \<Rightarrow> bridge \<Rightarrow> string \<Rightarrow> 'w \<Rightarrow> bridge \<times> 'w" where
  "detach h b vm_name w =
     (let b' = forget_vm b vm_name;
          w = (if realized b \<and> vm_name \<in> set (realized_taps b)
               then snd (run_ip h [''link'', ''del'', ''dev'', tap_name_for_vm_on_bridge vm_name (br_name b)] w) else w)
      in (b', snd (refresh_partitions h b' w)))"

definition unplug :: "'w net_host \<Rightarrow> bridge \<Rightarrow> string \<Rightarrow> 'w \<Rightarrow> (string + bool) \<times> 'w" where
  "unplug h b vm_name w =
     (if vm_name \<notin> set (realized_taps b) then (Inr False, w)
      else and_then (run_ip h [''link'', ''set'', ''dev'', tap_name_for_vm_on_bridge vm_name (br_name b), ''nomaster''] w)
             (\<lambda>_ w. (Inr True, w)))"

definition replug :: "'w net_host \<Rightarrow> bridge \<Rightarrow> string \<Rightarrow> 'w \<Rightarrow> (string + bool) \<times> 'w" where
  "replug h b vm_name w =
     (if vm_name \<notin> set (realized_taps b) then (Inr False, w)
      else (let tap = tap_name_for_vm_on_bridge vm_name (br_name b)
            in and_then (run_all h [(''ip'', [''link'', ''set'', ''dev'', tap, ''master'', br_name b]),
                                    (''ip'', [''link'', ''set'', ''dev'', tap, ''up''])] w)
                 (\<lambda>_ w. (Inr True, w))))"

definition members :: "bridge \<Rightarrow> string list" where
  "members b = attached b"

section \<open>Partitions\<close>

definition partition_pair :: "'w net_host \<Rightarrow> bridge \<Rightarrow> string \<Rightarrow> string \<Rightarrow> 'w \<Rightarrow> bridge \<times> 'w" where
  "partition_pair h b x y w =
     (let b = b\<lparr>partitions := set_insert (canonical_pair x y) (partitions b)\<rparr> in (b, snd (refresh_partitions h b w)))"

definition unpartition :: "'w net_host \<Rightarrow> bridge \<Rightarrow> string \<Rightarrow> string \<Rightarrow> 'w \<Rightarrow> bridge \<times> 'w" where
  "unpartition h b x y w =
     (let b = b\<lparr>partitions := set_remove (canonical_pair x y) (partitions b)\<rparr> in (b, snd (refresh_partitions h b w)))"

definition partition_directional :: "'w net_host \<Rightarrow> bridge \<Rightarrow> string \<Rightarrow> string \<Rightarrow> 'w \<Rightarrow> bridge \<times> 'w" where
  "partition_directional h b x y w =
     (let b = b\<lparr>directional_partitions := set_insert (x, y) (directional_partitions b)\<rparr> in (b, snd (refresh_partitions h b w)))"

definition unpartition_directional :: "'w net_host \<Rightarrow> bridge \<Rightarrow> string \<Rightarrow> string \<Rightarrow> 'w \<Rightarrow> bridge \<times> 'w" where
  "unpartition_directional h b x y w =
     (let b = b\<lparr>directional_partitions := set_remove (x, y) (directional_partitions b)\<rparr> in (b, snd (refresh_partitions h b w)))"

definition is_partitioned :: "bridge \<Rightarrow> string \<Rightarrow> string \<Rightarrow> bool" where
  "is_partitioned b x y = (fully_partitioned b \<or> canonical_pair x y \<in> set (partitions b))"

definition partition_all :: "'w net_host \<Rightarrow> bridge \<Rightarrow> 'w \<Rightarrow> bridge \<times> 'w" where
  "partition_all h b w = (let b = b\<lparr>fully_partitioned := True\<rparr> in (b, snd (refresh_partitions h b w)))"

definition restore_all :: "'w net_host \<Rightarrow> bridge \<Rightarrow> 'w \<Rightarrow> bridge \<times> 'w" where
  "restore_all h b w = (let b = b\<lparr>fully_partitioned := False\<rparr> in (b, snd (refresh_partitions h b w)))"

definition reset :: "'w net_host \<Rightarrow> bridge \<Rightarrow> 'w \<Rightarrow> bridge \<times> 'w" where
  "reset h b w =
     (let b = b\<lparr>partitions := [], directional_partitions := [], latency_ms := 0, drop_rate_pct := 0, bandwidth_bps := 0,
                directional := [], fully_partitioned := False\<rparr>;
          w = snd (refresh_partitions h b w);
          (b, w) = snd (refresh_netem h b w);
          (b, w) = snd (refresh_bandwidth h b w)
      in snd (refresh_directional h b w))"

definition route :: "bridge \<Rightarrow> string \<Rightarrow> bridge" where
  "route b other = b\<lparr>routed_to := set_insert other (routed_to b)\<rparr>"

definition isolate :: "'w net_host \<Rightarrow> bridge \<Rightarrow> string \<Rightarrow> 'w \<Rightarrow> bridge \<times> 'w" where
  "isolate h b vm w = (let b = b\<lparr>isolated := set_insert vm (isolated b)\<rparr> in (b, snd (refresh_partitions h b w)))"

definition unisolate :: "'w net_host \<Rightarrow> bridge \<Rightarrow> string \<Rightarrow> 'w \<Rightarrow> bridge \<times> 'w" where
  "unisolate h b vm w = (let b = b\<lparr>isolated := set_remove vm (isolated b)\<rparr> in (b, snd (refresh_partitions h b w)))"

definition is_isolated :: "bridge \<Rightarrow> string \<Rightarrow> bool" where
  "is_isolated b vm = (vm \<in> set (isolated b))"

section \<open>Impairments\<close>

definition add_latency :: "'w net_host \<Rightarrow> bridge \<Rightarrow> u32 \<Rightarrow> 'w \<Rightarrow> bridge \<times> 'w" where
  "add_latency h b ms w = snd (refresh_netem h (b\<lparr>latency_ms := ms\<rparr>) w)"

definition drop_rate :: "'w net_host \<Rightarrow> bridge \<Rightarrow> u32 \<Rightarrow> 'w \<Rightarrow> bridge \<times> 'w" where
  "drop_rate h b pct w = snd (refresh_netem h (b\<lparr>drop_rate_pct := min pct 100\<rparr>) w)"

definition bandwidth_limit :: "'w net_host \<Rightarrow> bridge \<Rightarrow> u64 \<Rightarrow> 'w \<Rightarrow> bridge \<times> 'w" where
  "bandwidth_limit h b bps w = snd (refresh_bandwidth h (b\<lparr>bandwidth_bps := bps\<rparr>) w)"

definition directional_of :: "bridge \<Rightarrow> string \<Rightarrow> string \<Rightarrow> directional_impairment" where
  "directional_of b f t = (case map_of (directional b) (f, t) of None \<Rightarrow> no_impairment | Some d \<Rightarrow> d)"

definition gc_directional_entry ::
  "((string \<times> string) \<times> directional_impairment) list \<Rightarrow> string \<Rightarrow> string \<Rightarrow> ((string \<times> string) \<times> directional_impairment) list" where
  "gc_directional_entry m f t =
     (case map_of m (f, t) of
        None \<Rightarrow> m
      | Some d \<Rightarrow> if di_latency_ms d = 0 \<and> di_drop_rate_pct d = 0 \<and> di_bandwidth_bps d = 0 then tree_remove (f, t) m else m)"

definition update_directional ::
  "bridge \<Rightarrow> string \<Rightarrow> string \<Rightarrow> (directional_impairment \<Rightarrow> directional_impairment) \<Rightarrow> bridge" where
  "update_directional b f t g =
     b\<lparr>directional := gc_directional_entry (tree_insert (f, t) (g (directional_of b f t)) (directional b)) f t\<rparr>"

definition add_directional_latency :: "'w net_host \<Rightarrow> bridge \<Rightarrow> string \<Rightarrow> string \<Rightarrow> u32 \<Rightarrow> 'w \<Rightarrow> bridge \<times> 'w" where
  "add_directional_latency h b f t ms w =
     snd (refresh_directional h (update_directional b f t (\<lambda>d. d\<lparr>di_latency_ms := ms\<rparr>)) w)"

definition set_directional_bandwidth :: "'w net_host \<Rightarrow> bridge \<Rightarrow> string \<Rightarrow> string \<Rightarrow> u64 \<Rightarrow> 'w \<Rightarrow> bridge \<times> 'w" where
  "set_directional_bandwidth h b f t bps w =
     snd (refresh_directional h (update_directional b f t (\<lambda>d. d\<lparr>di_bandwidth_bps := bps\<rparr>)) w)"

definition directional_drop_rate :: "'w net_host \<Rightarrow> bridge \<Rightarrow> string \<Rightarrow> string \<Rightarrow> u32 \<Rightarrow> 'w \<Rightarrow> bridge \<times> 'w" where
  "directional_drop_rate h b f t pct w =
     snd (refresh_directional h (update_directional b f t (\<lambda>d. d\<lparr>di_drop_rate_pct := min pct 100\<rparr>)) w)"

section \<open>Uplink, captures and teardown\<close>

definition enable_uplink :: "'w net_host \<Rightarrow> bridge \<Rightarrow> 'w \<Rightarrow> (string + unit) \<times> bridge \<times> 'w" where
  "enable_uplink h b w = refresh_uplink h (b\<lparr>uplink_enabled := True\<rparr>) w"

definition disable_uplink :: "'w net_host \<Rightarrow> bridge \<Rightarrow> 'w \<Rightarrow> (string + unit) \<times> bridge \<times> 'w" where
  "disable_uplink h b w = refresh_uplink h (b\<lparr>uplink_enabled := False\<rparr>) w"

definition register_capture :: "bridge \<Rightarrow> bridge" where
  "register_capture b = b\<lparr>captures := captures b + 1\<rparr>"

definition drop_capture :: "bridge \<Rightarrow> bridge" where
  "drop_capture b = b\<lparr>captures := captures b - 1\<rparr>"

text \<open>Best-effort deletion of links: every deletion runs, and the first error is kept.\<close>

fun del_links :: "'w net_host \<Rightarrow> string list \<Rightarrow> string option \<Rightarrow> 'w \<Rightarrow> string option \<times> 'w" where
  "del_links h [] first_err w = (first_err, w)"
| "del_links h (d # ds) first_err w =
     (let r = run_ip h [''link'', ''del'', ''dev'', d] w
      in del_links h ds (case (first_err, fst r) of (None, Inl e) \<Rightarrow> Some e | _ \<Rightarrow> first_err) (snd r))"

definition forget_realized :: "bridge \<Rightarrow> bridge" where
  "forget_realized b =
     b\<lparr>realized_taps := [], realized := False, uplink_realized := False, realized_netem := None, realized_directional := []\<rparr>"

definition unrealize_uplink :: "'w net_host \<Rightarrow> bridge \<Rightarrow> 'w \<Rightarrow> 'w" where
  "unrealize_uplink h b w =
     (if uplink_realized b then
        (let w = snd (run_cmd h ''nft'' [''delete'', ''table'', ''ip'', uplink_table_for (br_name b)] w)
         in case default_upstream_iface h w of
              (Some upstream, w) \<Rightarrow> snd (run_cmd h ''iptables'' (masquerade_args ''-D'' upstream) w)
            | (None, w) \<Rightarrow> w)
      else w)"

definition unrealize :: "'w net_host \<Rightarrow> bridge \<Rightarrow> 'w \<Rightarrow> (string + unit) \<times> bridge \<times> 'w" where
  "unrealize h b w =
     (let w = snd (run_cmd h ''nft'' [''delete'', ''table'', ''bridge'', partition_table_for (br_name b)] w);
          w = unrealize_uplink h b w;
          (first_err, w) = del_links h (map (\<lambda>vm. tap_name_for_vm_on_bridge vm (br_name b)) (realized_taps b)
                                        @ (if realized b then [br_name b] else [])) None w
      in ((case first_err of Some e \<Rightarrow> Inl e | None \<Rightarrow> Inr ()), forget_realized b, w))"

section \<open>Plans\<close>

record net_op =
  op_program :: string
  op_args :: "string list"

record bridge_plan =
  plan_bridge_name :: string
  plan_ops :: "net_op list"

definition ip_op :: "string list \<Rightarrow> net_op" where
  "ip_op args = \<lparr>op_program = ''ip'', op_args = args\<rparr>"

definition tc_op :: "string list \<Rightarrow> net_op" where
  "tc_op args = \<lparr>op_program = ''tc'', op_args = args\<rparr>"

definition plan_tap :: "string \<Rightarrow> string \<Rightarrow> net_op list" where
  "plan_tap bridge_name vm =
     (let tap = tap_name_for_vm_on_bridge vm bridge_name
      in [ip_op [''tuntap'', ''add'', ''dev'', tap, ''mode'', ''tap''],
          ip_op [''link'', ''set'', ''dev'', tap, ''master'', bridge_name],
          ip_op [''link'', ''set'', ''dev'', tap, ''up'']])"

definition plan_netem :: "bridge \<Rightarrow> net_op list" where
  "plan_netem b =
     (if 0 < latency_ms b \<or> 0 < drop_rate_pct b
      then [tc_op ([''qdisc'', ''add'', ''dev'', br_name b, ''root'', ''netem'']
                   @ (if 0 < latency_ms b then [''delay'', show_nat (unat (latency_ms b)) @ ''ms''] else [])
                   @ (if 0 < drop_rate_pct b then [''loss'', show_nat (unat (drop_rate_pct b)) @ ''%''] else []))]
      else [])"

definition plan_directional :: "bridge \<Rightarrow> string \<Rightarrow> net_op list" where
  "plan_directional b vm =
     (case collapsed_directional_for b vm of
        None \<Rightarrow> []
      | Some (lat, drop_pct, bps) \<Rightarrow>
          if lat = 0 \<and> drop_pct = 0 \<and> bps = 0 then []
          else (let tap = tap_name_for_vm_on_bridge vm (br_name b);
                    netem = (if 0 < lat then [''delay'', show_nat (unat lat) @ ''ms''] else [])
                            @ (if 0 < drop_pct then [''loss'', show_nat (unat drop_pct) @ ''%''] else [])
                in if 0 < bps then
                     [tc_op [''qdisc'', ''add'', ''dev'', tap, ''root'', ''handle'', ''1:'', ''htb'', ''default'', ''10''],
                      tc_op [''class'', ''add'', ''dev'', tap, ''parent'', ''1:'', ''classid'', ''1:10'', ''htb'',
                             ''rate'', show_nat (unat bps) @ ''bit'', ''ceil'', show_nat (unat bps) @ ''bit'',
                             ''burst'', show_nat (unat (max (bps div 800) 1500))]]
                     @ (if 0 < lat \<or> 0 < drop_pct
                        then [tc_op ([''qdisc'', ''add'', ''dev'', tap, ''parent'', ''1:10'', ''handle'', ''10:'', ''netem''] @ netem)]
                        else [])
                   else [tc_op ([''qdisc'', ''add'', ''dev'', tap, ''root'', ''netem''] @ netem)]))"

definition plan_for :: "bridge \<Rightarrow> bridge_plan" where
  "plan_for b =
     \<lparr>plan_bridge_name = br_name b,
      plan_ops =
        [ip_op [''link'', ''add'', br_name b, ''type'', ''bridge''],
         ip_op [''link'', ''set'', ''dev'', br_name b, ''up'']]
        @ concat (map (plan_tap (br_name b)) (members b))
        @ plan_netem b
        @ concat (map (plan_directional b) (members b))\<rparr>"

fun run_ops :: "'w net_host \<Rightarrow> net_op list \<Rightarrow> 'w \<Rightarrow> (string + unit) \<times> 'w" where
  "run_ops h [] w = (Inr (), w)"
| "run_ops h (op # ops) w =
     (case host_output h False (op_program op) (op_args op) w of
        (Inl e, w) \<Rightarrow> (Inl e, w)
      | (Inr (success, _, stderr), w) \<Rightarrow>
          if \<not> success then (Inl (op_program op @ '' '' @ join_str '' '' (op_args op) @ '': '' @ stderr), w)
          else run_ops h ops w)"

definition run_plan :: "'w net_host \<Rightarrow> bridge_plan \<Rightarrow> 'w \<Rightarrow> (string + unit) \<times> 'w" where
  "run_plan h plan w = run_ops h (plan_ops plan) w"

end
