(* ===== verification/Bridge_Invariant.thy ===== *)
theory Bridge_Invariant
  imports Bridge
begin

text \<open>
  The calls on a bridge as a step relation, and the invariant they keep: the ordered
  containers stay ordered, symmetric partitions stay canonical, percentages stay at most
  100, the impairment map holds no entry without effect, and a bridge that is not realised
  records nothing as realised.
\<close>

section \<open>The invariant\<close>

definition impairment_ok :: "directional_impairment \<Rightarrow> bool" where
  "impairment_ok d = (di_drop_rate_pct d \<le> 100 \<and> (0 < di_latency_ms d \<or> 0 < di_drop_rate_pct d \<or> 0 < di_bandwidth_bps d))"

definition bridge_ok :: "bridge \<Rightarrow> bool" where
  "bridge_ok b =
     (ordered_set (attached b) \<and> ordered_set (partitions b) \<and> ordered_set (routed_to b) \<and> ordered_set (isolated b)
      \<and> ordered_set (realized_taps b) \<and> ordered_set (directional_partitions b)
      \<and> ordered_map (directional b) \<and> ordered_map (realized_directional b)
      \<and> list_all (\<lambda>(x, y). x \<le> y) (partitions b)
      \<and> drop_rate_pct b \<le> 100
      \<and> list_all (\<lambda>(_, d). impairment_ok d) (directional b)
      \<and> (case realized_netem b of None \<Rightarrow> True | Some (l, d) \<Rightarrow> d \<le> 100 \<and> (0 < l \<or> 0 < d))
      \<and> (realized b \<or> realized_taps b = [] \<and> realized_netem b = None \<and> realized_directional b = []))"

text \<open>A host on which no command can be spawned.\<close>

definition no_tools :: "unit net_host" where
  "no_tools = \<lparr>host_output = (\<lambda>_ _ _ w. (Inl ''No such file or directory (os error 2)'', w)),
               host_getuid = 1000, host_write = (\<lambda>_ _ w. (Inl ''Read-only file system (os error 30)'', w))\<rparr>"

section \<open>Calls as steps\<close>

inductive bridge_step :: "'w net_host \<Rightarrow> bridge \<times> 'w \<Rightarrow> bridge \<times> 'w \<Rightarrow> bool" for h where
  Attach: "bridge_step h (b, w) (attach b vm, w)"
| Detach: "bridge_step h (b, w) (detach h b vm w)"
| Unplug: "bridge_step h (b, w) (b, snd (unplug h b vm w))"
| Replug: "bridge_step h (b, w) (b, snd (replug h b vm w))"
| Partition: "bridge_step h (b, w) (partition_pair h b x y w)"
| Unpartition: "bridge_step h (b, w) (unpartition h b x y w)"
| Partition_directional: "bridge_step h (b, w) (partition_directional h b x y w)"
| Unpartition_directional: "bridge_step h (b, w) (unpartition_directional h b x y w)"
| Partition_all: "bridge_step h (b, w) (partition_all h b w)"
| Restore_all: "bridge_step h (b, w) (restore_all h b w)"
| Reset: "bridge_step h (b, w) (reset h b w)"
| Route: "bridge_step h (b, w) (route b other, w)"
| Isolate: "bridge_step h (b, w) (isolate h b vm w)"
| Unisolate: "bridge_step h (b, w) (unisolate h b vm w)"
| Add_latency: "bridge_step h (b, w) (add_latency h b ms w)"
| Drop_rate: "bridge_step h (b, w) (drop_rate h b pct w)"
| Bandwidth_limit: "bridge_step h (b, w) (bandwidth_limit h b bps w)"
| Add_directional_latency: "bridge_step h (b, w) (add_directional_latency h b x y ms w)"
| Set_directional_bandwidth: "bridge_step h (b, w) (set_directional_bandwidth h b x y bps w)"
| Directional_drop_rate: "bridge_step h (b, w) (directional_drop_rate h b x y pct w)"
| Realize: "bridge_step h (b, w) (snd (realize_for_vm h b vm w))"
| Refresh_directional: "bridge_step h (b, w) (snd (refresh_directional h b w))"
| Enable_uplink: "bridge_step h (b, w) (snd (enable_uplink h b w))"
| Disable_uplink: "bridge_step h (b, w) (snd (disable_uplink h b w))"
| Register_capture: "bridge_step h (b, w) (register_capture b, w)"
| Drop_capture: "bridge_step h (b, w) (drop_capture b, w)"
| Unrealize: "bridge_step h (b, w) (snd (unrealize h b w))"

section \<open>The operations keep the invariant\<close>

lemma canonical_pair_le: "canonical_pair x y = (a, b) \<Longrightarrow> a \<le> b"
  by (auto simp: canonical_pair_def split: if_splits)

lemma list_all_set_insert: "list_all P xs \<Longrightarrow> P x \<Longrightarrow> list_all P (set_insert x xs)"
  by (simp add: list_all_iff)

lemma list_all_filter: "list_all P xs \<Longrightarrow> list_all P (filter Q xs)"
  by (simp add: list_all_iff)

lemma target_netem_ok:
  "drop_rate_pct b \<le> 100 \<Longrightarrow> target_netem b = Some (l, d) \<Longrightarrow> d \<le> 100 \<and> (0 < l \<or> 0 < d)"
  by (auto simp: target_netem_def split: if_splits)

lemma record_realized_ok: "bridge_ok b \<Longrightarrow> bridge_ok (record_realized b vm)"
  unfolding bridge_ok_def record_realized_def
  by (auto simp: ordered_set_insert ordered_map_insert ordered_map_remove dest: target_netem_ok split: option.splits)

lemma realize_for_vm_bridge: "fst (snd (realize_for_vm h b vm w)) \<in> {b, record_realized b vm}"
  by (simp add: realize_for_vm_def Let_def split: sum.splits)

lemma realize_for_vm_ok: "bridge_ok b \<Longrightarrow> bridge_ok (fst (snd (realize_for_vm h b vm w)))"
  using realize_for_vm_bridge [of h b vm w] record_realized_ok by fastforce

lemma realize_each_ok: "bridge_ok b \<Longrightarrow> bridge_ok (fst (snd (realize_each h vms b w)))"
proof (induction vms arbitrary: b w)
  case (Cons vm vms)
  from Cons.prems have "bridge_ok (fst (snd (realize_for_vm h b vm w)))"
    by (rule realize_for_vm_ok)
  then show ?case
    by (auto split: prod.splits sum.splits intro: Cons.IH)
qed simp

lemma refresh_directional_ok: "bridge_ok b \<Longrightarrow> bridge_ok (fst (snd (refresh_directional h b w)))"
  by (simp add: refresh_directional_def realize_each_ok)

lemma netem_cleared_ok: "bridge_ok b \<Longrightarrow> bridge_ok (b\<lparr>realized_netem := None\<rparr>)"
  unfolding bridge_ok_def by auto

lemma refresh_netem_bridge: "fst (snd (refresh_netem h b w)) \<in> {b, b\<lparr>realized_netem := None\<rparr>}"
  by (simp add: refresh_netem_def Let_def)

lemma refresh_netem_ok: "bridge_ok b \<Longrightarrow> bridge_ok (fst (snd (refresh_netem h b w)))"
  using refresh_netem_bridge [of h b w] netem_cleared_ok by fastforce

lemma refresh_bandwidth_ok: "bridge_ok b \<Longrightarrow> bridge_ok (fst (snd (refresh_bandwidth h b w)))"
  by (simp add: refresh_bandwidth_def Let_def refresh_netem_ok)

lemma refresh_uplink_ok: "bridge_ok b \<Longrightarrow> bridge_ok (fst (snd (refresh_uplink h b w)))"
  unfolding refresh_uplink_def Let_def bridge_ok_def by (auto split: prod.splits option.splits sum.splits)

lemma gc_entry_ok:
  assumes "ordered_map m" and "list_all (\<lambda>(_, e). impairment_ok e) m" and "di_drop_rate_pct d \<le> 100"
  shows "list_all (\<lambda>(_, e). impairment_ok e) (gc_directional_entry (tree_insert (f, t) d m) f t)"
proof -
  have look: "map_of (tree_insert (f, t) d m) (f, t) = Some d"
    using assms(1) by (simp add: btree_map.look_ins)
  have new: "k = (f, t) \<and> e = d \<or> k \<noteq> (f, t) \<and> (k, e) \<in> set m" if "(k, e) \<in> set (tree_insert (f, t) d m)" for k e
  proof -
    have "map_of (tree_insert (f, t) d m) k = Some e"
      using that assms(1) by (simp add: ordered_map_of ordered_map_insert)
    then show ?thesis
      using assms(1) by (auto simp: btree_map.look_ins ordered_map_of split: if_splits)
  qed
  show ?thesis
  proof (cases "di_latency_ms d = 0 \<and> di_drop_rate_pct d = 0 \<and> di_bandwidth_bps d = 0")
    case True
    then show ?thesis
      using assms(2) new by (fastforce simp: gc_directional_entry_def look tree_remove_def list_all_iff)
  next
    case False
    then have "impairment_ok d"
      using assms(3) by (auto simp: impairment_ok_def word_gt_0)
    then have "list_all (\<lambda>(_, e). impairment_ok e) (tree_insert (f, t) d m)"
      using assms(2) set_tree_insert [of "(f, t)" d m] by (auto simp: list_all_iff)
    moreover have "gc_directional_entry (tree_insert (f, t) d m) f t = tree_insert (f, t) d m"
      using False by (auto simp: gc_directional_entry_def look)
    ultimately show ?thesis by simp
  qed
qed

lemma gc_entry_ordered: "ordered_map m \<Longrightarrow> ordered_map (gc_directional_entry m f t)"
  by (auto simp: gc_directional_entry_def split: option.splits)

lemma directional_of_bound: "bridge_ok b \<Longrightarrow> di_drop_rate_pct (directional_of b f t) \<le> 100"
  unfolding directional_of_def
  by (auto simp: no_impairment_def bridge_ok_def list_all_iff impairment_ok_def split: option.splits dest!: map_of_SomeD)

lemma update_directional_ok:
  assumes "bridge_ok b" and "di_drop_rate_pct (g (directional_of b f t)) \<le> 100"
  shows "bridge_ok (update_directional b f t g)"
proof -
  have "ordered_map (gc_directional_entry (tree_insert (f, t) (g (directional_of b f t)) (directional b)) f t)"
    using assms(1) by (auto simp: bridge_ok_def intro: gc_entry_ordered)
  moreover have "list_all (\<lambda>(_, e). impairment_ok e)
      (gc_directional_entry (tree_insert (f, t) (g (directional_of b f t)) (directional b)) f t)"
    using assms by (intro gc_entry_ok) (auto simp: bridge_ok_def)
  ultimately show ?thesis
    using assms(1) by (simp add: bridge_ok_def update_directional_def)
qed

lemma forget_vm_ok: "bridge_ok b \<Longrightarrow> bridge_ok (forget_vm b vm)"
  unfolding bridge_ok_def forget_vm_def
  by (auto simp: list_all_filter set_remove_def)

lemmas partition_call_defs =
  partition_pair_def unpartition_def partition_directional_def unpartition_directional_def
  partition_all_def restore_all_def isolate_def unisolate_def

lemmas impairment_call_defs =
  add_latency_def drop_rate_def bandwidth_limit_def add_directional_latency_def
  set_directional_bandwidth_def directional_drop_rate_def enable_uplink_def disable_uplink_def

lemma graph_updates_ok:
  assumes "bridge_ok b"
  shows "bridge_ok (b\<lparr>attached := set_insert vm (attached b)\<rparr>)"
    "bridge_ok (b\<lparr>partitions := set_insert (canonical_pair x y) (partitions b)\<rparr>)"
    "bridge_ok (b\<lparr>partitions := set_remove p (partitions b)\<rparr>)"
    "bridge_ok (b\<lparr>directional_partitions := set_insert p (directional_partitions b)\<rparr>)"
    "bridge_ok (b\<lparr>directional_partitions := set_remove p (directional_partitions b)\<rparr>)"
    "bridge_ok (b\<lparr>fully_partitioned := c\<rparr>)"
    "bridge_ok (b\<lparr>routed_to := set_insert vm (routed_to b)\<rparr>)"
    "bridge_ok (b\<lparr>isolated := set_insert vm (isolated b)\<rparr>)"
    "bridge_ok (b\<lparr>isolated := set_remove vm (isolated b)\<rparr>)"
    "bridge_ok (b\<lparr>latency_ms := ms\<rparr>)"
    "bridge_ok (b\<lparr>drop_rate_pct := min pct 100\<rparr>)"
    "bridge_ok (b\<lparr>bandwidth_bps := bps\<rparr>)"
    "bridge_ok (b\<lparr>uplink_enabled := c\<rparr>)"
    "bridge_ok (b\<lparr>captures := n\<rparr>)"
    "bridge_ok (b\<lparr>partitions := [], directional_partitions := [], latency_ms := 0, drop_rate_pct := 0, bandwidth_bps := 0,
                directional := [], fully_partitioned := False\<rparr>)"
    "bridge_ok (forget_realized b)"
  using assms
  by (simp_all add: bridge_ok_def ordered_set_insert ordered_set_remove list_all_set_insert list_all_filter
      set_remove_def canonical_pair_le forget_realized_def case_prod_beta ordered_set_filter)

lemma reset_ok: "bridge_ok b \<Longrightarrow> bridge_ok (fst (reset h b w))"
  unfolding reset_def Let_def
  by (auto split: prod.splits intro!: refresh_directional_ok)
    (metis fst_conv graph_updates_ok(15) refresh_bandwidth_ok refresh_netem_ok snd_conv)

lemma bridge_step_ok:
  assumes "bridge_step h s t" and "bridge_ok (fst s)"
  shows "bridge_ok (fst t)"
  using assms
proof (cases rule: bridge_step.cases)
  case (Reset b w)
  then show ?thesis using assms(2) by (simp add: reset_ok)
next
  case (Directional_drop_rate b w x y pct)
  then show ?thesis
    using assms(2) by (auto simp: impairment_call_defs intro!: refresh_directional_ok update_directional_ok)
next
  case (Detach b w vm)
  then show ?thesis using assms(2) by (simp add: detach_def forget_vm_ok Let_def)
next
  case (Realize b w vm)
  then show ?thesis using assms(2) by (simp add: realize_for_vm_ok)
next
  case (Unrealize b w)
  then show ?thesis using assms(2) by (simp add: unrealize_def Let_def graph_updates_ok split: prod.splits)
qed (auto simp: partition_call_defs impairment_call_defs attach_def route_def register_capture_def drop_capture_def Let_def
    graph_updates_ok directional_of_bound
    intro!: refresh_directional_ok refresh_netem_ok refresh_bandwidth_ok refresh_uplink_ok update_directional_ok)

lemma bridge_new_ok: "bridge_ok (bridge_new name)"
  by (simp add: bridge_ok_def bridge_new_def)

interpretation bridge_calls: step_invariant "bridge_step h" "\<lambda>s. bridge_ok (fst s)" for h
  by unfold_locales (rule bridge_step_ok)

section \<open>The property\<close>

text \<open>
  C36: whatever calls are made on a new bridge, and however the host's commands end, every
  set and map it keeps stays in order without duplicates, every symmetric partition is
  stored once under its canonical pair, percentages are at most 100, the impairment map
  holds no entry without effect, and a bridge that is not realised records no tap, no
  qdisc and no shaping.
\<close>

theorem bridge_invariant:
  assumes "reaches (bridge_step h) (bridge_new name, w0) (b, w)"
  shows "bridge_ok b"
  using bridge_calls.reaches_keeps [OF assms] bridge_new_ok [of name] by simp

theorem bridge_invariant_witness:
  "reaches (bridge_step no_tools) (bridge_new ''lan'', ())
     (drop_rate no_tools (fst (partition_pair no_tools (bridge_new ''lan'') ''b'' ''a'' ())) 150 ())
   \<and> bridge_ok (fst (drop_rate no_tools (fst (partition_pair no_tools (bridge_new ''lan'') ''b'' ''a'' ())) 150 ()))
   \<and> partitions (fst (drop_rate no_tools (fst (partition_pair no_tools (bridge_new ''lan'') ''b'' ''a'' ())) 150 ())) = [(''a'', ''b'')]
   \<and> drop_rate_pct (fst (drop_rate no_tools (fst (partition_pair no_tools (bridge_new ''lan'') ''b'' ''a'' ())) 150 ())) = 100"
proof -
  let ?b1 = "fst (partition_pair no_tools (bridge_new ''lan'') ''b'' ''a'' ())"
  let ?s2 = "drop_rate no_tools ?b1 150 ()"
  have "bridge_step no_tools (bridge_new ''lan'', ()) (?b1, ())"
    using Partition [of no_tools "bridge_new ''lan''" "()" "''b''" "''a''"] by (metis prod.collapse unit_eq)
  then have "reaches (bridge_step no_tools) (bridge_new ''lan'', ()) (?b1, ())"
    by (rule reaches_step [OF reaches_refl])
  then have run: "reaches (bridge_step no_tools) (bridge_new ''lan'', ()) ?s2"
    by (rule reaches_step) (rule Drop_rate)
  then have "bridge_ok (fst ?s2)"
    using bridge_invariant [of no_tools "''lan''" "()" "fst ?s2" "snd ?s2"] by (simp only: prod.collapse)
  moreover have "partitions (fst ?s2) = [(''a'', ''b'')]" and "drop_rate_pct (fst ?s2) = 100"
    by code_simp+
  ultimately show ?thesis using run by blast
qed

end
