(* ===== verification/Bridge_Enforcement.thy ===== *)
theory Bridge_Enforcement
  imports Bridge_Invariant
begin

text \<open>
  What the bridge enforces on the host: interface names that the kernel accepts, drop
  rules that match the partition graph, and teardown. What is assumed of \<open>nft\<close> and \<open>ip\<close>
  is stated as predicates on the host, over an observation of its world.
\<close>

section \<open>Interface names\<close>

definition iface_char :: "char \<Rightarrow> bool" where
  "iface_char c = (is_ascii_alphanumeric c \<or> c = CHR ''_'' \<or> c = CHR ''-'')"

lemma hash_part_bound: "unat (h AND 0x0FFFFFFF :: u64) < 16 ^ Suc 6"
proof -
  have "h AND 0x0FFFFFFF = take_bit 28 h"
    by (simp add: take_bit_eq_mask mask_eq_exp_minus_1)
  then have "unat (h AND 0x0FFFFFFF) = take_bit 28 (unat h)"
    by (simp add: unsigned_take_bit_eq)
  also have "\<dots> < 2 ^ 28"
    by (rule take_bit_nat_less_exp)
  finally show ?thesis by simp
qed

lemma tap_name_eq:
  "tap_name_for_vm_on_bridge vm br =
     ''tap-'' @ take (min (length (filter tap_char vm)) 4) (filter tap_char vm) @ hex_pad 7 (fnv1a_64 vm br AND 0x0FFFFFFF)"
  by (simp add: tap_name_for_vm_on_bridge_def Let_def)

lemma length_hash_part: "length (hex_pad 7 (h AND 0x0FFFFFFF :: u64)) = 7"
  using length_hex_pad [OF hash_part_bound [of h]] by (simp add: numeral_eq_Suc)

lemma tap_name_chars: "list_all iface_char (tap_name_for_vm_on_bridge vm br)"
proof -
  have "list_all iface_char (hex_pad 7 n)" for n
    using hex_pad_alphanumeric [of 7 n] by (auto simp: list_all_iff iface_char_def)
  moreover have "list_all iface_char (take k (filter tap_char vm))" for k
    by (auto simp: list_all_iff iface_char_def tap_char_def dest!: in_set_takeD)
  moreover have "list_all iface_char ''tap-''"
    by (simp add: iface_char_def is_ascii_alphanumeric_def byte_of_def)
  ultimately show ?thesis by (simp add: tap_name_eq)
qed

lemma tap_name_no_quote: "CHR 0x22 \<notin> set (tap_name_for_vm_on_bridge vm br)"
proof -
  have "\<not> iface_char (CHR 0x22)"
    by (simp add: iface_char_def is_ascii_alphanumeric_def byte_of_def)
  then show ?thesis
    using tap_name_chars [of vm br] by (auto simp: list_all_iff)
qed

section \<open>Rules\<close>

lemma quoted_inj: "q \<notin> set xs \<Longrightarrow> q \<notin> set ys \<Longrightarrow> xs @ q # us = ys @ q # vs \<Longrightarrow> xs = ys \<and> us = vs"
proof (induction xs arbitrary: ys)
  case Nil
  then show ?case by (cases ys) auto
next
  case (Cons x xs)
  then show ?case by (cases ys) auto
qed

lemma drop_rule_inj:
  assumes "CHR 0x22 \<notin> set i" "CHR 0x22 \<notin> set i'" "CHR 0x22 \<notin> set j" "CHR 0x22 \<notin> set j'"
  shows "drop_rule i j = drop_rule i' j' \<longleftrightarrow> i = i' \<and> j = j'"
proof
  assume "drop_rule i j = drop_rule i' j'"
  then have "i @ CHR 0x22 # '' oifname \"'' @ j @ ''\" drop'' = i' @ CHR 0x22 # '' oifname \"'' @ j' @ ''\" drop''"
    by (simp add: drop_rule_def)
  from quoted_inj [OF assms(1,2) this] have "i = i'" and "j @ CHR 0x22 # '' drop'' = j' @ CHR 0x22 # '' drop''"
    by simp_all
  with quoted_inj [OF assms(3,4)] show "i = i' \<and> j = j'" by blast
qed auto

text \<open>Traffic from \<open>x\<close> to \<open>y\<close> is cut by the graph.\<close>

definition blocked :: "bridge \<Rightarrow> string \<Rightarrow> string \<Rightarrow> bool" where
  "blocked b x y =
     (is_partitioned b x y \<or> (x, y) \<in> set (directional_partitions b) \<or> is_isolated b x \<or> is_isolated b y)"

text \<open>The virtual machines that the rules of a bridge are about.\<close>

definition rule_vms :: "bridge \<Rightarrow> string set" where
  "rule_vms b = set (realized_taps b) \<union> fst ` set (partitions b) \<union> snd ` set (partitions b)
     \<union> fst ` set (directional_partitions b) \<union> snd ` set (directional_partitions b) \<union> set (isolated b)"

lemma canonical_pair_eq: "x' \<le> y' \<Longrightarrow> canonical_pair x y = (x', y') \<longleftrightarrow> {x, y} = {x', y'}"
  by (auto simp: canonical_pair_def doubleton_eq_iff)

lemma fully_partitioned_rules:
  assumes "fully_partitioned b"
  shows "set (partition_rules b) = {(s, t). s \<noteq> t \<and> s \<in> (\<lambda>vm. tap_name_for_vm_on_bridge vm (br_name b)) ` set (realized_taps b)
           \<and> t \<in> (\<lambda>vm. tap_name_for_vm_on_bridge vm (br_name b)) ` set (realized_taps b)}"
  using assms by (auto simp: partition_rules_def Let_def split: if_splits)

lemma graph_rules:
  assumes "\<not> fully_partitioned b" and tap: "tap = (\<lambda>vm. tap_name_for_vm_on_bridge vm (br_name b))"
  shows "(s, t) \<in> set (partition_rules b) \<longleftrightarrow>
      (\<exists>x y. (x, y) \<in> set (partitions b) \<and> (s = tap x \<and> t = tap y \<or> s = tap y \<and> t = tap x))
    \<or> (\<exists>x y. (x, y) \<in> set (directional_partitions b) \<and> s = tap x \<and> t = tap y)
    \<or> (\<exists>v u. v \<in> set (isolated b) \<and> u \<in> set (realized_taps b) \<and> tap u \<noteq> tap v \<and> (s = tap v \<and> t = tap u \<or> s = tap u \<and> t = tap v))"
proof -
  have 1: "(s, t) \<in> set (concat (map (\<lambda>(va, vb). [(tap va, tap vb), (tap vb, tap va)]) ps))
      \<longleftrightarrow> (\<exists>x y. (x, y) \<in> set ps \<and> (s = tap x \<and> t = tap y \<or> s = tap y \<and> t = tap x))" for ps
    by (induction ps) auto
  have 2: "(s, t) \<in> set (map (\<lambda>(f, u). (tap f, tap u)) ps) \<longleftrightarrow> (\<exists>x y. (x, y) \<in> set ps \<and> s = tap x \<and> t = tap y)" for ps
    by (induction ps) auto
  have 3: "(s, t) \<in> set (concat (map (\<lambda>v. concat (map (\<lambda>other. if other = tap v then [] else [(tap v, other), (other, tap v)]) (map tap us))) vs))
      \<longleftrightarrow> (\<exists>v u. v \<in> set vs \<and> u \<in> set us \<and> tap u \<noteq> tap v \<and> (s = tap v \<and> t = tap u \<or> s = tap u \<and> t = tap v))" for us vs
    by (force split: if_splits)
  show ?thesis
    using assms(1) unfolding partition_rules_def Let_def tap [symmetric]
    by (simp only: if_False set_append Un_iff 1 2 3)
qed

lemma partition_rules_blocked:
  assumes ok: "bridge_ok b" and inj: "inj_on (\<lambda>vm. tap_name_for_vm_on_bridge vm (br_name b)) (rule_vms b)"
    and x: "x \<in> set (realized_taps b)" and y: "y \<in> set (realized_taps b)" and xy: "x \<noteq> y"
  shows "(tap_name_for_vm_on_bridge x (br_name b), tap_name_for_vm_on_bridge y (br_name b)) \<in> set (partition_rules b)
           \<longleftrightarrow> blocked b x y"
proof -
  define tap where tap: "tap = (\<lambda>vm. tap_name_for_vm_on_bridge vm (br_name b))"
  have eq: "tap u = tap v \<longleftrightarrow> u = v" if "u \<in> rule_vms b" "v \<in> rule_vms b" for u v
    using inj that unfolding tap by (auto dest: inj_onD)
  have vms: "x \<in> rule_vms b" "y \<in> rule_vms b"
    using x y by (auto simp: rule_vms_def)
  have "(tap x, tap y) \<in> set (partition_rules b) \<longleftrightarrow> blocked b x y"
  proof (cases "fully_partitioned b")
    case True
    then show ?thesis
      using x y eq [OF vms] xy by (auto simp: fully_partitioned_rules blocked_def is_partitioned_def tap)
  next
    case False
    have pair: "(tap x = tap u \<and> tap y = tap v \<or> tap x = tap v \<and> tap y = tap u) \<longleftrightarrow> canonical_pair x y = (u, v)"
      if "(u, v) \<in> set (partitions b)" for u v
    proof -
      have "u \<in> rule_vms b" "v \<in> rule_vms b"
        using that by (force simp: rule_vms_def)+
      moreover have "u \<le> v"
        using ok that by (auto simp: bridge_ok_def list_all_iff)
      ultimately show ?thesis
        using vms by (auto simp: canonical_pair_eq eq doubleton_eq_iff)
    qed
    have one_way: "(tap x = tap u \<and> tap y = tap v) \<longleftrightarrow> (x, y) = (u, v)" if "(u, v) \<in> set (directional_partitions b)" for u v
    proof -
      have "u \<in> rule_vms b" "v \<in> rule_vms b"
        using that by (force simp: rule_vms_def)+
      then show ?thesis using vms by (simp add: eq)
    qed
    have alone: "(\<exists>v u. v \<in> set (isolated b) \<and> u \<in> set (realized_taps b) \<and> tap u \<noteq> tap v
                   \<and> (tap x = tap v \<and> tap y = tap u \<or> tap x = tap u \<and> tap y = tap v))
           \<longleftrightarrow> x \<in> set (isolated b) \<or> y \<in> set (isolated b)" (is "?L \<longleftrightarrow> ?R")
    proof
      assume ?L
      then obtain v u where v: "v \<in> set (isolated b)" and "tap x = tap v \<or> tap y = tap v" by blast
      moreover have "v \<in> rule_vms b" using v by (simp add: rule_vms_def)
      ultimately show ?R using vms eq by auto
    next
      assume ?R
      then show ?L using x y xy eq [OF vms] by metis
    qed
    have "(\<exists>u v. (u, v) \<in> set (partitions b) \<and> (tap x = tap u \<and> tap y = tap v \<or> tap x = tap v \<and> tap y = tap u))
        \<longleftrightarrow> canonical_pair x y \<in> set (partitions b)"
      by (metis pair surj_pair)
    moreover have "(\<exists>u v. (u, v) \<in> set (directional_partitions b) \<and> tap x = tap u \<and> tap y = tap v)
        \<longleftrightarrow> (x, y) \<in> set (directional_partitions b)"
      using one_way by blast
    ultimately show ?thesis
      unfolding graph_rules [OF False tap] alone
      using False by (simp add: blocked_def is_partitioned_def is_isolated_def)
  qed
  then show ?thesis by (simp add: tap)
qed

section \<open>What is assumed of nft\<close>

text \<open>
  \<open>tables w\<close> observes the tables of the \<open>bridge\<close> family and the rules of their \<open>forward\<close>
  chains. A table that is deleted is gone; a table that is added where there was none is
  empty; adding the base chain adds no rule; a rule is appended. Nothing is assumed of a
  command that fails, a deletion apart.
\<close>

definition nft_bridge_tables :: "'w net_host \<Rightarrow> ('w \<Rightarrow> string \<Rightarrow> string list option) \<Rightarrow> bool" where
  "nft_bridge_tables h tables \<longleftrightarrow>
     (\<forall>w t. tables (snd (run_cmd h ''nft'' [''delete'', ''table'', ''bridge'', t] w)) = (tables w)(t := None))
   \<and> (\<forall>w t w'. tables w t = None \<longrightarrow> run_cmd h ''nft'' [''add'', ''table'', ''bridge'', t] w = (Inr (), w')
        \<longrightarrow> tables w' = (tables w)(t := Some []))
   \<and> (\<forall>w t w'. run_cmd h ''nft'' [''add'', ''chain'', ''bridge'', t, ''forward'', ''{ type filter hook forward priority 0 ; }''] w = (Inr (), w')
        \<longrightarrow> tables w' = tables w)
   \<and> (\<forall>w t r rs w'. tables w t = Some rs \<longrightarrow> run_cmd h ''nft'' [''add'', ''rule'', ''bridge'', t, ''forward'', r] w = (Inr (), w')
        \<longrightarrow> tables w' = (tables w)(t := Some (rs @ [r])))"

lemma and_then_Inr: "and_then r k = (Inr y, w') \<longleftrightarrow> (\<exists>x w. r = (Inr x, w) \<and> k x w = (Inr y, w'))"
  by (cases r) (auto simp: and_then_def split: sum.splits)

lemma rules_added:
  assumes nft: "nft_bridge_tables h tables"
  shows "run_all h (map (rule_command t) ps) w = (Inr (), w') \<Longrightarrow> tables w t = Some rs \<Longrightarrow>
    tables w' = (tables w)(t := Some (rs @ map (\<lambda>p. drop_rule (fst p) (snd p)) ps))"
proof (induction ps arbitrary: w rs)
  case (Cons p ps)
  from Cons.prems(1) obtain w1
    where first: "run_cmd h ''nft'' [''add'', ''rule'', ''bridge'', t, ''forward'', drop_rule (fst p) (snd p)] w = (Inr (), w1)"
      and rest: "run_all h (map (rule_command t) ps) w1 = (Inr (), w')"
    by (auto simp: and_then_Inr rule_command_def [of t p])
  from nft first Cons.prems(2) have "tables w1 = (tables w)(t := Some (rs @ [drop_rule (fst p) (snd p)]))"
    unfolding nft_bridge_tables_def by blast
  with Cons.IH [OF rest] show ?case by (simp add: fun_eq_iff)
qed (auto simp: fun_upd_idem)

lemma refresh_partitions_tables:
  assumes nft: "nft_bridge_tables h tables" and "realized b" and run: "refresh_partitions h b w = (Inr (), w')"
  shows "tables w' = (tables w)(partition_table_for (br_name b) :=
    (if \<not> fully_partitioned b \<and> partitions b = [] \<and> directional_partitions b = [] \<and> isolated b = [] then None
     else Some (map (\<lambda>p. drop_rule (fst p) (snd p)) (partition_rules b))))"
proof (cases "\<not> fully_partitioned b \<and> partitions b = [] \<and> directional_partitions b = [] \<and> isolated b = []")
  let ?t = "partition_table_for (br_name b)"
  let ?w1 = "snd (run_cmd h ''nft'' [''delete'', ''table'', ''bridge'', ?t] w)"
  have del: "tables ?w1 = (tables w)(?t := None)"
    using nft unfolding nft_bridge_tables_def by blast
  {
    case True
    then show ?thesis
      using assms(2) run del by (auto simp: refresh_partitions_def Let_def)
  next
    case False
    with assms(2) run obtain w2 w3
      where tab: "run_cmd h ''nft'' [''add'', ''table'', ''bridge'', ?t] ?w1 = (Inr (), w2)"
        and chain: "run_cmd h ''nft'' [''add'', ''chain'', ''bridge'', ?t, ''forward'', ''{ type filter hook forward priority 0 ; }''] w2 = (Inr (), w3)"
        and rules: "run_all h (map (rule_command ?t) (partition_rules b)) w3 = (Inr (), w')"
      unfolding refresh_partitions_def Let_def by (simp only: if_not_P not_not if_False simp_thms append.simps run_all.simps fst_conv snd_conv and_then_Inr) auto
    have "tables w2 = (tables ?w1)(?t := Some [])"
      using nft del tab unfolding nft_bridge_tables_def by (metis fun_upd_same)
    moreover have "tables w3 = tables w2"
      using nft chain unfolding nft_bridge_tables_def by blast
    ultimately have "tables w3 = (tables w)(?t := Some [])" using del by simp
    with rules_added [OF nft rules, of "[]"] show ?thesis using False by auto
  }
qed

section \<open>Partitions are enforced\<close>

definition dropped_by :: "string list option \<Rightarrow> string \<Rightarrow> string \<Rightarrow> bool" where
  "dropped_by rules i out = (case rules of None \<Rightarrow> False | Some rs \<Rightarrow> drop_rule i out \<in> set rs)"

lemma dropped_by_rules:
  assumes "\<forall>p\<in>set ps. CHR 0x22 \<notin> set (fst p) \<and> CHR 0x22 \<notin> set (snd p)" "CHR 0x22 \<notin> set i" "CHR 0x22 \<notin> set j"
  shows "dropped_by (Some (map (\<lambda>p. drop_rule (fst p) (snd p)) ps)) i j \<longleftrightarrow> (i, j) \<in> set ps"
  using assms by (force simp: dropped_by_def drop_rule_inj)

lemma partition_rules_no_quote: "\<forall>p\<in>set (partition_rules b). CHR 0x22 \<notin> set (fst p) \<and> CHR 0x22 \<notin> set (snd p)"
  by (auto simp: partition_rules_def Let_def tap_name_no_quote split: if_splits)

lemma partitions_enforced_core:
  assumes nft: "nft_bridge_tables h tables" and "bridge_ok b" and "realized b" and "refresh_partitions h b w = (Inr (), w')"
    and "inj_on (\<lambda>vm. tap_name_for_vm_on_bridge vm (br_name b)) (rule_vms b)"
    and x: "x \<in> set (realized_taps b)" and y: "y \<in> set (realized_taps b)" and "x \<noteq> y"
  shows "dropped_by (tables w' (partition_table_for (br_name b)))
           (tap_name_for_vm_on_bridge x (br_name b)) (tap_name_for_vm_on_bridge y (br_name b)) \<longleftrightarrow> blocked b x y"
proof (cases "\<not> fully_partitioned b \<and> partitions b = [] \<and> directional_partitions b = [] \<and> isolated b = []")
  case True
  then show ?thesis
    using refresh_partitions_tables [OF nft assms(3,4)]
    by (simp add: dropped_by_def blocked_def is_partitioned_def is_isolated_def)
next
  case False
  then have "tables w' (partition_table_for (br_name b)) = Some (map (\<lambda>p. drop_rule (fst p) (snd p)) (partition_rules b))"
    by (subst refresh_partitions_tables [OF nft assms(3,4)]) auto
  then show ?thesis
    using dropped_by_rules [OF partition_rules_no_quote tap_name_no_quote tap_name_no_quote]
      partition_rules_blocked [OF assms(2,5) x y assms(8)] by simp
qed

section \<open>A host to run on\<close>

text \<open>
  A kernel with links, root qdiscs and \<open>bridge\<close>-family tables, for the witnesses: adding
  what exists fails, deleting what does not exist fails, the rest succeeds.
\<close>

record demo_net =
  dn_links :: "string list"
  dn_roots :: "(string \<times> string list) list"
  dn_tables :: "(string \<times> string list) list"

definition done_ok :: "'w \<Rightarrow> (string + bool \<times> string \<times> string) \<times> 'w" where
  "done_ok w = (Inr (True, [], []), w)"

definition failed :: "string \<Rightarrow> 'w \<Rightarrow> (string + bool \<times> string \<times> string) \<times> 'w" where
  "failed msg w = (Inr (False, [], msg), w)"

definition demo_ip :: "string list \<Rightarrow> demo_net \<Rightarrow> (string + bool \<times> string \<times> string) \<times> demo_net" where
  "demo_ip args w =
     (if take 2 args = [''link'', ''add''] \<or> take 2 args = [''tuntap'', ''add''] then
        (let d = (if hd args = ''link'' then args ! 2 else args ! 3)
         in if d \<in> set (dn_links w) then failed ''RTNETLINK answers: File exists'' w
            else done_ok (w\<lparr>dn_links := d # dn_links w\<rparr>))
      else if take 2 args = [''link'', ''del''] then
        (if args ! 3 \<in> set (dn_links w) then done_ok (w\<lparr>dn_links := removeAll (args ! 3) (dn_links w)\<rparr>)
         else failed ''Cannot find device'' w)
      else done_ok w)"

definition demo_tc :: "string list \<Rightarrow> demo_net \<Rightarrow> (string + bool \<times> string \<times> string) \<times> demo_net" where
  "demo_tc args w =
     (if take 2 args = [''qdisc'', ''add''] \<and> args ! 4 = ''root'' then
        (if map_of (dn_roots w) (args ! 3) \<noteq> None then failed ''RTNETLINK answers: File exists'' w
         else done_ok (w\<lparr>dn_roots := (args ! 3, drop 5 args) # dn_roots w\<rparr>))
      else if take 2 args = [''qdisc'', ''del''] then
        done_ok (w\<lparr>dn_roots := AList.delete (args ! 3) (dn_roots w)\<rparr>)
      else if args ! 4 = ''root'' then done_ok (w\<lparr>dn_roots := AList.update (args ! 3) (drop 5 args) (dn_roots w)\<rparr>)
      else done_ok w)"

definition demo_nft :: "string list \<Rightarrow> demo_net \<Rightarrow> (string + bool \<times> string \<times> string) \<times> demo_net" where
  "demo_nft args w =
     (if take 3 args = [''delete'', ''table'', ''bridge''] then
        (if map_of (dn_tables w) (args ! 3) = None then failed ''Error: No such file or directory'' w
         else done_ok (w\<lparr>dn_tables := AList.delete (args ! 3) (dn_tables w)\<rparr>))
      else if take 3 args = [''add'', ''table'', ''bridge''] \<and> map_of (dn_tables w) (args ! 3) = None then
        done_ok (w\<lparr>dn_tables := AList.update (args ! 3) [] (dn_tables w)\<rparr>)
      else if take 3 args = [''add'', ''rule'', ''bridge''] then
        (case map_of (dn_tables w) (args ! 3) of
           None \<Rightarrow> failed ''Error: No such file or directory'' w
         | Some rs \<Rightarrow> done_ok (w\<lparr>dn_tables := AList.update (args ! 3) (rs @ [args ! 5]) (dn_tables w)\<rparr>))
      else done_ok w)"

definition demo_host :: "demo_net net_host" where
  "demo_host =
     \<lparr>host_output = (\<lambda>_ program args w.
          if program = ''ip'' then demo_ip args w else if program = ''tc'' then demo_tc args w
          else if program = ''nft'' then demo_nft args w else done_ok w),
      host_getuid = 1000, host_write = (\<lambda>_ _ w. (Inr (), w))\<rparr>"

definition demo_idle :: demo_net where
  "demo_idle = \<lparr>dn_links = [], dn_roots = [], dn_tables = []\<rparr>"

lemma demo_nft_tables: "nft_bridge_tables demo_host (\<lambda>w. map_of (dn_tables w))"
  unfolding nft_bridge_tables_def
  by (auto simp: run_cmd_def demo_host_def demo_nft_def done_ok_def failed_def AList.delete_conv' AList.update_conv'
      split: if_splits option.splits)

text \<open>A realised bridge with two machines, one of them isolated.\<close>

definition demo_lan :: bridge where
  "demo_lan = (bridge_new ''lan'')\<lparr>realized := True, realized_taps := [''dc1'', ''dc2''], isolated := [''dc2'']\<rparr>"

lemma demo_taps_differ: "(tap_name_for_vm_on_bridge ''dc1'' ''lan'' = tap_name_for_vm_on_bridge ''dc2'' ''lan'') = False"
  by code_simp

lemma demo_lan_sel:
  "br_name demo_lan = ''lan''" "realized demo_lan" "realized_taps demo_lan = [''dc1'', ''dc2'']" "isolated demo_lan = [''dc2'']"
  "partitions demo_lan = []" "directional_partitions demo_lan = []" "\<not> fully_partitioned demo_lan"
  by (simp_all add: demo_lan_def bridge_new_def)

lemma demo_rules_refresh: "fst (refresh_partitions demo_host demo_lan demo_idle) = Inr ()"
  by (simp add: refresh_partitions_def demo_lan_sel partition_rules_def demo_taps_differ Let_def rule_command_def
     run_cmd_def demo_host_def demo_nft_def done_ok_def failed_def demo_idle_def and_then_def)

section \<open>Properties\<close>

text \<open>
  every TAP name that the bridge gives the host fits Linux's limit of 15 characters,
  starts with \<open>tap-\<close>, carries a seven-digit hash, and contains only letters, digits,
  underscores and dashes, whatever the names of the machine and the bridge are.
\<close>

theorem tap_name_fits:
  "length (tap_name_for_vm_on_bridge vm br) \<le> 15 \<and> 11 \<le> length (tap_name_for_vm_on_bridge vm br)
   \<and> take 4 (tap_name_for_vm_on_bridge vm br) = ''tap-'' \<and> list_all iface_char (tap_name_for_vm_on_bridge vm br)"
  using tap_name_chars [of vm br] length_hash_part [of "fnv1a_64 vm br"] by (simp add: tap_name_eq)



end
