(* ===== verification/Bridge_Lifecycle.thy ===== *)
theory Bridge_Lifecycle
  imports Bridge_Enforcement
begin

text \<open>
  Bringing a bridge up and taking it down: the plan of \<open>bridge_realize.rs\<close> against the
  commands that \<open>realize_for_vm\<close> runs, teardown under what \<open>ip\<close> promises, and what the
  whole-bridge impairment forgets.
\<close>

section \<open>Plans\<close>

definition op_command :: "net_op \<Rightarrow> string \<times> string list" where
  "op_command op = (op_program op, op_args op)"

lemma run_all_append: "run_all h (xs @ ys) = (\<lambda>w. and_then (run_all h xs w) (\<lambda>_. run_all h ys))"
proof
  show "run_all h (xs @ ys) w = and_then (run_all h xs w) (\<lambda>_. run_all h ys)" for w
    by (induction xs arbitrary: w) (auto simp: and_then_def split: sum.splits)
qed

lemma run_all_single: "run_all h [c] w = run_cmd h (fst c) (snd c) w"
  by (cases "run_cmd h (fst c) (snd c) w") (auto simp: and_then_def split: sum.splits)

lemma and_then_unit: "and_then r (\<lambda>_ w. (Inr (), w)) = (r :: (string + unit) \<times> 'w)"
  by (cases r) (auto simp: and_then_def split: sum.splits)

lemma run_all_eqs:
  "run_all h [] = (\<lambda>w. (Inr (), w))"
  "run_all h (c # cs) = (\<lambda>w. and_then (run_cmd h (fst c) (snd c) w) (\<lambda>_. run_all h cs))"
  by auto

lemma collapsed_nonzero: "collapsed_directional_for b vm = Some (l, d, s) \<Longrightarrow> \<not> (l = 0 \<and> d = 0 \<and> s = 0)"
  by (auto simp: collapsed_directional_for_def split: option.splits if_splits)

text \<open>Shaping a TAP that carries none yet runs exactly the shaping operations of the plan.\<close>

lemma realize_directional_plan:
  assumes "map_of (realized_directional b) vm = None"
  shows "realize_directional h b vm (tap_name_for_vm_on_bridge vm (br_name b)) w = run_all h (map op_command (plan_directional b vm)) w"
proof (cases "collapsed_directional_for b vm")
  case None
  then show ?thesis using assms by (simp add: realize_directional_def plan_directional_def)
next
  case (Some t)
  obtain l d s where t: "t = (l, d, s)" by (cases t)
  have nz: "(l = 0 \<and> d = 0 \<and> s = 0) = False" using collapsed_nonzero Some t by blast
  show ?thesis
    using assms
    by (simp only: realize_directional_def plan_directional_def Some t option.case prod.case Let_def nz if_False option.distinct simp_thms)
      (auto simp: install_htb_with_optional_netem_def install_netem_root_def run_tc_def op_command_def tc_op_def
        netem_clauses_def burst_of_def Let_def and_then_unit run_all_eqs)
qed

lemma realize_netem_plan:
  "realized_netem b = None \<Longrightarrow> realize_netem h b w = run_all h (map op_command (plan_netem b)) w"
  by (auto simp: realize_netem_def target_netem_def plan_netem_def run_tc_def op_command_def tc_op_def netem_clauses_def and_then_unit run_all_eqs)

text \<open>The TAP operations of the plan, with the owner that the live path passes to \<open>tuntap add\<close>.\<close>

definition with_owner :: "nat \<Rightarrow> net_op \<Rightarrow> net_op" where
  "with_owner uid op = (if take 1 (op_args op) = [''tuntap''] then op\<lparr>op_args := op_args op @ [''user'', show_nat uid]\<rparr> else op)"

definition bridge_ops :: "bridge \<Rightarrow> net_op list" where
  "bridge_ops b = [ip_op [''link'', ''add'', br_name b, ''type'', ''bridge''], ip_op [''link'', ''set'', ''dev'', br_name b, ''up'']]"

definition commands_succeed :: "'w net_host \<Rightarrow> bool" where
  "commands_succeed h \<longleftrightarrow> (\<forall>p a w. fst (run_cmd h p a w) = Inr ())"

lemma run_cmd_succeeds: "commands_succeed h \<Longrightarrow> run_cmd h p a w = (Inr (), snd (run_cmd h p a w))"
  by (simp add: commands_succeed_def prod_eq_iff)

lemma run_all_succeeds: "commands_succeed h \<Longrightarrow> fst (run_all h cs w) = Inr ()"
  by (induction cs arbitrary: w) (auto simp: and_then_def commands_succeed_def)

lemma realize_link_plan:
  "commands_succeed h \<Longrightarrow> \<not> realized b \<Longrightarrow> realize_link h b w = run_all h (map op_command (bridge_ops b)) w"
  by (simp add: realize_link_def run_ip_def bridge_ops_def op_command_def ip_op_def and_then_unit Let_def run_all_eqs)
    (simp add: and_then_def commands_succeed_def run_ip_def)

lemma realize_tap_plan:
  "commands_succeed h \<Longrightarrow> vm \<notin> set (realized_taps b) \<Longrightarrow>
    realize_tap h b vm (tap_name_for_vm_on_bridge vm (br_name b)) w
      = run_all h (map (op_command \<circ> with_owner (host_getuid h)) (plan_tap (br_name b) vm)) w"
  by (simp add: realize_tap_def run_ip_def plan_tap_def with_owner_def op_command_def ip_op_def and_then_unit Let_def run_all_eqs)
    (simp add: and_then_def commands_succeed_def)

lemma realize_fresh:
  assumes "commands_succeed h" and "\<not> realized b" and "realized_taps b = []" and "realized_netem b = None"
    and "realized_directional b = []"
  shows "realize_for_vm h b vm w =
    (Inr (tap_name_for_vm_on_bridge vm (br_name b)), record_realized b vm,
     snd (run_all h (map op_command (bridge_ops b @ plan_netem b @ map (with_owner (host_getuid h)) (plan_tap (br_name b) vm)
                                     @ plan_directional b vm)) w))"
proof -
  have "and_then (realize_link h b w) (\<lambda>_ w. and_then (realize_netem h b w) (\<lambda>_ w.
          and_then (realize_tap h b vm (tap_name_for_vm_on_bridge vm (br_name b)) w) (\<lambda>_ w.
          realize_directional h b vm (tap_name_for_vm_on_bridge vm (br_name b)) w)))
      = run_all h (map op_command (bridge_ops b @ plan_netem b @ map (with_owner (host_getuid h)) (plan_tap (br_name b) vm)
                                   @ plan_directional b vm)) w"
    using assms
    by (simp add: realize_link_plan realize_netem_plan realize_tap_plan realize_directional_plan run_all_append)
  with run_all_succeeds [OF assms(1)] show ?thesis
    by (simp add: realize_for_vm_def Let_def)
qed

section \<open>Teardown\<close>

text \<open>
  \<open>links w\<close> observes the interfaces of the host. A deletion that succeeds removes its
  interface, one that fails creates none; \<open>nft\<close>, \<open>iptables\<close> and the route query leave the
  interfaces alone.
\<close>

definition ip_links :: "'w net_host \<Rightarrow> ('w \<Rightarrow> string set) \<Rightarrow> bool" where
  "ip_links h links \<longleftrightarrow>
     (\<forall>d w w'. run_cmd h ''ip'' [''link'', ''del'', ''dev'', d] w = (Inr (), w') \<longrightarrow> links w' = links w - {d})
   \<and> (\<forall>d w. links (snd (run_cmd h ''ip'' [''link'', ''del'', ''dev'', d] w)) \<subseteq> links w)
   \<and> (\<forall>a w. links (snd (run_cmd h ''nft'' a w)) = links w)
   \<and> (\<forall>a w. links (snd (run_cmd h ''iptables'' a w)) = links w)
   \<and> (\<forall>w. links (snd (default_upstream_iface h w)) = links w)"

definition created_links :: "bridge \<Rightarrow> string list" where
  "created_links b = map (\<lambda>vm. tap_name_for_vm_on_bridge vm (br_name b)) (realized_taps b) @ (if realized b then [br_name b] else [])"

definition deletable :: "'w net_host \<Rightarrow> ('w \<Rightarrow> string set) \<Rightarrow> string \<Rightarrow> bool" where
  "deletable h links d \<longleftrightarrow> (\<forall>w. d \<in> links w \<longrightarrow> fst (run_cmd h ''ip'' [''link'', ''del'', ''dev'', d] w) = Inr ())"

lemma del_links_subset: "ip_links h links \<Longrightarrow> links (snd (del_links h ds e w)) \<subseteq> links w"
proof (induction ds arbitrary: e w)
  case (Cons d ds)
  let ?w1 = "snd (run_ip h [''link'', ''del'', ''dev'', d] w)"
  have "links ?w1 \<subseteq> links w"
    using Cons.prems by (simp add: ip_links_def run_ip_def)
  with Cons.IH [OF Cons.prems] show ?case
    by (simp add: Let_def) blast
qed simp

lemma del_links_err: "e \<noteq> None \<Longrightarrow> fst (del_links h ds e w) = e"
  by (induction ds arbitrary: w) (auto simp: Let_def split: option.splits sum.splits)

lemma link_deleted:
  assumes "ip_links h links" and "fst (run_cmd h ''ip'' [''link'', ''del'', ''dev'', d] w) = Inr ()"
  shows "d \<notin> links (snd (run_cmd h ''ip'' [''link'', ''del'', ''dev'', d] w))"
proof -
  have "run_cmd h ''ip'' [''link'', ''del'', ''dev'', d] w = (Inr (), snd (run_cmd h ''ip'' [''link'', ''del'', ''dev'', d] w))"
    using assms(2) by (simp add: prod_eq_iff)
  with assms(1) show ?thesis unfolding ip_links_def by blast
qed

lemma del_links_gone:
  assumes links: "ip_links h links" and "d \<in> set ds" and "e = None \<and> fst (del_links h ds e w) = None \<or> deletable h links d"
  shows "d \<notin> links (snd (del_links h ds e w))"
  using assms(2,3)
proof (induction ds arbitrary: e w)
  case (Cons c ds)
  let ?r = "run_cmd h ''ip'' [''link'', ''del'', ''dev'', c] w"
  let ?e = "case (e, fst ?r) of (None, Inl x) \<Rightarrow> Some x | _ \<Rightarrow> e"
  have rest: "del_links h (c # ds) e w = del_links h ds ?e (snd ?r)"
    by (simp add: run_ip_def Let_def)
  have keep: "?e = None \<and> fst (del_links h ds ?e (snd ?r)) = None \<and> fst ?r = Inr () \<or> deletable h links d"
    using Cons.prems(2) del_links_err [of ?e h ds "snd ?r"] unfolding rest by (cases "fst ?r") auto
  show ?case
  proof (cases "d = c")
    case True
    have "fst ?r = Inr () \<or> d \<notin> links w" using keep True by (auto simp: deletable_def)
    moreover have "links (snd ?r) \<subseteq> links w" using links by (simp add: ip_links_def)
    ultimately have "d \<notin> links (snd ?r)" using link_deleted [OF links] True by auto
    then show ?thesis using del_links_subset [OF links, of ds ?e "snd ?r"] rest by auto
  next
    case False
    then have "d \<in> set ds" using Cons.prems(1) by simp
    then show ?thesis using Cons.IH [of ?e "snd ?r"] keep rest by auto
  qed
qed simp

lemma unrealize_uplink_links: "ip_links h links \<Longrightarrow> links (unrealize_uplink h b w) = links w"
  by (auto simp: unrealize_uplink_def ip_links_def Let_def split: prod.splits option.splits) (metis snd_conv)+

lemma unrealize_eq:
  "unrealize h b w =
     (let r = del_links h (created_links b) None
                (unrealize_uplink h b (snd (run_cmd h ''nft'' [''delete'', ''table'', ''bridge'', partition_table_for (br_name b)] w)))
      in ((case fst r of Some e \<Rightarrow> Inl e | None \<Rightarrow> Inr ()), forget_realized b, snd r))"
  by (simp add: unrealize_def created_links_def Let_def case_prod_beta)

lemma demo_ip_links: "ip_links demo_host (\<lambda>w. set (dn_links w))"
  unfolding ip_links_def
  by (auto simp: run_cmd_def default_upstream_iface_def demo_host_def demo_ip_def demo_nft_def done_ok_def failed_def
      split: if_splits option.splits)

text \<open>A host on which every command succeeds and is logged, and a bridge with one machine.\<close>

definition log_host :: "(string \<times> string list) list net_host" where
  "log_host = \<lparr>host_output = (\<lambda>_ p a w. (Inr (True, [], []), w @ [(p, a)])), host_getuid = 1000, host_write = (\<lambda>_ _ w. (Inr (), w))\<rparr>"

definition lone_bridge :: bridge where
  "lone_bridge = (attach (bridge_new ''lan'') ''a'')\<lparr>latency_ms := 5\<rparr>"

lemma log_host_succeeds: "commands_succeed log_host"
  by (simp add: commands_succeed_def run_cmd_def log_host_def)

lemma log_host_runs: "run_all log_host cs w = (Inr (), w @ cs)"
  by (induction cs arbitrary: w) (auto simp: run_cmd_def log_host_def and_then_def)

section \<open>Properties\<close>

text \<open>
  on a bridge of which nothing is realised, and when every command succeeds,
  \<open>realize_for_vm\<close> runs for its machine the operations that \<open>plan_for\<close> lists: the bridge,
  the whole-bridge impairment, the TAP and its shaping. It differs from the plan in two
  ways only, the impairment comes before the TAP and \<open>tuntap add\<close> names the owner; it
  returns the TAP's name and records what it did.
\<close>

theorem realize_follows_plan:
  assumes "commands_succeed h" and "members b = [vm]"
    and "\<not> realized b" and "realized_taps b = []" and "realized_netem b = None" and "realized_directional b = []"
  shows "plan_ops (plan_for b) = bridge_ops b @ plan_tap (br_name b) vm @ plan_netem b @ plan_directional b vm
    \<and> realize_for_vm h b vm w =
        (Inr (tap_name_for_vm_on_bridge vm (br_name b)), record_realized b vm,
         snd (run_all h (map op_command (bridge_ops b @ plan_netem b @ map (with_owner (host_getuid h)) (plan_tap (br_name b) vm)
                                         @ plan_directional b vm)) w))"
  using realize_fresh [OF assms(1,3-6)] assms(2) by (simp add: plan_for_def bridge_ops_def)

theorem realize_follows_plan_witness:
  "realize_for_vm log_host lone_bridge ''a'' [] =
     (Inr (tap_name_for_vm_on_bridge ''a'' ''lan''), record_realized lone_bridge ''a'',
      map op_command (bridge_ops lone_bridge @ plan_netem lone_bridge @ map (with_owner 1000) (plan_tap ''lan'' ''a'')
                      @ plan_directional lone_bridge ''a''))"
  using realize_follows_plan [OF log_host_succeeds, of lone_bridge "''a''" "[]"]
  by (simp add: log_host_runs lone_bridge_def attach_def bridge_new_def members_def) (simp add: log_host_def)



text \<open>
  on a realised bridge without impairment, \<open>add_latency\<close> replaces the root qdisc by
  \<open>netem\<close> but does not record it. Clearing the latency then runs no command, so the delay
  stays in the kernel, and the next machine to boot makes the bridge add the same root
  qdisc once more instead of changing it.
\<close>

theorem added_latency_not_recorded:
  assumes "realized b" and "realized_netem b = None" and "drop_rate_pct b = 0" and "0 < ms"
    and "add_latency h b ms w = (b1, w1)"
  shows "w1 = snd (run_cmd h ''tc'' [''qdisc'', ''add'', ''dev'', br_name b, ''root'', ''netem'', ''delay'', show_nat (unat ms) @ ''ms'']
                 (snd (run_cmd h ''tc'' [''qdisc'', ''del'', ''dev'', br_name b, ''root''] w)))
    \<and> add_latency h b1 0 w1 = (b1\<lparr>latency_ms := 0\<rparr>, w1)
    \<and> realize_netem h b1 w1 = run_tc h [''qdisc'', ''add'', ''dev'', br_name b, ''root'', ''netem'', ''delay'', show_nat (unat ms) @ ''ms''] w1"
proof -
  have "ms \<noteq> 0" using assms(4) by auto
  then have b1: "b1 = b\<lparr>latency_ms := ms\<rparr>" and
    "w1 = snd (run_cmd h ''tc'' [''qdisc'', ''add'', ''dev'', br_name b, ''root'', ''netem'', ''delay'', show_nat (unat ms) @ ''ms'']
             (snd (run_cmd h ''tc'' [''qdisc'', ''del'', ''dev'', br_name b, ''root''] w)))"
    using assms by (auto simp: add_latency_def refresh_netem_def Let_def netem_clauses_def)
  then show ?thesis
    using assms by (auto simp: add_latency_def refresh_netem_def realize_netem_def target_netem_def netem_clauses_def)
qed

theorem added_latency_not_recorded_witness:
  "fst (realize_netem demo_host (fst (add_latency demo_host demo_lan 50 demo_idle)) (snd (add_latency demo_host demo_lan 50 demo_idle))) \<noteq> Inr ()
   \<and> snd (add_latency demo_host (fst (add_latency demo_host demo_lan 50 demo_idle)) 0 (snd (add_latency demo_host demo_lan 50 demo_idle)))
     = snd (add_latency demo_host demo_lan 50 demo_idle)"
proof -
  obtain b1 w1 where run: "add_latency demo_host demo_lan 50 demo_idle = (b1, w1)" by fastforce
  have "realized_netem demo_lan = None" "drop_rate_pct demo_lan = 0" "realized demo_lan"
    by (simp_all add: demo_lan_def bridge_new_def)
  note facts = added_latency_not_recorded [OF this(3,1,2) _ run]
  have "dn_roots w1 \<noteq> [] \<and> fst (hd (dn_roots w1)) = ''lan''"
    using facts by (simp add: demo_lan_sel run_cmd_def demo_host_def demo_tc_def done_ok_def failed_def demo_idle_def)
  then show ?thesis
    using facts run by (cases "dn_roots w1")
      (auto simp: demo_lan_sel run_tc_def run_cmd_def demo_host_def demo_tc_def done_ok_def failed_def)
qed

end
