(* ===== verification/Initrd_Files.thy ===== *)
theory Initrd_Files
  imports Rust_Std
begin

text \<open>
  The archive of injected files, \<open>provium-host/src/vmm/files_cpio.rs\<close>: the cpio archive in
  the \<open>newc\<close> format with every ancestor directory before the files, wrapped in a gzip
  container of stored blocks. A guest path is its UTF-8 text. The readers of the two
  formats, against which the writers are proved, follow the format definitions and are not
  part of the program.
\<close>

unbundle bit_operations_syntax

section \<open>Paths\<close>

record injected_file =
  guest_path :: string
  if_content :: bytes
  if_mode :: u32

definition DEFAULT_FILE_MODE :: u32 where "DEFAULT_FILE_MODE = 420"

definition DIR_MODE :: u32 where "DIR_MODE = 493"

definition S_IFREG :: u32 where "S_IFREG = 32768"

definition S_IFDIR :: u32 where "S_IFDIR = 16384"

text \<open>\<open>str::split('/')\<close>, which gives one piece more than there are slashes.\<close>

fun split_slash :: "string \<Rightarrow> string list" where
  "split_slash [] = [[]]"
| "split_slash (c # cs) =
     (if c = CHR ''/'' then [] # split_slash cs
      else (case split_slash cs of w # ws \<Rightarrow> (c # w) # ws | [] \<Rightarrow> [[c]]))"

text \<open>
  \<open>Path::components\<close> on Unix: empty pieces are skipped, and so are \<open>.\<close> pieces, but for one
  at the very start of a relative path.
\<close>

datatype path_component = RootDir | CurDir | ParentDir | Normal string

fun parse_component :: "string \<Rightarrow> path_component list" where
  "parse_component s = (if s = [] \<or> s = ''.'' then [] else if s = ''..'' then [ParentDir] else [Normal s])"

definition path_components :: "string \<Rightarrow> path_component list" where
  "path_components p =
     (if take 1 p = ''/'' then [RootDir] else if hd (split_slash p) = ''.'' then [CurDir] else [])
     @ concat (map parse_component (split_slash p))"

fun validate_components :: "string \<Rightarrow> path_component list \<Rightarrow> bool \<Rightarrow> string + bool" where
  "validate_components p [] seen_normal = Inr seen_normal"
| "validate_components p (c # cs) seen_normal =
     (case c of
        RootDir \<Rightarrow> validate_components p cs seen_normal
      | Normal _ \<Rightarrow> validate_components p cs True
      | _ \<Rightarrow> Inl (''boot_opts.files: path `'' @ p @ ''` may not contain `.` or `..`''))"

fun validate :: "injected_file list \<Rightarrow> string + unit" where
  "validate [] = Inr ()"
| "validate (f # fs) =
     (case validate_components (guest_path f) (path_components (guest_path f)) False of
        Inl e \<Rightarrow> Inl e
      | Inr seen_normal \<Rightarrow>
          if \<not> seen_normal then Inl (''boot_opts.files: path `'' @ guest_path f @ ''` names no file'')
          else validate fs)"

definition relative :: "string \<Rightarrow> string" where
  "relative p = dropWhile (\<lambda>c. c = CHR ''/'') p"

definition comps_of :: "string \<Rightarrow> string list" where
  "comps_of p = filter (\<lambda>c. c \<noteq> []) (split_slash (relative p))"

section \<open>The archive\<close>

definition str_bytes :: "string \<Rightarrow> bytes" where
  "str_bytes s = map (\<lambda>c. of_nat (byte_of c)) s"

definition pad4 :: "bytes \<Rightarrow> bytes" where
  "pad4 out = out @ replicate ((4 - length out mod 4) mod 4) 0"

definition cpio_field :: "u32 \<Rightarrow> bytes" where
  "cpio_field n = str_bytes (hex_pad 8 (ucast n))"

definition cpio_header :: "u32 \<Rightarrow> u32 \<Rightarrow> u32 \<Rightarrow> u32 \<Rightarrow> bytes" where
  "cpio_header ino mode filesize namesize =
     str_bytes ''070701'' @ concat (map cpio_field [ino, mode, 0, 0, 1, 0, filesize, 0, 0, 0, 0, namesize, 0])"

definition push_entry :: "bytes \<Rightarrow> u32 \<Rightarrow> u32 \<Rightarrow> string \<Rightarrow> bytes \<Rightarrow> bytes" where
  "push_entry out ino mode name data =
     (let namesize = of_nat (length name) + 1;
          filesize = of_nat (length data);
          out = out @ cpio_header ino mode filesize namesize;
          out = out @ str_bytes name @ [0];
          out = pad4 out;
          out = out @ data
      in pad4 out)"

text \<open>The ancestors of one file: every prefix of its components goes in, the file itself comes out.\<close>

fun add_prefixes :: "string list \<Rightarrow> string \<Rightarrow> string list \<Rightarrow> string list \<times> string" where
  "add_prefixes dirs acc [] = (dirs, acc)"
| "add_prefixes dirs acc (piece # comps) =
     (let acc = (if acc = [] then piece else acc @ ''/'' @ piece)
      in add_prefixes (set_insert acc dirs) acc comps)"

definition add_ancestors :: "string list \<Rightarrow> injected_file \<Rightarrow> string list" where
  "add_ancestors dirs f = (case add_prefixes dirs [] (comps_of (guest_path f)) of (dirs, acc) \<Rightarrow> set_remove acc dirs)"

definition ancestor_dirs :: "injected_file list \<Rightarrow> string list" where
  "ancestor_dirs files = foldl add_ancestors [] files"

fun push_dirs :: "bytes \<Rightarrow> u32 \<Rightarrow> string list \<Rightarrow> bytes \<times> u32" where
  "push_dirs out ino [] = (out, ino)"
| "push_dirs out ino (d # ds) = push_dirs (push_entry out ino (S_IFDIR OR DIR_MODE) d []) (ino + 1) ds"

fun push_files :: "bytes \<Rightarrow> u32 \<Rightarrow> injected_file list \<Rightarrow> bytes \<times> u32" where
  "push_files out ino [] = (out, ino)"
| "push_files out ino (f # fs) =
     push_files (push_entry out ino (S_IFREG OR (if_mode f AND 4095)) (relative (guest_path f)) (if_content f)) (ino + 1) fs"

definition build :: "injected_file list \<Rightarrow> bytes" where
  "build files =
     (let (out, ino) = push_dirs [] 1 (ancestor_dirs files);
          (out, ino) = push_files out ino files
      in push_entry out 0 0 ''TRAILER!!!'' [])"

section \<open>The gzip container\<close>

definition crc_bit :: "u32 \<Rightarrow> u32" where
  "crc_bit crc = drop_bit 1 crc XOR (0xedb88320 AND (0 - (crc AND 1)))"

definition crc_byte :: "u32 \<Rightarrow> u8 \<Rightarrow> u32" where
  "crc_byte crc b = (crc_bit ^^ 8) (crc XOR ucast b)"

definition crc32 :: "bytes \<Rightarrow> u32" where
  "crc32 data = NOT (foldl crc_byte (NOT 0) data)"

definition to_le :: "nat \<Rightarrow> 'a::len word \<Rightarrow> bytes" where
  "to_le n w = rev (to_be n w)"

function (sequential) chunks :: "nat \<Rightarrow> 'a list \<Rightarrow> 'a list list" where
  "chunks n xs = (if xs = [] \<or> n = 0 then [] else take n xs # chunks n (drop n xs))"
  by pat_completeness auto
termination
  by (relation "measure (length \<circ> snd)") auto

declare chunks.simps [simp del]

fun stored_blocks :: "bytes list \<Rightarrow> bytes" where
  "stored_blocks [] = []"
| "stored_blocks (c # cs) =
     (let len = of_nat (length c) :: u16
      in [if cs = [] then 1 else 0] @ to_le 2 len @ to_le 2 (NOT len) @ c @ stored_blocks cs)"

definition gzip_stored :: "bytes \<Rightarrow> bytes" where
  "gzip_stored data =
     (let out = [0x1f, 0x8b, 0x08, 0, 0, 0, 0, 0, 0, 0xff];
          cs = chunks 0xffff data;
          out = (if cs = [] then out @ [0x01, 0x00, 0x00, 0xff, 0xff] else out);
          out = out @ stored_blocks cs;
          out = out @ to_le 4 (crc32 data)
      in out @ to_le 4 (of_nat (length data) :: u32))"

definition build_segment :: "injected_file list \<Rightarrow> bytes" where
  "build_segment files = gzip_stored (build files)"

section \<open>Reading the formats\<close>

definition from_le :: "bytes \<Rightarrow> 'a::len word" where
  "from_le bs = from_be (rev bs)"

text \<open>The stored blocks of a deflate stream: its data and the bytes after the final block.\<close>

function (sequential) inflate_stored :: "bytes \<Rightarrow> (bytes \<times> bytes) option" where
  "inflate_stored bs =
     (if length bs < 5 then None
      else (let len = from_le (slice 1 3 bs) :: u16;
                data = slice 5 (5 + unat len) bs;
                rest = drop (5 + unat len) bs
            in if from_le (slice 3 5 bs) \<noteq> NOT len \<or> length data < unat len \<or> bs ! 0 \<notin> {0, 1} then None
               else if bs ! 0 = 1 then Some (data, rest)
               else (case inflate_stored rest of None \<Rightarrow> None | Some (d, r) \<Rightarrow> Some (data @ d, r))))"
  by pat_completeness auto
termination
  by (relation "measure length") auto

declare inflate_stored.simps [simp del]

definition gunzip :: "bytes \<Rightarrow> bytes option" where
  "gunzip bs =
     (if take 10 bs \<noteq> [0x1f, 0x8b, 0x08, 0, 0, 0, 0, 0, 0, 0xff] then None
      else (case inflate_stored (drop 10 bs) of
              None \<Rightarrow> None
            | Some (data, rest) \<Rightarrow>
                if rest = to_le 4 (crc32 data) @ to_le 4 (of_nat (length data) :: u32) then Some data else None))"

record cpio_entry =
  ce_name :: bytes
  ce_mode :: u32
  ce_data :: bytes

definition hex_value :: "u8 \<Rightarrow> nat" where
  "hex_value b = (if b < 58 then unat b - 48 else unat b - 87)"

definition read_hex :: "bytes \<Rightarrow> nat" where
  "read_hex bs = foldl (\<lambda>n b. n * 16 + hex_value b) 0 bs"

definition align4 :: "nat \<Rightarrow> nat" where
  "align4 n = n + (4 - n mod 4) mod 4"

text \<open>One entry at the start of an aligned position, and the bytes after it.\<close>

definition read_entry :: "bytes \<Rightarrow> (cpio_entry \<times> bytes) option" where
  "read_entry bs =
     (if length bs < 110 \<or> take 6 bs \<noteq> str_bytes ''070701'' then None
      else (let field = (\<lambda>i. read_hex (slice (6 + 8 * i) (14 + 8 * i) bs));
                namesize = field 11;
                filesize = field 6;
                start = align4 (110 + namesize);
                stop = start + filesize
            in if namesize = 0 \<or> length bs < align4 stop then None
               else Some (\<lparr>ce_name = slice 110 (109 + namesize) bs, ce_mode = of_nat (field 1), ce_data = slice start stop bs\<rparr>,
                          drop (align4 stop) bs)))"

function (sequential) unpack :: "bytes \<Rightarrow> cpio_entry list option" where
  "unpack bs =
     (case read_entry bs of
        None \<Rightarrow> None
      | Some (e, rest) \<Rightarrow>
          if ce_name e = str_bytes ''TRAILER!!!'' then Some []
          else if length rest < length bs then map_option (Cons e) (unpack rest) else None)"
  by pat_completeness auto
termination
  by (relation "measure length") auto

declare unpack.simps [simp del]

end
