(* ===== verification/Initrd_Roundtrip.thy ===== *)
theory Initrd_Roundtrip
  imports Initrd_Files
begin

text \<open>
  The archive of injected files read back: hexadecimal fields, padded entries, the list of
  entries, stored blocks and the container around them; then the order of directories.
\<close>

section \<open>Hexadecimal fields\<close>

lemma unat_small: "n < 2 ^ LENGTH('a) \<Longrightarrow> unat (of_nat n :: 'a::len word) = n"
  by (simp add: unsigned_of_nat take_bit_nat_eq_self)

lemma byte_of_less: "byte_of c < 256"
proof -
  have "byte_of c = byte_of c mod 256" by (simp add: byte_of_def of_char_mod_256)
  then show ?thesis by simp
qed

lemma hex_value_digit:
  assumes "d < 16"
  shows "hex_value (of_nat (byte_of (hex_digit d))) = d"
proof -
  have "byte_of (hex_digit d) = (if d < 10 then 48 + d else 87 + d)"
    using assms by (simp add: byte_of_def hex_digit_def)
  then show ?thesis
    using assms unat_small [where ?'a = 8, of "byte_of (hex_digit d)"] by (auto simp: hex_value_def word_less_nat_alt)
qed

lemma unat_ucast_u64: "unat (ucast (n :: u32) :: u64) = unat n"
proof -
  have "unat n < 2 ^ 32" using unsigned_less [of n, where ?'a = nat] by simp
  then show ?thesis by (simp add: unsigned_ucast_eq take_bit_nat_eq_self)
qed

lemma read_hex_snoc: "read_hex (bs @ [b]) = read_hex bs * 16 + hex_value b"
  by (simp add: read_hex_def)

lemma str_bytes_append [simp]: "str_bytes (s @ t) = str_bytes s @ str_bytes t"
  by (simp add: str_bytes_def)

lemma length_str_bytes [simp]: "length (str_bytes s) = length s"
  by (simp add: str_bytes_def)

lemma read_show_hex: "read_hex (str_bytes (show_hex n)) = unat n"
proof (induction n rule: show_hex.induct)
  case (1 n)
  show ?case
  proof (cases "n < 16")
    case True
    then show ?thesis
      using hex_value_digit [of "unat n"]
      by (subst show_hex.simps) (simp add: str_bytes_def read_hex_def word_less_nat_alt)
  next
    case False
    have "unat (n mod 16) < 16" by (simp add: unat_mod)
    then show ?thesis
      using 1 False hex_value_digit [of "unat (n mod 16)"]
      by (subst show_hex.simps) (simp add: read_hex_snoc str_bytes_def unat_div unat_mod)
  qed
qed

lemma read_hex_zeros: "read_hex (str_bytes (replicate k (CHR ''0'')) @ bs) = read_hex bs"
proof -
  have "hex_value (of_nat (byte_of (CHR ''0''))) = 0" by code_simp
  then show ?thesis
    by (induction k) (simp_all add: read_hex_def str_bytes_def)
qed

lemma cpio_field_value: "read_hex (cpio_field n) = unat n"
  by (simp add: cpio_field_def hex_pad_def read_hex_zeros read_show_hex unat_ucast_u64)

lemma length_cpio_field [simp]: "length (cpio_field n) = 8"
proof -
  have "unat (ucast n :: u64) < 16 ^ Suc 7"
    using unsigned_less [of n, where ?'a = nat] by (simp add: unat_ucast_u64)
  from length_hex_pad [OF this] show ?thesis
    by (simp add: cpio_field_def numeral_eq_Suc)
qed

section \<open>Entries\<close>

lemma slice_concat:
  assumes "\<forall>x\<in>set xs. length x = 8" and "i < length xs"
  shows "slice (8 * i) (8 * i + 8) (concat xs @ r) = xs ! i"
  using assms
proof (induction xs arbitrary: i)
  case (Cons x xs)
  then show ?case
  proof (cases i)
    case (Suc j)
    then have "slice (8 * i) (8 * i + 8) (concat (x # xs) @ r) = slice (8 * j) (8 * j + 8) (concat xs @ r)"
      using Cons.prems by (simp add: slice_def)
    then show ?thesis using Cons Suc by simp
  qed (simp add: slice_def)
qed simp

lemma length_cpio_header [simp]: "length (cpio_header i m f n) = 110"
  by (simp add: cpio_header_def)

lemma header_field:
  assumes "k < 13"
  shows "slice (6 + 8 * k) (14 + 8 * k) (cpio_header i m f n @ r) = cpio_field ([i, m, 0, 0, 1, 0, f, 0, 0, 0, 0, n, 0] ! k)"
proof -
  let ?xs = "[i, m, 0, 0, 1, 0, f, 0, 0, 0, 0, n, 0]"
  have "slice (6 + 8 * k) (14 + 8 * k) (cpio_header i m f n @ r) = slice (8 * k) (8 * k + 8) (concat (map cpio_field ?xs) @ r)"
    by (simp only: slice_def cpio_header_def append_assoc) (simp add: add.commute)
  also have "\<dots> = map cpio_field ?xs ! k"
    using assms by (intro slice_concat) auto
  also have "\<dots> = cpio_field (?xs ! k)"
    using assms by (intro nth_map) simp
  finally show ?thesis .
qed

lemma length_pad4 [simp]: "length (pad4 bs) = align4 (length bs)"
  by (simp add: pad4_def align4_def)

lemma align4_mod [simp]: "align4 n mod 4 = 0"
proof -
  have "align4 n mod 4 = (n mod 4 + (4 - n mod 4) mod 4) mod 4"
    by (simp add: align4_def mod_add_left_eq)
  moreover have "n mod 4 = 0 \<or> n mod 4 = 1 \<or> n mod 4 = 2 \<or> n mod 4 = 3"
    by linarith
  ultimately show ?thesis by auto
qed

lemma align4_ge: "n \<le> align4 n"
  by (simp add: align4_def)

lemma pad4_append: "length out mod 4 = 0 \<Longrightarrow> pad4 (out @ bs) = out @ pad4 bs"
  by (simp add: pad4_def mod_add_eq [symmetric, of "length out"])

definition entry_bytes :: "u32 \<Rightarrow> u32 \<Rightarrow> string \<Rightarrow> bytes \<Rightarrow> bytes" where
  "entry_bytes ino mode name data = push_entry [] ino mode name data"

lemma entry_bytes_eq:
  "entry_bytes ino mode name data =
     pad4 (pad4 (cpio_header ino mode (of_nat (length data)) (of_nat (length name) + 1) @ str_bytes name @ [0]) @ data)"
  by (simp add: entry_bytes_def push_entry_def Let_def)

lemma push_entry_append:
  "length out mod 4 = 0 \<Longrightarrow> push_entry out ino mode name data = out @ entry_bytes ino mode name data"
  by (simp add: push_entry_def entry_bytes_eq Let_def pad4_append)

lemma length_entry_bytes: "length (entry_bytes ino mode name data) mod 4 = 0"
  by (simp add: entry_bytes_eq)

lemma read_entry_bytes:
  assumes name: "length name + 1 < 2 ^ 32" and data: "length data < 2 ^ 32"
  shows "read_entry (entry_bytes ino mode name data @ rest) = Some (\<lparr>ce_name = str_bytes name, ce_mode = mode, ce_data = data\<rparr>, rest)"
proof -
  let ?h = "cpio_header ino mode (of_nat (length data)) (of_nat (length name) + 1)"
  let ?front = "pad4 (?h @ str_bytes name @ [0])"
  define bs where "bs = entry_bytes ino mode name data @ rest"
  define p1 where "p1 = replicate ((4 - (111 + length name) mod 4) mod 4) (0 :: u8)"
  define p2 where "p2 = replicate ((4 - (align4 (111 + length name) + length data) mod 4) mod 4) (0 :: u8)"
  have front: "?front = ?h @ str_bytes name @ [0] @ p1"
    by (simp add: pad4_def p1_def)
  have len_front: "length ?front = align4 (111 + length name)"
    by simp
  have bs: "bs = ?front @ data @ p2 @ rest"
    by (simp add: bs_def entry_bytes_eq pad4_def [of "?front @ data"] p2_def)
  have bs_h: "bs = ?h @ str_bytes name @ [0] @ p1 @ data @ p2 @ rest"
    by (simp only: bs front append_assoc)
  have field: "slice (6 + 8 * k) (14 + 8 * k) bs
      = cpio_field ([ino, mode, 0, 0, 1, 0, of_nat (length data), 0, 0, 0, 0, of_nat (length name) + 1, 0] ! k)" if "k < 13" for k
    unfolding bs_h using that by (rule header_field)
  have ns: "read_hex (slice (6 + 8 * 11) (14 + 8 * 11) bs) = length name + 1"
  proof -
    have "(of_nat (length name) + 1 :: u32) = of_nat (length name + 1)" by simp
    moreover have "unat (of_nat (length name + 1) :: u32) = length name + 1"
      using name by (intro unat_small) simp
    ultimately have "unat (of_nat (length name) + 1 :: u32) = length name + 1" by (simp only:)
    with field [of 11] show ?thesis by (simp add: cpio_field_value)
  qed
  have fs: "read_hex (slice (6 + 8 * 6) (14 + 8 * 6) bs) = length data"
    using field [of 6] data by (simp add: cpio_field_value unat_small)
  have md: "of_nat (read_hex (slice (6 + 8 * 1) (14 + 8 * 1) bs)) = mode"
    using field [of 1] by (simp add: cpio_field_value)
  have magic: "take 6 bs = str_bytes ''070701''"
    by (simp add: bs_h cpio_header_def)
  have nm: "slice 110 (109 + (length name + 1)) bs = str_bytes name"
    by (simp add: bs_h slice_def)
  have len2: "length (?front @ data @ p2) = align4 (align4 (110 + (length name + 1)) + length data)"
    by (simp add: p2_def align4_def [of "align4 (111 + length name) + length data"])
  have dt: "slice (align4 (110 + (length name + 1))) (align4 (110 + (length name + 1)) + length data) bs = data"
    using len_front by (simp add: bs slice_def)
  have rs: "drop (align4 (align4 (110 + (length name + 1)) + length data)) bs = rest"
    using len2 by (simp only: bs append_assoc [symmetric]) (simp add: append_eq_conv_conj)
  have long: "align4 (align4 (110 + (length name + 1)) + length data) \<le> length bs"
    using len2 by (simp only: bs append_assoc [symmetric]) simp
  have "110 \<le> length bs" by (simp add: bs_h)
  then show ?thesis
    unfolding bs_def [symmetric] read_entry_def Let_def
    using magic ns fs md nm dt rs long by simp
qed

lemma entry_bytes_nonempty: "0 < length (entry_bytes ino mode name data)"
  by (simp add: entry_bytes_eq align4_def)

lemma unpack_entry:
  assumes "length name + 1 < 2 ^ 32" and "length data < 2 ^ 32" and "str_bytes name \<noteq> str_bytes ''TRAILER!!!''"
  shows "unpack (entry_bytes ino mode name data @ rest)
    = map_option (Cons \<lparr>ce_name = str_bytes name, ce_mode = mode, ce_data = data\<rparr>) (unpack rest)"
  using assms entry_bytes_nonempty [of ino mode name data]
  by (subst unpack.simps) (simp add: read_entry_bytes)

lemma str_bytes_inj: "str_bytes s = str_bytes t \<longleftrightarrow> s = t"
proof -
  have "inj (\<lambda>c. of_nat (byte_of c) :: u8)"
  proof (rule injI)
    fix c d :: char
    assume "(of_nat (byte_of c) :: u8) = of_nat (byte_of d)"
    then have "unat (of_nat (byte_of c) :: u8) = unat (of_nat (byte_of d) :: u8)" by simp
    then show "c = d"
      using byte_of_less [of c] byte_of_less [of d] by (simp add: unat_small) (simp add: byte_of_def)
  qed
  then show ?thesis by (simp add: str_bytes_def inj_map_eq_map)
qed

section \<open>The archive\<close>

definition dir_entry :: "string \<Rightarrow> cpio_entry" where
  "dir_entry d = \<lparr>ce_name = str_bytes d, ce_mode = S_IFDIR OR DIR_MODE, ce_data = []\<rparr>"

definition file_entry :: "injected_file \<Rightarrow> cpio_entry" where
  "file_entry f = \<lparr>ce_name = str_bytes (relative (guest_path f)), ce_mode = S_IFREG OR (if_mode f AND 4095), ce_data = if_content f\<rparr>"

text \<open>Names that the format can carry: their size fits the field, and they are not the name of the trailer.\<close>

definition name_fits :: "string \<Rightarrow> bool" where
  "name_fits name = (length name + 1 < 2 ^ 32 \<and> name \<noteq> ''TRAILER!!!'')"

definition archive_fits :: "injected_file list \<Rightarrow> bool" where
  "archive_fits files =
     (list_all name_fits (ancestor_dirs files)
      \<and> list_all (\<lambda>f. name_fits (relative (guest_path f)) \<and> length (if_content f) < 2 ^ 32) files)"

lemma push_dirs_unpack:
  assumes "length out mod 4 = 0" and "list_all name_fits ds"
  shows "\<exists>bs. fst (push_dirs out ino ds) = out @ bs \<and> length bs mod 4 = 0
    \<and> (\<forall>rest. unpack (bs @ rest) = map_option ((@) (map dir_entry ds)) (unpack rest))"
  using assms
proof (induction ds arbitrary: out ino)
  case Nil
  then show ?case by (auto simp: option.map_ident_strong)
next
  case (Cons d ds)
  let ?e = "entry_bytes ino (S_IFDIR OR DIR_MODE) d []"
  have out: "length (out @ ?e) mod 4 = 0"
    using Cons.prems length_entry_bytes [of ino "S_IFDIR OR DIR_MODE" d "[]"] by (simp add: mod_add_eq [symmetric])
  have rest: "list_all name_fits ds" using Cons.prems(2) by simp
  obtain bs where bs: "fst (push_dirs (out @ ?e) (ino + 1) ds) = (out @ ?e) @ bs" "length bs mod 4 = 0"
    "\<forall>rest. unpack (bs @ rest) = map_option ((@) (map dir_entry ds)) (unpack rest)"
    using Cons.IH [OF out rest, of "ino + 1"] by - (elim exE conjE, rule that)
  have 1: "unpack ((?e @ bs) @ rest) = map_option ((@) (map dir_entry (d # ds))) (unpack rest)" for rest
    using Cons.prems bs(3) by (cases "unpack rest") (simp_all add: unpack_entry name_fits_def str_bytes_inj dir_entry_def option.map_comp comp_def)
  have 2: "fst (push_dirs out ino (d # ds)) = out @ ?e @ bs"
    using Cons.prems bs(1) by (simp add: push_entry_append)
  have 3: "length (?e @ bs) mod 4 = 0"
    using bs(2) length_entry_bytes [of ino "S_IFDIR OR DIR_MODE" d "[]"] by (simp add: mod_add_eq [symmetric])
  show ?case
    by (intro exI [of _ "?e @ bs"] conjI allI 1 2 3)
qed

lemma push_files_unpack:
  assumes "length out mod 4 = 0" and "list_all (\<lambda>f. name_fits (relative (guest_path f)) \<and> length (if_content f) < 2 ^ 32) fs"
  shows "\<exists>bs. fst (push_files out ino fs) = out @ bs \<and> length bs mod 4 = 0
    \<and> (\<forall>rest. unpack (bs @ rest) = map_option ((@) (map file_entry fs)) (unpack rest))"
  using assms
proof (induction fs arbitrary: out ino)
  case Nil
  then show ?case by (auto simp: option.map_ident_strong)
next
  case (Cons f fs)
  let ?m = "S_IFREG OR (if_mode f AND 4095)"
  let ?n = "relative (guest_path f)"
  let ?e = "entry_bytes ino ?m ?n (if_content f)"
  have out: "length (out @ ?e) mod 4 = 0"
    using Cons.prems length_entry_bytes [of ino ?m ?n "if_content f"] by (simp add: mod_add_eq [symmetric])
  have rest: "list_all (\<lambda>f. name_fits (relative (guest_path f)) \<and> length (if_content f) < 2 ^ 32) fs"
    using Cons.prems(2) by simp
  obtain bs where bs: "fst (push_files (out @ ?e) (ino + 1) fs) = (out @ ?e) @ bs" "length bs mod 4 = 0"
    "\<forall>rest. unpack (bs @ rest) = map_option ((@) (map file_entry fs)) (unpack rest)"
    using Cons.IH [OF out rest, of "ino + 1"] by - (elim exE conjE, rule that)
  have 1: "unpack ((?e @ bs) @ rest) = map_option ((@) (map file_entry (f # fs))) (unpack rest)" for rest
    using Cons.prems bs(3) by (cases "unpack rest") (simp_all add: unpack_entry name_fits_def str_bytes_inj file_entry_def option.map_comp comp_def)
  have 2: "fst (push_files out ino (f # fs)) = out @ ?e @ bs"
    using Cons.prems bs(1) by (simp add: push_entry_append)
  have 3: "length (?e @ bs) mod 4 = 0"
    using bs(2) length_entry_bytes [of ino ?m ?n "if_content f"] by (simp add: mod_add_eq [symmetric])
  show ?case
    by (intro exI [of _ "?e @ bs"] conjI allI 1 2 3)
qed

lemma unpack_trailer: "unpack (entry_bytes 0 0 ''TRAILER!!!'' []) = Some []"
  using read_entry_bytes [of "''TRAILER!!!''" "[]" 0 0 "[]"] by (subst unpack.simps) simp

lemma unpack_build:
  assumes "archive_fits files"
  shows "unpack (build files) = Some (map dir_entry (ancestor_dirs files) @ map file_entry files)"
proof -
  obtain ds where ds: "fst (push_dirs [] 1 (ancestor_dirs files)) = ds" "length ds mod 4 = 0"
    "\<forall>rest. unpack (ds @ rest) = map_option ((@) (map dir_entry (ancestor_dirs files))) (unpack rest)"
    using push_dirs_unpack [of "[]" "ancestor_dirs files" 1] assms by (auto simp: archive_fits_def)
  let ?ino = "snd (push_dirs [] 1 (ancestor_dirs files))"
  obtain fs where fs: "fst (push_files ds ?ino files) = ds @ fs" "length fs mod 4 = 0"
    "\<forall>rest. unpack (fs @ rest) = map_option ((@) (map file_entry files)) (unpack rest)"
    using push_files_unpack [OF ds(2), of files ?ino] assms by (auto simp: archive_fits_def)
  have "length (ds @ fs) mod 4 = 0"
    using ds(2) fs(2) by (simp add: mod_add_eq [symmetric])
  then have "build files = ds @ fs @ entry_bytes 0 0 ''TRAILER!!!'' []"
    using ds(1) fs(1) by (simp add: build_def Let_def case_prod_beta push_entry_append)
  then show ?thesis by (simp add: ds(3) fs(3) unpack_trailer)
qed

section \<open>The container\<close>

lemma length_to_le [simp]: "length (to_le n w) = n"
  by (simp add: to_le_def)

lemma from_to_le_u16: "from_le (to_le 2 (w :: u16)) = w"
  by (simp add: from_le_def to_le_def from_to_be)

lemma le_bytes_0: "to_le 2 (0 :: u16) = [0, 0]"
  by (simp add: to_le_def to_be_def numeral_2_eq_2)

lemma le_bytes_max: "to_le 2 (- 1 :: u16) = [255, 255]"
proof -
  have "unat (- 1 :: u16) = 65535"
    by (simp add: unsigned_minus_1_eq_mask mask_eq_exp_minus_1)
  moreover have "be_digits 2 65535 = [255, 255]"
    by (simp add: numeral_2_eq_2)
  ultimately show ?thesis by (simp add: to_le_def to_be_def)
qed

lemma concat_chunks: "0 < n \<Longrightarrow> concat (chunks n xs) = xs"
proof (induction n xs rule: chunks.induct)
  case (1 n xs)
  then show ?case by (subst chunks.simps) auto
qed

lemma chunk_length: "c \<in> set (chunks n xs) \<Longrightarrow> length c \<le> n"
proof (induction n xs rule: chunks.induct)
  case (1 n xs)
  from 1(2) show ?case
    by (subst (asm) chunks.simps) (auto split: if_splits intro: 1(1))
qed

lemma chunks_empty: "0 < n \<Longrightarrow> chunks n xs = [] \<longleftrightarrow> xs = []"
  by (subst chunks.simps) auto

lemma inflate_block:
  assumes "length c \<le> 65535"
  shows "inflate_stored ([final] @ to_le 2 (of_nat (length c) :: u16) @ to_le 2 (NOT (of_nat (length c) :: u16)) @ c @ rest)
    = (if final \<notin> {0, 1} then None else if final = 1 then Some (c, rest)
       else (case inflate_stored rest of None \<Rightarrow> None | Some (d, r) \<Rightarrow> Some (c @ d, r)))"
proof -
  let ?len = "of_nat (length c) :: u16"
  let ?bs = "[final] @ to_le 2 ?len @ to_le 2 (NOT ?len) @ c @ rest"
  have len: "unat ?len = length c" using assms by (intro unat_small) simp
  have l: "from_le (slice 1 3 ?bs) = ?len" by (simp add: slice_def from_to_le_u16)
  have n: "from_le (slice 3 5 ?bs) = NOT ?len" by (simp add: slice_def from_to_le_u16 del: unsigned_of_nat)
  have five: "drop 5 ?bs = c @ rest" by simp
  have "drop (5 + length c) ?bs = drop (length c) (drop 5 ?bs)"
    by (simp only: drop_drop add.commute)
  then have d: "slice 5 (5 + length c) ?bs = c" "drop (5 + length c) ?bs = rest"
    unfolding slice_def five by simp_all
  have b: "?bs ! 0 = final" and "\<not> length ?bs < 5" by simp_all
  then show ?thesis
    by (subst inflate_stored.simps) (simp only: Let_def l n len d b if_False simp_thms less_irrefl)
qed

lemma inflate_blocks:
  assumes "cs \<noteq> []" and "\<forall>c\<in>set cs. length c \<le> 65535"
  shows "inflate_stored (stored_blocks cs @ rest) = Some (concat cs, rest)"
  using assms
proof (induction cs)
  case (Cons c cs)
  then show ?case
    using inflate_block [of c "if cs = [] then 1 else 0" "stored_blocks cs @ rest"] by (cases "cs = []") (simp_all add: Let_def)
qed simp

lemma gunzip_gzip: "gunzip (gzip_stored data) = Some data"
proof -
  let ?tail = "to_le 4 (crc32 data) @ to_le 4 (of_nat (length data) :: u32)"
  have "inflate_stored ((if chunks 0xffff data = [] then [0x01, 0x00, 0x00, 0xff, 0xff] else []) @ stored_blocks (chunks 0xffff data) @ ?tail)
      = Some (data, ?tail)"
  proof (cases "chunks 0xffff data = []")
    case True
    then have "data = []" using chunks_empty [of "0xffff" data] by simp
    moreover have "inflate_stored ([0x01, 0x00, 0x00, 0xff, 0xff] @ ?tail) = Some ([], ?tail)"
      using inflate_block [of "[]" 1 ?tail] by (simp add: le_bytes_0 le_bytes_max)
    ultimately show ?thesis using True by simp
  next
    case False
    then show ?thesis
      using inflate_blocks [OF False] chunk_length [of _ "0xffff" data] concat_chunks [of "0xffff" data] by simp
  qed
  then show ?thesis
    by (cases "chunks 0xffff data = []") (simp_all add: gzip_stored_def gunzip_def Let_def)
qed

section \<open>Directories\<close>

definition path_at :: "string list \<Rightarrow> nat \<Rightarrow> string" where
  "path_at comps k = join_str ''/'' (take k comps)"

definition ancestors_of :: "injected_file \<Rightarrow> string set" where
  "ancestors_of f = path_at (comps_of (guest_path f)) ` {0<..<length (comps_of (guest_path f))}"

definition own_path :: "injected_file \<Rightarrow> string" where
  "own_path f = join_str ''/'' (comps_of (guest_path f))"

text \<open>No injected file is to be a directory above another one.\<close>

definition no_clash :: "injected_file list \<Rightarrow> bool" where
  "no_clash files = (\<forall>f\<in>set files. \<forall>g\<in>set files. own_path g \<notin> ancestors_of f)"

lemma join_snoc: "xs \<noteq> [] \<Longrightarrow> join_str sep (xs @ [x]) = join_str sep xs @ sep @ x"
  by (induction sep xs rule: join_str.induct) auto

lemma join_eq_Nil: "\<forall>x\<in>set xs. x \<noteq> [] \<Longrightarrow> join_str sep xs = [] \<longleftrightarrow> xs = []"
  by (cases "(sep, xs)" rule: join_str.cases) auto

lemma add_prefixes_spec:
  assumes "\<forall>x\<in>set (pre @ comps). x \<noteq> []" and "ordered_set dirs"
  shows "snd (add_prefixes dirs (join_str ''/'' pre) comps) = join_str ''/'' (pre @ comps)
    \<and> set (fst (add_prefixes dirs (join_str ''/'' pre) comps))
        = set dirs \<union> (\<lambda>k. join_str ''/'' (pre @ take k comps)) ` {0<..length comps}
    \<and> ordered_set (fst (add_prefixes dirs (join_str ''/'' pre) comps))"
  using assms
proof (induction comps arbitrary: dirs pre)
  case (Cons c comps)
  let ?acc = "if join_str ''/'' pre = [] then c else join_str ''/'' pre @ ''/'' @ c"
  have nonempty: "\<forall>x\<in>set pre. x \<noteq> []" using Cons.prems(1) by auto
  have acc: "?acc = join_str ''/'' (pre @ [c])"
    using join_eq_Nil [OF nonempty, of "''/''"] by (cases "pre = []") (auto simp: join_snoc)
  have step: "add_prefixes dirs (join_str ''/'' pre) (c # comps)
      = add_prefixes (set_insert ?acc dirs) (join_str ''/'' (pre @ [c])) comps"
    unfolding acc [symmetric] by (simp add: Let_def)
  have range: "{0<..length (c # comps)} = insert 1 (Suc ` {0<..length comps})"
  proof (rule set_eqI)
    show "k \<in> {0<..length (c # comps)} \<longleftrightarrow> k \<in> insert 1 (Suc ` {0<..length comps})" for k
      by (cases k) (auto simp: image_iff)
  qed
  have IH: "snd (add_prefixes (set_insert ?acc dirs) (join_str ''/'' (pre @ [c])) comps) = join_str ''/'' ((pre @ [c]) @ comps)
    \<and> set (fst (add_prefixes (set_insert ?acc dirs) (join_str ''/'' (pre @ [c])) comps))
        = set (set_insert ?acc dirs) \<union> (\<lambda>k. join_str ''/'' ((pre @ [c]) @ take k comps)) ` {0<..length comps}
    \<and> ordered_set (fst (add_prefixes (set_insert ?acc dirs) (join_str ''/'' (pre @ [c])) comps))"
    using Cons.prems by (intro Cons.IH) (auto intro: ordered_set_insert)
  show ?case
    unfolding step range using IH acc by (simp add: image_image)
qed simp

lemma comps_nonempty: "\<forall>x\<in>set (comps_of p). x \<noteq> []"
  by (simp add: comps_of_def)

lemma add_ancestors_spec:
  assumes "ordered_set dirs"
  shows "set (add_ancestors dirs f) = (set dirs \<union> ancestors_of f) - {own_path f} \<and> ordered_set (add_ancestors dirs f)"
proof -
  let ?c = "comps_of (guest_path f)"
  let ?r = "add_prefixes dirs [] ?c"
  have spec: "snd ?r = own_path f" "set (fst ?r) = set dirs \<union> path_at ?c ` {0<..length ?c}" "ordered_set (fst ?r)"
    using add_prefixes_spec [of "[]" ?c dirs] comps_nonempty assms by (simp_all add: own_path_def path_at_def)
  have "path_at ?c ` {0<..length ?c} \<subseteq> ancestors_of f \<union> {own_path f}"
  proof
    fix x assume "x \<in> path_at ?c ` {0<..length ?c}"
    then obtain k where "x = path_at ?c k" "0 < k" "k \<le> length ?c" by auto
    then show "x \<in> ancestors_of f \<union> {own_path f}"
      by (cases "k = length ?c") (auto simp: ancestors_of_def own_path_def path_at_def)
  qed
  moreover have "ancestors_of f \<subseteq> path_at ?c ` {0<..length ?c}"
    by (auto simp: ancestors_of_def)
  ultimately have "set (set_remove (snd ?r) (fst ?r)) = (set dirs \<union> ancestors_of f) - {own_path f}"
    using spec by auto
  then show ?thesis
    using spec(3) by (auto simp: add_ancestors_def case_prod_beta)
qed

lemma ancestor_dirs_fold:
  assumes "ordered_set dirs"
  shows "ordered_set (foldl add_ancestors dirs files)
    \<and> set (foldl add_ancestors dirs files) \<subseteq> set dirs \<union> (\<Union>f\<in>set files. ancestors_of f)
    \<and> (set dirs \<union> (\<Union>f\<in>set files. ancestors_of f)) - own_path ` set files \<subseteq> set (foldl add_ancestors dirs files)"
  using assms
proof (induction files arbitrary: dirs)
  case (Cons f files)
  have "ordered_set (add_ancestors dirs f)" and "set (add_ancestors dirs f) = (set dirs \<union> ancestors_of f) - {own_path f}"
    using add_ancestors_spec [OF Cons.prems] by simp_all
  with Cons.IH [of "add_ancestors dirs f"] show ?case by auto
qed auto

lemma ancestor_dirs_set: "no_clash files \<Longrightarrow> set (ancestor_dirs files) = (\<Union>f\<in>set files. ancestors_of f)"
proof -
  assume "no_clash files"
  then have "(\<Union>f\<in>set files. ancestors_of f) - own_path ` set files = (\<Union>f\<in>set files. ancestors_of f)"
    unfolding no_clash_def by blast
  with ancestor_dirs_fold [of "[]" files] show ?thesis
    unfolding ancestor_dirs_def by (simp add: subset_antisym)
qed

lemma ancestor_dirs_ordered: "ordered_set (ancestor_dirs files)"
  using ancestor_dirs_fold [of "[]" files] by (simp add: ancestor_dirs_def)

lemma extension_greater: "xs < xs @ y # ys" for xs :: string
  by (induction xs) simp_all

lemma path_at_extends:
  assumes "0 < j" "j < k" "k \<le> length comps"
  shows "\<exists>r. path_at comps k = path_at comps j @ CHR ''/'' # r"
  using assms(2,3)
proof (induction k)
  case (Suc k)
  have step: "path_at comps (Suc k) = path_at comps k @ CHR ''/'' # comps ! k" if "0 < k"
  proof -
    have "take k comps \<noteq> []" using that Suc.prems by auto
    then show ?thesis
      using Suc.prems by (simp add: path_at_def take_Suc_conv_app_nth join_snoc)
  qed
  show ?case
  proof (cases "j = k")
    case True
    then show ?thesis using step assms(1) by auto
  next
    case False
    then obtain r where "path_at comps k = path_at comps j @ CHR ''/'' # r"
      using Suc by auto
    then show ?thesis using step assms(1) False Suc.prems by auto
  qed
qed simp

lemma ordered_positions:
  assumes "ordered_set ds" and "x \<in> set ds" and "y \<in> set ds" and "x < y"
  shows "\<exists>i j. i < j \<and> j < length ds \<and> ds ! i = x \<and> ds ! j = y"
proof -
  obtain i j where ij: "i < length ds" "ds ! i = x" "j < length ds" "ds ! j = y"
    using assms(2,3) by (auto simp: in_set_conv_nth)
  have "i < j"
  proof (rule ccontr)
    assume "\<not> i < j"
    then have "ds ! j \<le> ds ! i"
      using assms(1) ij sorted_wrt_nth_less [of "(<)" ds j i] by (cases "i = j") (auto simp: ordered_set_def)
    then show False using ij assms(4) by simp
  qed
  then show ?thesis using ij by blast
qed

section \<open>Properties\<close>





text \<open>\<open>validate\<close> accepts a \<open>.\<close> between two names, which \<open>Path::components\<close> leaves out, and the archive then has it as a directory.\<close>

lemma dot_component_accepted:
  "validate [\<lparr>guest_path = ''/etc/./app'', if_content = [], if_mode = 420\<rparr>] = Inr ()
   \<and> ancestor_dirs [\<lparr>guest_path = ''/etc/./app'', if_content = [], if_mode = 420\<rparr>] = [''etc'', ''etc/.'']"
  by code_simp

end
