(* ===== verification/Qmp_Client.thy ===== *)
theory Qmp_Client
  imports Rust_Std
begin

text \<open>
  The client of the QEMU monitor, \<open>provium-qmp/src\<close>: JSON values, events and marks
  (\<open>event.rs\<close>), the budget and the timed line I/O of the handshake (\<open>deadline.rs\<close>), and
  the shared state of a connection with the operations that callers, the reader thread
  and a shutdown perform on it (\<open>connection.rs\<close>). Every definition that changes the state
  is one section of code under one lock, so that \<open>Qmp_Calls\<close> can interleave them. The
  JSON parser and printer belong to \<open>serde_json\<close> and are parameters.
\<close>

section \<open>Errors and JSON values\<close>

datatype qmp_error =
    QmpIo io_error
  | QmpDecode string
  | QmpCommand string string string
  | QmpClosed string
  | QmpTimeout nat
  | QmpGuestShutdownTimeout nat
  | QmpHandshake string

datatype json =
    JNull
  | JBool bool
  | JInt int
  | JFloat string
  | JString string
  | JArray "json list"
  | JObject "(string \<times> json) list"

definition json_get :: "json \<Rightarrow> string \<Rightarrow> json option" where
  "json_get v k = (case v of JObject fields \<Rightarrow> map_of fields k | _ \<Rightarrow> None)"

definition json_str :: "json \<Rightarrow> string option" where
  "json_str v = (case v of JString s \<Rightarrow> Some s | _ \<Rightarrow> None)"

definition json_bool :: "json \<Rightarrow> bool option" where
  "json_bool v = (case v of JBool b \<Rightarrow> Some b | _ \<Rightarrow> None)"

definition get_str :: "json \<Rightarrow> string \<Rightarrow> string option" where
  "get_str v k = Option.bind (json_get v k) json_str"

text \<open>\<open>unwrap_or\<close> on the text of a field.\<close>

definition get_str_or :: "json \<Rightarrow> string \<Rightarrow> string \<Rightarrow> string" where
  "get_str_or v k d = (case get_str v k of Some s \<Rightarrow> s | None \<Rightarrow> d)"

section \<open>Events\<close>

record qmp_event =
  ev_name :: string
  ev_data :: json
  ev_timestamp_ns :: int

definition clamp_i64 :: "int \<Rightarrow> int" where
  "clamp_i64 n = max (- (2 ^ 63)) (min (2 ^ 63 - 1) n)"

definition json_i64 :: "json \<Rightarrow> int option" where
  "json_i64 v = (case v of JInt n \<Rightarrow> if - (2 ^ 63) \<le> n \<and> n < 2 ^ 63 then Some n else None | _ \<Rightarrow> None)"

record wire_timestamp =
  wt_seconds :: int
  wt_microseconds :: int

definition to_ns :: "wire_timestamp \<Rightarrow> int" where
  "to_ns t = clamp_i64 (clamp_i64 (wt_seconds t * 1000000000) + clamp_i64 (wt_microseconds t * 1000))"

text \<open>The derived deserializers take a structure from an object or from an array of its fields.\<close>

definition timestamp_of :: "json option \<Rightarrow> json option \<Rightarrow> wire_timestamp option" where
  "timestamp_of s u =
     (case (Option.bind s json_i64, Option.bind u json_i64) of
        (Some a, Some b) \<Rightarrow> Some \<lparr>wt_seconds = a, wt_microseconds = b\<rparr>
      | _ \<Rightarrow> None)"

definition wire_timestamp_of :: "json \<Rightarrow> wire_timestamp option" where
  "wire_timestamp_of v =
     (case v of
        JObject _ \<Rightarrow> timestamp_of (json_get v ''seconds'') (json_get v ''microseconds'')
      | JArray [a, b] \<Rightarrow> timestamp_of (Some a) (Some b)
      | _ \<Rightarrow> None)"

definition wire_event_of :: "json \<Rightarrow> qmp_event option" where
  "wire_event_of v =
     (case (get_str v ''event'', Option.bind (json_get v ''timestamp'') wire_timestamp_of) of
        (Some name, Some t) \<Rightarrow>
          Some \<lparr>ev_name = name, ev_data = (case json_get v ''data'' of Some d \<Rightarrow> d | None \<Rightarrow> JNull), ev_timestamp_ns = to_ns t\<rparr>
      | _ \<Rightarrow> None)"

section \<open>Budget\<close>

text \<open>Times are nanoseconds; \<open>elapsed\<close> is what the clock says since the budget began.\<close>

definition budget_expired :: "nat \<Rightarrow> qmp_error" where
  "budget_expired timeout = QmpTimeout timeout"

definition budget_remaining :: "nat \<Rightarrow> nat \<Rightarrow> qmp_error + nat" where
  "budget_remaining timeout elapsed =
     (if timeout - elapsed = 0 then Inl (budget_expired timeout) else Inr (timeout - elapsed))"

definition budget_io_error :: "nat \<Rightarrow> io_error \<Rightarrow> qmp_error" where
  "budget_io_error timeout err =
     (case err of TimedOut \<Rightarrow> budget_expired timeout | WouldBlock \<Rightarrow> budget_expired timeout | _ \<Rightarrow> QmpIo err)"

section \<open>Lines in and out during the handshake\<close>

text \<open>
  The socket of the handshake: what is in the read buffer, and what the system calls will
  give. A turn carries the time that has elapsed when the budget is looked at and the
  outcome of the call that follows.
\<close>

record qmp_socket =
  qs_buffer :: bytes
  qs_reads :: "(nat \<times> (io_error + bytes)) list"
  qs_writes :: "(nat \<times> (io_error + nat)) list"
  qs_clock :: "nat list"
  qs_sent :: bytes

definition newline :: u8 where "newline = 10"

text \<open>The time at one look at the clock that no system call follows.\<close>

definition clock_now :: "qmp_socket \<Rightarrow> nat \<times> qmp_socket" where
  "clock_now s = (case qs_clock s of [] \<Rightarrow> (0, s) | t # ts \<Rightarrow> (t, s\<lparr>qs_clock := ts\<rparr>))"

definition check_budget :: "nat \<Rightarrow> qmp_socket \<Rightarrow> (qmp_error + unit) \<times> qmp_socket" where
  "check_budget timeout s =
     (let (now, s) = clock_now s
      in case budget_remaining timeout now of Inl e \<Rightarrow> (Inl e, s) | Inr _ \<Rightarrow> (Inr (), s))"

definition split_line :: "bytes \<Rightarrow> (bytes \<times> bytes) option" where
  "split_line bs = (if newline \<in> set bs
                    then Some (takeWhile (\<lambda>b. b \<noteq> newline) bs @ [newline], tl (dropWhile (\<lambda>b. b \<noteq> newline) bs)) else None)"

text \<open>
  \<open>read_line\<close>: a full buffer is used before the socket is read. \<open>None\<close> is a read that
  never comes back (the list of reads is used up).
\<close>

function read_line :: "(bytes \<Rightarrow> string option) \<Rightarrow> nat \<Rightarrow> bytes \<Rightarrow> qmp_socket \<Rightarrow> ((qmp_error + string) \<times> qmp_socket) option" where
  "read_line utf8 timeout line s =
     (if qs_buffer s \<noteq> [] then
        (case check_budget timeout s of
           (Inl e, s) \<Rightarrow> Some (Inl e, s)
         | (Inr _, s') \<Rightarrow>
             (case split_line (qs_buffer s) of
                Some (l, rest) \<Rightarrow>
                  (case check_budget timeout (s'\<lparr>qs_buffer := rest\<rparr>) of
                     (Inl e, s) \<Rightarrow> Some (Inl e, s)
                   | (Inr _, s) \<Rightarrow> Some ((case utf8 (line @ l) of Some t \<Rightarrow> Inr t | None \<Rightarrow> Inl (QmpIo InvalidData)), s))
              | None \<Rightarrow> read_line utf8 timeout (line @ qs_buffer s) (s\<lparr>qs_buffer := [], qs_clock := qs_clock s'\<rparr>)))
      else
        (case qs_reads s of
           [] \<Rightarrow> None
         | (now, r) # rs \<Rightarrow>
             (case budget_remaining timeout now of
                Inl e \<Rightarrow> Some (Inl e, s\<lparr>qs_reads := rs\<rparr>)
              | Inr _ \<Rightarrow>
                  (case r of
                     Inl Interrupted \<Rightarrow> read_line utf8 timeout line (s\<lparr>qs_reads := rs\<rparr>)
                   | Inl err \<Rightarrow> Some (Inl (budget_io_error timeout err), s\<lparr>qs_reads := rs\<rparr>)
                   | Inr [] \<Rightarrow> Some (Inl (QmpClosed ''EOF during QMP handshake''), s\<lparr>qs_reads := rs\<rparr>)
                   | Inr bs \<Rightarrow>
                       (case split_line bs of
                          Some (l, rest) \<Rightarrow>
                            (case check_budget timeout (s\<lparr>qs_reads := rs, qs_buffer := rest\<rparr>) of
                               (Inl e, s) \<Rightarrow> Some (Inl e, s)
                             | (Inr _, s) \<Rightarrow> Some ((case utf8 (line @ l) of Some t \<Rightarrow> Inr t | None \<Rightarrow> Inl (QmpIo InvalidData)), s))
                        | None \<Rightarrow> read_line utf8 timeout (line @ bs) (s\<lparr>qs_reads := rs\<rparr>))))))"
  by pat_completeness auto
termination
  by (relation "measure (\<lambda>(_, _, _, s). length (qs_reads s) + (if qs_buffer s = [] then 0 else 1))") auto

declare read_line.simps [simp del]

text \<open>\<open>deadline::send\<close>: the bytes of one request with a newline, until all are written.\<close>

fun write_all_timed :: "nat \<Rightarrow> (nat \<times> (io_error + nat)) list \<Rightarrow> bytes \<Rightarrow> bytes \<Rightarrow> ((qmp_error + unit) \<times> bytes \<times> (nat \<times> (io_error + nat)) list) option" where
  "write_all_timed timeout ws sent [] = Some (Inr (), sent, ws)"
| "write_all_timed timeout [] sent (b # bs) = None"
| "write_all_timed timeout ((now, r) # ws) sent (b # bs) =
     (case budget_remaining timeout now of
        Inl e \<Rightarrow> Some (Inl e, sent, ws)
      | Inr _ \<Rightarrow>
          (case r of
             Inr 0 \<Rightarrow> Some (Inl (QmpIo WriteZero), sent, ws)
           | Inr k \<Rightarrow> write_all_timed timeout ws (sent @ take k (b # bs)) (drop k (b # bs))
           | Inl Interrupted \<Rightarrow> write_all_timed timeout ws sent (b # bs)
           | Inl err \<Rightarrow> Some (Inl (budget_io_error timeout err), sent, ws)))"

definition send_value :: "(json \<Rightarrow> bytes) \<Rightarrow> nat \<Rightarrow> json \<Rightarrow> qmp_socket \<Rightarrow> ((qmp_error + unit) \<times> qmp_socket) option" where
  "send_value to_vec timeout v s =
     (case write_all_timed timeout (qs_writes s) (qs_sent s) (to_vec v @ [newline]) of
        None \<Rightarrow> None
      | Some (Inl e, sent, ws) \<Rightarrow> Some (Inl e, s\<lparr>qs_sent := sent, qs_writes := ws\<rparr>)
      | Some (Inr _, sent, ws) \<Rightarrow> Some (check_budget timeout (s\<lparr>qs_sent := sent, qs_writes := ws\<rparr>)))"

definition await_simple_return ::
  "(bytes \<Rightarrow> string option) \<Rightarrow> (string \<Rightarrow> string + json) \<Rightarrow> nat \<Rightarrow> string \<Rightarrow> qmp_socket \<Rightarrow> ((qmp_error + unit) \<times> qmp_socket) option" where
  "await_simple_return utf8 from_str timeout command s =
     (case read_line utf8 timeout [] s of
        None \<Rightarrow> None
      | Some (Inl e, s) \<Rightarrow> Some (Inl e, s)
      | Some (Inr line, s) \<Rightarrow>
          Some ((case from_str line of
                   Inl err \<Rightarrow> Inl (QmpDecode err)
                 | Inr v \<Rightarrow>
                     if json_get v ''return'' \<noteq> None then Inr ()
                     else (case json_get v ''error'' of
                             Some err \<Rightarrow> Inl (QmpCommand command (get_str_or err ''class'' ''Unknown'') (get_str_or err ''desc'' ''''))
                           | None \<Rightarrow> Inl (QmpHandshake (''expected `return` after `'' @ command @ ''`, got: '' @ trim line)))), s))"

definition execute_object :: "string \<Rightarrow> json" where
  "execute_object cmd = JObject [(''execute'', JString cmd)]"

definition enable_events :: json where
  "enable_events =
     JObject [(''arguments'', JObject [(''capabilities'', JArray [JObject [(''capability'', JString ''events''), (''state'', JBool True)]])]),
              (''execute'', JString ''migrate-set-capabilities'')]"

definition and_next :: "((qmp_error + 'a) \<times> 's) option \<Rightarrow> ('a \<Rightarrow> 's \<Rightarrow> ((qmp_error + 'b) \<times> 's) option) \<Rightarrow> ((qmp_error + 'b) \<times> 's) option" where
  "and_next r k = (case r of None \<Rightarrow> None | Some (Inl e, s) \<Rightarrow> Some (Inl e, s) | Some (Inr x, s) \<Rightarrow> k x s)"

definition read_greeting ::
  "(bytes \<Rightarrow> string option) \<Rightarrow> (string \<Rightarrow> string + json) \<Rightarrow> nat \<Rightarrow> qmp_socket \<Rightarrow> ((qmp_error + unit) \<times> qmp_socket) option" where
  "read_greeting utf8 from_str timeout s =
     and_next (read_line utf8 timeout [] s) (\<lambda>greeting s.
       Some ((case from_str greeting of
                Inl err \<Rightarrow> Inl (QmpDecode err)
              | Inr v \<Rightarrow> if json_get v ''QMP'' = None then Inl (QmpHandshake (''expected QMP greeting, got: '' @ trim greeting)) else Inr ()), s))"

definition qmp_handshake ::
  "(bytes \<Rightarrow> string option) \<Rightarrow> (string \<Rightarrow> string + json) \<Rightarrow> (json \<Rightarrow> bytes) \<Rightarrow> nat \<Rightarrow> qmp_socket \<Rightarrow> ((qmp_error + unit) \<times> qmp_socket) option" where
  "qmp_handshake utf8 from_str to_vec timeout s =
     and_next (read_greeting utf8 from_str timeout s) (\<lambda>_ s.
     and_next (send_value to_vec timeout (execute_object ''qmp_capabilities'') s) (\<lambda>_ s.
     and_next (await_simple_return utf8 from_str timeout ''qmp_capabilities'' s) (\<lambda>_ s.
     and_next (send_value to_vec timeout enable_events s) (\<lambda>_ s.
     await_simple_return utf8 from_str timeout ''migrate-set-capabilities'' s))))"

section \<open>The shared state of a connection\<close>

datatype raw_response = RReturn json | RError string string | RClosed string

text \<open>
  A call of \<open>execute_timeout\<close> is a number, which also names its reply channel; the
  channel holds what has been sent and not yet received. \<open>qc_pending\<close> maps the id of a
  request to the command and the channel.
\<close>

record qmp_conn =
  qc_stream :: bool
  qc_busy :: bool
  qc_writer_closed :: bool
  qc_pending :: "(string \<times> string \<times> nat) list"
  qc_events :: "qmp_event list"
  qc_closed :: bool
  qc_reason :: string
  qc_next_id :: u64
  qc_chan :: "nat \<Rightarrow> raw_response list"

definition conn_new :: qmp_conn where
  "conn_new = \<lparr>qc_stream = True, qc_busy = False, qc_writer_closed = False, qc_pending = [], qc_events = [],
               qc_closed = False, qc_reason = '''', qc_next_id = 1, qc_chan = (\<lambda>_. [])\<rparr>"

definition pending_insert :: "string \<Rightarrow> string \<times> nat \<Rightarrow> (string \<times> string \<times> nat) list \<Rightarrow> (string \<times> string \<times> nat) list" where
  "pending_insert i p m = (i, p) # filter (\<lambda>e. fst e \<noteq> i) m"

definition pending_remove :: "string \<Rightarrow> (string \<times> string \<times> nat) list \<Rightarrow> (string \<times> string \<times> nat) list" where
  "pending_remove i m = filter (\<lambda>e. fst e \<noteq> i) m"

subsection \<open>The writer slot\<close>

datatype gate = GateWait | GateFail qmp_error | GatePass

definition writer_gate :: "nat \<Rightarrow> nat \<Rightarrow> qmp_conn \<Rightarrow> gate" where
  "writer_gate timeout now q =
     (if qc_busy q \<and> \<not> qc_writer_closed q then
        (case budget_remaining timeout now of Inl e \<Rightarrow> GateFail e | Inr _ \<Rightarrow> GateWait)
      else if qc_writer_closed q then GateFail (QmpClosed ''write on closed connection'')
      else (case budget_remaining timeout now of Inl e \<Rightarrow> GateFail e | Inr _ \<Rightarrow> GatePass))"

definition take_stream :: "qmp_conn \<Rightarrow> qmp_conn" where
  "take_stream q = q\<lparr>qc_stream := False, qc_busy := True\<rparr>"

definition release_writer :: "qmp_conn \<Rightarrow> qmp_conn" where
  "release_writer q = q\<lparr>qc_stream := (if \<not> qc_writer_closed q then True else qc_stream q), qc_busy := False\<rparr>"

subsection \<open>Shutdown\<close>

definition close_writer :: "qmp_conn \<Rightarrow> qmp_conn" where
  "close_writer q = q\<lparr>qc_writer_closed := True, qc_stream := False\<rparr>"

definition close_log :: "string \<Rightarrow> qmp_conn \<Rightarrow> qmp_conn" where
  "close_log reason q = (if \<not> qc_closed q then q\<lparr>qc_closed := True, qc_reason := reason\<rparr> else q)"

definition drain_pending :: "qmp_conn \<Rightarrow> nat list \<times> qmp_conn" where
  "drain_pending q = (map (snd \<circ> snd) (qc_pending q), q\<lparr>qc_pending := []\<rparr>)"

subsection \<open>Calls\<close>

definition request_id :: "u64 \<Rightarrow> string" where
  "request_id n = ''c'' @ show_nat (unat n)"

definition allocate_id :: "qmp_conn \<Rightarrow> string \<times> qmp_conn" where
  "allocate_id q = (request_id (qc_next_id q), q\<lparr>qc_next_id := qc_next_id q + 1\<rparr>)"

definition register_call :: "string \<Rightarrow> string \<Rightarrow> nat \<Rightarrow> qmp_conn \<Rightarrow> qmp_conn" where
  "register_call cmd i c q = q\<lparr>qc_pending := pending_insert i (cmd, c) (qc_pending q)\<rparr>"

definition forget_call :: "string \<Rightarrow> qmp_conn \<Rightarrow> qmp_conn" where
  "forget_call i q = q\<lparr>qc_pending := pending_remove i (qc_pending q)\<rparr>"

definition request_object :: "string \<Rightarrow> json \<Rightarrow> string \<Rightarrow> json" where
  "request_object cmd args i =
     JObject (tree_insert ''id'' (JString i)
       ((if args \<noteq> JNull then tree_insert ''arguments'' args else (\<lambda>m. m)) (tree_insert ''execute'' (JString cmd) [])))"

definition reply_result :: "string \<Rightarrow> raw_response \<Rightarrow> qmp_error + json" where
  "reply_result cmd r =
     (case r of
        RReturn v \<Rightarrow> Inr v
      | RError class desc \<Rightarrow> Inl (QmpCommand cmd class desc)
      | RClosed reason \<Rightarrow> Inl (QmpClosed reason))"

definition chan_send :: "nat \<Rightarrow> raw_response \<Rightarrow> qmp_conn \<Rightarrow> qmp_conn" where
  "chan_send c r q = q\<lparr>qc_chan := (qc_chan q)(c := qc_chan q c @ [r])\<rparr>"

definition chan_recv :: "nat \<Rightarrow> qmp_conn \<Rightarrow> qmp_conn" where
  "chan_recv c q = q\<lparr>qc_chan := (qc_chan q)(c := tl (qc_chan q c))\<rparr>"

subsection \<open>The reader\<close>

definition response_of :: "string \<Rightarrow> json \<Rightarrow> raw_response" where
  "response_of command v =
     (case json_get v ''return'' of
        Some ret \<Rightarrow> RReturn ret
      | None \<Rightarrow>
          (case json_get v ''error'' of
             Some err \<Rightarrow> RError (get_str_or err ''class'' ''Unknown'') (get_str_or err ''desc'' '''')
           | None \<Rightarrow> RError ''MalformedResponse'' (''QMP reply had neither `return` nor `error` for command `'' @ command @ ''`'')))"

text \<open>
  \<open>handle_line\<close> up to its last statement: the event is logged, or the pending entry is
  taken out and the response to send to its channel is given. What the function returns
  to \<open>reader_loop\<close> is the first component.
\<close>

definition handle_line ::
  "(string \<Rightarrow> string + json) \<Rightarrow> string \<Rightarrow> qmp_conn \<Rightarrow> string option \<times> (string \<times> nat \<times> raw_response) option \<times> qmp_conn" where
  "handle_line from_str line q =
     (let trimmed = trim line
      in if trimmed = [] then (None, None, q)
         else (case from_str trimmed of
           Inl _ \<Rightarrow> (None, None, q)
         | Inr v \<Rightarrow>
             if json_get v ''event'' \<noteq> None then
               (case wire_event_of v of
                  Some ev \<Rightarrow> (None, None, q\<lparr>qc_events := qc_events q @ [ev]\<rparr>)
                | None \<Rightarrow> (None, None, q))
             else (case get_str v ''id'' of
                     None \<Rightarrow> (None, None, q)
                   | Some i \<Rightarrow>
                       (case map_of (qc_pending q) i of
                          None \<Rightarrow> (None, None, q)
                        | Some (command, c) \<Rightarrow> (None, Some (i, c, response_of command v), forget_call i q)))))"

section \<open>Waiting for events\<close>

definition event_mark :: "qmp_conn \<Rightarrow> nat" where
  "event_mark q = length (qc_events q)"

definition scan_for_match :: "qmp_event list \<Rightarrow> nat \<Rightarrow> string \<Rightarrow> (qmp_event \<Rightarrow> bool) \<Rightarrow> qmp_event option" where
  "scan_for_match evs since name pred = find (\<lambda>e. ev_name e = name \<and> pred e) (drop since evs)"

text \<open>
  \<open>wait_event\<close> after its lock: each element of the list is one turn of the loop that has to
  wait, with the time at which the budget is looked at, the log as the lock is taken again,
  and whether the wait timed out. \<open>None\<close> is a wait that has not come back.
\<close>

fun wait_event ::
  "string \<Rightarrow> (qmp_event \<Rightarrow> bool) \<Rightarrow> nat \<Rightarrow> nat \<Rightarrow> qmp_conn \<Rightarrow> (nat \<times> qmp_conn \<times> bool) list \<Rightarrow> (qmp_error + qmp_event) option" where
  "wait_event name pred timeout since q wakes =
     (case scan_for_match (qc_events q) since name pred of
        Some ev \<Rightarrow> Some (Inr ev)
      | None \<Rightarrow>
          if qc_closed q then Some (Inl (QmpClosed (qc_reason q)))
          else (case wakes of
                  [] \<Rightarrow> None
                | (now, q', timed_out) # wakes' \<Rightarrow>
                    (case budget_remaining timeout now of
                       Inl e \<Rightarrow> Some (Inl e)
                     | Inr _ \<Rightarrow>
                         if timed_out then
                           (case scan_for_match (qc_events q') (max since (length (qc_events q))) name pred of
                              Some ev \<Rightarrow> Some (Inr ev)
                            | None \<Rightarrow> Some (Inl (QmpTimeout timeout)))
                         else wait_event name pred timeout (max since (length (qc_events q))) q' wakes')))"

declare wait_event.simps [simp del]

section \<open>Typed commands\<close>

definition guest_shutdown :: "qmp_event \<Rightarrow> bool" where
  "guest_shutdown ev =
     (Option.bind (json_get (ev_data ev) ''guest'') json_bool = Some True \<and> get_str (ev_data ev) ''reason'' = Some ''guest-shutdown'')"

text \<open>The commands that wait: the acknowledgement first, then the event after the mark taken before it.\<close>

definition powerdown_and_wait ::
  "nat \<Rightarrow> nat \<Rightarrow> qmp_error + json \<Rightarrow> qmp_conn \<Rightarrow> (nat \<times> qmp_conn \<times> bool) list \<Rightarrow> (qmp_error + unit) option" where
  "powerdown_and_wait timeout mark ack q wakes =
     (case ack of
        Inl e \<Rightarrow> Some (Inl e)
      | Inr _ \<Rightarrow>
          map_option (\<lambda>r. case r of Inr _ \<Rightarrow> Inr () | Inl (QmpTimeout d) \<Rightarrow> Inl (QmpGuestShutdownTimeout d) | Inl e \<Rightarrow> Inl e)
            (wait_event ''SHUTDOWN'' guest_shutdown timeout mark q wakes))"

definition migration_over :: "qmp_event \<Rightarrow> bool" where
  "migration_over ev = (get_str (ev_data ev) ''status'' \<in> {Some ''completed'', Some ''failed''})"

definition migrate_args :: "string \<Rightarrow> json" where
  "migrate_args path = JObject [(''uri'', JString (''file:'' @ path))]"

definition wait_migration_completed ::
  "nat \<Rightarrow> nat \<Rightarrow> qmp_conn \<Rightarrow> (nat \<times> qmp_conn \<times> bool) list \<Rightarrow> (qmp_error + unit) option" where
  "wait_migration_completed timeout since q wakes =
     map_option (\<lambda>r. case r of
         Inl e \<Rightarrow> Inl e
       | Inr ev \<Rightarrow>
           (let status = get_str_or (ev_data ev) ''status'' ''(unknown)''
            in if status = ''completed'' then Inr ()
               else Inl (QmpCommand ''migrate'' ''MigrationFailed'' (''MIGRATION ended with status `'' @ status @ ''`''))))
       (wait_event ''MIGRATION'' migration_over timeout since q wakes)"

definition query_status :: "qmp_error + json \<Rightarrow> qmp_error + string" where
  "query_status r = (case r of Inl e \<Rightarrow> Inl e | Inr v \<Rightarrow> Inr (get_str_or v ''status'' ''unknown''))"

end
