(* ===== verification/Host_Paths.thy ===== *)
theory Host_Paths
  imports Rust_Std
begin

text \<open>
  Strings and paths as the configuration, fixture and lab code handles them:
  \<open>split\<close> at a character, \<open>replace\<close>, \<open>starts_with\<close>, and the parts of \<open>std::path\<close>
  that are used on Unix paths without \<open>.\<close> components (a path is its text).
\<close>

section \<open>Splitting and joining\<close>

text \<open>\<open>str::split\<close> at one character: never empty, and the pieces do not have the character.\<close>

fun split_char :: "char \<Rightarrow> string \<Rightarrow> string list" where
  "split_char d [] = [[]]"
| "split_char d (c # cs) =
     (if c = d then [] # split_char d cs
      else (case split_char d cs of [] \<Rightarrow> [[c]] | p # ps \<Rightarrow> (c # p) # ps))"

lemma split_char_nonempty [simp]: "split_char d s \<noteq> []"
  by (induction s) (auto split: list.splits)

lemma split_char_pieces: "p \<in> set (split_char d s) \<Longrightarrow> d \<notin> set p"
  by (induction s arbitrary: p) (auto split: if_splits list.splits)

lemma split_char_plain: "d \<notin> set p \<Longrightarrow> split_char d p = [p]"
  by (induction p) auto

lemma split_char_append: "d \<notin> set p \<Longrightarrow> split_char d (p @ d # s) = p # split_char d s"
  by (induction p) auto

lemma join_str_Cons: "join_str sep (p # ps) = (if ps = [] then p else p @ sep @ join_str sep ps)"
  by (cases ps) auto

lemma split_join: "ps \<noteq> [] \<Longrightarrow> \<forall>p\<in>set ps. d \<notin> set p \<Longrightarrow> split_char d (join_str [d] ps) = ps"
proof (induction ps)
  case (Cons p ps)
  then show ?case by (cases "ps = []") (simp_all add: join_str_Cons split_char_plain split_char_append)
qed simp

lemma join_split: "join_str [d] (split_char d s) = s"
proof (induction s)
  case (Cons c cs)
  then show ?case by (cases "split_char d cs") (auto simp: join_str_Cons split: if_splits)
qed simp

section \<open>Prefixes and replacement\<close>

definition starts_with :: "string \<Rightarrow> string \<Rightarrow> bool" where
  "starts_with pat s = (take (length pat) s = pat)"

text \<open>\<open>str::replace\<close> of a pattern that is not empty: matches from the left, without overlap.\<close>

function replace_str :: "string \<Rightarrow> string \<Rightarrow> string \<Rightarrow> string" where
  "replace_str pat to s =
     (case s of
        [] \<Rightarrow> []
      | c # cs \<Rightarrow>
          if pat \<noteq> [] \<and> starts_with pat s then to @ replace_str pat to (drop (length pat) s)
          else c # replace_str pat to cs)"
  by pat_completeness auto
termination
  by (relation "measure (\<lambda>(_, _, s). length s)") auto

declare replace_str.simps [simp del]

lemma replace_str_Nil [simp]: "replace_str pat to [] = []"
  by (simp add: replace_str.simps)

lemma replace_str_absent: "pat \<noteq> [] \<Longrightarrow> \<not> contains_str pat s \<Longrightarrow> replace_str pat to s = s"
  by (induction s) (simp_all add: replace_str.simps starts_with_def)

section \<open>Paths\<close>

definition is_absolute :: "string \<Rightarrow> bool" where
  "is_absolute p = starts_with ''/'' p"

text \<open>\<open>Path::join\<close>: an absolute path replaces what it is joined to.\<close>

definition path_join :: "string \<Rightarrow> string \<Rightarrow> string" where
  "path_join d p =
     (if is_absolute p \<or> d = [] then p
      else if last d = CHR ''/'' then d @ p
      else d @ ''/'' @ p)"

definition strip_slashes :: "string \<Rightarrow> string" where
  "strip_slashes p = rev (dropWhile (\<lambda>c. c = CHR ''/'') (rev p))"

text \<open>\<open>Path::parent\<close>.\<close>

definition path_parent :: "string \<Rightarrow> string option" where
  "path_parent p =
     (let t = strip_slashes p;
          d = rev (dropWhile (\<lambda>c. c \<noteq> CHR ''/'') (rev t))
      in if t = [] then None
         else if d = [] then Some []
         else if strip_slashes d = [] then Some ''/'' else Some (strip_slashes d))"

lemma path_join_absolute: "is_absolute d \<Longrightarrow> is_absolute (path_join d p)"
  by (cases d) (auto simp: path_join_def is_absolute_def starts_with_def)

end
