(* ===== verification/Profiles.thy ===== *)
theory Profiles
  imports Host_Paths
begin

text \<open>
  Profiles and \<open>provium.toml\<close>, \<open>provium-host/src/profile.rs\<close>: the record that a
  \<open>[profiles.<name>]\<close> table becomes, the command line and the kernel it resolves to, the
  discovery of profiles in a directory, the expansion of \<open>{out}\<close> and the validation of a
  configuration. The TOML parser is a parameter, and so is the file system that the code
  reads.
\<close>

section \<open>Data\<close>

record disk_spec =
  ds_id :: "string option"
  ds_path :: string
  ds_readonly :: bool
  ds_mediated :: bool

text \<open>A floating-point number of the configuration: a mantissa and a power of two.\<close>

datatype f64 = NaN | Infinite bool | Finite int int

record profile =
  pf_kernel :: string
  pf_initrd :: string
  pf_root :: "string option"
  pf_disks :: "disk_spec list"
  pf_cmdline :: string
  pf_cmdline_file :: "string option"
  pf_guest_os :: string
  pf_inject_agent :: bool
  pf_agent_overlay_path :: "string option"
  pf_agent_boot_timeout :: "f64 option"
  pf_build :: "string option"
  pf_build_out :: "string option"
  pf_dir :: "string option"

record provium_section =
  ps_roots :: "string list"
  ps_cache_dir :: "string option"
  ps_cache_max_size :: "string option"

record config =
  cf_provium :: provium_section
  cf_profiles :: "(string \<times> profile) list"

record raw_config =
  rc_provium :: provium_section
  rc_from_dir :: "string option"
  rc_inline :: "(string \<times> profile) list"

datatype kernel_error =
    NoSource
  | KernelRead string io_error
  | KernelNotFound string
  | KernelAmbiguous string "string list"

text \<open>What the message of a \<open>Validation\<close> error says.\<close>

datatype violation =
    EmptyCmdline string
  | BadAgentTimeout string f64
  | EmptyDiskPath string nat
  | SharedDiskId string string
  | UnsupportedGuestOs string string
  | NoProfileIn string
  | InlineAndDiscovered string string

datatype config_error =
    ConfigIo string io_error
  | ConfigParse string string
  | ConfigValidation string violation

text \<open>The file system as the code reads it, and the variables of the environment.\<close>

record host_fs =
  fs_read :: "string \<Rightarrow> io_error + string"
  fs_dir :: "string \<Rightarrow> io_error + string list"
  fs_is_file :: "string \<Rightarrow> bool"
  fs_env :: "string \<Rightarrow> string option"

section \<open>One profile\<close>

definition resolved_id :: "disk_spec \<Rightarrow> nat \<Rightarrow> string" where
  "resolved_id spec index = (case ds_id spec of Some i \<Rightarrow> i | None \<Rightarrow> ''disk'' @ show_nat index)"

definition default_build_base :: "host_fs \<Rightarrow> string" where
  "default_build_base fs =
     (case fs_env fs ''PROVIUM_BUILD_DIR'' of
        Some p \<Rightarrow> p
      | None \<Rightarrow>
          (case fs_env fs ''XDG_CACHE_HOME'' of
             Some p \<Rightarrow> path_join (path_join p ''provium'') ''builds''
           | None \<Rightarrow>
               (case fs_env fs ''HOME'' of
                  Some p \<Rightarrow> path_join (path_join (path_join p ''.cache'') ''provium'') ''builds''
                | None \<Rightarrow> ''/tmp/provium-builds'')))"

definition resolve_cmdline :: "host_fs \<Rightarrow> profile \<Rightarrow> io_error + string" where
  "resolve_cmdline fs pf =
     (let own = split_whitespace (pf_cmdline pf)
      in case pf_cmdline_file pf of
           None \<Rightarrow> Inr (join_str '' '' own)
         | Some file \<Rightarrow>
             (case fs_read fs file of
                Inl e \<Rightarrow> Inl e
              | Inr raw \<Rightarrow> Inr (join_str '' '' (split_whitespace raw @ own))))"

text \<open>The kernels of a root: for each release directory that can be read, its files \<open>vmlinuz-*\<close>.\<close>

fun kernels_in :: "host_fs \<Rightarrow> string \<Rightarrow> string list \<Rightarrow> (string \<times> string) list" where
  "kernels_in fs modules [] = []"
| "kernels_in fs modules (release # rs) =
     (case fs_dir fs (path_join modules release) of
        Inl _ \<Rightarrow> []
      | Inr files \<Rightarrow> map (Pair release) (filter (starts_with ''vmlinuz-'') files)) @ kernels_in fs modules rs"

definition kernel_path :: "string \<Rightarrow> string \<times> string \<Rightarrow> string" where
  "kernel_path modules k = path_join (path_join modules (fst k)) (snd k)"

text \<open>Paths are compared component by component, here the release and then the file.\<close>

definition resolve_kernel :: "host_fs \<Rightarrow> profile \<Rightarrow> kernel_error + string" where
  "resolve_kernel fs pf =
     (if pf_kernel pf \<noteq> [] then Inr (pf_kernel pf)
      else (case pf_root pf of
              None \<Rightarrow> Inl NoSource
            | Some root \<Rightarrow>
                (let modules = path_join root ''usr/lib/modules''
                 in case fs_dir fs modules of
                      Inl e \<Rightarrow> Inl (KernelRead modules e)
                    | Inr entries \<Rightarrow>
                        (case map (kernel_path modules) (sort (kernels_in fs modules entries)) of
                           [] \<Rightarrow> Inl (KernelNotFound root)
                         | [k] \<Rightarrow> Inr k
                         | found \<Rightarrow> Inl (KernelAmbiguous root found)))))"

definition rebase_path :: "string \<Rightarrow> string \<Rightarrow> string" where
  "rebase_path dir p = (if p = [] \<or> is_absolute p \<or> starts_with ''{out}'' p then p else path_join dir p)"

definition rebase :: "string \<Rightarrow> profile \<Rightarrow> profile" where
  "rebase dir pf =
     pf\<lparr>pf_kernel := rebase_path dir (pf_kernel pf), pf_initrd := rebase_path dir (pf_initrd pf),
        pf_root := map_option (rebase_path dir) (pf_root pf),
        pf_cmdline_file := map_option (rebase_path dir) (pf_cmdline_file pf),
        pf_agent_overlay_path := map_option (rebase_path dir) (pf_agent_overlay_path pf),
        pf_disks := map (\<lambda>d. d\<lparr>ds_path := rebase_path dir (ds_path d)\<rparr>) (pf_disks pf)\<rparr>"

definition build_dir :: "profile \<Rightarrow> string option" where
  "build_dir pf = pf_dir pf"

definition out_dir :: "host_fs \<Rightarrow> string \<Rightarrow> profile \<Rightarrow> string" where
  "out_dir fs name pf = (case pf_build_out pf of Some p \<Rightarrow> p | None \<Rightarrow> path_join (default_build_base fs) name)"

section \<open>Discovery\<close>

definition PROFILE_FILE :: string where "PROFILE_FILE = ''profile.provium.toml''"

fun discover_entries ::
  "host_fs \<Rightarrow> (string \<Rightarrow> string + profile) \<Rightarrow> string \<Rightarrow> string list \<Rightarrow> config_error + (string \<times> profile) list" where
  "discover_entries fs toml dir [] = Inr []"
| "discover_entries fs toml dir (name # names) =
     (let profile_dir = path_join dir name; file = path_join profile_dir PROFILE_FILE
      in if \<not> fs_is_file fs file then discover_entries fs toml dir names
         else (case fs_read fs file of
                 Inl e \<Rightarrow> Inl (ConfigIo file e)
               | Inr raw \<Rightarrow>
                   (case toml raw of
                      Inl e \<Rightarrow> Inl (ConfigParse file e)
                    | Inr pf \<Rightarrow>
                        (case discover_entries fs toml dir names of
                           Inl e \<Rightarrow> Inl e
                         | Inr found \<Rightarrow> Inr ((name, rebase profile_dir (pf\<lparr>pf_dir := Some profile_dir\<rparr>)) # found)))))"

definition discover_profiles ::
  "host_fs \<Rightarrow> (string \<Rightarrow> string + profile) \<Rightarrow> string \<Rightarrow> string \<Rightarrow> config_error + (string \<times> profile) list" where
  "discover_profiles fs toml dir config_path =
     (case fs_dir fs dir of
        Inl e \<Rightarrow> Inl (ConfigIo dir e)
      | Inr entries \<Rightarrow>
          (case discover_entries fs toml dir entries of
             Inl e \<Rightarrow> Inl e
           | Inr found \<Rightarrow>
               if found = [] then Inl (ConfigValidation config_path (NoProfileIn dir))
               else Inr (sort_key fst found)))"

section \<open>Validation\<close>

fun check_disks :: "string \<Rightarrow> string list \<Rightarrow> nat \<Rightarrow> disk_spec list \<Rightarrow> violation option" where
  "check_disks name seen i [] = None"
| "check_disks name seen i (d # ds) =
     (if ds_path d = [] then Some (EmptyDiskPath name i)
      else if resolved_id d i \<in> set seen then Some (SharedDiskId name (resolved_id d i))
      else check_disks name (seen @ [resolved_id d i]) (Suc i) ds)"

fun positive_seconds :: "f64 \<Rightarrow> bool" where
  "positive_seconds (Finite m _) = (0 < m)"
| "positive_seconds _ = False"

definition check_profile :: "string \<Rightarrow> profile \<Rightarrow> violation option" where
  "check_profile name pf =
     (if trim (pf_cmdline pf) = [] \<and> pf_cmdline_file pf = None then Some (EmptyCmdline name)
      else (case (case pf_agent_boot_timeout pf of
                    Some t \<Rightarrow> if positive_seconds t then None else Some (BadAgentTimeout name t)
                  | None \<Rightarrow> None) of
              Some v \<Rightarrow> Some v
            | None \<Rightarrow>
                (case check_disks name [] 0 (pf_disks pf) of
                   Some v \<Rightarrow> Some v
                 | None \<Rightarrow> if pf_guest_os pf \<noteq> ''peios'' then Some (UnsupportedGuestOs name (pf_guest_os pf)) else None)))"

fun validate_config :: "string \<Rightarrow> (string \<times> profile) list \<Rightarrow> config_error + unit" where
  "validate_config path [] = Inr ()"
| "validate_config path ((name, pf) # ps) =
     (case check_profile name pf of Some v \<Rightarrow> Inl (ConfigValidation path v) | None \<Rightarrow> validate_config path ps)"

section \<open>The configuration\<close>

fun add_discovered ::
  "string \<Rightarrow> string \<Rightarrow> (string \<times> profile) list \<Rightarrow> (string \<times> profile) list \<Rightarrow> config_error + (string \<times> profile) list" where
  "add_discovered path dir ps [] = Inr ps"
| "add_discovered path dir ps ((name, pf) # found) =
     (if map_of ps name \<noteq> None then Inl (ConfigValidation path (InlineAndDiscovered name dir))
      else add_discovered path dir (tree_insert name pf ps) found)"

definition from_toml_str ::
  "host_fs \<Rightarrow> (string \<Rightarrow> string + raw_config) \<Rightarrow> (string \<Rightarrow> string + profile) \<Rightarrow> string \<Rightarrow> string \<Rightarrow> config_error + config" where
  "from_toml_str fs toml_config toml_profile raw path =
     (case toml_config raw of
        Inl e \<Rightarrow> Inl (ConfigParse path e)
      | Inr rc \<Rightarrow>
          (let base = (case path_parent path of Some p \<Rightarrow> p | None \<Rightarrow> ''.'')
           in case (case rc_from_dir rc of
                      None \<Rightarrow> Inr (rc_inline rc)
                    | Some from_dir \<Rightarrow>
                        (let dir = (if is_absolute from_dir then from_dir else path_join base from_dir)
                         in case discover_profiles fs toml_profile dir path of
                              Inl e \<Rightarrow> Inl e
                            | Inr found \<Rightarrow> add_discovered path dir (rc_inline rc) found)) of
                Inl e \<Rightarrow> Inl e
              | Inr ps \<Rightarrow>
                  (case validate_config path ps of
                     Inl e \<Rightarrow> Inl e
                   | Inr _ \<Rightarrow> Inr \<lparr>cf_provium = rc_provium rc, cf_profiles = ps\<rparr>)))"

definition load_config ::
  "host_fs \<Rightarrow> (string \<Rightarrow> string + raw_config) \<Rightarrow> (string \<Rightarrow> string + profile) \<Rightarrow> string \<Rightarrow> config_error + config" where
  "load_config fs toml_config toml_profile path =
     (case fs_read fs path of
        Inl e \<Rightarrow> Inl (ConfigIo path e)
      | Inr raw \<Rightarrow> from_toml_str fs toml_config toml_profile raw path)"

definition config_profile :: "config \<Rightarrow> string \<Rightarrow> profile option" where
  "config_profile cfg name = map_of (cf_profiles cfg) name"

definition expand_profile :: "string \<Rightarrow> profile \<Rightarrow> profile" where
  "expand_profile out pf =
     (let sub = replace_str ''{out}'' out
      in pf\<lparr>pf_build := map_option sub (pf_build pf), pf_kernel := sub (pf_kernel pf), pf_root := map_option sub (pf_root pf),
            pf_initrd := sub (pf_initrd pf), pf_cmdline := sub (pf_cmdline pf), pf_cmdline_file := map_option sub (pf_cmdline_file pf),
            pf_agent_overlay_path := map_option sub (pf_agent_overlay_path pf),
            pf_disks := map (\<lambda>d. d\<lparr>ds_path := sub (ds_path d)\<rparr>) (pf_disks pf)\<rparr>)"

definition expand_build_outputs :: "host_fs \<Rightarrow> config \<Rightarrow> config" where
  "expand_build_outputs fs cfg =
     cfg\<lparr>cf_profiles := map (\<lambda>(name, pf). (name, expand_profile (out_dir fs name pf) pf)) (cf_profiles cfg)\<rparr>"

section \<open>An example\<close>

definition blank_profile :: profile where
  "blank_profile = \<lparr>pf_kernel = ''/k'', pf_initrd = ''/i'', pf_root = None, pf_disks = [], pf_cmdline = ''console=hvc0'',
     pf_cmdline_file = None, pf_guest_os = ''peios'', pf_inject_agent = True, pf_agent_overlay_path = None,
     pf_agent_boot_timeout = None, pf_build = None, pf_build_out = None, pf_dir = None\<rparr>"

end
