(* ===== verification/Vm_Lifecycle.thy ===== *)
theory Vm_Lifecycle
  imports Pool_Account Nbd_Protocol Wire_Types Frame_Codec Initrd_Files Qmp_Client Profiles
begin

text \<open>
  The handle of one virtual machine, \<open>provium-host/src/vm.rs\<close>, with the boot options of
  \<open>vmm/mod.rs\<close>: its state machine, the resources it holds, and the operations that go to
  the backend or to the agent. The backend is a trait object in the source; here it is a
  record of functions on a world of type \<open>'w\<close>, with handles of type \<open>'i\<close> for instances
  and \<open>'c\<close> for agent clients. What an operation comes to is a result or a panic (an
  \<open>expect\<close> that fails). The long calls of \<open>boot\<close> and \<open>restore\<close> run outside the lock:
  they are split into the part before the launch and the commit after it.
\<close>

section \<open>Errors\<close>

datatype vm_state = Created | Booted | Paused | Dead | Shutdown

definition as_str :: "vm_state \<Rightarrow> string" where
  "as_str s = (case s of Created \<Rightarrow> ''created'' | Booted \<Rightarrow> ''booted'' | Paused \<Rightarrow> ''paused''
                       | Dead \<Rightarrow> ''dead'' | Shutdown \<Rightarrow> ''shutdown'')"

datatype vmm_error =
    Unimplemented string
  | VmmIo io_error
  | VmmQmp qmp_error
  | MissingProfilePath string string
  | KernelSource string
  | MissingDisk string string
  | DiskConflict string
  | AgentOverlay string

datatype client_error =
    Connect io_error
  | ClientFrame frame_error
  | ClientVersionMismatch u32 u32
  | ClientUnexpectedMessage string string
  | ClientAgent agent_error
  | StreamSource os_error

datatype vm_error =
    VmClient client_error
  | VmVmm vmm_error
  | VmOs os_error
  | WrongState string vm_state string
  | DiskImage string string
  | PoolExceeded string resource_amount resource_amount
  | BootRefused string reserve_error
  | OpenResources string nat nat "string list"

definition format_wrong_state :: "string \<Rightarrow> vm_state \<Rightarrow> string \<Rightarrow> string" where
  "format_wrong_state vm state action =
     (let body =
        (if state = Booted \<and> action = ''boot'' then ''VM already booted''
         else if state = Created then ''VM not booted''
         else if state = Paused then ''VM is paused; use resume()''
         else if state = Shutdown then ''VM is shutdown; create a new one''
         else if state = Dead then ''VM died; create a new one''
         else ''VM is in an unexpected state for this op'')
      in ''vm `'' @ vm @ ''`: '' @ body @ '' (cannot '' @ action @ '')'')"

fun is_dead_signal :: "client_error \<Rightarrow> bool" where
  "is_dead_signal (Connect _) = True"
| "is_dead_signal (ClientFrame Eof) = True"
| "is_dead_signal (ClientFrame (FrameIo _)) = True"
| "is_dead_signal _ = False"

fun is_qmp_dead_signal :: "vmm_error \<Rightarrow> bool" where
  "is_qmp_dead_signal (VmmQmp (QmpTimeout _)) = True"
| "is_qmp_dead_signal (VmmQmp (QmpIo _)) = True"
| "is_qmp_dead_signal (VmmQmp (QmpClosed _)) = True"
| "is_qmp_dead_signal _ = False"

section \<open>Boot options\<close>

record attached_disk =
  ad_id :: string
  ad_path :: string
  ad_readonly :: bool
  ad_mediated :: bool

record nic_attachment =
  na_bridge_name :: string
  na_nic_id :: string
  na_mac :: "string option"

record boot_opts =
  bo_memory_bytes :: "u64 option"
  bo_cpus :: "u32 option"
  bo_cmdline_override :: "string option"
  bo_cmdline_append :: "string option"
  bo_files :: "injected_file list"
  bo_agent_timeout :: "nat option"
  bo_rng_seed :: "u64 option"
  bo_initial_time_ns :: "i64 option"
  bo_nic_attachments :: "nic_attachment list"
  bo_disks :: "attached_disk list"

definition boot_opts_default :: boot_opts where
  "boot_opts_default =
     \<lparr>bo_memory_bytes = None, bo_cpus = None, bo_cmdline_override = None, bo_cmdline_append = None, bo_files = [],
      bo_agent_timeout = None, bo_rng_seed = None, bo_initial_time_ns = None, bo_nic_attachments = [], bo_disks = []\<rparr>"

definition DEFAULT_MEMORY_BYTES :: u64 where "DEFAULT_MEMORY_BYTES = 512 * 1024 * 1024"

definition DEFAULT_CPUS :: u32 where "DEFAULT_CPUS = 1"

definition VMM_OVERHEAD_BYTES :: u64 where "VMM_OVERHEAD_BYTES = 100 * 1024 * 1024"

definition unwrap_or :: "'a option \<Rightarrow> 'a \<Rightarrow> 'a" where
  "unwrap_or x d = (case x of Some v \<Rightarrow> v | None \<Rightarrow> d)"

definition opt_or :: "'a option \<Rightarrow> 'a option \<Rightarrow> 'a option" where
  "opt_or x y = (if x \<noteq> None then x else y)"

definition sizing :: "boot_opts \<Rightarrow> u64 \<times> u32" where
  "sizing bo = (unwrap_or (bo_memory_bytes bo) DEFAULT_MEMORY_BYTES, unwrap_or (bo_cpus bo) DEFAULT_CPUS)"

fun profile_disks :: "nat \<Rightarrow> disk_spec list \<Rightarrow> attached_disk list" where
  "profile_disks i [] = []"
| "profile_disks i (spec # specs) =
     \<lparr>ad_id = resolved_id spec i, ad_path = ds_path spec, ad_readonly = ds_readonly spec, ad_mediated = ds_mediated spec\<rparr>
     # profile_disks (Suc i) specs"

fun add_boot_disks :: "attached_disk list \<Rightarrow> attached_disk list \<Rightarrow> vmm_error + attached_disk list" where
  "add_boot_disks out [] = Inr out"
| "add_boot_disks out (disk # ds) =
     (if list_ex (\<lambda>d. ad_id d = ad_id disk) out then Inl (DiskConflict (ad_id disk)) else add_boot_disks (out @ [disk]) ds)"

definition resolve_disks :: "profile \<Rightarrow> attached_disk list \<Rightarrow> vmm_error + attached_disk list" where
  "resolve_disks pf boot_disks = add_boot_disks (profile_disks 0 (pf_disks pf)) boot_disks"

section \<open>State\<close>

record disk_attachment =
  da_id :: string
  da_size :: u64
  da_image :: "string option"

record stream_meta =
  sm_kind :: string
  sm_detail :: string
  sm_creation_site :: "(string \<times> int) option"
  sm_test_name :: "string option"

record ('i, 'c) running_resources =
  rr_cid :: u32
  rr_instance :: "'i option"
  rr_client :: 'c
  rr_console_log :: "string option"
  rr_console_socket :: "string option"

record ('i, 'c) launched_vm =
  vr_cid :: u32
  vr_instance :: 'i
  vr_client :: 'c
  vr_console_log :: "string option"
  vr_console_socket :: "string option"

record ('i, 'c) vm =
  vm_name :: string
  vm_profile_name :: string
  vm_profile :: profile
  vm_boot_opts :: boot_opts
  vm_pool :: bool
  vm_state :: vm_state
  vm_running :: "('i, 'c) running_resources option"
  vm_reservation :: "hold option"
  vm_bridges :: "string list"
  vm_disks :: "(string \<times> disk_attachment) list"
  vm_overrides :: "boot_opts option"
  vm_open_files :: "u64 list"
  vm_open_streams :: "(u64 \<times> stream_meta) list"

definition vm_new :: "string \<Rightarrow> string \<Rightarrow> profile \<Rightarrow> boot_opts \<Rightarrow> bool \<Rightarrow> ('i, 'c) vm" where
  "vm_new name pname pf bo has_pool =
     \<lparr>vm_name = name, vm_profile_name = pname, vm_profile = pf, vm_boot_opts = bo, vm_pool = has_pool, vm_state = Created, vm_running = None,
      vm_reservation = None, vm_bridges = [], vm_disks = [], vm_overrides = None, vm_open_files = [], vm_open_streams = []\<rparr>"

definition running_of :: "('i, 'c) launched_vm \<Rightarrow> ('i, 'c) running_resources" where
  "running_of r = \<lparr>rr_cid = vr_cid r, rr_instance = Some (vr_instance r), rr_client = vr_client r,
                   rr_console_log = vr_console_log r, rr_console_socket = vr_console_socket r\<rparr>"

definition from_running :: "string \<Rightarrow> string \<Rightarrow> profile \<Rightarrow> boot_opts \<Rightarrow> ('i, 'c) launched_vm \<Rightarrow> ('i, 'c) vm" where
  "from_running name pname pf bo r = (vm_new name pname pf bo False)\<lparr>vm_state := Booted, vm_running := Some (running_of r)\<rparr>"

definition wrong_state :: "('i, 'c) vm \<Rightarrow> string \<Rightarrow> vm_error" where
  "wrong_state v action = WrongState (vm_name v) (vm_state v) action"

section \<open>The backend\<close>

datatype 'a outcome = Ret "vm_error + 'a" | Panics

record ('i, 'c, 'w) vmm =
  ve_launch :: "string \<Rightarrow> profile \<Rightarrow> boot_opts \<Rightarrow> 'w \<Rightarrow> (vmm_error + ('i, 'c) launched_vm) \<times> 'w"
  ve_restore :: "string \<Rightarrow> profile \<Rightarrow> boot_opts \<Rightarrow> string \<Rightarrow> 'w \<Rightarrow> (vmm_error + ('i, 'c) launched_vm) \<times> 'w"
  ve_pause :: "'i \<Rightarrow> 'w \<Rightarrow> (vmm_error + unit) \<times> 'w"
  ve_resume :: "'i \<Rightarrow> 'w \<Rightarrow> (vmm_error + unit) \<times> 'w"
  ve_snapshot :: "string \<Rightarrow> 'i \<Rightarrow> 'w \<Rightarrow> (vmm_error + unit) \<times> 'w"
  ve_shutdown :: "'i \<Rightarrow> 'w \<Rightarrow> (vmm_error + unit) \<times> 'w"
  ve_reset :: "'i \<Rightarrow> 'w \<Rightarrow> (vmm_error + unit) \<times> 'w"
  ve_end_reset_window :: "'i \<Rightarrow> 'w \<Rightarrow> (vmm_error + unit) \<times> 'w"
  ve_power_button :: "'i \<Rightarrow> 'w \<Rightarrow> (vmm_error + unit) \<times> 'w"
  ve_wakeup :: "'i \<Rightarrow> 'w \<Rightarrow> (vmm_error + unit) \<times> 'w"
  ve_is_suspended :: "'i \<Rightarrow> 'w \<Rightarrow> (vmm_error + bool) \<times> 'w"
  ve_set_link :: "string \<Rightarrow> bool \<Rightarrow> 'i \<Rightarrow> 'w \<Rightarrow> (vmm_error + unit) \<times> 'w"
  ve_attach_disk :: "string \<Rightarrow> string \<Rightarrow> bool \<Rightarrow> 'i \<Rightarrow> 'w \<Rightarrow> (vmm_error + unit) \<times> 'w"
  ve_detach_disk :: "string \<Rightarrow> 'i \<Rightarrow> 'w \<Rightarrow> (vmm_error + unit) \<times> 'w"
  ve_power_cut_disk :: "string \<Rightarrow> 'i \<Rightarrow> 'w \<Rightarrow> (vmm_error + unit) \<times> 'w"
  ve_set_disk_policy :: "string \<Rightarrow> fault_policy \<Rightarrow> 'i \<Rightarrow> 'w \<Rightarrow> (vmm_error + unit) \<times> 'w"
  ve_disk_policy :: "string \<Rightarrow> 'i \<Rightarrow> 'w \<Rightarrow> (vmm_error + fault_policy) \<times> 'w"
  ve_ping :: "'c \<Rightarrow> 'w \<Rightarrow> bool \<times> 'w"
  ve_now :: "'w \<Rightarrow> nat"
  ve_sleep :: "nat \<Rightarrow> 'w \<Rightarrow> 'w"
  ve_file_len :: "string \<Rightarrow> 'w \<Rightarrow> u64 option"
  ve_reserve :: "resource_amount \<Rightarrow> 'w \<Rightarrow> (reserve_error + hold) \<times> 'w"
  ve_release :: "hold \<Rightarrow> 'w \<Rightarrow> 'w"

definition drop_hold :: "('i, 'c, 'w) vmm \<Rightarrow> hold option \<Rightarrow> 'w \<Rightarrow> 'w" where
  "drop_hold e ho w = (case ho of None \<Rightarrow> w | Some h \<Rightarrow> ve_release e h w)"

definition instance_of :: "('i, 'c) vm \<Rightarrow> 'i option" where
  "instance_of v = (case vm_running v of None \<Rightarrow> None | Some r \<Rightarrow> rr_instance r)"

definition maybe_mark_dead_on_vmm_err :: "vmm_error \<Rightarrow> ('i, 'c) vm \<Rightarrow> ('i, 'c) vm" where
  "maybe_mark_dead_on_vmm_err err v =
     (if \<not> is_qmp_dead_signal err then v
      else if vm_state v \<in> {Booted, Paused} then v\<lparr>vm_state := Dead\<rparr> else v)"

text \<open>
  The shape that the backend operations share: the guard on the state, the instance (whose
  absence is a panic where the source says \<open>expect\<close> and a \<open>WrongState\<close> where it says
  \<open>ok_or_else\<close>), the call, and the death of the VM when the monitor is gone.
\<close>

definition backend_call ::
  "vm_state list \<Rightarrow> string \<Rightarrow> bool \<Rightarrow> ('i \<Rightarrow> 'w \<Rightarrow> (vmm_error + 'a) \<times> 'w) \<Rightarrow> ('i, 'c) vm \<Rightarrow> 'w \<Rightarrow> 'a outcome \<times> ('i, 'c) vm \<times> 'w" where
  "backend_call legal action expects f v w =
     (if vm_state v \<notin> set legal then (Ret (Inl (wrong_state v action)), v, w)
      else (case instance_of v of
              None \<Rightarrow> ((if expects then Panics else Ret (Inl (wrong_state v action))), v, w)
            | Some i \<Rightarrow>
                (case f i w of
                   (Inl err, w) \<Rightarrow> (Ret (Inl (VmVmm err)), maybe_mark_dead_on_vmm_err err v, w)
                 | (Inr x, w) \<Rightarrow> (Ret (Inr x), v, w))))"

definition set_state :: "vm_state \<Rightarrow> 'a outcome \<times> ('i, 'c) vm \<times> 'w \<Rightarrow> 'a outcome \<times> ('i, 'c) vm \<times> 'w" where
  "set_state s r =
     (case r of
        (Ret (Inr x), v, w) \<Rightarrow> (Ret (Inr x), v\<lparr>vm_state := s\<rparr>, w)
      | r \<Rightarrow> r)"

section \<open>Lifecycle\<close>

definition merge_boot_opts :: "('i, 'c) vm \<Rightarrow> boot_opts \<Rightarrow> (vm_error + unit) \<times> ('i, 'c) vm" where
  "merge_boot_opts v ov =
     (if vm_state v \<noteq> Created then (Inl (wrong_state v ''merge_boot_opts''), v)
      else (let cur = unwrap_or (vm_overrides v) boot_opts_default
            in (Inr (), v\<lparr>vm_overrides := Some
                  (cur\<lparr>bo_cmdline_override := opt_or (bo_cmdline_override ov) (bo_cmdline_override cur),
                       bo_cmdline_append := opt_or (bo_cmdline_append ov) (bo_cmdline_append cur),
                       bo_rng_seed := opt_or (bo_rng_seed ov) (bo_rng_seed cur),
                       bo_initial_time_ns := opt_or (bo_initial_time_ns ov) (bo_initial_time_ns cur),
                       bo_files := bo_files cur @ bo_files ov,
                       bo_disks := bo_disks cur @ bo_disks ov,
                       bo_agent_timeout := opt_or (bo_agent_timeout ov) (bo_agent_timeout cur)\<rparr>)\<rparr>)))"

definition apply_overrides :: "boot_opts \<Rightarrow> boot_opts option \<Rightarrow> boot_opts" where
  "apply_overrides bo ov =
     (case ov of
        None \<Rightarrow> bo
      | Some over \<Rightarrow>
          bo\<lparr>bo_cmdline_override := opt_or (bo_cmdline_override over) (bo_cmdline_override bo),
             bo_cmdline_append := opt_or (bo_cmdline_append over) (bo_cmdline_append bo),
             bo_rng_seed := opt_or (bo_rng_seed over) (bo_rng_seed bo),
             bo_initial_time_ns := opt_or (bo_initial_time_ns over) (bo_initial_time_ns bo),
             bo_files := bo_files bo @ bo_files over,
             bo_disks := bo_disks bo @ bo_disks over,
             bo_agent_timeout := opt_or (bo_agent_timeout over) (bo_agent_timeout bo)\<rparr>)"

definition attach_disk_record :: "('i, 'c) vm \<Rightarrow> disk_attachment \<Rightarrow> ('i, 'c) vm" where
  "attach_disk_record v a = v\<lparr>vm_disks := tree_insert (da_id a) a (vm_disks v)\<rparr>"

fun record_disks :: "('i, 'c, 'w) vmm \<Rightarrow> 'w \<Rightarrow> attached_disk list \<Rightarrow> ('i, 'c) vm \<Rightarrow> ('i, 'c) vm" where
  "record_disks e w [] v = v"
| "record_disks e w (d # ds) v =
     record_disks e w ds (attach_disk_record v \<lparr>da_id = ad_id d, da_size = unwrap_or (ve_file_len e (ad_path d) w) 0,
                                               da_image = Some (ad_path d)\<rparr>)"

definition bridge_nics :: "('i, 'c) vm \<Rightarrow> nic_attachment list" where
  "bridge_nics v = map (\<lambda>b. \<lparr>na_bridge_name = b, na_nic_id = vm_name v @ ''-'' @ b, na_mac = None\<rparr>) (vm_bridges v)"

definition boot_amount :: "boot_opts \<Rightarrow> resource_amount" where
  "boot_amount bo = (case sizing bo of (m, c) \<Rightarrow> amt (sat_add m VMM_OVERHEAD_BYTES) c)"

text \<open>\<open>boot\<close> up to the launch: the options with the reservation, or the error.\<close>

definition boot_prepare ::
  "('i, 'c, 'w) vmm \<Rightarrow> ('i, 'c) vm \<Rightarrow> 'w \<Rightarrow> (vm_error + boot_opts \<times> hold option) \<times> ('i, 'c) vm \<times> 'w" where
  "boot_prepare e v w =
     (if vm_state v \<noteq> Created then (Inl (wrong_state v ''boot''), v, w)
      else (let opts = apply_overrides (vm_boot_opts v) (vm_overrides v);
                v = v\<lparr>vm_overrides := None\<rparr>
            in case resolve_disks (vm_profile v) (bo_disks opts) of
                 Inl err \<Rightarrow> (Inl (VmVmm err), v, w)
               | Inr launch_disks \<Rightarrow>
                   (let v = record_disks e w launch_disks v;
                        opts = opts\<lparr>bo_nic_attachments := bo_nic_attachments opts @ bridge_nics v\<rparr>
                    in if \<not> vm_pool v then (Inr (opts, None), v, w)
                       else (case ve_reserve e (boot_amount opts) w of
                               (Inr hold, w) \<Rightarrow> (Inr (opts, Some hold), v, w)
                             | (Inl (ReservePool (ExceedsTotal requested tot)), w) \<Rightarrow> (Inl (PoolExceeded (vm_name v) requested tot), v, w)
                             | (Inl err, w) \<Rightarrow> (Inl (BootRefused (vm_name v) err), v, w)))))"

text \<open>\<open>boot\<close> after the launch, under the lock again: the first to commit wins.\<close>

definition boot_commit ::
  "('i, 'c, 'w) vmm \<Rightarrow> ('i, 'c) launched_vm \<Rightarrow> hold option \<Rightarrow> ('i, 'c) vm \<Rightarrow> 'w \<Rightarrow> (vm_error + unit) \<times> ('i, 'c) vm \<times> 'w" where
  "boot_commit e r res v w =
     (if vm_state v \<noteq> Created
      then (Inl (wrong_state v ''boot''), v, drop_hold e res (snd (ve_shutdown e (vr_instance r) w)))
      else (Inr (), v\<lparr>vm_state := Booted, vm_running := Some (running_of r), vm_reservation := res\<rparr>, w))"

definition boot :: "('i, 'c, 'w) vmm \<Rightarrow> ('i, 'c) vm \<Rightarrow> 'w \<Rightarrow> (vm_error + unit) \<times> ('i, 'c) vm \<times> 'w" where
  "boot e v w =
     (case boot_prepare e v w of
        (Inl err, v, w) \<Rightarrow> (Inl err, v, w)
      | (Inr (opts, res), v, w) \<Rightarrow>
          (case ve_launch e (vm_name v) (vm_profile v) opts w of
             (Inl err, w) \<Rightarrow> (Inl (VmVmm err), v, drop_hold e res w)
           | (Inr r, w) \<Rightarrow> boot_commit e r res v w))"

definition restore_commit ::
  "('i, 'c, 'w) vmm \<Rightarrow> ('i, 'c) launched_vm \<Rightarrow> ('i, 'c) vm \<Rightarrow> 'w \<Rightarrow> (vm_error + unit) \<times> ('i, 'c) vm \<times> 'w" where
  "restore_commit e r v w =
     (if vm_state v \<noteq> Created then (Inl (wrong_state v ''restore''), v, snd (ve_shutdown e (vr_instance r) w))
      else (Inr (), v\<lparr>vm_state := Booted, vm_running := Some (running_of r)\<rparr>, w))"

definition restore :: "('i, 'c, 'w) vmm \<Rightarrow> ('i, 'c) vm \<Rightarrow> string \<Rightarrow> 'w \<Rightarrow> (vm_error + unit) \<times> ('i, 'c) vm \<times> 'w" where
  "restore e v path w =
     (if vm_state v \<noteq> Created then (Inl (wrong_state v ''restore''), v, w)
      else (case ve_restore e (vm_name v) (vm_profile v)
                   ((vm_boot_opts v)\<lparr>bo_nic_attachments := bo_nic_attachments (vm_boot_opts v) @ bridge_nics v\<rparr>) path w of
              (Inl err, w) \<Rightarrow> (Inl (VmVmm err), v, w)
            | (Inr r, w) \<Rightarrow> restore_commit e r v w))"

definition pause :: "('i, 'c, 'w) vmm \<Rightarrow> ('i, 'c) vm \<Rightarrow> 'w \<Rightarrow> unit outcome \<times> ('i, 'c) vm \<times> 'w" where
  "pause e v w = set_state Paused (backend_call [Booted] ''pause'' True (ve_pause e) v w)"

definition resume :: "('i, 'c, 'w) vmm \<Rightarrow> ('i, 'c) vm \<Rightarrow> 'w \<Rightarrow> unit outcome \<times> ('i, 'c) vm \<times> 'w" where
  "resume e v w = set_state Booted (backend_call [Paused] ''resume'' True (ve_resume e) v w)"

definition take_instance :: "('i, 'c) vm \<Rightarrow> ('i, 'c) vm" where
  "take_instance v = v\<lparr>vm_running := map_option (\<lambda>r. r\<lparr>rr_instance := None\<rparr>) (vm_running v)\<rparr>"

definition shutdown :: "('i, 'c, 'w) vmm \<Rightarrow> ('i, 'c) vm \<Rightarrow> 'w \<Rightarrow> (vm_error + unit) \<times> ('i, 'c) vm \<times> 'w" where
  "shutdown e v w =
     (case vm_state v of
        Shutdown \<Rightarrow> (Inr (), v, w)
      | Created \<Rightarrow> (Inr (), v\<lparr>vm_state := Shutdown, vm_reservation := None\<rparr>, drop_hold e (vm_reservation v) w)
      | _ \<Rightarrow>
          (case (case instance_of v of None \<Rightarrow> (Inr (), w) | Some i \<Rightarrow> ve_shutdown e i w) of
             (Inl err, w) \<Rightarrow> (Inl (VmVmm err), take_instance v, w)
           | (Inr _, w) \<Rightarrow>
               (Inr (), (take_instance v)\<lparr>vm_state := Shutdown, vm_reservation := None\<rparr>, drop_hold e (vm_reservation v) w)))"

definition vm_drop :: "('i, 'c, 'w) vmm \<Rightarrow> ('i, 'c) vm \<Rightarrow> 'w \<Rightarrow> ('i, 'c) vm \<times> 'w" where
  "vm_drop e v w =
     (if vm_state v \<in> {Booted, Paused}
      then ((take_instance v)\<lparr>vm_state := Shutdown\<rparr>, (case instance_of v of None \<Rightarrow> w | Some i \<Rightarrow> snd (ve_shutdown e i w)))
      else (v, w))"

section \<open>Snapshots and open resources\<close>

definition format_stream_meta :: "stream_meta \<Rightarrow> string" where
  "format_stream_meta m =
     sm_kind m @ ''('' @ sm_detail m @ '')''
     @ (case sm_creation_site m of
          Some (file, line) \<Rightarrow> '' created at '' @ file @ '':'' @ (if line < 0 then ''-'' else []) @ show_nat (nat \<bar>line\<bar>)
        | None \<Rightarrow> [])
     @ (case sm_test_name m of Some t \<Rightarrow> '' (test \"'' @ t @ ''\")'' | None \<Rightarrow> [])"

definition is_quiescent :: "('i, 'c) vm \<Rightarrow> bool" where
  "is_quiescent v = (vm_open_files v = [] \<and> vm_open_streams v = [])"

definition open_resources :: "('i, 'c) vm \<Rightarrow> vm_error" where
  "open_resources v =
     OpenResources (vm_name v) (length (vm_open_files v)) (length (vm_open_streams v)) (map (format_stream_meta \<circ> snd) (vm_open_streams v))"

definition snapshot :: "('i, 'c, 'w) vmm \<Rightarrow> ('i, 'c) vm \<Rightarrow> string \<Rightarrow> 'w \<Rightarrow> unit outcome \<times> ('i, 'c) vm \<times> 'w" where
  "snapshot e v path w =
     (if \<not> is_quiescent v then (Ret (Inl (open_resources v)), v, w)
      else backend_call [Booted, Paused] ''snapshot'' True (ve_snapshot e path) v w)"

text \<open>Streams are numbered by one counter of the process; the guard's drop takes the number out.\<close>

definition register_stream :: "u64 \<Rightarrow> stream_meta \<Rightarrow> ('i, 'c) vm \<Rightarrow> u64 \<times> u64 \<times> ('i, 'c) vm" where
  "register_stream counter meta v = (counter, counter + 1, v\<lparr>vm_open_streams := tree_insert counter meta (vm_open_streams v)\<rparr>)"

definition drop_stream :: "u64 \<Rightarrow> ('i, 'c) vm \<Rightarrow> ('i, 'c) vm" where
  "drop_stream i v = v\<lparr>vm_open_streams := tree_remove i (vm_open_streams v)\<rparr>"

section \<open>Operations of the machine\<close>

definition wakeup :: "('i, 'c, 'w) vmm \<Rightarrow> ('i, 'c) vm \<Rightarrow> 'w \<Rightarrow> unit outcome \<times> ('i, 'c) vm \<times> 'w" where
  "wakeup e v w = backend_call [Booted] ''wakeup'' False (ve_wakeup e) v w"

definition is_suspended :: "('i, 'c, 'w) vmm \<Rightarrow> ('i, 'c) vm \<Rightarrow> 'w \<Rightarrow> bool outcome \<times> ('i, 'c) vm \<times> 'w" where
  "is_suspended e v w = backend_call [Booted] ''is_suspended'' False (ve_is_suspended e) v w"

definition power_button :: "('i, 'c, 'w) vmm \<Rightarrow> ('i, 'c) vm \<Rightarrow> 'w \<Rightarrow> unit outcome \<times> ('i, 'c) vm \<times> 'w" where
  "power_button e v w =
     (case backend_call [Booted] ''power_button'' False (ve_power_button e) v w of
        (Ret (Inr _), v, w) \<Rightarrow> (Ret (Inr ()), v\<lparr>vm_state := Shutdown, vm_reservation := None\<rparr>, drop_hold e (vm_reservation v) w)
      | r \<Rightarrow> r)"

definition set_link :: "('i, 'c, 'w) vmm \<Rightarrow> ('i, 'c) vm \<Rightarrow> string \<Rightarrow> bool \<Rightarrow> 'w \<Rightarrow> unit outcome \<times> ('i, 'c) vm \<times> 'w" where
  "set_link e v netdev up w = backend_call [Booted, Paused] ''set_link'' True (ve_set_link e netdev up) v w"

definition detach_disk :: "('i, 'c, 'w) vmm \<Rightarrow> ('i, 'c) vm \<Rightarrow> string \<Rightarrow> 'w \<Rightarrow> unit outcome \<times> ('i, 'c) vm \<times> 'w" where
  "detach_disk e v disk_id w = backend_call [Booted, Paused] ''detach_disk'' False (ve_detach_disk e disk_id) v w"

definition power_cut_disk :: "('i, 'c, 'w) vmm \<Rightarrow> ('i, 'c) vm \<Rightarrow> string \<Rightarrow> 'w \<Rightarrow> unit outcome \<times> ('i, 'c) vm \<times> 'w" where
  "power_cut_disk e v disk_id w = backend_call [Booted, Paused] ''power_cut_disk'' False (ve_power_cut_disk e disk_id) v w"

definition set_disk_policy ::
  "('i, 'c, 'w) vmm \<Rightarrow> ('i, 'c) vm \<Rightarrow> string \<Rightarrow> fault_policy \<Rightarrow> 'w \<Rightarrow> unit outcome \<times> ('i, 'c) vm \<times> 'w" where
  "set_disk_policy e v disk_id policy w = backend_call [Booted, Paused] ''set_disk_policy'' False (ve_set_disk_policy e disk_id policy) v w"

definition disk_policy :: "('i, 'c, 'w) vmm \<Rightarrow> ('i, 'c) vm \<Rightarrow> string \<Rightarrow> 'w \<Rightarrow> fault_policy outcome \<times> ('i, 'c) vm \<times> 'w" where
  "disk_policy e v disk_id w = backend_call [Booted, Paused] ''disk_policy'' False (ve_disk_policy e disk_id) v w"

definition attach_disk_live ::
  "('i, 'c, 'w) vmm \<Rightarrow> ('i, 'c) vm \<Rightarrow> disk_attachment \<Rightarrow> bool \<Rightarrow> 'w \<Rightarrow> (vm_error + unit) \<times> ('i, 'c) vm \<times> 'w" where
  "attach_disk_live e v a readonly w =
     (let v = attach_disk_record v a
      in case da_image a of
           None \<Rightarrow> (Inr (), v, w)
         | Some img \<Rightarrow>
             if vm_state v \<notin> {Booted, Paused} then (Inr (), v, w)
             else (case instance_of v of
                     None \<Rightarrow> (Inr (), v, w)
                   | Some i \<Rightarrow>
                       (case ve_attach_disk e (da_id a) img readonly i w of
                          (Inl err, w) \<Rightarrow> (Inl (VmVmm err), maybe_mark_dead_on_vmm_err err v, w)
                        | (Inr _, w) \<Rightarrow> (Inr (), v, w))))"

definition add_bridge_attachment :: "('i, 'c) vm \<Rightarrow> string \<Rightarrow> ('i, 'c) vm" where
  "add_bridge_attachment v b = v\<lparr>vm_bridges := set_insert b (vm_bridges v)\<rparr>"

text \<open>\<open>reset\<close> probes the agent until it answers or the deadline passes; the times are nanoseconds.\<close>

definition RESET_AGENT_TIMEOUT :: nat where "RESET_AGENT_TIMEOUT = 120 * 10 ^ 9"

definition RESET_AGENT_RETRY :: nat where "RESET_AGENT_RETRY = 250 * 10 ^ 6"

partial_function (option) reset_wait :: "('i, 'c, 'w) vmm \<Rightarrow> 'c \<Rightarrow> nat \<Rightarrow> 'w \<Rightarrow> (bool \<times> 'w) option" where
  "reset_wait e c deadline w =
     (let (ok, w1) = ve_ping e c w
      in if ok then Some (True, w1)
         else if deadline \<le> ve_now e w1 then Some (False, w1)
         else reset_wait e c deadline (ve_sleep e RESET_AGENT_RETRY w1))"

definition end_reset_window :: "('i, 'c, 'w) vmm \<Rightarrow> ('i, 'c) vm \<Rightarrow> 'w \<Rightarrow> 'w" where
  "end_reset_window e v w = (case instance_of v of None \<Rightarrow> w | Some i \<Rightarrow> snd (ve_end_reset_window e i w))"

definition vm_reset :: "('i, 'c, 'w) vmm \<Rightarrow> ('i, 'c) vm \<Rightarrow> 'w \<Rightarrow> (unit outcome \<times> ('i, 'c) vm \<times> 'w) option" where
  "vm_reset e v w =
     (case backend_call [Booted] ''reset'' False (ve_reset e) v w of
        (Ret (Inr _), v, w) \<Rightarrow>
          (case vm_running v of
             None \<Rightarrow> Some (Ret (Inl (wrong_state v ''reset'')), v, end_reset_window e v w)
           | Some r \<Rightarrow>
               map_option (\<lambda>(ok, w). ((if ok then Ret (Inr ()) else Ret (Inl (VmClient (Connect TimedOut)))), v, end_reset_window e v w))
                 (reset_wait e (rr_client r) (ve_now e w + RESET_AGENT_TIMEOUT) w))
      | r \<Rightarrow> Some r)"

section \<open>Operations of the agent\<close>

text \<open>
  \<open>with_client\<close>: only a booted VM dispatches, and a failure that means the agent is gone
  makes the VM dead. \<open>f\<close> is the request to the agent client.
\<close>

definition with_client ::
  "string \<Rightarrow> ('c \<Rightarrow> 'w \<Rightarrow> (vm_error + 'r) \<times> 'w) \<Rightarrow> ('i, 'c) vm \<Rightarrow> 'w \<Rightarrow> 'r outcome \<times> ('i, 'c) vm \<times> 'w" where
  "with_client action f v w =
     (if vm_state v \<noteq> Booted then (Ret (Inl (wrong_state v action)), v, w)
      else (case vm_running v of
              None \<Rightarrow> (Panics, v, w)
            | Some res \<Rightarrow>
                (case f (rr_client res) w of
                   (Inl (VmClient ce), w) \<Rightarrow>
                     (Ret (Inl (VmClient ce)), (if is_dead_signal ce then v\<lparr>vm_state := Dead\<rparr> else v), w)
                 | (r, w) \<Rightarrow> (Ret r, v, w))))"

definition vm_open_file ::
  "('c \<Rightarrow> 'w \<Rightarrow> (vm_error + u64) \<times> 'w) \<Rightarrow> ('i, 'c) vm \<Rightarrow> 'w \<Rightarrow> u64 outcome \<times> ('i, 'c) vm \<times> 'w" where
  "vm_open_file f v w =
     (case with_client ''open_file'' f v w of
        (Ret (Inr hnd), v, w) \<Rightarrow> (Ret (Inr hnd), v\<lparr>vm_open_files := set_insert hnd (vm_open_files v)\<rparr>, w)
      | r \<Rightarrow> r)"

definition vm_close_file ::
  "u64 \<Rightarrow> ('c \<Rightarrow> 'w \<Rightarrow> (vm_error + unit) \<times> 'w) \<Rightarrow> ('i, 'c) vm \<Rightarrow> 'w \<Rightarrow> unit outcome \<times> ('i, 'c) vm \<times> 'w" where
  "vm_close_file hnd f v w =
     (case with_client ''close'' f v w of
        (Panics, v, w) \<Rightarrow> (Panics, v, w)
      | (r, v, w) \<Rightarrow> (r, v\<lparr>vm_open_files := set_remove hnd (vm_open_files v)\<rparr>, w))"

definition READ_FILE_MAX_BYTES :: u64 where "READ_FILE_MAX_BYTES = 96 * 1024 * 1024"

text \<open>\<open>read_file\<close> asks for the size first and refuses what would not fit in one frame.\<close>

definition vm_read_file ::
  "string \<Rightarrow> ('c \<Rightarrow> 'w \<Rightarrow> (vm_error + u64) \<times> 'w) \<Rightarrow> ('c \<Rightarrow> 'w \<Rightarrow> (vm_error + bytes) \<times> 'w) \<Rightarrow> ('i, 'c) vm \<Rightarrow> 'w
     \<Rightarrow> bytes outcome \<times> ('i, 'c) vm \<times> 'w" where
  "vm_read_file path stat_size fetch v w =
     (case with_client ''stat'' stat_size v w of
        (Panics, v, w) \<Rightarrow> (Panics, v, w)
      | (Ret (Inr len), v, w) \<Rightarrow>
          if READ_FILE_MAX_BYTES < len
          then (Ret (Inl (VmOs \<lparr>oe_errno = 27, oe_message = ''vm:read_file `'' @ path @ ''`: '' @ show_nat (unat len)
                   @ '' bytes exceeds 96 MiB limit '' @ [CHR 0xE2, CHR 0x80, CHR 0x94] @ '' use vm:tail_file or vm:open_file for chunked reads''\<rparr>)), v, w)
          else with_client ''read_file'' fetch v w
      | (Ret (Inl _), v, w) \<Rightarrow> with_client ''read_file'' fetch v w)"

end
