(* ===== verification/Vm_Machine.thy ===== *)
theory Vm_Machine
  imports Vm_Lifecycle
begin

text \<open>
  The calls on a VM handle as a step relation, the documented state machine that they
  follow, the invariant that ties the resources of the handle to its state, the guards of
  the operations, and what a failed shutdown leaves behind.
\<close>

section \<open>The documented state machine\<close>

inductive vm_edge :: "vm_state \<Rightarrow> vm_state \<Rightarrow> bool" where
  Edge_boot: "vm_edge Created Booted"
| Edge_discard: "vm_edge Created Shutdown"
| Edge_pause: "vm_edge Booted Paused"
| Edge_resume: "vm_edge Paused Booted"
| Edge_death: "s = Booted \<or> s = Paused \<Longrightarrow> vm_edge s Dead"
| Edge_shutdown: "s = Booted \<or> s = Paused \<or> s = Dead \<Longrightarrow> vm_edge s Shutdown"

inductive_simps vm_edge_iff: "vm_edge s t"

definition stays_or_edge :: "vm_state \<Rightarrow> vm_state \<Rightarrow> bool" where
  "stays_or_edge s t \<longleftrightarrow> s = t \<or> vm_edge s t"

section \<open>Calls as steps\<close>

text \<open>
  \<open>Elsewhere\<close> is everything that happens outside the lock, the launch of a boot included:
  a commit may come at any time after it, with any launched instance, so that racing boots
  are covered.
\<close>

inductive vm_step :: "('i, 'c, 'w) vmm \<Rightarrow> ('i, 'c) vm \<times> 'w \<Rightarrow> ('i, 'c) vm \<times> 'w \<Rightarrow> bool" for e where
  Elsewhere: "vm_step e (v, w) (v, w')"
| Merge: "vm_step e (v, w) (snd (merge_boot_opts v ov), w)"
| Boot_prepare: "vm_step e (v, w) (snd (boot_prepare e v w))"
| Boot_commit: "vm_step e (v, w) (snd (boot_commit e r res v w))"
| Restore_commit: "vm_step e (v, w) (snd (restore_commit e r v w))"
| Pause: "vm_step e (v, w) (snd (pause e v w))"
| Resume: "vm_step e (v, w) (snd (resume e v w))"
| Shut: "vm_step e (v, w) (snd (shutdown e v w))"
| Snapshot: "vm_step e (v, w) (snd (snapshot e v path w))"
| Register_stream: "vm_step e (v, w) (snd (snd (register_stream counter meta v)), w)"
| Drop_stream: "vm_step e (v, w) (drop_stream n v, w)"
| Wakeup: "vm_step e (v, w) (snd (wakeup e v w))"
| Is_suspended: "vm_step e (v, w) (snd (is_suspended e v w))"
| Power_button: "vm_step e (v, w) (snd (power_button e v w))"
| Set_link: "vm_step e (v, w) (snd (set_link e v netdev up w))"
| Detach_disk: "vm_step e (v, w) (snd (detach_disk e v d w))"
| Power_cut: "vm_step e (v, w) (snd (power_cut_disk e v d w))"
| Set_policy: "vm_step e (v, w) (snd (set_disk_policy e v d p w))"
| Get_policy: "vm_step e (v, w) (snd (disk_policy e v d w))"
| Attach_disk: "vm_step e (v, w) (snd (attach_disk_live e v a ro w))"
| Add_bridge: "vm_step e (v, w) (add_bridge_attachment v b, w)"
| Reset: "vm_reset e v w = Some (r, s) \<Longrightarrow> vm_step e (v, w) s"
| Client: "vm_step e (v, w) (snd (with_client action (f :: 'c \<Rightarrow> 'w \<Rightarrow> (vm_error + nat) \<times> 'w) v w))"
| Open_file: "vm_step e (v, w) (snd (vm_open_file g v w))"
| Close_file: "vm_step e (v, w) (snd (vm_close_file hnd k v w))"
| Read_file: "vm_step e (v, w) (snd (vm_read_file path sz fetch v w))"

section \<open>Resources and state\<close>

definition vm_live :: "vm_state set" where
  "vm_live = {Booted, Paused, Dead}"

definition vm_ok :: "('i, 'c) vm \<Rightarrow> bool" where
  "vm_ok v \<longleftrightarrow>
     (vm_state v \<in> vm_live \<longrightarrow> vm_running v \<noteq> None)
   \<and> (vm_state v = Created \<longrightarrow> vm_running v = None)
   \<and> (vm_reservation v \<noteq> None \<longrightarrow> vm_state v \<in> vm_live)
   \<and> ordered_set (vm_open_files v) \<and> ordered_map (vm_open_streams v) \<and> ordered_map (vm_disks v) \<and> ordered_set (vm_bridges v)"

text \<open>What one call may do to a handle: it keeps the invariant and takes an edge of the machine.\<close>

definition good_change :: "('i, 'c) vm \<Rightarrow> ('i, 'c) vm \<Rightarrow> bool" where
  "good_change v v' \<longleftrightarrow> stays_or_edge (vm_state v) (vm_state v') \<and> (vm_ok v \<longrightarrow> vm_ok v')"

lemma good_refl [simp]: "good_change v v"
  by (simp add: good_change_def stays_or_edge_def)

lemma good_dead: "vm_state v = Booted \<or> vm_state v = Paused \<Longrightarrow> good_change v (v\<lparr>vm_state := Dead\<rparr>)"
  by (auto simp: good_change_def stays_or_edge_def vm_ok_def vm_live_def intro: vm_edge.intros)

lemma good_mark_dead: "good_change v (maybe_mark_dead_on_vmm_err err v)"
  by (auto simp: maybe_mark_dead_on_vmm_err_def good_dead)

lemma good_backend_call: "good_change v (fst (snd (backend_call legal action expects f v w)))"
  by (auto simp: backend_call_def good_mark_dead split: option.splits sum.splits prod.splits)

lemma backend_call_Ret:
  assumes "backend_call legal action expects f v w = (Ret (Inr x), v', w')"
  shows "v' = v \<and> vm_state v \<in> set legal \<and> instance_of v \<noteq> None"
  using assms by (auto simp: backend_call_def split: if_splits option.splits sum.splits prod.splits)

lemma backend_call_cases:
  obtains (served) x v' w' where "backend_call legal action expects f v w = (Ret (Inr x), v', w')"
  | (refused) err v' w' where "backend_call legal action expects f v w = (Ret (Inl err), v', w')"
  | (panicked) v' w' where "backend_call legal action expects f v w = (Panics, v', w')"
  by (metis old.sum.exhaust outcome.exhaust prod_cases3)

lemma instance_running: "instance_of v \<noteq> None \<Longrightarrow> vm_running v \<noteq> None"
  by (auto simp: instance_of_def split: option.splits)

lemma good_pause: "good_change v (fst (snd (pause e v w)))"
proof (cases rule: backend_call_cases [of "[Booted]" "''pause''" True "ve_pause e" v w])
  case served
  then show ?thesis
    using backend_call_Ret [OF served]
    by (auto simp: pause_def set_state_def good_change_def stays_or_edge_def vm_ok_def vm_live_def intro: vm_edge.intros)
qed (use good_backend_call [of v "[Booted]" "''pause''" True "ve_pause e" w] in \<open>auto simp: pause_def set_state_def\<close>)

lemma good_resume: "good_change v (fst (snd (resume e v w)))"
proof (cases rule: backend_call_cases [of "[Paused]" "''resume''" True "ve_resume e" v w])
  case served
  then show ?thesis
    using backend_call_Ret [OF served]
    by (auto simp: resume_def set_state_def good_change_def stays_or_edge_def vm_ok_def vm_live_def intro: vm_edge.intros)
qed (use good_backend_call [of v "[Paused]" "''resume''" True "ve_resume e" w] in \<open>auto simp: resume_def set_state_def\<close>)

lemma good_power_button: "good_change v (fst (snd (power_button e v w)))"
proof (cases rule: backend_call_cases [of "[Booted]" "''power_button''" False "ve_power_button e" v w])
  case served
  then show ?thesis
    using backend_call_Ret [OF served]
    by (auto simp: power_button_def good_change_def stays_or_edge_def vm_ok_def vm_live_def intro: vm_edge.intros)
qed (use good_backend_call [of v "[Booted]" "''power_button''" False "ve_power_button e" w] in \<open>auto simp: power_button_def\<close>)

lemma vm_sel_take_instance [simp]:
  "vm_state (take_instance v) = vm_state v" "vm_reservation (take_instance v) = vm_reservation v"
  "vm_open_files (take_instance v) = vm_open_files v" "vm_open_streams (take_instance v) = vm_open_streams v"
  "vm_disks (take_instance v) = vm_disks v" "vm_bridges (take_instance v) = vm_bridges v" "vm_name (take_instance v) = vm_name v"
  "vm_running (take_instance v) = None \<longleftrightarrow> vm_running v = None"
  by (simp_all add: take_instance_def)

lemma good_shutdown: "good_change v (fst (snd (shutdown e v w)))"
  by (cases "vm_state v")
    (auto simp: shutdown_def good_change_def stays_or_edge_def vm_ok_def vm_live_def take_instance_def intro: vm_edge.intros
      split: sum.splits prod.splits option.splits)

lemma good_boot_commit: "good_change v (fst (snd (boot_commit e r res v w)))"
  by (auto simp: boot_commit_def good_change_def stays_or_edge_def vm_ok_def vm_live_def intro: vm_edge.intros)

lemma good_restore_commit: "good_change v (fst (snd (restore_commit e r v w)))"
  by (auto simp: restore_commit_def good_change_def stays_or_edge_def vm_ok_def vm_live_def intro: vm_edge.intros)

text \<open>Changes that leave the state, the machine and the reservation alone.\<close>

lemma good_same:
  assumes "vm_state v' = vm_state v" "vm_running v' = vm_running v" "vm_reservation v' = vm_reservation v"
    and "vm_ok v \<Longrightarrow> ordered_set (vm_open_files v') \<and> ordered_map (vm_open_streams v') \<and> ordered_map (vm_disks v') \<and> ordered_set (vm_bridges v')"
  shows "good_change v v'"
  using assms by (auto simp: good_change_def stays_or_edge_def vm_ok_def)

lemma good_attach_record: "good_change v (attach_disk_record v a)"
  by (rule good_same) (auto simp: attach_disk_record_def vm_ok_def)

lemma good_trans_same:
  "good_change v v' \<Longrightarrow> vm_state v' = vm_state v \<Longrightarrow> good_change v' v'' \<Longrightarrow> good_change v v''"
  by (auto simp: good_change_def)

lemma record_disks_state: "vm_state (record_disks e w ds v) = vm_state v"
  by (induction ds arbitrary: v) (auto simp: attach_disk_record_def)

lemma good_record_disks: "good_change v (record_disks e w ds v)"
proof (induction ds arbitrary: v)
  case (Cons d ds)
  let ?a = "\<lparr>da_id = ad_id d, da_size = unwrap_or (ve_file_len e (ad_path d) w) 0, da_image = Some (ad_path d)\<rparr>"
  have "vm_state (attach_disk_record v ?a) = vm_state v" by (simp add: attach_disk_record_def)
  from good_trans_same [OF good_attach_record this Cons.IH] show ?case by simp
qed simp

lemma good_clear_overrides: "good_change v (v\<lparr>vm_overrides := ov\<rparr>)"
  by (rule good_same) (auto simp: vm_ok_def)

lemma good_boot_prepare: "good_change v (fst (snd (boot_prepare e v w)))"
proof -
  have "good_change v (record_disks e w ds (v\<lparr>vm_overrides := None\<rparr>))" for ds
    using good_trans_same [OF good_clear_overrides _ good_record_disks] by simp
  then show ?thesis
    by (auto simp: boot_prepare_def Let_def good_clear_overrides
        split: sum.splits prod.splits reserve_error.splits acquire_error.splits)
qed

lemma good_attach_live: "good_change v (fst (snd (attach_disk_live e v a ro w)))"
proof -
  have st: "vm_state (attach_disk_record v a) = vm_state v" by (simp add: attach_disk_record_def)
  have "good_change v (maybe_mark_dead_on_vmm_err err (attach_disk_record v a))" for err
    using good_trans_same [OF good_attach_record st good_mark_dead] .
  then show ?thesis
    by (auto simp: attach_disk_live_def Let_def good_attach_record split: option.splits sum.splits prod.splits)
qed

lemma with_client_cases:
  "good_change v (fst (snd (with_client action f v w)))"
  "fst (with_client action f v w) = Ret (Inr x) \<Longrightarrow> fst (snd (with_client action f v w)) = v"
  by (auto simp: with_client_def good_dead split: option.splits sum.splits prod.splits vm_error.splits)

lemma good_open_file: "good_change v (fst (snd (vm_open_file g v w)))"
proof -
  obtain r v' w' where call: "with_client ''open_file'' g v w = (r, v', w')" by (metis prod_cases3)
  have "good_change v v'" using with_client_cases(1) [of v "''open_file''" g w] call by simp
  moreover have "good_change v (v\<lparr>vm_open_files := set_insert hnd (vm_open_files v)\<rparr>)" for hnd
    by (rule good_same) (auto simp: vm_ok_def)
  moreover have "v' = v" if "r = Ret (Inr x)" for x
    using with_client_cases(2) [of "''open_file''" g v w x] call that by simp
  ultimately show ?thesis
    by (auto simp: vm_open_file_def call split: outcome.splits sum.splits)
qed

lemma good_close_file: "good_change v (fst (snd (vm_close_file hnd k v w)))"
proof -
  obtain r v' w' where call: "with_client ''close'' k v w = (r, v', w')" by (metis prod_cases3)
  have "good_change v v'" using with_client_cases(1) [of v "''close''" k w] call by simp
  then have "good_change v (v'\<lparr>vm_open_files := set_remove hnd (vm_open_files v')\<rparr>)"
    by (auto simp: good_change_def vm_ok_def)
  with \<open>good_change v v'\<close> show ?thesis
    by (auto simp: vm_close_file_def call split: outcome.splits)
qed

lemma good_read_file: "good_change v (fst (snd (vm_read_file path sz fetch v w)))"
proof -
  obtain r v' w' where call: "with_client ''stat'' sz v w = (r, v', w')" by (metis prod_cases3)
  have good: "good_change v v'" using with_client_cases(1) [of v "''stat''" sz w] call by simp
  have "good_change v (fst (snd (with_client ''read_file'' fetch v' w')))"
  proof (cases "vm_state v' = vm_state v")
    case True
    then show ?thesis using good_trans_same [OF good _ with_client_cases(1)] by simp
  next
    case False
    then have "vm_state v' \<noteq> Booted"
      using call by (auto simp: with_client_def split: if_splits option.splits sum.splits prod.splits vm_error.splits)
    then show ?thesis using good by (simp add: with_client_def)
  qed
  with good show ?thesis
    by (auto simp: vm_read_file_def call split: outcome.splits sum.splits)
qed

lemma good_reset:
  assumes "vm_reset e v w = Some (r, v', w')"
  shows "good_change v v'"
proof (cases rule: backend_call_cases [of "[Booted]" "''reset''" False "ve_reset e" v w])
  case served
  then show ?thesis
    using assms backend_call_Ret [OF served] by (auto simp: vm_reset_def split: option.splits)
qed (use assms good_backend_call [of v "[Booted]" "''reset''" False "ve_reset e" w] in \<open>auto simp: vm_reset_def\<close>)

lemmas good_calls =
  good_pause good_resume good_power_button good_shutdown good_boot_commit good_restore_commit good_boot_prepare
  good_attach_live good_open_file good_close_file good_read_file with_client_cases(1) good_backend_call

lemma vm_step_good:
  assumes "vm_step e s t"
  shows "good_change (fst s) (fst t)"
  using assms
proof (cases rule: vm_step.cases)
  case (Reset v w r)
  then show ?thesis using good_reset [of e v w r "fst t" "snd t"] by simp
next
  case (Merge v ov w)
  then show ?thesis by (auto simp: merge_boot_opts_def Let_def good_clear_overrides)
next
  case (Register_stream v w counter meta)
  then show ?thesis by (auto simp: register_stream_def vm_ok_def intro!: good_same)
next
  case (Drop_stream v w n)
  then show ?thesis by (auto simp: drop_stream_def vm_ok_def intro!: good_same)
next
  case (Add_bridge v w b)
  then show ?thesis by (auto simp: add_bridge_attachment_def vm_ok_def intro!: good_same)
qed (auto simp: good_calls snapshot_def wakeup_def is_suspended_def set_link_def detach_disk_def power_cut_disk_def
    set_disk_policy_def disk_policy_def)

lemma vm_step_ok: "vm_ok (fst s) \<Longrightarrow> vm_step e s t \<Longrightarrow> vm_ok (fst t)"
  using vm_step_good [of e s t] by (simp add: good_change_def)

interpretation vm_calls: step_invariant "vm_step e" "\<lambda>s. vm_ok (fst s)" for e
  by unfold_locales (rule vm_step_ok)

lemma vm_new_ok: "vm_ok (vm_new name pname pf bo has_pool)"
  by (simp add: vm_ok_def vm_new_def vm_live_def)

lemma from_running_ok: "vm_ok (from_running name pname pf bo r)"
  by (simp add: vm_ok_def from_running_def vm_new_def vm_live_def)

section \<open>Runs of the machine\<close>

lemma edges_from: "reaches vm_edge s t \<Longrightarrow>
  (s = Shutdown \<longrightarrow> t = Shutdown) \<and> (s = Dead \<longrightarrow> t \<in> {Dead, Shutdown}) \<and> (s \<noteq> Created \<longrightarrow> t \<noteq> Created)"
  by (induction rule: reaches.induct) (auto simp: vm_edge_iff)

lemma run_follows_edges:
  assumes "reaches (vm_step e) s t"
  shows "reaches vm_edge (vm_state (fst s)) (vm_state (fst t))"
  using assms
proof (induction rule: reaches.induct)
  case (reaches_step s t u)
  from vm_step_good [OF reaches_step.hyps(2)] have "stays_or_edge (vm_state (fst t)) (vm_state (fst u))"
    by (simp add: good_change_def)
  with reaches_step.IH show ?case
    by (auto simp: stays_or_edge_def intro: reaches.reaches_step)
qed (rule reaches.reaches_refl)

section \<open>A reset ends\<close>

text \<open>Sleeping lets at least the slept time pass, and a probe does not set the clock back.\<close>

definition clock_runs :: "('i, 'c, 'w) vmm \<Rightarrow> bool" where
  "clock_runs e \<longleftrightarrow> (\<forall>d w. ve_now e w + d \<le> ve_now e (ve_sleep e d w)) \<and> (\<forall>c w. ve_now e w \<le> ve_now e (snd (ve_ping e c w)))"

lemma reset_wait_returns:
  assumes "clock_runs e"
  shows "reset_wait e c deadline w \<noteq> None"
proof (induction "deadline - ve_now e w" arbitrary: w rule: less_induct)
  case less
  let ?w1 = "snd (ve_ping e c w)"
  let ?w2 = "ve_sleep e RESET_AGENT_RETRY ?w1"
  have "ve_now e w \<le> ve_now e ?w1" and "ve_now e ?w1 + RESET_AGENT_RETRY \<le> ve_now e ?w2"
    using assms by (auto simp: clock_runs_def)
  moreover have "0 < RESET_AGENT_RETRY" by (simp add: RESET_AGENT_RETRY_def)
  ultimately have "reset_wait e c deadline ?w2 \<noteq> None" if "ve_now e ?w1 < deadline"
    using that by (intro less) linarith
  then show ?case
    by (subst reset_wait.simps) (auto simp: Let_def case_prod_beta not_le)
qed

text \<open>A reset returns on a clock that runs, whether the agent comes back or not.\<close>

theorem reset_returns: "clock_runs e \<Longrightarrow> vm_reset e v w \<noteq> None"
  using reset_wait_returns [of e]
  by (auto simp: vm_reset_def split: outcome.splits sum.splits option.splits prod.splits)

section \<open>A backend to run on\<close>

text \<open>A backend that serves everything but a shutdown, and counts the calls that reach it.\<close>

definition served :: "'a \<Rightarrow> nat \<Rightarrow> (vmm_error + 'a) \<times> nat" where
  "served x n = (Inr x, n + 1)"

definition stub_running :: "(unit, unit) launched_vm" where
  "stub_running = \<lparr>vr_cid = 3, vr_instance = (), vr_client = (), vr_console_log = None, vr_console_socket = None\<rparr>"

definition stub_vmm :: "(unit, unit, nat) vmm" where
  "stub_vmm =
     \<lparr>ve_launch = (\<lambda>_ _ _. served stub_running), ve_restore = (\<lambda>_ _ _ _. served stub_running), ve_pause = (\<lambda>_. served ()),
      ve_resume = (\<lambda>_. served ()), ve_snapshot = (\<lambda>_ _. served ()),
      ve_shutdown = (\<lambda>_ n. (Inl (VmmQmp (QmpTimeout 5)), n + 1)), ve_reset = (\<lambda>_. served ()),
      ve_end_reset_window = (\<lambda>_. served ()), ve_power_button = (\<lambda>_. served ()), ve_wakeup = (\<lambda>_. served ()),
      ve_is_suspended = (\<lambda>_. served False), ve_set_link = (\<lambda>_ _ _. served ()), ve_attach_disk = (\<lambda>_ _ _ _. served ()),
      ve_detach_disk = (\<lambda>_ _. served ()), ve_power_cut_disk = (\<lambda>_ _. served ()), ve_set_disk_policy = (\<lambda>_ _ _. served ()),
      ve_disk_policy = (\<lambda>_ _. served policy_default), ve_ping = (\<lambda>_ n. (True, n + 1)), ve_now = (\<lambda>n. n), ve_sleep = (\<lambda>d n. n + d),
      ve_file_len = (\<lambda>_ _. None), ve_reserve = (\<lambda>a n. (Inr (HoldClaim a), n + 1)), ve_release = (\<lambda>_ n. n + 1)\<rparr>"

definition stub_vm :: "(unit, unit) vm" where
  "stub_vm = from_running ''web'' ''peios'' blank_profile boot_opts_default stub_running"

section \<open>Properties\<close>

text \<open>
  C12: whatever calls are made on a VM handle, in any order and with racing boots, and
  whatever the backend and the agent answer, the state only moves along the documented
  state machine. In particular a VM that is shut down stays so, a dead one can only be
  shut down, and none becomes \<open>Created\<close> again.
\<close>

theorem vm_follows_state_machine:
  assumes "reaches (vm_step e) (v, w) (v', w')"
  shows "reaches vm_edge (vm_state v) (vm_state v')
    \<and> (vm_state v = Shutdown \<longrightarrow> vm_state v' = Shutdown)
    \<and> (vm_state v = Dead \<longrightarrow> vm_state v' \<in> {Dead, Shutdown})
    \<and> (vm_state v \<noteq> Created \<longrightarrow> vm_state v' \<noteq> Created)"
proof -
  have run: "reaches vm_edge (vm_state v) (vm_state v')"
    using run_follows_edges [OF assms] by simp
  then show ?thesis using edges_from [OF run] by blast
qed

theorem vm_follows_state_machine_witness:
  "vm_state (fst (snd (pause stub_vmm stub_vm 0))) = Paused \<and> reaches vm_edge Booted Paused"
proof -
  have step: "reaches (vm_step stub_vmm) (stub_vm, 0) (snd (pause stub_vmm stub_vm 0))"
    by (rule reaches.reaches_step, rule reaches.reaches_refl, rule Pause)
  have state: "vm_state (fst (snd (pause stub_vmm stub_vm 0))) = Paused" and "vm_state stub_vm = Booted"
    by code_simp+
  then show ?thesis
    using vm_follows_state_machine [of stub_vmm stub_vm 0 "fst (snd (pause stub_vmm stub_vm 0))" "snd (snd (pause stub_vmm stub_vm 0))"]
      step by simp
qed

text \<open>
  C34: the resources of a handle follow its state: a VM that is booted, paused or dead has
  its running resources, one that was never booted has none, and a pool reservation is
  held only while the VM is booted, paused or dead, so a shutdown gives it back; the
  tables of open files, streams and disks stay in order.
\<close>

theorem vm_resources_follow_state:
  assumes "reaches (vm_step e) (vm_new name pname pf bo has_pool, w0) (v, w)"
  shows "(vm_state v \<in> {Booted, Paused, Dead} \<longrightarrow> vm_running v \<noteq> None)
    \<and> (vm_state v = Created \<longrightarrow> vm_running v = None)
    \<and> (vm_reservation v \<noteq> None \<longrightarrow> vm_state v \<in> {Booted, Paused, Dead})
    \<and> ordered_set (vm_open_files v) \<and> ordered_map (vm_open_streams v) \<and> ordered_map (vm_disks v)"
proof -
  have "vm_ok v"
    using vm_calls.reaches_keeps [OF assms] vm_new_ok [of name pname pf bo has_pool] by simp
  then show ?thesis unfolding vm_ok_def vm_live_def by (elim conjE) (intro conjI)
qed

theorem vm_resources_follow_state_witness:
  "vm_reservation (fst (snd (boot_commit stub_vmm stub_running (Some (HoldClaim (amt 7 1))) (vm_new ''web'' ''peios'' blank_profile boot_opts_default True) 0)))
     = Some (HoldClaim (amt 7 1))
   \<and> vm_running (fst (snd (boot_commit stub_vmm stub_running (Some (HoldClaim (amt 7 1))) (vm_new ''web'' ''peios'' blank_profile boot_opts_default True) 0))) \<noteq> None"
proof -
  let ?v = "vm_new ''web'' ''peios'' blank_profile boot_opts_default True :: (unit, unit) vm"
  let ?s = "snd (boot_commit stub_vmm stub_running (Some (HoldClaim (amt 7 1))) ?v 0)"
  have "reaches (vm_step stub_vmm) (?v, 0) ?s"
    by (rule reaches.reaches_step, rule reaches.reaches_refl, rule Boot_commit)
  then have "vm_state (fst ?s) \<in> {Booted, Paused, Dead} \<longrightarrow> vm_running (fst ?s) \<noteq> None"
    using vm_resources_follow_state [of stub_vmm "''web''" "''peios''" blank_profile boot_opts_default True 0 "fst ?s" "snd ?s"] by simp
  then show ?thesis
    by (simp add: boot_commit_def vm_new_def)
qed



text \<open>
  when the backend fails to shut a VM down, the error is reported but the instance is
  gone from the handle while the state and the pool reservation stay. In the booted state
  a pause, a snapshot or a link change then panics instead of failing; a second shutdown
  succeeds without a call to the backend and releases the reservation.
\<close>

theorem failed_shutdown_leaves_shell:
  assumes "vm_state v = Booted" and "instance_of v = Some i" and "ve_shutdown e i w = (Inl err, w1)" and "is_quiescent v"
  shows "shutdown e v w = (Inl (VmVmm err), take_instance v, w1)
    \<and> vm_state (take_instance v) = Booted \<and> vm_reservation (take_instance v) = vm_reservation v
    \<and> fst (pause e (take_instance v) w1) = Panics
    \<and> fst (snapshot e (take_instance v) path w1) = Panics
    \<and> fst (set_link e (take_instance v) netdev up w1) = Panics
    \<and> shutdown e (take_instance v) w1
        = (Inr (), (take_instance v)\<lparr>vm_state := Shutdown, vm_reservation := None\<rparr>, drop_hold e (vm_reservation v) w1)"
proof -
  have gone: "instance_of (take_instance v) = None"
    by (simp add: instance_of_def take_instance_def split: option.splits)
  have twice: "take_instance (take_instance v) = take_instance v"
    by (cases "vm_running v") (simp_all add: take_instance_def)
  show ?thesis
    using assms gone twice
    by (simp add: shutdown_def pause_def snapshot_def set_link_def backend_call_def set_state_def is_quiescent_def)
qed

theorem failed_shutdown_leaves_shell_witness:
  "fst (shutdown stub_vmm stub_vm 0) = Inl (VmVmm (VmmQmp (QmpTimeout 5)))
   \<and> fst (pause stub_vmm (fst (snd (shutdown stub_vmm stub_vm 0))) 1) = Panics"
proof -
  have "vm_state stub_vm = Booted" "instance_of stub_vm = Some ()" "is_quiescent stub_vm"
    by code_simp+
  moreover have "ve_shutdown stub_vmm () 0 = (Inl (VmmQmp (QmpTimeout 5)), 1)"
    by (simp add: stub_vmm_def)
  ultimately show ?thesis
    using failed_shutdown_leaves_shell [of stub_vm "()" stub_vmm 0 _ 1] by auto
qed

end
