(* ===== verification/Qmp_Calls.thy ===== *)
theory Qmp_Calls
  imports Qmp_Client
begin

text \<open>
  The threads on one monitor connection: any number of concurrent calls of
  \<open>execute_timeout\<close>, the reader thread, and the thread that closes or drops the
  connection. A step is one section of code under one lock, one system call, or one send
  on a reply channel; the steps of different threads interleave freely. A shutdown (which
  the reader, a failed sender and the closer run) is four stages: the writer slot, the
  log, the pending calls, and one send for each call that was pending.
\<close>

section \<open>Threads\<close>

datatype call_pc =
    Fresh
  | Refused qmp_error
  | Allocated string string
  | Sending string string
  | Writing string string
  | Releasing string string "qmp_error option"
  | Abandoning string string qmp_error
  | Awaiting string string
  | Returned string string "qmp_error + json"
  | Panicked

datatype thread = Call nat | Reader | Closer

datatype stage = StageWriter | StageLog | StagePending | StageSends "nat list"

datatype reader_pc = Reading | Delivering nat raw_response | ReaderDone

record qmp_sys =
  sy_conn :: qmp_conn
  sy_call :: "nat \<Rightarrow> call_pc"
  sy_reader :: reader_pc
  sy_shut :: "thread \<Rightarrow> (string \<times> stage) option"
  sy_closing :: bool
  sy_issued :: nat
  sy_replies :: "(string \<times> raw_response) list"
  sy_drained :: bool

text \<open>
  The last three are auxiliary: how many ids have been given out, which responses the
  reader has taken off the wire for which id, and whether some shutdown has emptied the
  table of pending calls.
\<close>

definition sys_new :: qmp_sys where
  "sys_new = \<lparr>sy_conn = conn_new, sy_call = (\<lambda>_. Fresh), sy_reader = Reading, sy_shut = (\<lambda>_. None), sy_closing = False,
              sy_issued = 0, sy_replies = [], sy_drained = False\<rparr>"

definition set_pc :: "nat \<Rightarrow> call_pc \<Rightarrow> qmp_sys \<Rightarrow> qmp_sys" where
  "set_pc c pc s = s\<lparr>sy_call := (sy_call s)(c := pc)\<rparr>"

definition set_shut :: "thread \<Rightarrow> (string \<times> stage) option \<Rightarrow> qmp_sys \<Rightarrow> qmp_sys" where
  "set_shut t x s = s\<lparr>sy_shut := (sy_shut s)(t := x)\<rparr>"

definition on_conn :: "(qmp_conn \<Rightarrow> qmp_conn) \<Rightarrow> qmp_sys \<Rightarrow> qmp_sys" where
  "on_conn f s = s\<lparr>sy_conn := f (sy_conn s)\<rparr>"

text \<open>The receiver of a channel lives until its call returns; a send to it waits while the one slot of the channel is taken.\<close>

fun receiving :: "call_pc \<Rightarrow> bool" where
  "receiving (Returned _ _ _) = False"
| "receiving Panicked = False"
| "receiving Fresh = False"
| "receiving (Refused _) = False"
| "receiving _ = True"

definition can_send :: "nat \<Rightarrow> qmp_sys \<Rightarrow> bool" where
  "can_send c s = (\<not> receiving (sy_call s c) \<or> length (qc_chan (sy_conn s) c) < 1)"

definition reply_send :: "nat \<Rightarrow> raw_response \<Rightarrow> qmp_sys \<Rightarrow> qmp_sys" where
  "reply_send c r s = (if receiving (sy_call s c) then on_conn (chan_send c r) s else s)"

definition has_sender :: "nat \<Rightarrow> qmp_sys \<Rightarrow> bool" where
  "has_sender c s =
     ((\<exists>i cmd. (i, cmd, c) \<in> set (qc_pending (sy_conn s))) \<or> (\<exists>r. sy_reader s = Delivering c r)
      \<or> (\<exists>t reason cs. sy_shut s t = Some (reason, StageSends cs) \<and> c \<in> set cs))"

text \<open>The errors of a call that do not come from a reply: time-outs, I/O and encoding.\<close>

fun local_error :: "qmp_error \<Rightarrow> bool" where
  "local_error (QmpCommand _ _ _) = False"
| "local_error _ = True"

inductive qmp_step :: "(string \<Rightarrow> string + json) \<Rightarrow> qmp_sys \<Rightarrow> qmp_sys \<Rightarrow> bool" for from_str where
  begin_expired:
    "sy_call s c = Fresh \<Longrightarrow> local_error e \<Longrightarrow> qmp_step from_str s (set_pc c (Refused e) s)"
| begin_call:
    "sy_call s c = Fresh \<Longrightarrow> allocate_id (sy_conn s) = (i, q) \<Longrightarrow>
     qmp_step from_str s (set_pc c (Allocated cmd i) (s\<lparr>sy_conn := q, sy_issued := sy_issued s + 1\<rparr>))"
| register:
    "sy_call s c = Allocated cmd i \<Longrightarrow>
     qmp_step from_str s (set_pc c (Sending cmd i) (on_conn (register_call cmd i c) s))"
| gate_fail:
    "sy_call s c = Sending cmd i \<Longrightarrow> writer_gate timeout now (sy_conn s) = GateFail e \<Longrightarrow>
     qmp_step from_str s (set_pc c (Abandoning cmd i e) s)"
| gate_pass:
    "sy_call s c = Sending cmd i \<Longrightarrow> writer_gate timeout now (sy_conn s) = GatePass \<Longrightarrow>
     qmp_step from_str s (if qc_stream (sy_conn s) then set_pc c (Writing cmd i) (on_conn take_stream s) else set_pc c Panicked s)"
| write_ok:
    "sy_call s c = Writing cmd i \<Longrightarrow> qmp_step from_str s (set_pc c (Releasing cmd i None) s)"
| write_fail:
    "sy_call s c = Writing cmd i \<Longrightarrow> local_error e \<Longrightarrow>
     qmp_step from_str s (set_shut (Call c) (Some (''QMP send failed or timed out'', StageWriter)) (set_pc c (Releasing cmd i (Some e)) s))"
| release:
    "sy_call s c = Releasing cmd i eo \<Longrightarrow> sy_shut s (Call c) = None \<Longrightarrow>
     qmp_step from_str s (set_pc c (case eo of Some e \<Rightarrow> Abandoning cmd i e | None \<Rightarrow> Awaiting cmd i) (on_conn release_writer s))"
| abandon:
    "sy_call s c = Abandoning cmd i e \<Longrightarrow> qmp_step from_str s (set_pc c (Returned cmd i (Inl e)) (on_conn (forget_call i) s))"
| wait_expired:
    "sy_call s c = Awaiting cmd i \<Longrightarrow> qmp_step from_str s (set_pc c (Abandoning cmd i (QmpTimeout timeout)) s)"
| receive:
    "sy_call s c = Awaiting cmd i \<Longrightarrow> qc_chan (sy_conn s) c = r # rs \<Longrightarrow>
     qmp_step from_str s (set_pc c (Returned cmd i (reply_result cmd r)) (on_conn (chan_recv c) s))"
| disconnected:
    "sy_call s c = Awaiting cmd i \<Longrightarrow> qc_chan (sy_conn s) c = [] \<Longrightarrow> \<not> has_sender c s \<Longrightarrow>
     qmp_step from_str s (set_pc c (Returned cmd i (Inl (QmpClosed ''response channel disconnected''))) s)"
| read_line_in:
    "sy_reader s = Reading \<Longrightarrow> handle_line from_str line (sy_conn s) = (None, None, q) \<Longrightarrow>
     qmp_step from_str s (s\<lparr>sy_conn := q\<rparr>)"
| read_reply_in:
    "sy_reader s = Reading \<Longrightarrow> handle_line from_str line (sy_conn s) = (None, Some (i, c, r), q) \<Longrightarrow>
     qmp_step from_str s (s\<lparr>sy_conn := q, sy_reader := Delivering c r, sy_replies := (i, r) # sy_replies s\<rparr>)"
| read_teardown:
    "sy_reader s = Reading \<Longrightarrow> handle_line from_str line (sy_conn s) = (Some reason, x, q) \<Longrightarrow>
     qmp_step from_str s (set_shut Reader (Some (reason, StageWriter)) (s\<lparr>sy_conn := q, sy_reader := ReaderDone\<rparr>))"
| reader_delivers:
    "sy_reader s = Delivering c r \<Longrightarrow> can_send c s \<Longrightarrow> qmp_step from_str s (reply_send c r (s\<lparr>sy_reader := Reading\<rparr>))"
| reader_ends:
    "sy_reader s = Reading \<Longrightarrow> reason \<in> {''peer closed connection'', ''reader I/O error''} \<Longrightarrow>
     qmp_step from_str s (set_shut Reader (Some (reason, StageWriter)) (s\<lparr>sy_reader := ReaderDone\<rparr>))"
| closer_starts:
    "\<not> sy_closing s \<Longrightarrow> reason \<in> {''explicit close'', ''Qmp dropped without close()''} \<Longrightarrow>
     qmp_step from_str s (set_shut Closer (Some (reason, StageWriter)) (s\<lparr>sy_closing := True\<rparr>))"
| shut_writer:
    "sy_shut s t = Some (reason, StageWriter) \<Longrightarrow>
     qmp_step from_str s (set_shut t (Some (reason, StageLog)) (on_conn close_writer s))"
| shut_log:
    "sy_shut s t = Some (reason, StageLog) \<Longrightarrow>
     qmp_step from_str s (set_shut t (Some (reason, StagePending)) (on_conn (close_log reason) s))"
| shut_pending:
    "sy_shut s t = Some (reason, StagePending) \<Longrightarrow> drain_pending (sy_conn s) = (cs, q) \<Longrightarrow>
     qmp_step from_str s (set_shut t (Some (reason, StageSends cs)) (s\<lparr>sy_conn := q, sy_drained := True\<rparr>))"
| shut_send:
    "sy_shut s t = Some (reason, StageSends cs) \<Longrightarrow> c \<in> set cs \<Longrightarrow> can_send c s \<Longrightarrow>
     qmp_step from_str s (set_shut t (Some (reason, StageSends (remove1 c cs))) (reply_send c (RClosed reason) s))"
| shut_over:
    "sy_shut s t = Some (reason, StageSends []) \<Longrightarrow> qmp_step from_str s (set_shut t None s)"

section \<open>The invariant\<close>

text \<open>
  Where the right to answer a call is: in the table of pending calls, with the reader, with
  a thread that shuts the connection down, or used up by an answer in the channel.
\<close>

datatype holder = Nobody | InTable | WithReader | WithShutdown thread | InChannel

fun id_of :: "call_pc \<Rightarrow> string option" where
  "id_of (Allocated _ i) = Some i"
| "id_of (Sending _ i) = Some i"
| "id_of (Writing _ i) = Some i"
| "id_of (Releasing _ i _) = Some i"
| "id_of (Abandoning _ i _) = Some i"
| "id_of (Awaiting _ i) = Some i"
| "id_of (Returned _ i _) = Some i"
| "id_of _ = None"

fun command_of :: "call_pc \<Rightarrow> string option" where
  "command_of (Allocated cmd _) = Some cmd"
| "command_of (Sending cmd _) = Some cmd"
| "command_of (Writing cmd _) = Some cmd"
| "command_of (Releasing cmd _ _) = Some cmd"
| "command_of (Abandoning cmd _ _) = Some cmd"
| "command_of (Awaiting cmd _) = Some cmd"
| "command_of (Returned cmd _ _) = Some cmd"
| "command_of _ = None"

fun registered :: "call_pc \<Rightarrow> bool" where
  "registered (Sending _ _) = True"
| "registered (Writing _ _) = True"
| "registered (Releasing _ _ _) = True"
| "registered (Abandoning _ _ _) = True"
| "registered (Awaiting _ _) = True"
| "registered _ = False"

fun holds_writer :: "call_pc \<Rightarrow> bool" where
  "holds_writer (Writing _ _) = True"
| "holds_writer (Releasing _ _ _) = True"
| "holds_writer _ = False"

fun not_past_gate :: "call_pc \<Rightarrow> bool" where
  "not_past_gate (Sending _ _) = True"
| "not_past_gate (Abandoning _ _ _) = True"
| "not_past_gate _ = False"

fun send_failed :: "call_pc \<Rightarrow> bool" where
  "send_failed (Releasing _ _ (Some _)) = True"
| "send_failed _ = False"

fun expects_reply :: "call_pc \<Rightarrow> bool" where
  "expects_reply (Sending _ _) = True"
| "expects_reply (Writing _ _) = True"
| "expects_reply (Releasing _ _ _) = True"
| "expects_reply (Awaiting _ _) = True"
| "expects_reply _ = False"

definition ids_ok :: "qmp_sys \<Rightarrow> bool" where
  "ids_ok s =
     (qc_next_id (sy_conn s) = of_nat (Suc (sy_issued s))
      \<and> (\<forall>c i. id_of (sy_call s c) = Some i \<longrightarrow> (\<exists>n. 0 < n \<and> n \<le> sy_issued s \<and> i = request_id (of_nat n)))
      \<and> (\<forall>c d i. id_of (sy_call s c) = Some i \<longrightarrow> id_of (sy_call s d) = Some i \<longrightarrow> c = d)
      \<and> (\<forall>c. sy_call s c \<noteq> Panicked))"

definition table_ok :: "qmp_sys \<Rightarrow> bool" where
  "table_ok s =
     (distinct (map fst (qc_pending (sy_conn s)))
      \<and> (\<forall>i cmd c. (i, cmd, c) \<in> set (qc_pending (sy_conn s)) \<longrightarrow>
           id_of (sy_call s c) = Some i \<and> command_of (sy_call s c) = Some cmd \<and> registered (sy_call s c)))"

definition writer_ok :: "qmp_sys \<Rightarrow> bool" where
  "writer_ok s =
     ((\<not> qc_busy (sy_conn s) \<and> \<not> qc_writer_closed (sy_conn s) \<longrightarrow> qc_stream (sy_conn s))
      \<and> (\<forall>c. holds_writer (sy_call s c) \<longrightarrow> qc_busy (sy_conn s))
      \<and> (\<forall>c d. holds_writer (sy_call s c) \<longrightarrow> holds_writer (sy_call s d) \<longrightarrow> c = d))"

definition in_table :: "qmp_sys \<Rightarrow> nat \<Rightarrow> bool" where
  "in_table s c = (\<exists>i cmd. (i, cmd, c) \<in> set (qc_pending (sy_conn s)))"

definition in_sends :: "qmp_sys \<Rightarrow> thread \<Rightarrow> nat \<Rightarrow> bool" where
  "in_sends s t c = (\<exists>reason cs. sy_shut s t = Some (reason, StageSends cs) \<and> c \<in> set cs)"

fun held :: "qmp_sys \<Rightarrow> nat \<Rightarrow> holder \<Rightarrow> bool" where
  "held s c Nobody = True"
| "held s c InTable = in_table s c"
| "held s c WithReader = (\<exists>r. sy_reader s = Delivering c r)"
| "held s c (WithShutdown t) = in_sends s t c"
| "held s c InChannel = (qc_chan (sy_conn s) c \<noteq> [])"

fun not_registered :: "call_pc \<Rightarrow> bool" where
  "not_registered Fresh = True"
| "not_registered (Refused _) = True"
| "not_registered (Allocated _ _) = True"
| "not_registered Panicked = True"
| "not_registered _ = False"

text \<open>What must hold of one call with holder \<open>x\<close>.\<close>

definition holder_fits :: "qmp_sys \<Rightarrow> nat \<Rightarrow> holder \<Rightarrow> bool" where
  "holder_fits s c x =
     ((\<forall>y. y \<noteq> Nobody \<longrightarrow> held s c y = (x = y)) \<and> length (qc_chan (sy_conn s) c) \<le> 1
      \<and> (expects_reply (sy_call s c) \<longrightarrow> x \<noteq> Nobody)
      \<and> (not_registered (sy_call s c) \<longrightarrow> x = Nobody))"

definition sends_distinct :: "qmp_sys \<Rightarrow> bool" where
  "sends_distinct s = (\<forall>t reason cs. sy_shut s t = Some (reason, StageSends cs) \<longrightarrow> distinct cs)"

definition holders_ok :: "(nat \<Rightarrow> holder) \<Rightarrow> qmp_sys \<Rightarrow> bool" where
  "holders_ok h s = ((\<forall>c. holder_fits s c (h c)) \<and> sends_distinct s)"

text \<open>A thread runs a shutdown only from the places in the code that call it.\<close>

definition shut_ok :: "qmp_sys \<Rightarrow> bool" where
  "shut_ok s =
     ((\<forall>c. sy_shut s (Call c) \<noteq> None \<longrightarrow> send_failed (sy_call s c))
      \<and> (sy_shut s Reader \<noteq> None \<longrightarrow> sy_reader s = ReaderDone)
      \<and> (sy_shut s Closer \<noteq> None \<longrightarrow> sy_closing s))"

definition answered :: "qmp_sys \<Rightarrow> nat \<Rightarrow> raw_response \<Rightarrow> bool" where
  "answered s c r = (\<exists>i. id_of (sy_call s c) = Some i \<and> (i, r) \<in> set (sy_replies s))"

definition replies_ok :: "qmp_sys \<Rightarrow> bool" where
  "replies_ok s =
     ((\<forall>c r. sy_reader s = Delivering c r \<longrightarrow> answered s c r)
      \<and> (\<forall>c r. r \<in> set (qc_chan (sy_conn s) c) \<longrightarrow> answered s c r \<or> (\<exists>reason. r = RClosed reason))
      \<and> (\<forall>c cmd i r. sy_call s c = Returned cmd i (reply_result cmd r) \<longrightarrow> (\<forall>reason. r \<noteq> RClosed reason) \<longrightarrow> (i, r) \<in> set (sy_replies s))
      \<and> (\<forall>c cmd i e. sy_call s c = Abandoning cmd i e \<or> sy_call s c = Releasing cmd i (Some e) \<longrightarrow> local_error e))"

definition closing_ok :: "qmp_sys \<Rightarrow> bool" where
  "closing_ok s =
     ((\<forall>t reason st. sy_shut s t = Some (reason, st) \<longrightarrow> st \<noteq> StageWriter \<longrightarrow> qc_writer_closed (sy_conn s))
      \<and> (sy_drained s \<longrightarrow> qc_writer_closed (sy_conn s)
           \<and> (\<forall>i cmd c. (i, cmd, c) \<in> set (qc_pending (sy_conn s)) \<longrightarrow>
                not_past_gate (sy_call s c))))"

definition sys_ok :: "qmp_sys \<Rightarrow> bool" where
  "sys_ok s = (ids_ok s \<and> table_ok s \<and> writer_ok s \<and> shut_ok s \<and> (\<exists>h. holders_ok h s) \<and> replies_ok s \<and> closing_ok s)"


section \<open>Every step keeps the invariant\<close>

lemmas sys_simps = set_pc_def set_shut_def on_conn_def reply_send_def register_call_def forget_call_def take_stream_def
  release_writer_def close_writer_def close_log_def drain_pending_def allocate_id_def chan_send_def chan_recv_def
  pending_insert_def pending_remove_def

lemma show_nat_digits: "show_nat n = ds \<Longrightarrow> foldl (\<lambda>a c. 10 * a + (byte_of c - 48)) 0 ds = n"
proof (induction n arbitrary: ds rule: show_nat.induct)
  case (1 n)
  have digit: "byte_of (char_of (48 + m)) - 48 = m" if "m < 10" for m :: nat
    using that by (simp add: byte_of_def)
  show ?case
  proof (cases "n < 10")
    case True
    then show ?thesis using "1.prems" digit [of n] by (auto simp: show_nat.simps [of n])
  next
    case False
    have "foldl (\<lambda>a c. 10 * a + (byte_of c - 48)) 0 (show_nat (n div 10)) = n div 10" using "1.IH" [OF False refl] .
    then show ?thesis using "1.prems" False digit [of "n mod 10"] by (auto simp: show_nat.simps [of n])
  qed
qed

lemma show_nat_inj: "show_nat m = show_nat n \<Longrightarrow> m = n"
  using show_nat_digits by metis

lemma request_id_inj: "m < 2 ^ 64 \<Longrightarrow> n < 2 ^ 64 \<Longrightarrow> request_id (of_nat m) = request_id (of_nat n) \<Longrightarrow> m = n"
  by (auto simp: request_id_def unat_of_nat dest!: show_nat_inj)

lemma handle_line_cases:
  assumes "handle_line from_str line q = (a, x, q')"
  shows "a = None \<and> (x = None \<and> (q' = q \<or> (\<exists>ev. q' = q\<lparr>qc_events := qc_events q @ [ev]\<rparr>))
           \<or> (\<exists>i cmd c v. map_of (qc_pending q) i = Some (cmd, c) \<and> x = Some (i, c, response_of cmd v) \<and> q' = forget_call i q))"
proof (cases "trim line = []")
  case False
  show ?thesis
  proof (cases "from_str (trim line)")
    case (Inr v)
    show ?thesis
    proof (cases "json_get v ''event'' = None")
      case True
      then show ?thesis
        using assms False Inr by (cases "get_str v ''id''"; cases "map_of (qc_pending q) (the (get_str v ''id''))") (auto simp: handle_line_def)
    qed (use assms False Inr in \<open>auto simp: handle_line_def split: option.splits\<close>)
  qed (use assms False in \<open>auto simp: handle_line_def\<close>)
qed (use assms in \<open>auto simp: handle_line_def\<close>)

lemma writer_gate_pass: "writer_gate timeout now q = GatePass \<Longrightarrow> \<not> qc_busy q \<and> \<not> qc_writer_closed q"
  by (auto simp: writer_gate_def split: if_splits sum.splits)

lemma writer_gate_fail: "writer_gate timeout now q = GateFail e \<Longrightarrow> local_error e"
  by (auto simp: writer_gate_def budget_remaining_def budget_expired_def split: if_splits sum.splits)

text \<open>What a step that is not the start of a call leaves of the numbering of calls.\<close>

lemma ids_frame:
  "ids_ok s \<Longrightarrow> qc_next_id (sy_conn t) = qc_next_id (sy_conn s) \<Longrightarrow> sy_issued t = sy_issued s \<Longrightarrow>
   \<forall>d. id_of (sy_call t d) = id_of (sy_call s d) \<and> (sy_call t d = Panicked \<longrightarrow> sy_call s d = Panicked) \<Longrightarrow> ids_ok t"
  by (auto simp: ids_ok_def)

definition same_ids :: "qmp_sys \<Rightarrow> qmp_sys \<Rightarrow> bool" where
  "same_ids s t = (qc_next_id (sy_conn t) = qc_next_id (sy_conn s) \<and> sy_issued t = sy_issued s \<and>
     (\<forall>d. id_of (sy_call t d) = id_of (sy_call s d) \<and> (sy_call t d = Panicked \<longrightarrow> sy_call s d = Panicked)))"

lemma step_ids:
  assumes "qmp_step from_str s t" and "writer_ok s"
  shows "same_ids s t \<or> (\<exists>c cmd. sy_call s c = Fresh \<and>
     t = set_pc c (Allocated cmd (request_id (qc_next_id (sy_conn s))))
           (s\<lparr>sy_conn := (sy_conn s)\<lparr>qc_next_id := qc_next_id (sy_conn s) + 1\<rparr>, sy_issued := sy_issued s + 1\<rparr>))"
  using assms(1)
proof (cases rule: qmp_step.cases)
  case (begin_call c i q cmd)
  then show ?thesis by (auto simp: allocate_id_def)
next
  case (gate_pass c cmd i timeout now)
  then show ?thesis using assms(2) writer_gate_pass [OF gate_pass(3)] by (simp add: writer_ok_def same_ids_def sys_simps)
next
  case (read_line_in line q)
  then show ?thesis using handle_line_cases [OF read_line_in(3)] by (auto simp: same_ids_def)
next
  case (read_reply_in line i c r q)
  then show ?thesis using handle_line_cases [OF read_reply_in(3)] by (auto simp: same_ids_def sys_simps)
next
  case (read_teardown line reason x q)
  then show ?thesis using handle_line_cases [OF read_teardown(3)] by simp
next
  case (release c cmd i eo)
  then show ?thesis by (cases eo) (simp_all add: same_ids_def sys_simps)
qed (simp_all add: same_ids_def sys_simps)

lemma ids_ok_step:
  assumes step: "qmp_step from_str s t" and ok: "ids_ok s" "writer_ok s" and bound: "sy_issued t < 2 ^ 64"
  shows "ids_ok t"
  using step_ids [OF step ok(2)]
proof
  assume "same_ids s t"
  then show ?thesis using ids_frame [OF ok(1)] by (simp add: same_ids_def)
next
  assume "\<exists>c cmd. sy_call s c = Fresh \<and>
     t = set_pc c (Allocated cmd (request_id (qc_next_id (sy_conn s))))
           (s\<lparr>sy_conn := (sy_conn s)\<lparr>qc_next_id := qc_next_id (sy_conn s) + 1\<rparr>, sy_issued := sy_issued s + 1\<rparr>)"
  then obtain c cmd where t: "sy_call s c = Fresh"
    "t = set_pc c (Allocated cmd (request_id (qc_next_id (sy_conn s))))
           (s\<lparr>sy_conn := (sy_conn s)\<lparr>qc_next_id := qc_next_id (sy_conn s) + 1\<rparr>, sy_issued := sy_issued s + 1\<rparr>)"
    by blast
  have next_id: "qc_next_id (sy_conn s) = of_nat (Suc (sy_issued s))" using ok(1) by (simp add: ids_ok_def)
  have used: "\<exists>n>0. n \<le> sy_issued s \<and> j = request_id (of_nat n)" if "id_of (sy_call s d) = Some j" for d j
    using ok(1) that by (simp add: ids_ok_def)
  have fresh: "id_of (sy_call s d) \<noteq> Some (request_id (of_nat (Suc (sy_issued s))))" for d
  proof
    assume "id_of (sy_call s d) = Some (request_id (of_nat (Suc (sy_issued s))))"
    then obtain n where "0 < n" "n \<le> sy_issued s" "request_id (of_nat (Suc (sy_issued s))) = request_id (of_nat n)"
      using used by blast
    moreover have "Suc (sy_issued s) < 2 ^ 64" using bound t by (simp add: set_pc_def)
    ultimately show False using request_id_inj [of "Suc (sy_issued s)" n] by linarith
  qed
  have ids: "id_of (sy_call t d) = (if d = c then Some (request_id (of_nat (Suc (sy_issued s)))) else id_of (sy_call s d))" for d
    using t next_id by (simp add: set_pc_def)
  have uniq: "d = d'" if "id_of (sy_call s d) = Some j" "id_of (sy_call s d') = Some j" for d d' j
    using ok(1) that by (simp add: ids_ok_def)
  show ?thesis unfolding ids_ok_def
  proof (intro conjI allI impI)
    show "qc_next_id (sy_conn t) = of_nat (Suc (sy_issued t))" using t next_id by (simp add: set_pc_def)
  next
    fix d j assume "id_of (sy_call t d) = Some j"
    then show "\<exists>n>0. n \<le> sy_issued t \<and> j = request_id (of_nat n)"
      using ids [of d] used [of d j] t by (auto simp: set_pc_def split: if_splits intro: le_SucI)
  next
    fix d d' j assume "id_of (sy_call t d) = Some j" "id_of (sy_call t d') = Some j"
    then show "d = d'" using ids [of d] ids [of d'] fresh uniq by (metis (full_types))
  next
    fix d show "sy_call t d \<noteq> Panicked" using ok(1) t by (simp add: ids_ok_def set_pc_def)
  qed
qed

lemma held_unique: "holders_ok h s \<Longrightarrow> held s c x \<Longrightarrow> held s c y \<Longrightarrow> x \<noteq> Nobody \<Longrightarrow> y \<noteq> Nobody \<Longrightarrow> x = y"
  by (auto simp: holders_ok_def holder_fits_def)

lemma table_frame:
  "table_ok s \<Longrightarrow> set (qc_pending (sy_conn t)) \<subseteq> set (qc_pending (sy_conn s)) \<Longrightarrow> distinct (map fst (qc_pending (sy_conn t))) \<Longrightarrow>
   \<forall>i cmd c. (i, cmd, c) \<in> set (qc_pending (sy_conn t)) \<longrightarrow> registered (sy_call s c) \<longrightarrow>
     id_of (sy_call t c) = id_of (sy_call s c) \<and> command_of (sy_call t c) = command_of (sy_call s c) \<and> registered (sy_call t c) \<Longrightarrow>
   table_ok t"
  unfolding table_ok_def by (metis subsetD)

lemma table_distinct: "table_ok s \<Longrightarrow> distinct (map fst (qc_pending (sy_conn s)))"
  by (simp add: table_ok_def)

lemma tableD:
  "table_ok s \<Longrightarrow> (i, cmd, c) \<in> set (qc_pending (sy_conn s)) \<Longrightarrow>
   id_of (sy_call s c) = Some i \<and> command_of (sy_call s c) = Some cmd \<and> registered (sy_call s c)"
  by (simp add: table_ok_def)

lemma distinct_map_fst_filter: "distinct (map fst xs) \<Longrightarrow> distinct (map fst (filter P xs))"
  by (induction xs) auto

lemma table_ok_step:
  assumes step: "qmp_step from_str s t" and ok: "ids_ok s" "table_ok s" "writer_ok s" and h: "holders_ok h s"
  shows "table_ok t"
  using step
proof (cases rule: qmp_step.cases)
  case (register c cmd i)
  have "(j, cmd', d) \<in> set (qc_pending (sy_conn s)) \<Longrightarrow> d \<noteq> c" for j cmd' d
    using register by (auto dest: tableD [OF ok(2)])
  then show ?thesis using ok(2) register
    by (auto simp: table_ok_def sys_simps distinct_map_fst_filter)
next
  case (abandon c cmd i e)
  have "(j, cmd', c) \<in> set (qc_pending (sy_conn s)) \<Longrightarrow> j = i" for j cmd'
    using abandon by (auto dest: tableD [OF ok(2)])
  then show ?thesis using abandon table_distinct [OF ok(2)]
    by (intro table_frame [OF ok(2)]) (auto simp: sys_simps distinct_map_fst_filter)
next
  case (receive c cmd i r rs)
  have "held s c InChannel" using receive by simp
  then have "\<not> held s c InTable" using held_unique [OF h, of c InChannel InTable] by blast
  then have "(j, cmd', c) \<notin> set (qc_pending (sy_conn s))" for j cmd' by (simp add: in_table_def)
  then show ?thesis using receive table_distinct [OF ok(2)]
    by (intro table_frame [OF ok(2)]) (auto simp: sys_simps)
next
  case (disconnected c cmd i)
  then show ?thesis using table_distinct [OF ok(2)]
    by (intro table_frame [OF ok(2)]) (auto simp: sys_simps has_sender_def)
next
  case (gate_pass c cmd i timeout now)
  then show ?thesis using ok(3) writer_gate_pass [OF gate_pass(3)] table_distinct [OF ok(2)]
    by (intro table_frame [OF ok(2)]) (auto simp: sys_simps writer_ok_def)
next
  case (begin_call c i q cmd)
  then show ?thesis using table_distinct [OF ok(2)]
    by (intro table_frame [OF ok(2)]) (auto simp: sys_simps)
next
  case (read_line_in line q)
  then show ?thesis using handle_line_cases [OF read_line_in(3)] table_distinct [OF ok(2)]
    by (intro table_frame [OF ok(2)]) auto
next
  case (read_reply_in line i c r q)
  then show ?thesis using handle_line_cases [OF read_reply_in(3)] table_distinct [OF ok(2)]
    by (intro table_frame [OF ok(2)]) (auto simp: sys_simps distinct_map_fst_filter)
next
  case (read_teardown line reason x q)
  then show ?thesis using handle_line_cases [OF read_teardown(3)] by simp
next
  case (release c cmd i eo)
  then show ?thesis using table_distinct [OF ok(2)]
    by (intro table_frame [OF ok(2)]; cases eo) (auto simp: sys_simps)
next
  case (shut_pending u reason cs q)
  then show ?thesis by (auto simp: table_ok_def sys_simps)
qed (use table_distinct [OF ok(2)] in \<open>(intro table_frame [OF ok(2)]; auto simp: sys_simps)+\<close>)

lemma writer_frame:
  "writer_ok s \<Longrightarrow> qc_busy (sy_conn t) = qc_busy (sy_conn s) \<Longrightarrow> qc_writer_closed (sy_conn t) = qc_writer_closed (sy_conn s) \<Longrightarrow>
   qc_stream (sy_conn t) = qc_stream (sy_conn s) \<Longrightarrow> \<forall>c. holds_writer (sy_call t c) = holds_writer (sy_call s c) \<Longrightarrow> writer_ok t"
  by (simp add: writer_ok_def)

lemma writer_ok_step:
  assumes step: "qmp_step from_str s t" and ok: "writer_ok s"
  shows "writer_ok t"
  using step
proof (cases rule: qmp_step.cases)
  case (gate_pass c cmd i timeout now)
  have "\<not> holds_writer (sy_call s d)" for d using ok writer_gate_pass [OF gate_pass(3)] by (auto simp: writer_ok_def)
  then show ?thesis using ok gate_pass writer_gate_pass [OF gate_pass(3)] by (auto simp: writer_ok_def sys_simps)
next
  case (release c cmd i eo)
  have "d = c" if "holds_writer (sy_call s d)" for d using that ok release by (simp add: writer_ok_def)
  then show ?thesis using release by (cases eo) (auto simp: writer_ok_def sys_simps)
next
  case (read_line_in line q)
  then show ?thesis using handle_line_cases [OF read_line_in(3)] ok by (auto simp: writer_ok_def)
next
  case (read_reply_in line i c r q)
  then show ?thesis using handle_line_cases [OF read_reply_in(3)] ok by (auto simp: writer_ok_def sys_simps)
next
  case (read_teardown line reason x q)
  then show ?thesis using handle_line_cases [OF read_teardown(3)] by simp
next
  case (begin_call c i q cmd)
  then show ?thesis by (intro writer_frame [OF ok]) (auto simp: sys_simps)
next
  case (shut_writer u reason)
  then show ?thesis using ok by (simp add: writer_ok_def sys_simps)
next
  case (shut_pending u reason cs q)
  then show ?thesis by (intro writer_frame [OF ok]) (auto simp: sys_simps)
qed (intro writer_frame [OF ok]; simp add: sys_simps)+

lemma shut_frame:
  "shut_ok s \<Longrightarrow> \<forall>c. sy_shut t (Call c) \<noteq> None \<longrightarrow> sy_shut s (Call c) \<noteq> None \<and> (send_failed (sy_call s c) \<longrightarrow> send_failed (sy_call t c)) \<Longrightarrow>
   (sy_shut t Reader \<noteq> None \<longrightarrow> sy_shut s Reader \<noteq> None \<and> sy_reader t = sy_reader s \<or> sy_reader t = ReaderDone) \<Longrightarrow>
   (sy_shut t Closer \<noteq> None \<longrightarrow> sy_shut s Closer \<noteq> None \<and> sy_closing t = sy_closing s \<or> sy_closing t) \<Longrightarrow> shut_ok t"
  unfolding shut_ok_def by metis

lemma shut_ok_step:
  assumes step: "qmp_step from_str s t" and ok: "shut_ok s" "writer_ok s"
  shows "shut_ok t"
  using step
proof (cases rule: qmp_step.cases)
  case (gate_pass c cmd i timeout now)
  then show ?thesis using ok(2) writer_gate_pass [OF gate_pass(3)]
    by (intro shut_frame [OF ok(1)]) (auto simp: sys_simps writer_ok_def)
next
  case (release c cmd i eo)
  then show ?thesis by (intro shut_frame [OF ok(1)]) (auto simp: sys_simps)
next
  case (write_fail c cmd i e)
  then show ?thesis using ok(1) by (auto simp: shut_ok_def sys_simps)
next
  case (read_reply_in line i c r q)
  then show ?thesis using ok(1) by (intro shut_frame [OF ok(1)]) (auto simp: shut_ok_def)
next
  case (reader_delivers c r)
  then show ?thesis using ok(1) by (intro shut_frame [OF ok(1)]) (auto simp: shut_ok_def sys_simps)
next
  case (read_teardown line reason x q)
  then show ?thesis using handle_line_cases [OF read_teardown(3)] by simp
next
  case (reader_ends reason)
  then show ?thesis by (intro shut_frame [OF ok(1)]) (simp_all add: sys_simps)
next
  case (closer_starts reason)
  then show ?thesis by (intro shut_frame [OF ok(1)]) (simp_all add: sys_simps)
qed (intro shut_frame [OF ok(1)]; auto simp: sys_simps)+

lemma closing_frame:
  "closing_ok s \<Longrightarrow> (qc_writer_closed (sy_conn s) \<longrightarrow> qc_writer_closed (sy_conn t)) \<Longrightarrow> (sy_drained t \<longrightarrow> sy_drained s) \<Longrightarrow>
   \<forall>u reason st. sy_shut t u = Some (reason, st) \<and> st \<noteq> StageWriter \<longrightarrow>
     qc_writer_closed (sy_conn t) \<or> (\<exists>reason' st'. sy_shut s u = Some (reason', st') \<and> st' \<noteq> StageWriter) \<Longrightarrow>
   \<forall>i cmd c. (i, cmd, c) \<in> set (qc_pending (sy_conn t)) \<longrightarrow>
     (i, cmd, c) \<in> set (qc_pending (sy_conn s)) \<and> (not_past_gate (sy_call s c) \<and> qc_writer_closed (sy_conn s) \<longrightarrow> not_past_gate (sy_call t c))
     \<or> not_past_gate (sy_call t c) \<Longrightarrow> closing_ok t"
  unfolding closing_ok_def by metis

lemma closing_ok_step:
  assumes step: "qmp_step from_str s t" and ok: "closing_ok s" "writer_ok s" "table_ok s"
  shows "closing_ok t"
  using step
proof (cases rule: qmp_step.cases)
  case (gate_pass c cmd i timeout now)
  then show ?thesis using ok(2) writer_gate_pass [OF gate_pass(3)]
    by (intro closing_frame [OF ok(1)]) (auto simp: sys_simps writer_ok_def)
next
  case (abandon c cmd i e)
  have "(j, cmd', c) \<in> set (qc_pending (sy_conn s)) \<Longrightarrow> j = i" for j cmd'
    using abandon by (auto dest: tableD [OF ok(3)])
  then show ?thesis using abandon by (intro closing_frame [OF ok(1)]) (auto simp: sys_simps)
next
  case (read_line_in line q)
  then show ?thesis using handle_line_cases [OF read_line_in(3)] by (intro closing_frame [OF ok(1)]) auto
next
  case (read_reply_in line i c r q)
  then show ?thesis using handle_line_cases [OF read_reply_in(3)] by (intro closing_frame [OF ok(1)]) (auto simp: sys_simps)
next
  case (read_teardown line reason x q)
  then show ?thesis using handle_line_cases [OF read_teardown(3)] by simp
next
  case (shut_pending u reason cs q)
  have "qc_writer_closed (sy_conn s)" using ok(1) shut_pending unfolding closing_ok_def by (metis stage.distinct(3))
  then show ?thesis using shut_pending by (auto simp: closing_ok_def sys_simps)
next
  case (begin_call c i q cmd)
  then show ?thesis by (intro closing_frame [OF ok(1)]) (auto simp: sys_simps dest!: tableD [OF ok(3)])
next
  case (release c cmd i eo)
  then show ?thesis by (intro closing_frame [OF ok(1)]) (auto simp: sys_simps)
next
  case (register c cmd i)
  then show ?thesis by (intro closing_frame [OF ok(1)]) (auto simp: sys_simps)
qed (intro closing_frame [OF ok(1)]; auto simp: sys_simps)+

lemma reply_result_inj: "reply_result cmd r = reply_result cmd r' \<Longrightarrow> r = r'"
  by (cases r; cases r') (simp_all add: reply_result_def)

lemma reply_result_local: "reply_result cmd r = Inl e \<Longrightarrow> local_error e \<Longrightarrow> \<exists>reason. r = RClosed reason"
  by (cases r) (auto simp: reply_result_def)

lemma step_answered:
  assumes "qmp_step from_str s t" "writer_ok s" "answered s c r"
  shows "answered t c r"
proof -
  obtain i where i: "id_of (sy_call s c) = Some i" "(i, r) \<in> set (sy_replies s)" using assms(3) by (auto simp: answered_def)
  have "id_of (sy_call t c) = Some i" using step_ids [OF assms(1,2)] i(1) by (auto simp: same_ids_def set_pc_def)
  moreover have "set (sy_replies s) \<subseteq> set (sy_replies t)"
    using assms(1) by (cases rule: qmp_step.cases) (auto simp: sys_simps)
  ultimately show ?thesis using i(2) by (auto simp: answered_def)
qed

text \<open>The frame of a step that neither takes a reply off the wire nor ends a call.\<close>

lemma replies_frame:
  assumes ok: "replies_ok s" and mono: "\<And>c r. answered s c r \<Longrightarrow> answered t c r"
    and reader: "\<And>c r. sy_reader t = Delivering c r \<Longrightarrow> sy_reader s = Delivering c r \<or> answered t c r"
    and chan: "\<And>c r. r \<in> set (qc_chan (sy_conn t) c) \<Longrightarrow> r \<in> set (qc_chan (sy_conn s) c) \<or> answered t c r \<or> (\<exists>reason. r = RClosed reason)"
    and ret: "\<And>c cmd i r. sy_call t c = Returned cmd i (reply_result cmd r) \<Longrightarrow> \<forall>reason. r \<noteq> RClosed reason \<Longrightarrow>
                sy_call s c = Returned cmd i (reply_result cmd r) \<and> set (sy_replies s) \<subseteq> set (sy_replies t) \<or> (i, r) \<in> set (sy_replies t)"
    and err: "\<And>c cmd i e. sy_call t c = Abandoning cmd i e \<or> sy_call t c = Releasing cmd i (Some e) \<Longrightarrow>
                local_error e \<or> sy_call s c = Abandoning cmd i e \<or> sy_call s c = Releasing cmd i (Some e)"
  shows "replies_ok t"
  unfolding replies_ok_def
proof (intro conjI allI impI)
  fix c r assume "sy_reader t = Delivering c r"
  then show "answered t c r" using reader mono ok unfolding replies_ok_def by blast
next
  fix c r assume "r \<in> set (qc_chan (sy_conn t) c)"
  then show "answered t c r \<or> (\<exists>reason. r = RClosed reason)" using chan mono ok unfolding replies_ok_def by blast
next
  fix c cmd i r assume "sy_call t c = Returned cmd i (reply_result cmd r)" "\<forall>reason. r \<noteq> RClosed reason"
  then show "(i, r) \<in> set (sy_replies t)" using ret ok unfolding replies_ok_def by blast
next
  fix c cmd i e assume "sy_call t c = Abandoning cmd i e \<or> sy_call t c = Releasing cmd i (Some e)"
  then show "local_error e" using err ok unfolding replies_ok_def by blast
qed

lemma replies_ok_step:
  assumes step: "qmp_step from_str s t" and ok: "replies_ok s" "writer_ok s" "table_ok s"
  shows "replies_ok t"
  using step
proof (cases rule: qmp_step.cases)
  case (read_reply_in line i c r q)
  obtain cmd where "map_of (qc_pending (sy_conn s)) i = Some (cmd, c)" and q: "q = forget_call i (sy_conn s)"
    using handle_line_cases [OF read_reply_in(3)] by auto
  then have "id_of (sy_call s c) = Some i" using tableD [OF ok(3) map_of_SomeD] by blast
  then show ?thesis using read_reply_in q
    by (intro replies_frame [OF ok(1) step_answered [OF step ok(2)]]) (auto simp: sys_simps answered_def)
next
  case (read_line_in line q)
  then show ?thesis using handle_line_cases [OF read_line_in(3)]
    by (intro replies_frame [OF ok(1) step_answered [OF step ok(2)]]) auto
next
  case (read_teardown line reason x q)
  then show ?thesis using handle_line_cases [OF read_teardown(3)] by simp
next
  case (reader_delivers c r)
  have "answered t c r" using ok(1) reader_delivers step_answered [OF step ok(2)] by (auto simp: replies_ok_def)
  then show ?thesis using reader_delivers
    by (intro replies_frame [OF ok(1) step_answered [OF step ok(2)]]) (auto simp: sys_simps split: if_splits)
next
  case (shut_send u reason cs c)
  then show ?thesis
    by (intro replies_frame [OF ok(1) step_answered [OF step ok(2)]]) (auto simp: sys_simps split: if_splits)
next
  case (receive c cmd i r rs)
  have "answered s c r \<or> (\<exists>reason. r = RClosed reason)" using ok(1) receive by (auto simp: replies_ok_def)
  then have "(i, r) \<in> set (sy_replies s) \<or> (\<exists>reason. r = RClosed reason)" using receive by (auto simp: answered_def)
  then show ?thesis using receive
    by (intro replies_frame [OF ok(1) step_answered [OF step ok(2)]])
      (auto simp: sys_simps split: if_splits dest!: reply_result_inj dest: list.set_sel(2))
next
  case (abandon c cmd i e)
  have "local_error e" using ok(1) abandon by (auto simp: replies_ok_def)
  then show ?thesis using abandon
    by (intro replies_frame [OF ok(1) step_answered [OF step ok(2)]])
      (auto simp: sys_simps split: if_splits dest!: reply_result_local [OF sym])
next
  case (disconnected c cmd i)
  then show ?thesis
    by (intro replies_frame [OF ok(1) step_answered [OF step ok(2)]])
      (auto simp: sys_simps split: if_splits dest!: reply_result_local [OF sym])
next
  case (gate_fail c cmd i timeout now e)
  then show ?thesis using writer_gate_fail [OF gate_fail(3)]
    by (intro replies_frame [OF ok(1) step_answered [OF step ok(2)]]) (auto simp: sys_simps split: if_splits)
next
  case (release c cmd i eo)
  then show ?thesis
    by (intro replies_frame [OF ok(1) step_answered [OF step ok(2)]]) (auto simp: sys_simps split: if_splits option.splits)
qed (intro replies_frame [OF ok(1) step_answered [OF step ok(2)]]; auto simp: sys_simps split: if_splits)+

definition same_call :: "qmp_sys \<Rightarrow> qmp_sys \<Rightarrow> nat \<Rightarrow> bool" where
  "same_call s t c =
     (in_table t c = in_table s c \<and> (\<exists>r. sy_reader t = Delivering c r) = (\<exists>r. sy_reader s = Delivering c r)
      \<and> (\<forall>u. in_sends t u c = in_sends s u c) \<and> qc_chan (sy_conn t) c = qc_chan (sy_conn s) c
      \<and> (expects_reply (sy_call t c) \<longrightarrow> expects_reply (sy_call s c)) \<and> (not_registered (sy_call t c) \<longrightarrow> not_registered (sy_call s c)))"

lemma same_call_fits: "same_call s t c \<Longrightarrow> holder_fits s c x \<Longrightarrow> holder_fits t c x"
proof -
  assume same: "same_call s t c" and fits: "holder_fits s c x"
  have "held t c y = held s c y" for y using same by (cases y) (auto simp: same_call_def)
  then show "holder_fits t c x" using same fits by (simp add: holder_fits_def same_call_def)
qed

lemma holders_frame: "holders_ok h s \<Longrightarrow> \<forall>c. same_call s t c \<Longrightarrow> sends_distinct t \<Longrightarrow> holders_ok h t"
  using same_call_fits unfolding holders_ok_def by blast

lemma holders_local:
  "holders_ok h s \<Longrightarrow> \<forall>d. d \<noteq> c \<longrightarrow> same_call s t d \<Longrightarrow> holder_fits t c y \<Longrightarrow> sends_distinct t \<Longrightarrow> holders_ok (h(c := y)) t"
  by (auto simp: holders_ok_def intro: same_call_fits)

text \<open>The holder of one call, read off the state.\<close>

lemma fitsI:
  assumes "in_table t c = (x = InTable)" "(\<exists>r. sy_reader t = Delivering c r) = (x = WithReader)"
    "\<And>u. in_sends t u c = (x = WithShutdown u)" "(qc_chan (sy_conn t) c \<noteq> []) = (x = InChannel)" "length (qc_chan (sy_conn t) c) \<le> 1"
    "expects_reply (sy_call t c) \<Longrightarrow> x \<noteq> Nobody" "not_registered (sy_call t c) \<Longrightarrow> x = Nobody"
  shows "holder_fits t c x"
proof -
  have "held t c y = (x = y)" if "y \<noteq> Nobody" for y using assms(1-4) that by (cases y) auto
  then show ?thesis using assms(5-7) by (auto simp: holder_fits_def)
qed

lemma fitsD:
  assumes "holders_ok h s"
  shows "in_table s c = (h c = InTable)" "(\<exists>r. sy_reader s = Delivering c r) = (h c = WithReader)"
    "in_sends s u c = (h c = WithShutdown u)" "(qc_chan (sy_conn s) c = []) = (h c \<noteq> InChannel)" "length (qc_chan (sy_conn s) c) \<le> 1"
    "expects_reply (sy_call s c) \<Longrightarrow> h c \<noteq> Nobody" "not_registered (sy_call s c) \<Longrightarrow> h c = Nobody"
proof -
  have fits: "holder_fits s c (h c)" using assms by (simp add: holders_ok_def)
  then have held: "y \<noteq> Nobody \<Longrightarrow> held s c y = (h c = y)" for y by (simp add: holder_fits_def)
  show "in_table s c = (h c = InTable)" "(\<exists>r. sy_reader s = Delivering c r) = (h c = WithReader)"
    "in_sends s u c = (h c = WithShutdown u)" "(qc_chan (sy_conn s) c = []) = (h c \<noteq> InChannel)"
    using held [of InTable] held [of WithReader] held [of "WithShutdown u"] held [of InChannel] by auto
  show "length (qc_chan (sy_conn s) c) \<le> 1" "expects_reply (sy_call s c) \<Longrightarrow> h c \<noteq> Nobody" "not_registered (sy_call s c) \<Longrightarrow> h c = Nobody"
    using fits by (auto simp: holder_fits_def)
qed

lemma sends_distinct_frame:
  "sends_distinct s \<Longrightarrow> \<forall>u reason cs. sy_shut t u = Some (reason, StageSends cs) \<longrightarrow> (\<exists>r. sy_shut s u = Some (r, StageSends cs)) \<or> distinct cs
   \<Longrightarrow> sends_distinct t"
  unfolding sends_distinct_def by metis

lemmas token_simps = same_call_def in_table_def in_sends_def sys_simps

lemma register_holders:
  assumes ok: "holders_ok h s" "table_ok s" "ids_ok s" and c: "sy_call s c = Allocated cmd i"
  shows "holders_ok (h(c := InTable)) (set_pc c (Sending cmd i) (on_conn (register_call cmd i c) s))" (is "holders_ok _ ?t")
proof (rule holders_local [OF ok(1)])
  have other: "d = c" if "(i, cmd', d) \<in> set (qc_pending (sy_conn s))" for cmd' d
  proof -
    have "id_of (sy_call s d) = Some i" using tableD [OF ok(2) that] by simp
    moreover have "id_of (sy_call s c) = Some i" using c by simp
    ultimately show ?thesis using ok(3) unfolding ids_ok_def by blast
  qed
  show "\<forall>d. d \<noteq> c \<longrightarrow> same_call s ?t d"
    by (auto simp: token_simps dest: other)
  have "h c = Nobody" using fitsD(7) [OF ok(1), of c] c by simp
  then show "holder_fits ?t c InTable"
    using fitsD(2,4) [OF ok(1), of c] fitsD(3) [OF ok(1), of _ c] by (intro fitsI) (auto simp: token_simps)
  show "sends_distinct ?t" using ok(1) by (simp add: holders_ok_def sends_distinct_def sys_simps)
qed

lemma abandon_holders:
  assumes ok: "holders_ok h s" "table_ok s" "ids_ok s" and c: "sy_call s c = Abandoning cmd i e"
  shows "\<exists>h. holders_ok h (set_pc c (Returned cmd i (Inl e)) (on_conn (forget_call i) s))" (is "\<exists>h. holders_ok h ?t")
proof -
  have other: "d = c" if "(i, cmd', d) \<in> set (qc_pending (sy_conn s))" for cmd' d
  proof -
    have "id_of (sy_call s d) = Some i" using tableD [OF ok(2) that] by simp
    moreover have "id_of (sy_call s c) = Some i" using c by simp
    ultimately show ?thesis using ok(3) unfolding ids_ok_def by blast
  qed
  have own: "j = i" if "(j, cmd', c) \<in> set (qc_pending (sy_conn s))" for j cmd'
    using tableD [OF ok(2) that] c by simp
  have "holders_ok (h(c := (if h c = InTable then Nobody else h c))) ?t"
  proof (rule holders_local [OF ok(1)])
    show "\<forall>d. d \<noteq> c \<longrightarrow> same_call s ?t d" by (auto simp: token_simps dest: other)
    show "holder_fits ?t c (if h c = InTable then Nobody else h c)"
      using fitsD(2,4,5) [OF ok(1), of c] fitsD(3) [OF ok(1), of _ c] by (intro fitsI) (auto simp: token_simps dest: own)
    show "sends_distinct ?t" using ok(1) by (simp add: holders_ok_def sends_distinct_def sys_simps)
  qed
  then show ?thesis by blast
qed

lemma receive_holders:
  assumes ok: "holders_ok h s" and c: "sy_call s c = Awaiting cmd i" "qc_chan (sy_conn s) c = r # rs"
  shows "holders_ok (h(c := Nobody)) (set_pc c (Returned cmd i x) (on_conn (chan_recv c) s))" (is "holders_ok _ ?t")
proof (rule holders_local [OF ok])
  have hc: "h c = InChannel" using fitsD(4) [OF ok, of c] c by simp
  have rs: "rs = []" using fitsD(5) [OF ok, of c] c by simp
  show "\<forall>d. d \<noteq> c \<longrightarrow> same_call s ?t d" by (auto simp: token_simps)
  show "holder_fits ?t c Nobody"
    using hc rs c fitsD(1,2) [OF ok, of c] fitsD(3) [OF ok, of _ c] by (intro fitsI) (auto simp: token_simps)
  show "sends_distinct ?t" using ok by (simp add: holders_ok_def sends_distinct_def sys_simps)
qed

lemma taken_holders:
  assumes ok: "holders_ok h s" "table_ok s" and r: "sy_reader s = Reading" and p: "map_of (qc_pending (sy_conn s)) i = Some (cmd, c)"
  shows "holders_ok (h(c := WithReader)) (s\<lparr>sy_conn := forget_call i (sy_conn s), sy_reader := Delivering c x, sy_replies := rep\<rparr>)"
    (is "holders_ok _ ?t")
proof (rule holders_local [OF ok(1)])
  have entry: "(i, cmd, c) \<in> set (qc_pending (sy_conn s))" using p by (rule map_of_SomeD)
  have own: "j = i" if "(j, cmd', c) \<in> set (qc_pending (sy_conn s))" for j cmd'
    using tableD [OF ok(2) that] tableD [OF ok(2) entry] by simp
  have other: "d = c" if "(i, cmd', d) \<in> set (qc_pending (sy_conn s))" for cmd' d
    using map_of_is_SomeI [OF table_distinct [OF ok(2)] that] p by simp
  have hc: "h c = InTable" using fitsD(1) [OF ok(1), of c] entry by (auto simp: in_table_def)
  show "\<forall>d. d \<noteq> c \<longrightarrow> same_call s ?t d" using r by (auto simp: token_simps dest: other)
  have "registered (sy_call s c)" using tableD [OF ok(2) entry] by simp
  then have "\<not> not_registered (sy_call s c)" by (cases "sy_call s c") auto
  then show "holder_fits ?t c WithReader"
    using hc fitsD(4) [OF ok(1), of c] fitsD(3) [OF ok(1), of _ c] by (intro fitsI) (auto simp: token_simps dest: own)
  show "sends_distinct ?t" using ok(1) by (simp add: holders_ok_def sends_distinct_def sys_simps)
qed

lemma delivered_holders:
  assumes ok: "holders_ok h s" and r: "sy_reader s = Delivering c r"
  shows "\<exists>h. holders_ok h (reply_send c r (s\<lparr>sy_reader := Reading\<rparr>))" (is "\<exists>h. holders_ok h ?t")
proof -
  have hc: "h c = WithReader" using fitsD(2) [OF ok, of c] r by simp
  have empty: "qc_chan (sy_conn s) c = []" using fitsD(4) [OF ok, of c] hc by simp
  have new: "\<not> not_registered (sy_call s c)" using fitsD(7) [OF ok, of c] hc by auto
  have quiet: "\<not> receiving (sy_call s c) \<Longrightarrow> \<not> expects_reply (sy_call s c)" by (cases "sy_call s c") auto
  have "holders_ok (h(c := (if receiving (sy_call s c) then InChannel else Nobody))) ?t"
  proof (rule holders_local [OF ok])
    show "\<forall>d. d \<noteq> c \<longrightarrow> same_call s ?t d" using r by (auto simp: token_simps)
    show "holder_fits ?t c (if receiving (sy_call s c) then InChannel else Nobody)"
      using hc empty new quiet fitsD(1) [OF ok, of c] fitsD(3) [OF ok, of _ c]
      by (cases "receiving (sy_call s c)"; intro fitsI) (auto simp: token_simps)
    show "sends_distinct ?t" using ok by (simp add: holders_ok_def sends_distinct_def sys_simps)
  qed
  then show ?thesis by blast
qed

lemma shut_send_holders:
  assumes ok: "holders_ok h s" and u: "sy_shut s u = Some (reason, StageSends cs)" "c \<in> set cs"
  shows "\<exists>h. holders_ok h (set_shut u (Some (reason, StageSends (remove1 c cs))) (reply_send c r s))" (is "\<exists>h. holders_ok h ?t")
proof -
  have dist: "distinct cs" using ok u by (simp add: holders_ok_def sends_distinct_def)
  have hc: "h c = WithShutdown u" using fitsD(3) [OF ok, of u c] u by (auto simp: in_sends_def)
  have empty: "qc_chan (sy_conn s) c = []" using fitsD(4) [OF ok, of c] hc by simp
  have new: "\<not> not_registered (sy_call s c)" using fitsD(7) [OF ok, of c] hc by auto
  have quiet: "\<not> receiving (sy_call s c) \<Longrightarrow> \<not> expects_reply (sy_call s c)" by (cases "sy_call s c") auto
  have elsewhere: "\<not> in_sends s v c" if "v \<noteq> u" for v using fitsD(3) [OF ok, of v c] hc that by auto
  have gone: "\<not> in_sends ?t v c" for v
    using elsewhere [of v] dist by (cases "v = u") (auto simp: in_sends_def sys_simps)
  have "holders_ok (h(c := (if receiving (sy_call s c) then InChannel else Nobody))) ?t"
  proof (rule holders_local [OF ok])
    show "\<forall>d. d \<noteq> c \<longrightarrow> same_call s ?t d" using u dist by (auto simp: token_simps)
    show "holder_fits ?t c (if receiving (sy_call s c) then InChannel else Nobody)"
      using hc empty new quiet gone fitsD(1,2) [OF ok, of c]
      by (cases "receiving (sy_call s c)"; intro fitsI) (auto simp: in_table_def sys_simps)
    show "sends_distinct ?t" using ok dist by (auto simp: holders_ok_def sends_distinct_def sys_simps)
  qed
  then show ?thesis by blast
qed

lemma drained_holders:
  assumes ok: "holders_ok h s" "table_ok s" and u: "sy_shut s u = Some (reason, StagePending)" and d: "drain_pending (sy_conn s) = (cs, q)"
  shows "\<exists>h. holders_ok h (set_shut u (Some (reason, StageSends cs)) (s\<lparr>sy_conn := q, sy_drained := True\<rparr>))" (is "\<exists>h. holders_ok h ?t")
proof -
  have cs: "c \<in> set cs \<longleftrightarrow> in_table s c" for c using d by (force simp: drain_pending_def in_table_def)
  have q: "q = (sy_conn s)\<lparr>qc_pending := []\<rparr>" using d by (simp add: drain_pending_def)
  have "inj_on (snd \<circ> snd) (set (qc_pending (sy_conn s)))"
    by (rule inj_onI) (force dest!: tableD [OF ok(2)])
  moreover have "distinct (qc_pending (sy_conn s))" using table_distinct [OF ok(2)] by (simp add: distinct_map)
  ultimately have dist: "distinct cs" using d by (auto simp: drain_pending_def distinct_map)
  have sends: "in_sends ?t v c \<longleftrightarrow> in_sends s v c \<or> v = u \<and> in_table s c" for v c
    using u cs by (auto simp: in_sends_def sys_simps)
  have "holder_fits ?t c (if h c = InTable then WithShutdown u else h c)" for c
    using fitsD(1,2,4,5,6,7) [OF ok(1), of c] fitsD(3) [OF ok(1), of _ c] sends [of _ c] q
    by (intro fitsI) (auto simp: in_table_def sys_simps)
  moreover have "sends_distinct ?t" using ok(1) dist by (auto simp: holders_ok_def sends_distinct_def sys_simps)
  ultimately show ?thesis unfolding holders_ok_def by (intro exI [of _ "\<lambda>c. if h c = InTable then WithShutdown u else h c"]) blast
qed

lemma shutD:
  "shut_ok s \<Longrightarrow> \<not> send_failed (sy_call s c) \<Longrightarrow> sy_shut s (Call c) = None"
  "shut_ok s \<Longrightarrow> sy_reader s \<noteq> ReaderDone \<Longrightarrow> sy_shut s Reader = None"
  "shut_ok s \<Longrightarrow> \<not> sy_closing s \<Longrightarrow> sy_shut s Closer = None"
  unfolding shut_ok_def by metis+

lemma holders_ok_step:
  assumes step: "qmp_step from_str s t" and ok: "holders_ok h s" "table_ok s" "ids_ok s" "writer_ok s" "shut_ok s"
  shows "\<exists>h. holders_ok h t"
proof -
  have sd: "sends_distinct s" using ok(1) by (simp add: holders_ok_def)
  have frame: "\<forall>c. same_call s t c \<Longrightarrow> sends_distinct t \<Longrightarrow> ?thesis" using holders_frame [OF ok(1)] by blast
  show ?thesis using step
  proof (cases rule: qmp_step.cases)
    case (register c cmd i)
    then show ?thesis using register_holders [OF ok(1-3)] by blast
  next
    case (abandon c cmd i e)
    then show ?thesis using abandon_holders [OF ok(1-3)] by blast
  next
    case (receive c cmd i r rs)
    then show ?thesis using receive_holders [OF ok(1)] by blast
  next
    case (read_reply_in line i c r q)
    obtain cmd where "map_of (qc_pending (sy_conn s)) i = Some (cmd, c)" "q = forget_call i (sy_conn s)"
      using handle_line_cases [OF read_reply_in(3)] by auto
    then show ?thesis using taken_holders [OF ok(1,2) read_reply_in(2)] read_reply_in(1) by blast
  next
    case (reader_delivers c r)
    then show ?thesis using delivered_holders [OF ok(1)] by blast
  next
    case (shut_send u reason cs c)
    then show ?thesis using shut_send_holders [OF ok(1)] by blast
  next
    case (shut_pending u reason cs q)
    then show ?thesis using drained_holders [OF ok(1,2)] by blast
  next
    case (gate_pass c cmd i timeout now)
    then show ?thesis using sd ok(4) writer_gate_pass [OF gate_pass(3)]
      by (intro frame) (auto simp: token_simps sends_distinct_def writer_ok_def)
  next
    case (read_line_in line q)
    have "qc_pending q = qc_pending (sy_conn s) \<and> qc_chan q = qc_chan (sy_conn s)" using handle_line_cases [OF read_line_in(3)] by auto
    then show ?thesis using sd read_line_in(1) by (intro frame) (simp_all add: token_simps sends_distinct_def)
  next
    case (read_teardown line reason x q)
    then show ?thesis using handle_line_cases [OF read_teardown(3)] by simp
  next
    case (write_fail c cmd i e)
    then have "sy_shut s (Call c) = None" using shutD(1) [OF ok(5), of c] by simp
    then show ?thesis using sd write_fail by (intro frame) (auto simp: token_simps sends_distinct_def)
  next
    case (reader_ends reason)
    then have "sy_shut s Reader = None" using shutD(2) [OF ok(5)] by simp
    then show ?thesis using sd reader_ends by (intro frame) (auto simp: token_simps sends_distinct_def)
  next
    case (closer_starts reason)
    then have "sy_shut s Closer = None" using shutD(3) [OF ok(5)] by simp
    then show ?thesis using sd closer_starts by (intro frame) (auto simp: token_simps sends_distinct_def)
  next
    case (release c cmd i eo)
    then show ?thesis using sd by (intro frame) (auto simp: token_simps sends_distinct_def split: option.splits)
  next
    case (begin_call c i q cmd)
    have "qc_pending q = qc_pending (sy_conn s) \<and> qc_chan q = qc_chan (sy_conn s)" using begin_call(3) by (auto simp: allocate_id_def)
    then show ?thesis using sd begin_call(1,2) by (intro frame) (simp_all add: token_simps sends_distinct_def)
  qed (use sd in \<open>intro frame; auto simp: token_simps sends_distinct_def\<close>)+
qed

lemma sys_ok_step:
  assumes "sy_issued s < 2 ^ 64 \<longrightarrow> sys_ok s" and "qmp_step from_str s t"
  shows "sy_issued t < 2 ^ 64 \<longrightarrow> sys_ok t"
proof
  assume bound: "sy_issued t < 2 ^ 64"
  have "sy_issued s \<le> sy_issued t" using assms(2) by (cases rule: qmp_step.cases) (auto simp: sys_simps)
  then have ok: "sys_ok s" using assms(1) bound by simp
  then obtain h where h: "holders_ok h s" by (auto simp: sys_ok_def)
  have parts: "ids_ok s" "table_ok s" "writer_ok s" "shut_ok s" "replies_ok s" "closing_ok s" using ok by (simp_all add: sys_ok_def)
  show "sys_ok t" unfolding sys_ok_def
    using ids_ok_step [OF assms(2) parts(1,3) bound] table_ok_step [OF assms(2) parts(1-3) h] writer_ok_step [OF assms(2) parts(3)]
      shut_ok_step [OF assms(2) parts(4,3)] holders_ok_step [OF assms(2) h parts(2,1,3,4)]
      replies_ok_step [OF assms(2) parts(5,3,2)] closing_ok_step [OF assms(2) parts(6,3,2)]
    by blast
qed

interpretation qmp_threads: step_invariant "qmp_step from_str" "\<lambda>s. sy_issued s < 2 ^ 64 \<longrightarrow> sys_ok s" for from_str
  by unfold_locales (rule sys_ok_step)

lemma sys_new_ok: "sys_ok sys_new"
proof -
  have "holders_ok (\<lambda>_. Nobody) sys_new" unfolding holders_ok_def
    by (auto intro!: fitsI simp: sys_new_def conn_new_def in_table_def in_sends_def sends_distinct_def)
  then show ?thesis
    by (auto simp: sys_ok_def ids_ok_def table_ok_def writer_ok_def shut_ok_def replies_ok_def closing_ok_def sys_new_def conn_new_def)
qed

lemma sys_reachable_ok: "reaches (qmp_step from_str) sys_new s \<Longrightarrow> sy_issued s < 2 ^ 64 \<Longrightarrow> sys_ok s"
  using qmp_threads.reaches_keeps sys_new_ok by blast

end
