(* ===== verification/Qmp_Monitor.thy ===== *)
theory Qmp_Monitor
  imports Qmp_Calls
begin

text \<open>
  What the monitor client promises: replies reach the call they answer and no other, no
  thread blocks on a reply channel, a shutdown leaves no caller waiting, a wait for an
  event returns the first one after its mark, and the handshake takes exactly its three
  lines off the socket whatever the sizes of the reads.
\<close>

section \<open>A short run\<close>

definition demo_from_str :: "string \<Rightarrow> string + json" where
  "demo_from_str line =
     (if line = ''reply'' then Inr (JObject [(''id'', JString ''c1''), (''return'', JInt 7)])
      else if line = ''hello'' then Inr (JObject [(''QMP'', JNull)])
      else if line = ''ok'' then Inr (JObject [(''return'', JNull)])
      else Inl ''syntax'')"

definition qmp_demo_waiting :: qmp_sys where
  "qmp_demo_waiting = set_pc 0 (Awaiting ''stop'' ''c1'')
     (sys_new\<lparr>sy_conn := conn_new\<lparr>qc_next_id := 2, qc_pending := [(''c1'', ''stop'', 0)]\<rparr>, sy_issued := 1\<rparr>)"

lemma request_id_1: "request_id 1 = ''c1''"
  by code_simp

lemma const_fun_upd [simp]: "(\<lambda>_. x)(c := x) = (\<lambda>_. x)"
  by auto

lemma qmp_demo_waiting_reached: "reaches (qmp_step demo_from_str) sys_new qmp_demo_waiting"
proof -
  let ?q = "conn_new\<lparr>qc_next_id := 2\<rparr>"
  let ?p = "conn_new\<lparr>qc_next_id := 2, qc_pending := [(''c1'', ''stop'', 0)]\<rparr>"
  define s1 where "s1 = set_pc 0 (Allocated ''stop'' ''c1'') (sys_new\<lparr>sy_conn := ?q, sy_issued := 1\<rparr>)"
  define s2 where "s2 = set_pc 0 (Sending ''stop'' ''c1'') (sys_new\<lparr>sy_conn := ?p, sy_issued := 1\<rparr>)"
  define s3 where "s3 = set_pc 0 (Writing ''stop'' ''c1'') (sys_new\<lparr>sy_conn := take_stream ?p, sy_issued := 1\<rparr>)"
  define s4 where "s4 = set_pc 0 (Releasing ''stop'' ''c1'' None) (sys_new\<lparr>sy_conn := take_stream ?p, sy_issued := 1\<rparr>)"
  have alloc: "allocate_id (sy_conn sys_new) = (''c1'', ?q)"
    by (simp add: allocate_id_def sys_new_def conn_new_def request_id_1)
  have step1: "qmp_step demo_from_str sys_new s1"
    using qmp_step.begin_call [of sys_new 0 "''c1''" ?q demo_from_str "''stop''"] alloc by (simp add: s1_def sys_new_def)
  have step2: "qmp_step demo_from_str s1 s2"
    using qmp_step.register [of s1 0 "''stop''" "''c1''" demo_from_str]
    by (simp add: s1_def s2_def sys_simps conn_new_def sys_new_def)
  have step3: "qmp_step demo_from_str s2 s3"
    using qmp_step.gate_pass [of s2 0 "''stop''" "''c1''" 1 0 demo_from_str]
    by (simp add: s2_def s3_def sys_simps conn_new_def sys_new_def writer_gate_def budget_remaining_def)
  have step4: "qmp_step demo_from_str s3 s4"
    using qmp_step.write_ok [of s3 0 "''stop''" "''c1''" demo_from_str] by (simp add: s3_def s4_def sys_simps)
  have step5: "qmp_step demo_from_str s4 qmp_demo_waiting"
    using qmp_step.release [of s4 0 "''stop''" "''c1''" None demo_from_str]
    by (simp add: s4_def qmp_demo_waiting_def sys_simps sys_new_def conn_new_def)
  show ?thesis by (rule reaches_step [OF reaches_step [OF reaches_step [OF reaches_step [OF reaches_step [OF reaches_refl [of "qmp_step demo_from_str" sys_new] step1] step2] step3] step4] step5])
qed

section \<open>Calls\<close>

text \<open>
  C10: Replies are never crossed. In every interleaving of callers, reader and shutdowns
  (of fewer than 2^64 calls), what a call returns from a reply is a reply that the reader
  took off the wire under the id of that call, and no other call has that id.
\<close>

theorem replies_reach_their_caller:
  assumes run: "reaches (qmp_step from_str) sys_new s" and bound: "sy_issued s < 2 ^ 64"
    and call: "sy_call s c = Returned cmd i (reply_result cmd r)" and answer: "\<forall>reason. r \<noteq> RClosed reason"
  shows "(i, r) \<in> set (sy_replies s) \<and> (\<forall>d. id_of (sy_call s d) = Some i \<longrightarrow> d = c)"
proof -
  have ok: "ids_ok s" "replies_ok s" using sys_reachable_ok [OF run bound] by (simp_all add: sys_ok_def)
  have "(i, r) \<in> set (sy_replies s)" using ok(2) call answer unfolding replies_ok_def by blast
  moreover have "id_of (sy_call s c) = Some i" using call by simp
  ultimately show ?thesis using ok(1) unfolding ids_ok_def by blast
qed

definition demo_answered :: qmp_sys where
  "demo_answered = set_pc 0 (Returned ''stop'' ''c1'' (Inr (JInt 7)))
     (sys_new\<lparr>sy_conn := conn_new\<lparr>qc_next_id := 2\<rparr>, sy_issued := 1, sy_replies := [(''c1'', RReturn (JInt 7))]\<rparr>)"

lemma demo_answered_reached: "reaches (qmp_step demo_from_str) sys_new demo_answered"
proof -
  let ?q = "conn_new\<lparr>qc_next_id := 2\<rparr>"
  let ?w = "Awaiting ''stop'' ''c1''"
  let ?r = "RReturn (JInt 7)"
  define s6 where "s6 = set_pc 0 ?w (sys_new\<lparr>sy_conn := ?q, sy_issued := 1, sy_reader := Delivering 0 ?r, sy_replies := [(''c1'', ?r)]\<rparr>)"
  define s7 where "s7 = set_pc 0 ?w (sys_new\<lparr>sy_conn := chan_send 0 ?r ?q, sy_issued := 1, sy_replies := [(''c1'', ?r)]\<rparr>)"
  have line: "handle_line demo_from_str ''reply'' (sy_conn qmp_demo_waiting) = (None, Some (''c1'', 0, ?r), ?q)"
    by (simp add: handle_line_def trim_def trim_start.simps ws_len_def byte_of_def demo_from_str_def json_get_def get_str_def json_str_def
        qmp_demo_waiting_def sys_simps conn_new_def response_of_def)
  have step6: "qmp_step demo_from_str qmp_demo_waiting s6"
    using qmp_step.read_reply_in [of qmp_demo_waiting demo_from_str "''reply''" "''c1''" 0 ?r ?q] line
    by (simp add: qmp_demo_waiting_def s6_def sys_simps sys_new_def)
  have step7: "qmp_step demo_from_str s6 s7"
    using qmp_step.reader_delivers [of s6 0 ?r demo_from_str]
    by (simp add: s6_def s7_def sys_simps can_send_def conn_new_def sys_new_def)
  have step8: "qmp_step demo_from_str s7 demo_answered"
    using qmp_step.receive [of s7 0 "''stop''" "''c1''" ?r "[]" demo_from_str]
    by (simp add: s7_def demo_answered_def sys_simps conn_new_def sys_new_def reply_result_def)
  show ?thesis by (rule reaches_step [OF reaches_step [OF reaches_step [OF qmp_demo_waiting_reached step6] step7] step8])
qed

theorem replies_reach_their_caller_witness:
  "(''c1'', RReturn (JInt 7)) \<in> set (sy_replies demo_answered) \<and> (\<forall>d. (id_of (sy_call demo_answered d) = Some ''c1'') = (d = 0))"
proof -
  have "(''c1'', RReturn (JInt 7)) \<in> set (sy_replies demo_answered) \<and> (\<forall>d. id_of (sy_call demo_answered d) = Some ''c1'' \<longrightarrow> d = 0)"
    by (rule replies_reach_their_caller [OF demo_answered_reached, of 0 "''stop''" "''c1''" "RReturn (JInt 7)"])
      (simp_all add: demo_answered_def sys_simps reply_result_def)
  moreover have "id_of (sy_call demo_answered 0) = Some ''c1''" by (simp add: demo_answered_def sys_simps)
  ultimately show ?thesis by metis
qed

text \<open>
  C26: No thread gets stuck on a reply. Whenever the reader or a shutdown sends to a reply
  channel its slot is free, so neither ever blocks there; no call finds the writer slot
  without its stream (which would panic); and the sender of a call that waits is never
  lost, so the channel is never disconnected under it.
\<close>

theorem reply_channels_never_block:
  assumes run: "reaches (qmp_step from_str) sys_new s" and bound: "sy_issued s < 2 ^ 64"
  shows "(\<forall>c r. sy_reader s = Delivering c r \<longrightarrow> can_send c s)
    \<and> (\<forall>t reason cs c. sy_shut s t = Some (reason, StageSends cs) \<longrightarrow> c \<in> set cs \<longrightarrow> can_send c s)
    \<and> (\<forall>c. sy_call s c \<noteq> Panicked)
    \<and> (\<forall>c cmd i. sy_call s c = Awaiting cmd i \<longrightarrow> qc_chan (sy_conn s) c \<noteq> [] \<or> has_sender c s)"
proof -
  obtain h where h: "holders_ok h s" and ids: "ids_ok s" using sys_reachable_ok [OF run bound] by (auto simp: sys_ok_def)
  have free: "can_send c s" if "h c \<noteq> InChannel" for c using fitsD(4) [OF h, of c] that by (simp add: can_send_def)
  have "can_send c s" if "sy_reader s = Delivering c r" for c r
    using fitsD(2) [OF h, of c] that by (intro free) auto
  moreover have "can_send c s" if "sy_shut s t = Some (reason, StageSends cs)" "c \<in> set cs" for c t reason cs
    using fitsD(3) [OF h, of t c] that by (intro free) (auto simp: in_sends_def)
  moreover have "qc_chan (sy_conn s) c \<noteq> [] \<or> has_sender c s" if "sy_call s c = Awaiting cmd i" for c cmd i
  proof -
    have "h c \<noteq> Nobody" using fitsD(6) [OF h, of c] that by simp
    then show ?thesis
      using fitsD(1,2,4) [OF h, of c] fitsD(3) [OF h, of _ c] by (cases "h c") (auto simp: has_sender_def in_table_def in_sends_def)
  qed
  moreover have "\<forall>c. sy_call s c \<noteq> Panicked" using ids by (simp add: ids_ok_def)
  ultimately show ?thesis by blast
qed

theorem reply_channels_never_block_witness:
  "qc_chan (sy_conn qmp_demo_waiting) 0 = [] \<and> has_sender 0 qmp_demo_waiting"
proof -
  have empty: "qc_chan (sy_conn qmp_demo_waiting) 0 = []" by (simp add: qmp_demo_waiting_def sys_simps sys_new_def conn_new_def)
  have call: "\<exists>cmd i. sy_call qmp_demo_waiting 0 = Awaiting cmd i" by (simp add: qmp_demo_waiting_def sys_simps)
  have "sy_issued qmp_demo_waiting < 2 ^ 64" by (simp add: qmp_demo_waiting_def sys_simps)
  then show ?thesis using reply_channels_never_block [OF qmp_demo_waiting_reached] empty call by blast
qed

text \<open>
  C32: A closed connection leaves nobody waiting. Once a shutdown has emptied the table of
  pending calls and no shutdown or delivery is under way, every call that waits for its
  reply has one in its channel, and every call that is still to be sent fails at the
  writer with the closed error, whatever is left of its budget.
\<close>

theorem closed_connection_wakes_everyone:
  assumes run: "reaches (qmp_step from_str) sys_new s" and bound: "sy_issued s < 2 ^ 64"
    and drained: "sy_drained s" and over: "\<forall>t. sy_shut s t = None" and idle: "\<forall>c r. sy_reader s \<noteq> Delivering c r"
  shows "(\<forall>c cmd i. sy_call s c = Awaiting cmd i \<longrightarrow> (\<exists>r. qc_chan (sy_conn s) c = [r]))
    \<and> (\<forall>timeout now. writer_gate timeout now (sy_conn s) = GateFail (QmpClosed ''write on closed connection''))"
proof -
  obtain h where h: "holders_ok h s" and closing: "closing_ok s" using sys_reachable_ok [OF run bound] by (auto simp: sys_ok_def)
  have closed: "qc_writer_closed (sy_conn s)" using closing drained by (simp add: closing_ok_def)
  have "\<exists>r. qc_chan (sy_conn s) c = [r]" if c: "sy_call s c = Awaiting cmd i" for c cmd i
  proof -
    have "h c \<noteq> Nobody" using fitsD(6) [OF h, of c] c by simp
    moreover have "h c \<noteq> WithReader" using fitsD(2) [OF h, of c] idle by simp
    moreover have "h c \<noteq> WithShutdown t" for t using fitsD(3) [OF h, of t c] over by (simp add: in_sends_def)
    moreover have "h c \<noteq> InTable"
    proof
      assume "h c = InTable"
      then have "in_table s c" using fitsD(1) [OF h, of c] by simp
      then have "not_past_gate (sy_call s c)" using closing drained unfolding closing_ok_def in_table_def by blast
      then show False using c by simp
    qed
    ultimately have "h c = InChannel" by (cases "h c") auto
    then show ?thesis using fitsD(4,5) [OF h, of c] by (cases "qc_chan (sy_conn s) c") auto
  qed
  then show ?thesis using closed by (simp add: writer_gate_def)
qed

definition demo_closed :: qmp_sys where
  "demo_closed = set_pc 0 (Awaiting ''stop'' ''c1'')
     (sys_new\<lparr>sy_conn := chan_send 0 (RClosed ''explicit close'')
        (conn_new\<lparr>qc_next_id := 2, qc_writer_closed := True, qc_stream := False, qc_closed := True, qc_reason := ''explicit close''\<rparr>),
        sy_issued := 1, sy_closing := True, sy_drained := True\<rparr>)"

lemma demo_closed_reached: "reaches (qmp_step demo_from_str) sys_new demo_closed"
proof -
  let ?x = "''explicit close''"
  define t1 where "t1 = set_shut Closer (Some (?x, StageWriter)) (qmp_demo_waiting\<lparr>sy_closing := True\<rparr>)"
  define t2 where "t2 = set_shut Closer (Some (?x, StageLog)) (on_conn close_writer t1)"
  define t3 where "t3 = set_shut Closer (Some (?x, StagePending)) (on_conn (close_log ?x) t2)"
  define t4 where "t4 = set_shut Closer (Some (?x, StageSends [0])) (t3\<lparr>sy_conn := (sy_conn t3)\<lparr>qc_pending := []\<rparr>, sy_drained := True\<rparr>)"
  define t5 where "t5 = set_shut Closer (Some (?x, StageSends [])) (reply_send 0 (RClosed ?x) t4)"
  have step1: "qmp_step demo_from_str qmp_demo_waiting t1"
    using qmp_step.closer_starts [of qmp_demo_waiting ?x demo_from_str] by (simp add: t1_def qmp_demo_waiting_def sys_simps sys_new_def)
  have step2: "qmp_step demo_from_str t1 t2"
    using qmp_step.shut_writer [of t1 Closer ?x demo_from_str] by (simp add: t1_def t2_def set_shut_def)
  have step3: "qmp_step demo_from_str t2 t3"
    using qmp_step.shut_log [of t2 Closer ?x demo_from_str] by (simp add: t2_def t3_def set_shut_def)
  have pending: "qc_pending (sy_conn t3) = [(''c1'', ''stop'', 0)]"
    by (simp add: t3_def t2_def t1_def qmp_demo_waiting_def sys_simps)
  have step4: "qmp_step demo_from_str t3 t4"
    using qmp_step.shut_pending [of t3 Closer ?x "[0]" "(sy_conn t3)\<lparr>qc_pending := []\<rparr>" demo_from_str] pending
    by (simp add: t4_def drain_pending_def) (simp add: t3_def set_shut_def)
  have step5: "qmp_step demo_from_str t4 t5"
    using qmp_step.shut_send [of t4 Closer ?x "[0]" 0 demo_from_str]
    by (simp add: t5_def) (simp add: t4_def t3_def t2_def t1_def can_send_def qmp_demo_waiting_def sys_simps conn_new_def)
  have "demo_closed = set_shut Closer None t5"
    by (simp add: demo_closed_def t5_def t4_def t3_def t2_def t1_def qmp_demo_waiting_def sys_simps conn_new_def sys_new_def)
  moreover have "sy_shut t5 Closer = Some (?x, StageSends [])" by (simp add: t5_def set_shut_def)
  ultimately have step6: "qmp_step demo_from_str t5 demo_closed"
    using qmp_step.shut_over [of t5 Closer ?x demo_from_str] by metis
  show ?thesis by (rule reaches_step [OF reaches_step [OF reaches_step [OF reaches_step [OF reaches_step [OF reaches_step [OF qmp_demo_waiting_reached step1] step2] step3] step4] step5] step6])
qed

theorem closed_connection_wakes_everyone_witness:
  "\<exists>r. qc_chan (sy_conn demo_closed) 0 = [r]"
  by (rule closed_connection_wakes_everyone [OF demo_closed_reached, THEN conjunct1, rule_format])
    (simp_all add: demo_closed_def sys_simps sys_new_def)

section \<open>Events\<close>

fun log_grows :: "qmp_conn \<Rightarrow> (nat \<times> qmp_conn \<times> bool) list \<Rightarrow> bool" where
  "log_grows q [] = True"
| "log_grows q ((now, q', timed_out) # wakes) = ((\<exists>new. qc_events q' = qc_events q @ new) \<and> log_grows q' wakes)"

lemma find_append_eq: "find P (xs @ ys) = (case find P xs of None \<Rightarrow> find P ys | Some x \<Rightarrow> Some x)"
  by (induction xs) auto

lemma scan_skips:
  assumes "scan_for_match evs since name pred = None" and "evs' = evs @ new"
  shows "scan_for_match evs' (max since (length evs)) name pred = scan_for_match evs' since name pred"
  using assms by (cases "since \<le> length evs") (auto simp: scan_for_match_def find_append_eq max_def split: option.splits)

lemma log_grows_all: "log_grows q wakes \<Longrightarrow> q' \<in> set (q # map (fst \<circ> snd) wakes) \<Longrightarrow> \<exists>new. qc_events q' = qc_events q @ new"
  by (induction q wakes rule: log_grows.induct) fastforce+

text \<open>
  A wait for an event returns the first match after its mark. The log only grows while
  the call waits. Although each turn scans only what is new, an event that is returned is
  the first one with the name and the predicate at or after the mark in a log that the call
  saw, and when the wait fails there is none in such a log; it fails with the time-out or,
  on a closed connection, with the reason of the close.
\<close>

theorem wait_event_first_after_mark:
  assumes "log_grows q wakes" and "wait_event name pred timeout since q wakes = Some r"
  shows "\<exists>q'\<in>set (q # map (fst \<circ> snd) wakes).
    (case r of
       Inr ev \<Rightarrow> scan_for_match (qc_events q') since name pred = Some ev
     | Inl e \<Rightarrow> scan_for_match (qc_events q') since name pred = None
         \<and> (e = QmpTimeout timeout \<or> qc_closed q' \<and> e = QmpClosed (qc_reason q')))"
  using assms
proof (induction name pred timeout since q wakes rule: wait_event.induct)
  case (1 name pred timeout since q wakes)
  let ?scan = "\<lambda>q. scan_for_match (qc_events q) since name pred"
  show ?case
  proof (cases "?scan q")
    case (Some ev)
    then show ?thesis using "1.prems"(2) by (auto simp: wait_event.simps [of name pred timeout since q])
  next
    case None
    show ?thesis
    proof (cases "qc_closed q")
      case True
      then show ?thesis using None "1.prems"(2) by (auto simp: wait_event.simps [of name pred timeout since q])
    next
      case False
      then obtain now q' timed_out wakes' where w: "wakes = (now, q', timed_out) # wakes'"
        using None "1.prems"(2) by (cases wakes) (auto simp: wait_event.simps [of name pred timeout since q])
      then obtain new where new: "qc_events q' = qc_events q @ new" and grows: "log_grows q' wakes'" using "1.prems"(1) by auto
      have skip: "scan_for_match (qc_events q'') (max since (length (qc_events q))) name pred = ?scan q''"
        if "\<exists>new. qc_events q'' = qc_events q @ new" for q'' using scan_skips [OF None] that by blast
      show ?thesis
      proof (cases "budget_remaining timeout now")
        case (Inl e)
        then show ?thesis using w None False "1.prems"(2)
          by (auto simp: wait_event.simps [of name pred timeout since q] budget_remaining_def budget_expired_def split: if_splits)
      next
        case (Inr left)
        show ?thesis
        proof (cases timed_out)
          case True
          then show ?thesis using w None False Inr "1.prems"(2) skip [of q'] new
            by (auto simp: wait_event.simps [of name pred timeout since q] split: option.splits)
        next
          case wait: False
          have "wait_event name pred timeout (max since (length (qc_events q))) q' wakes' = Some r"
            using w None False Inr wait "1.prems"(2) by (simp add: wait_event.simps [of name pred timeout since q])
          from "1.IH" [OF None False w refl refl Inr wait grows this]
          obtain q'' where q'': "q'' \<in> set (q' # map (fst \<circ> snd) wakes')"
            "case r of Inr ev \<Rightarrow> scan_for_match (qc_events q'') (max since (length (qc_events q))) name pred = Some ev
             | Inl e \<Rightarrow> scan_for_match (qc_events q'') (max since (length (qc_events q))) name pred = None
                 \<and> (e = QmpTimeout timeout \<or> qc_closed q'' \<and> e = QmpClosed (qc_reason q''))" by blast
          have "\<exists>new. qc_events q'' = qc_events q @ new" using log_grows_all [OF grows, of q''] q''(1) new by auto
          then have eq: "scan_for_match (qc_events q'') (max since (length (qc_events q))) name pred = ?scan q''" by (rule skip)
          show ?thesis
          proof (rule bexI [of _ q''])
            show "q'' \<in> set (q # map (fst \<circ> snd) wakes)" using q''(1) w by auto
          qed (use q''(2) in \<open>simp only: eq\<close>)
        qed
      qed
    qed
  qed
qed

definition demo_event :: "int \<Rightarrow> qmp_event" where
  "demo_event t = \<lparr>ev_name = ''STOP'', ev_data = JNull, ev_timestamp_ns = t\<rparr>"

theorem wait_event_first_after_mark_witness:
  "\<exists>q'\<in>set (conn_new\<lparr>qc_events := [demo_event 1]\<rparr> # map (fst \<circ> snd) [(0, conn_new\<lparr>qc_events := [demo_event 1, demo_event 2]\<rparr>, False)]).
     scan_for_match (qc_events q') 1 ''STOP'' (\<lambda>_. True) = Some (demo_event 2)"
proof -
  let ?q = "conn_new\<lparr>qc_events := [demo_event 1]\<rparr>"
  let ?w = "[(0, conn_new\<lparr>qc_events := [demo_event 1, demo_event 2]\<rparr>, False)]"
  have "log_grows ?q ?w" by simp
  moreover have "wait_event ''STOP'' (\<lambda>_. True) 5 1 ?q ?w = Some (Inr (demo_event 2))"
    by (simp add: wait_event.simps scan_for_match_def conn_new_def demo_event_def budget_remaining_def)
  ultimately show ?thesis using wait_event_first_after_mark [of ?q ?w "''STOP''" "\<lambda>_. True" 5 1 "Inr (demo_event 2)"] by simp
qed

section \<open>The handshake\<close>

text \<open>The bytes that will still come out of the socket, and when its calls are in time and succeed.\<close>

fun arrived_bytes :: "nat \<times> (io_error + bytes) \<Rightarrow> bytes" where
  "arrived_bytes (_, Inr bs) = bs"
| "arrived_bytes (_, Inl _) = []"

definition incoming :: "qmp_socket \<Rightarrow> bytes" where
  "incoming s = qs_buffer s @ concat (map arrived_bytes (qs_reads s))"

fun read_fine :: "nat \<Rightarrow> nat \<times> (io_error + bytes) \<Rightarrow> bool" where
  "read_fine timeout (now, Inr bs) = (now < timeout \<and> bs \<noteq> [])"
| "read_fine timeout (now, Inl err) = (now < timeout \<and> err = Interrupted)"

fun write_fine :: "nat \<Rightarrow> nat \<times> (io_error + nat) \<Rightarrow> bool" where
  "write_fine timeout (now, Inr n) = (now < timeout \<and> 0 < n)"
| "write_fine timeout (now, Inl err) = (now < timeout \<and> err = Interrupted)"

definition socket_fine :: "nat \<Rightarrow> qmp_socket \<Rightarrow> bool" where
  "socket_fine timeout s = (list_all (read_fine timeout) (qs_reads s) \<and> list_all (write_fine timeout) (qs_writes s)
                            \<and> (\<forall>t\<in>set (qs_clock s). t < timeout) \<and> 0 < timeout)"

definition is_line :: "bytes \<Rightarrow> bool" where
  "is_line l = (\<exists>body. newline \<notin> set body \<and> l = body @ [newline])"

lemma check_budget_fine:
  "socket_fine timeout s \<Longrightarrow> \<exists>s'. check_budget timeout s = (Inr (), s') \<and> socket_fine timeout s' \<and> qs_buffer s' = qs_buffer s
     \<and> qs_reads s' = qs_reads s \<and> qs_writes s' = qs_writes s \<and> qs_sent s' = qs_sent s"
  by (cases "qs_clock s") (auto simp: check_budget_def clock_now_def budget_remaining_def socket_fine_def)

lemma dropWhile_newline: "newline \<notin> set body \<Longrightarrow> dropWhile (\<lambda>b. b \<noteq> newline) (body @ newline # r) = newline # r"
  by (induction body) auto

lemma takeWhile_newline: "newline \<notin> set body \<Longrightarrow> takeWhile (\<lambda>b. b \<noteq> newline) (body @ newline # r) = body"
  by (induction body) auto

lemma split_line_append:
  assumes "is_line l" and "bs @ later = l @ rest"
  shows "(\<exists>r. split_line bs = Some (l, r) \<and> r @ later = rest) \<or> (split_line bs = None \<and> (\<exists>l'. l = bs @ l' \<and> is_line l' \<and> later = l' @ rest))"
proof -
  obtain body where body: "newline \<notin> set body" "l = body @ [newline]" using assms(1) by (auto simp: is_line_def)
  show ?thesis
  proof (cases "length l \<le> length bs")
    case True
    then obtain r where r: "bs = l @ r" "r @ later = rest" using assms(2) by (auto simp: append_eq_append_conv2)
    have "takeWhile (\<lambda>b. b \<noteq> newline) bs = body" "dropWhile (\<lambda>b. b \<noteq> newline) bs = newline # r"
      using body r by (simp_all add: takeWhile_newline dropWhile_newline)
    then show ?thesis using body r by (auto simp: split_line_def)
  next
    case False
    then obtain l' where l': "l = bs @ l'" "later = l' @ rest" "l' \<noteq> []" using assms(2) by (auto simp: append_eq_append_conv2)
    then obtain b' where "l' = b' @ [newline]" "body = bs @ b'" using body by (cases l' rule: rev_cases) auto
    then show ?thesis using body l' by (auto simp: split_line_def is_line_def)
  qed
qed

lemma read_line_fine:
  assumes "socket_fine timeout s" and "incoming s = l @ rest" and "is_line l"
  shows "\<exists>s'. read_line utf8 timeout line s = Some ((case utf8 (line @ l) of Some t \<Rightarrow> Inr t | None \<Rightarrow> Inl (QmpIo InvalidData)), s')
           \<and> incoming s' = rest \<and> socket_fine timeout s' \<and> qs_writes s' = qs_writes s \<and> qs_sent s' = qs_sent s"
  using assms
proof (induction "length (qs_reads s) + (if qs_buffer s = [] then 0 else 1)" arbitrary: s line l rule: less_induct)
  case less
  show ?case
  proof (cases "qs_buffer s = []")
    case False
    obtain s1 where s1: "check_budget timeout s = (Inr (), s1)" "socket_fine timeout s1" "qs_buffer s1 = qs_buffer s"
      "qs_reads s1 = qs_reads s" "qs_writes s1 = qs_writes s" "qs_sent s1 = qs_sent s"
      using check_budget_fine [OF less.prems(1)] by blast
    from split_line_append [OF less.prems(3), of "qs_buffer s" "concat (map arrived_bytes (qs_reads s))" rest] less.prems(2)
    consider (found) r where "split_line (qs_buffer s) = Some (l, r)" "r @ concat (map arrived_bytes (qs_reads s)) = rest"
      | (part) l' where "split_line (qs_buffer s) = None" "l = qs_buffer s @ l'" "is_line l'" "concat (map arrived_bytes (qs_reads s)) = l' @ rest"
      by (auto simp: incoming_def)
    then show ?thesis
    proof cases
      case found
      have "socket_fine timeout (s1\<lparr>qs_buffer := r\<rparr>)" using s1(2) by (simp add: socket_fine_def)
      from check_budget_fine [OF this] obtain s2 where "check_budget timeout (s1\<lparr>qs_buffer := r\<rparr>) = (Inr (), s2)" "socket_fine timeout s2"
        "qs_buffer s2 = r" "qs_reads s2 = qs_reads s1" "qs_writes s2 = qs_writes s1" "qs_sent s2 = qs_sent s1" by auto
      then show ?thesis using False found s1 by (auto simp: read_line.simps [of utf8 timeout line s] incoming_def)
    next
      case part
      let ?s = "s\<lparr>qs_buffer := [], qs_clock := qs_clock s1\<rparr>"
      have "socket_fine timeout ?s" using s1(2,4,5) by (simp add: socket_fine_def)
      moreover have "incoming ?s = l' @ rest" using part by (simp add: incoming_def)
      ultimately obtain s' where "read_line utf8 timeout (line @ qs_buffer s) ?s
          = Some ((case utf8 ((line @ qs_buffer s) @ l') of Some t \<Rightarrow> Inr t | None \<Rightarrow> Inl (QmpIo InvalidData)), s')"
        "incoming s' = rest" "socket_fine timeout s'" "qs_writes s' = qs_writes ?s" "qs_sent s' = qs_sent ?s"
        using less.hyps [of ?s l' "line @ qs_buffer s"] False part(3) by auto
      then show ?thesis using False part s1 by (auto simp: read_line.simps [of utf8 timeout line s])
    qed
  next
    case True
    then have inc: "concat (map arrived_bytes (qs_reads s)) = l @ rest" using less.prems(2) by (simp add: incoming_def)
    then have "qs_reads s \<noteq> []" using less.prems(3) by (auto simp: is_line_def)
    then obtain now r rs where reads: "qs_reads s = (now, r) # rs" by (cases "qs_reads s") auto
    let ?s = "s\<lparr>qs_reads := rs\<rparr>"
    have fine: "socket_fine timeout ?s" "now < timeout" "r = Inl Interrupted \<or> (\<exists>bs. r = Inr bs \<and> bs \<noteq> [])"
      using less.prems(1) reads by (cases r; simp add: socket_fine_def)+
    have left: "budget_remaining timeout now = Inr (timeout - now)" using fine(2) by (simp add: budget_remaining_def)
    from fine(3) show ?thesis
    proof
      assume r: "r = Inl Interrupted"
      then have "incoming ?s = l @ rest" using inc reads True by (simp add: incoming_def)
      then show ?thesis using less.hyps [of ?s l line] fine(1) less.prems(3) r reads left True
        by (auto simp: read_line.simps [of utf8 timeout line s])
    next
      assume "\<exists>bs. r = Inr bs \<and> bs \<noteq> []"
      then obtain b bs where r: "r = Inr (b # bs)" by (auto simp: neq_Nil_conv)
      from split_line_append [OF less.prems(3), of "b # bs" "concat (map arrived_bytes rs)" rest] inc reads r
      consider (found) k where "split_line (b # bs) = Some (l, k)" "k @ concat (map arrived_bytes rs) = rest"
        | (part) l' where "split_line (b # bs) = None" "l = (b # bs) @ l'" "is_line l'" "concat (map arrived_bytes rs) = l' @ rest"
        by auto
      then show ?thesis
      proof cases
        case found
        have "socket_fine timeout (s\<lparr>qs_reads := rs, qs_buffer := k\<rparr>)" using fine(1) by (simp add: socket_fine_def)
        from check_budget_fine [OF this] obtain s2 where "check_budget timeout (s\<lparr>qs_reads := rs, qs_buffer := k\<rparr>) = (Inr (), s2)" "socket_fine timeout s2"
          "qs_buffer s2 = k" "qs_reads s2 = rs" "qs_writes s2 = qs_writes s" "qs_sent s2 = qs_sent s" by auto
        then show ?thesis using True found r reads left by (auto simp: read_line.simps [of utf8 timeout line s] incoming_def)
      next
        case part
        have "incoming ?s = l' @ rest" using part True by (simp add: incoming_def)
        then show ?thesis using less.hyps [of ?s l' "line @ b # bs"] fine(1) part r reads left True
          by (auto simp: read_line.simps [of utf8 timeout line s])
      qed
    qed
  qed
qed

text \<open>The room that a list of writes has: how many bytes it takes at most.\<close>

fun write_room :: "(nat \<times> (io_error + nat)) list \<Rightarrow> nat" where
  "write_room [] = 0"
| "write_room ((_, Inr n) # ws) = Suc (write_room ws)"
| "write_room ((_, Inl _) # ws) = write_room ws"

lemma write_all_fine:
  assumes "list_all (write_fine timeout) ws" and "length bs \<le> write_room ws"
  shows "\<exists>ws'. write_all_timed timeout ws sent bs = Some (Inr (), sent @ bs, ws') \<and> list_all (write_fine timeout) ws'
           \<and> write_room ws \<le> length bs + write_room ws'"
  using assms
proof (induction ws arbitrary: sent bs)
  case Nil
  then show ?case by simp
next
  case (Cons w ws)
  obtain now r where w: "w = (now, r)" by (cases w)
  have left: "budget_remaining timeout now = Inr (timeout - now)" using Cons.prems(1) w by (cases r) (auto simp: budget_remaining_def)
  show ?case
  proof (cases bs)
    case Nil
    then show ?thesis using Cons.prems by auto
  next
    case (Cons b cs)
    show ?thesis
    proof (cases r)
      case (Inl err)
      then have "err = Interrupted" using Cons.prems(1) w by simp
      then show ?thesis using Cons.IH [of bs sent] Cons.prems w Inl left \<open>bs = b # cs\<close> by auto
    next
      case (Inr k)
      then obtain j where k: "k = Suc j" using Cons.prems(1) w by (cases k) auto
      have "length (drop k bs) \<le> write_room ws" using Cons.prems(2) w Inr k \<open>bs = b # cs\<close> by simp
      then obtain ws' where "write_all_timed timeout ws (sent @ take k bs) (drop k bs) = Some (Inr (), (sent @ take k bs) @ drop k bs, ws')"
        "list_all (write_fine timeout) ws'" "write_room ws \<le> length (drop k bs) + write_room ws'"
        using Cons.IH [of "drop k bs" "sent @ take k bs"] Cons.prems(1) by auto
      then show ?thesis using w Inr k left \<open>bs = b # cs\<close> by auto
    qed
  qed
qed

lemma send_value_fine:
  assumes "socket_fine timeout s" and "Suc (length (to_vec v)) \<le> write_room (qs_writes s)"
  shows "\<exists>s'. send_value to_vec timeout v s = Some (Inr (), s') \<and> socket_fine timeout s' \<and> incoming s' = incoming s
           \<and> qs_sent s' = qs_sent s @ to_vec v @ [newline] \<and> write_room (qs_writes s) \<le> Suc (length (to_vec v)) + write_room (qs_writes s')"
proof -
  obtain ws where ws: "write_all_timed timeout (qs_writes s) (qs_sent s) (to_vec v @ [newline]) = Some (Inr (), qs_sent s @ to_vec v @ [newline], ws)"
    "list_all (write_fine timeout) ws" "write_room (qs_writes s) \<le> Suc (length (to_vec v)) + write_room ws"
    using write_all_fine [of timeout "qs_writes s" "to_vec v @ [newline]" "qs_sent s"] assms by (auto simp: socket_fine_def)
  let ?s = "s\<lparr>qs_sent := qs_sent s @ to_vec v @ [newline], qs_writes := ws\<rparr>"
  have "socket_fine timeout ?s" using assms(1) ws(2) by (simp add: socket_fine_def)
  from check_budget_fine [OF this] obtain s' where "check_budget timeout ?s = (Inr (), s')" "socket_fine timeout s'"
    "qs_buffer s' = qs_buffer s" "qs_reads s' = qs_reads s" "qs_writes s' = ws" "qs_sent s' = qs_sent ?s" by auto
  then show ?thesis using ws by (auto simp: send_value_def incoming_def)
qed

text \<open>What a line of the peer says: a JSON text with one field present.\<close>

definition says :: "(bytes \<Rightarrow> string option) \<Rightarrow> (string \<Rightarrow> string + json) \<Rightarrow> bytes \<Rightarrow> string \<Rightarrow> bool" where
  "says utf8 from_str l field = (is_line l \<and> (\<exists>t v. utf8 l = Some t \<and> from_str t = Inr v \<and> json_get v field \<noteq> None))"

lemma await_fine:
  assumes "socket_fine timeout s" and "incoming s = l @ rest" and "says utf8 from_str l ''return''"
  shows "\<exists>s'. await_simple_return utf8 from_str timeout cmd s = Some (Inr (), s') \<and> socket_fine timeout s' \<and> incoming s' = rest
           \<and> qs_sent s' = qs_sent s \<and> qs_writes s' = qs_writes s"
  using read_line_fine [OF assms(1,2), of utf8 "[]"] assms(3) by (auto simp: says_def await_simple_return_def)

lemma greeting_fine:
  assumes "socket_fine timeout s" and "incoming s = l @ rest" and "says utf8 from_str l ''QMP''"
  shows "\<exists>s'. read_greeting utf8 from_str timeout s = Some (Inr (), s') \<and> socket_fine timeout s' \<and> incoming s' = rest
           \<and> qs_sent s' = qs_sent s \<and> qs_writes s' = qs_writes s"
  using read_line_fine [OF assms(1,2), of utf8 "[]"] assms(3) by (auto simp: says_def read_greeting_def and_next_def)

text \<open>
  The handshake takes exactly its lines. When the peer sends a greeting and two
  acknowledgements in time, in reads of any sizes and with any interruptions, the
  handshake succeeds, has sent the two commands and nothing else, and leaves every byte
  behind the third line for the reader thread, so that no early event is lost.
\<close>

theorem handshake_takes_three_lines:
  assumes fine: "socket_fine timeout s" and input: "incoming s = greeting @ ack1 @ ack2 @ rest"
    and lines: "says utf8 from_str greeting ''QMP''" "says utf8 from_str ack1 ''return''" "says utf8 from_str ack2 ''return''"
    and room: "Suc (length (to_vec (execute_object ''qmp_capabilities''))) + Suc (length (to_vec enable_events)) \<le> write_room (qs_writes s)"
  shows "\<exists>s'. qmp_handshake utf8 from_str to_vec timeout s = Some (Inr (), s') \<and> incoming s' = rest
           \<and> qs_sent s' = qs_sent s @ to_vec (execute_object ''qmp_capabilities'') @ [newline] @ to_vec enable_events @ [newline]"
proof -
  obtain s1 where s1: "read_greeting utf8 from_str timeout s = Some (Inr (), s1)" "socket_fine timeout s1" "incoming s1 = ack1 @ ack2 @ rest"
    "qs_sent s1 = qs_sent s" "qs_writes s1 = qs_writes s" using greeting_fine [OF fine input lines(1)] by blast
  obtain s2 where s2: "send_value to_vec timeout (execute_object ''qmp_capabilities'') s1 = Some (Inr (), s2)" "socket_fine timeout s2"
    "incoming s2 = incoming s1" "qs_sent s2 = qs_sent s1 @ to_vec (execute_object ''qmp_capabilities'') @ [newline]"
    "write_room (qs_writes s1) \<le> Suc (length (to_vec (execute_object ''qmp_capabilities''))) + write_room (qs_writes s2)"
    using send_value_fine [OF s1(2), of to_vec "execute_object ''qmp_capabilities''"] room s1(5) by auto
  have in2: "incoming s2 = ack1 @ ack2 @ rest" using s1(3) s2(3) by simp
  obtain s3 where s3: "await_simple_return utf8 from_str timeout ''qmp_capabilities'' s2 = Some (Inr (), s3)" "socket_fine timeout s3"
    "incoming s3 = ack2 @ rest" "qs_sent s3 = qs_sent s2" "qs_writes s3 = qs_writes s2" using await_fine [OF s2(2) in2 lines(2)] by blast
  have "Suc (length (to_vec enable_events)) \<le> write_room (qs_writes s3)" using room s1(5) s2(5) s3(5) by simp
  then obtain s4 where s4: "send_value to_vec timeout enable_events s3 = Some (Inr (), s4)" "socket_fine timeout s4"
    "incoming s4 = incoming s3" "qs_sent s4 = qs_sent s3 @ to_vec enable_events @ [newline]"
    using send_value_fine [OF s3(2), of to_vec enable_events] by auto
  have in4: "incoming s4 = ack2 @ rest" using s3(3) s4(3) by simp
  obtain s5 where s5: "await_simple_return utf8 from_str timeout ''migrate-set-capabilities'' s4 = Some (Inr (), s5)"
    "incoming s5 = rest" "qs_sent s5 = qs_sent s4" using await_fine [OF s4(2) in4 lines(3)] by blast
  show ?thesis using s1 s2 s3 s4 s5 by (simp add: qmp_handshake_def and_next_def)
qed

definition ascii :: "string \<Rightarrow> bytes" where
  "ascii t = map (\<lambda>c. of_nat (byte_of c)) t"

definition demo_utf8 :: "bytes \<Rightarrow> string option" where
  "demo_utf8 bs = Some (map (\<lambda>b. char_of (unat b)) (butlast bs))"

definition demo_socket :: qmp_socket where
  "demo_socket =
     \<lparr>qs_buffer = [], qs_reads = [(0, Inr (ascii ''hel'')), (1, Inl Interrupted), (2, Inr (ascii ''lo'' @ [newline] @ ascii ''o'')),
        (3, Inr (ascii ''k'' @ [newline] @ ascii ''ok'' @ [newline] @ ascii ''ev''))],
      qs_writes = [(1, Inr 1), (1, Inr 1), (2, Inr 1), (2, Inr 1)], qs_clock = [], qs_sent = []\<rparr>"

theorem handshake_takes_three_lines_witness:
  "\<exists>s'. qmp_handshake demo_utf8 demo_from_str (\<lambda>_. [0]) 10 demo_socket = Some (Inr (), s') \<and> incoming s' = ascii ''ev''
     \<and> qs_sent s' = [0, newline, 0, newline]"
proof -
  have hello: "says demo_utf8 demo_from_str (ascii ''hello'' @ [newline]) ''QMP''"
  proof -
    have "demo_utf8 (ascii ''hello'' @ [newline]) = Some ''hello''" "newline \<notin> set (ascii ''hello'')" by code_simp+
    then show ?thesis by (auto simp: says_def is_line_def demo_from_str_def json_get_def)
  qed
  have ok: "says demo_utf8 demo_from_str (ascii ''ok'' @ [newline]) ''return''"
  proof -
    have "demo_utf8 (ascii ''ok'' @ [newline]) = Some ''ok''" "newline \<notin> set (ascii ''ok'')" by code_simp+
    then show ?thesis by (auto simp: says_def is_line_def demo_from_str_def json_get_def)
  qed
  have "socket_fine 10 demo_socket" by (simp add: socket_fine_def demo_socket_def ascii_def)
  moreover have "incoming demo_socket = (ascii ''hello'' @ [newline]) @ (ascii ''ok'' @ [newline]) @ (ascii ''ok'' @ [newline]) @ ascii ''ev''"
    by (simp add: incoming_def demo_socket_def ascii_def)
  moreover have "Suc 1 + Suc 1 \<le> write_room (qs_writes demo_socket)" by (simp add: demo_socket_def)
  ultimately show ?thesis
    using handshake_takes_three_lines [of 10 demo_socket "ascii ''hello'' @ [newline]" "ascii ''ok'' @ [newline]" "ascii ''ok'' @ [newline]"
        "ascii ''ev''" demo_utf8 demo_from_str "\<lambda>_. [0]"] hello ok by (simp add: demo_socket_def)
qed

end
