(* ===== verification/Profile_Config.thy ===== *)
theory Profile_Config
  imports Vm_Lifecycle "HOL-Library.Multiset"
begin

text \<open>
  What a loaded configuration promises: the profiles that reach a launch have passed the
  validation, whatever order the file system lists its entries in, and where the paths of
  a build lead.
\<close>

section \<open>Disks\<close>

lemma check_disks_ids:
  "check_disks name seen i ds = None \<Longrightarrow> distinct seen \<Longrightarrow>
   distinct (seen @ map ad_id (profile_disks i ds)) \<and> (\<forall>d\<in>set (profile_disks i ds). ad_path d \<noteq> [])"
proof (induction ds arbitrary: seen i)
  case (Cons d ds)
  then show ?case using Cons.IH [of "seen @ [resolved_id d i]" "Suc i"] by (auto split: if_splits)
qed simp

lemma add_boot_disks_ok:
  "distinct (map ad_id out) \<Longrightarrow>
   add_boot_disks out ds = (if distinct (map ad_id (out @ ds)) then Inr (out @ ds) else add_boot_disks out ds)"
proof (induction out ds rule: add_boot_disks.induct)
  case (2 out disk ds)
  then show ?case by (cases "ad_id disk \<in> ad_id ` set out") (auto simp: list_ex_iff image_iff)
qed simp

lemma add_boot_disks_conflict:
  "distinct (map ad_id out) \<Longrightarrow> \<not> distinct (map ad_id (out @ ds)) \<Longrightarrow> \<exists>i. add_boot_disks out ds = Inl (DiskConflict i)"
proof (induction out ds rule: add_boot_disks.induct)
  case (2 out disk ds)
  show ?case
  proof (cases "ad_id disk \<in> ad_id ` set out")
    case True
    then have "list_ex (\<lambda>d. ad_id d = ad_id disk) out" by (auto simp: list_ex_iff)
    then show ?thesis by simp
  next
    case False
    then have "\<not> list_ex (\<lambda>d. ad_id d = ad_id disk) out" by (auto simp: list_ex_iff image_iff)
    then show ?thesis using 2 False by simp
  qed
qed simp

lemma validate_each: "validate_config path ps = Inr () \<Longrightarrow> (name, pf) \<in> set ps \<Longrightarrow> check_profile name pf = None"
  by (induction path ps rule: validate_config.induct) (auto split: option.splits)

lemma from_toml_str_validated:
  "from_toml_str fs tc tp raw path = Inr cfg \<Longrightarrow> validate_config path (cf_profiles cfg) = Inr ()"
  by (auto simp: from_toml_str_def Let_def split: sum.splits)

lemma check_profileD:
  assumes "check_profile name pf = None"
  shows "trim (pf_cmdline pf) \<noteq> [] \<or> pf_cmdline_file pf \<noteq> None" and "check_disks name [] 0 (pf_disks pf) = None"
    and "pf_guest_os pf = ''peios''"
  using assms by (auto simp: check_profile_def split: if_splits option.splits)


definition demo_disk :: "string option \<Rightarrow> disk_spec" where
  "demo_disk i = \<lparr>ds_id = i, ds_path = ''/d'', ds_readonly = False, ds_mediated = False\<rparr>"

definition demo_raw :: raw_config where
  "demo_raw = \<lparr>rc_provium = \<lparr>ps_roots = [], ps_cache_dir = None, ps_cache_max_size = None\<rparr>, rc_from_dir = None,
     rc_inline = [(''peios'', blank_profile\<lparr>pf_disks := [demo_disk None, demo_disk (Some ''log'')]\<rparr>)]\<rparr>"

definition empty_fs :: host_fs where
  "empty_fs = \<lparr>fs_read = (\<lambda>_. Inl HostIo), fs_dir = (\<lambda>_. Inl HostIo), fs_is_file = (\<lambda>_. False), fs_env = (\<lambda>_. None)\<rparr>"

lemma demo_config_loads:
  "from_toml_str empty_fs (\<lambda>_. Inr demo_raw) (\<lambda>_. Inl ''syntax'') ''x'' ''p''
   = Inr \<lparr>cf_provium = rc_provium demo_raw, cf_profiles = rc_inline demo_raw\<rparr>"
  by code_simp


section \<open>Listings in any order\<close>

text \<open>Two file systems with the same files, whose directory listings may come in a different order.\<close>

definition same_files :: "host_fs \<Rightarrow> host_fs \<Rightarrow> bool" where
  "same_files f g =
     (fs_read f = fs_read g \<and> fs_is_file f = fs_is_file g
      \<and> (\<forall>d. case (fs_dir f d, fs_dir g d) of
               (Inr xs, Inr ys) \<Rightarrow> mset xs = mset ys \<and> distinct xs
             | (Inl e, Inl e') \<Rightarrow> e = e'
             | _ \<Rightarrow> False))"

lemma same_filesD:
  assumes "same_files f g"
  shows "fs_dir f d = Inl e \<Longrightarrow> fs_dir g d = Inl e" and "fs_dir f d = Inr xs \<Longrightarrow> \<exists>ys. fs_dir g d = Inr ys \<and> mset xs = mset ys \<and> distinct xs"
    and "fs_read f = fs_read g" and "fs_is_file f = fs_is_file g"
proof -
  have dir: "case (fs_dir f d, fs_dir g d) of
        (Inr xs, Inr ys) \<Rightarrow> mset xs = mset ys \<and> distinct xs | (Inl e, Inl e') \<Rightarrow> e = e' | _ \<Rightarrow> False"
    using assms unfolding same_files_def by blast
  show "fs_dir f d = Inl e \<Longrightarrow> fs_dir g d = Inl e" "fs_dir f d = Inr xs \<Longrightarrow> \<exists>ys. fs_dir g d = Inr ys \<and> mset xs = mset ys \<and> distinct xs"
    using dir by (auto split: sum.splits)
qed (use assms in \<open>auto simp: same_files_def\<close>)

definition release_kernels :: "host_fs \<Rightarrow> string \<Rightarrow> string \<Rightarrow> (string \<times> string) list" where
  "release_kernels fs modules r =
     (case fs_dir fs (path_join modules r) of Inl _ \<Rightarrow> [] | Inr files \<Rightarrow> map (Pair r) (filter (starts_with ''vmlinuz-'') files))"

lemma kernels_in_concat: "kernels_in fs modules rs = concat (map (release_kernels fs modules) rs)"
  by (induction rs) (simp_all add: release_kernels_def)

lemma release_kernels_same: "same_files f g \<Longrightarrow> mset (release_kernels f m r) = mset (release_kernels g m r)"
  using same_filesD(1) [of f g "path_join m r"] same_filesD(2) [of f g "path_join m r"]
  by (cases "fs_dir f (path_join m r)") (fastforce simp: release_kernels_def)+

lemma kernels_in_same:
  assumes "same_files f g" and "mset rs = mset ss"
  shows "mset (kernels_in f m rs) = mset (kernels_in g m ss)"
proof -
  have "mset (kernels_in f m rs) = (\<Sum>r\<in>#mset rs. mset (release_kernels f m r))"
    unfolding kernels_in_concat by (simp add: mset_concat o_def flip: mset_map sum_mset_sum_list)
  also have "\<dots> = (\<Sum>r\<in>#mset ss. mset (release_kernels g m r))"
    using assms(2) release_kernels_same [OF assms(1)] by simp
  also have "\<dots> = mset (kernels_in g m ss)"
    unfolding kernels_in_concat by (simp add: mset_concat o_def flip: mset_map sum_mset_sum_list)
  finally show ?thesis .
qed

text \<open>Discovery succeeds when every entry with a profile file can be read and parsed.\<close>

definition profile_file :: "string \<Rightarrow> string \<Rightarrow> string" where
  "profile_file dir name = path_join (path_join dir name) PROFILE_FILE"

definition found_profile :: "host_fs \<Rightarrow> (string \<Rightarrow> string + profile) \<Rightarrow> string \<Rightarrow> string \<Rightarrow> profile option" where
  "found_profile fs toml dir name =
     (case fs_read fs (profile_file dir name) of
        Inl _ \<Rightarrow> None
      | Inr raw \<Rightarrow>
          (case toml raw of Inl _ \<Rightarrow> None | Inr pf \<Rightarrow> Some (rebase (path_join dir name) (pf\<lparr>pf_dir := Some (path_join dir name)\<rparr>))))"

lemma discover_entries_found:
  "discover_entries fs toml dir names = Inr found \<longleftrightarrow>
     (\<forall>n\<in>set names. fs_is_file fs (profile_file dir n) \<longrightarrow> found_profile fs toml dir n \<noteq> None)
     \<and> found = map (\<lambda>n. (n, the (found_profile fs toml dir n))) (filter (\<lambda>n. fs_is_file fs (profile_file dir n)) names)"
proof (induction names arbitrary: found)
  case (Cons n names)
  show ?case
  proof (cases "fs_is_file fs (profile_file dir n)")
    case False
    then show ?thesis using Cons.IH by (simp add: profile_file_def)
  next
    case True
    have "found_profile fs toml dir n = None \<Longrightarrow> \<exists>e. discover_entries fs toml dir (n # names) = Inl e"
      using True by (auto simp: found_profile_def profile_file_def Let_def split: sum.splits)
    moreover have "discover_entries fs toml dir (n # names) = (case discover_entries fs toml dir names of Inl e \<Rightarrow> Inl e | Inr fs \<Rightarrow> Inr ((n, pf) # fs))"
      if "found_profile fs toml dir n = Some pf" for pf
      using True that by (auto simp: found_profile_def profile_file_def Let_def split: sum.splits)
    ultimately show ?thesis using True Cons.IH by (cases "found_profile fs toml dir n") (auto split: sum.splits)
  qed
qed auto

lemma same_files_found: "same_files f g \<Longrightarrow> found_profile f toml dir = found_profile g toml dir"
  by (simp add: same_filesD(3) found_profile_def fun_eq_iff)

lemma sort_key_same:
  assumes "mset xs = mset ys" and "distinct (map fst xs)"
  shows "sort_key fst xs = sort_key fst ys"
  by (rule sort_key_inj_key_eq) (use assms in \<open>auto simp: distinct_map\<close>)

lemma discover_entries_same:
  assumes same: "same_files f g" and ms: "mset xs = mset ys" and dist: "distinct xs" and found: "discover_entries f toml dir xs = Inr ps"
  shows "\<exists>qs. discover_entries g toml dir ys = Inr qs \<and> mset ps = mset qs \<and> distinct (map fst ps)"
proof -
  have "set xs = set ys" using ms by (rule mset_eq_setD)
  moreover have "mset (map h (filter P xs)) = mset (map h (filter P ys))" for h :: "string \<Rightarrow> string \<times> profile" and P
    using ms by simp
  ultimately show ?thesis
    using found dist unfolding discover_entries_found same_files_found [OF same] same_filesD(4) [OF same]
    by (auto simp: o_def)
qed

lemma mset_empty_list: "mset ps = mset qs \<Longrightarrow> (ps = []) = (qs = [])"
  by auto

text \<open>
  A run does not depend on the order of directory listings. On two views of the same
  files the kernel of a profile resolves to the same path or the same error (which lists
  the candidates in one order), and discovery finds the same profiles in the same order.
\<close>

theorem listing_order_irrelevant:
  assumes same: "same_files f g"
  shows "resolve_kernel f pf = resolve_kernel g pf
    \<and> (discover_profiles f toml dir path = Inr ps \<longrightarrow> discover_profiles g toml dir path = Inr ps)"
proof
  have "resolve_kernel f pf = resolve_kernel g pf" if root: "pf_root pf = Some root" for root
  proof (cases "fs_dir f (path_join root ''usr/lib/modules'')")
    case (Inl e)
    then show ?thesis using same_filesD(1) [OF same Inl] root by (simp add: resolve_kernel_def Let_def)
  next
    case (Inr rs)
    then obtain ss where ss: "fs_dir g (path_join root ''usr/lib/modules'') = Inr ss" "mset rs = mset ss"
      using same_filesD(2) [OF same] by blast
    have "sort (kernels_in f m rs) = sort (kernels_in g m ss)" for m
      using kernels_in_same [OF same ss(2), of m] by (metis properties_for_sort sorted_sort mset_sort)
    then show ?thesis using Inr ss(1) root by (simp add: resolve_kernel_def Let_def)
  qed
  then show "resolve_kernel f pf = resolve_kernel g pf" by (cases "pf_root pf") (simp_all add: resolve_kernel_def)
next
  show "discover_profiles f toml dir path = Inr ps \<longrightarrow> discover_profiles g toml dir path = Inr ps"
  proof
    assume disc: "discover_profiles f toml dir path = Inr ps"
    then obtain xs found where xs: "fs_dir f dir = Inr xs" "discover_entries f toml dir xs = Inr found" "found \<noteq> []" "ps = sort_key fst found"
      by (auto simp: discover_profiles_def split: sum.splits if_splits)
    obtain ys where ys: "fs_dir g dir = Inr ys" "mset xs = mset ys" "distinct xs" using same_filesD(2) [OF same xs(1)] by blast
    obtain qs where qs: "discover_entries g toml dir ys = Inr qs" "mset found = mset qs" "distinct (map fst found)"
      using discover_entries_same [OF same ys(2,3) xs(2)] by blast
    show "discover_profiles g toml dir path = Inr ps"
      using ys(1) qs(1) xs(3,4) mset_empty_list [OF qs(2)] sort_key_same [OF qs(2,3)] by (simp add: discover_profiles_def)
  qed
qed

definition listing_fs :: "string list \<Rightarrow> host_fs" where
  "listing_fs names = \<lparr>fs_read = (\<lambda>p. Inr p), fs_dir = (\<lambda>_. Inr names), fs_is_file = (\<lambda>_. True), fs_env = (\<lambda>_. None)\<rparr>"

definition toml_by_path :: "string \<Rightarrow> string + profile" where
  "toml_by_path raw = Inr (blank_profile\<lparr>pf_kernel := raw\<rparr>)"

theorem listing_order_irrelevant_witness:
  "resolve_kernel (listing_fs [''b'', ''a'']) blank_profile = resolve_kernel (listing_fs [''a'', ''b'']) blank_profile
   \<and> discover_profiles (listing_fs [''a'', ''b'']) toml_by_path ''/p'' ''c'' = discover_profiles (listing_fs [''b'', ''a'']) toml_by_path ''/p'' ''c''"
proof -
  have "same_files (listing_fs [''b'', ''a'']) (listing_fs [''a'', ''b''])" by (simp add: same_files_def listing_fs_def)
  moreover have "\<exists>ps. discover_profiles (listing_fs [''b'', ''a'']) toml_by_path ''/p'' ''c'' = Inr ps"
    by (simp add: discover_profiles_def listing_fs_def toml_by_path_def Let_def)
  ultimately show ?thesis using listing_order_irrelevant [of "listing_fs [''b'', ''a'']" "listing_fs [''a'', ''b'']"] by metis
qed

section \<open>Where a build leads\<close>

text \<open>
  A relative \<open>build_out\<close> of a discovered profile separates the build from the boot. The
  build command of the profile runs in the profile's directory with the token expanded to
  the relative path, while the kernel path that starts with the token expands to the same
  relative path without the directory, which is then read from provium's own directory.
\<close>

theorem relative_build_out_drifts:
  assumes "pf_build_out pf = Some out" and "\<not> is_absolute out" and "pf_kernel pf = ''{out}'' @ rest"
    and "\<not> contains_str ''{out}'' rest" and "rest \<noteq> []"
  shows "let found = rebase dir (pf\<lparr>pf_dir := Some dir\<rparr>); booted = expand_profile (out_dir fs name found) found
    in build_dir booted = Some dir \<and> pf_build booted = map_option (replace_str ''{out}'' out) (pf_build pf)
       \<and> resolve_kernel fs booted = Inr (out @ rest)"
  using assms
  by (simp add: Let_def rebase_def out_dir_def expand_profile_def build_dir_def rebase_path_def starts_with_def resolve_kernel_def
      replace_str.simps [of _ _ "CHR ''{'' # _"] replace_str_absent)

theorem relative_build_out_drifts_witness:
  "resolve_kernel empty_fs (expand_profile ''out'' (rebase ''/sets/a'' (blank_profile\<lparr>pf_dir := Some ''/sets/a'', pf_build_out := Some ''out'', pf_kernel := ''{out}/vmlinuz''\<rparr>)))
   = Inr ''out/vmlinuz''"
  using relative_build_out_drifts [of "blank_profile\<lparr>pf_build_out := Some ''out'', pf_kernel := ''{out}/vmlinuz''\<rparr>" "''out''" "''/vmlinuz''" "''/sets/a''" empty_fs "''a''"]
  by (simp add: is_absolute_def starts_with_def out_dir_def rebase_def blank_profile_def Let_def)

end
