(* ===== verification/Lab_Tree.thy ===== *)
theory Lab_Tree
  imports Vm_Lifecycle Bridge
begin

text \<open>
  Labs, \<open>provium-host/src/lab.rs\<close>: groups of machines, bridges and sub-labs. Handles of
  the source are shared references, so the model keeps labs, machines and bridges in a
  store and a handle is a position in it; the same machine can be a member of several
  labs, and a lab can be reached on several paths. The maps of a lab are ordered by name.
  A batch runs its members in some order, each member's operation as one step. Errors
  that the source turns into text stay the values they render.
\<close>

section \<open>Errors\<close>

datatype batch_failure = MemberFailed vm_error | ThreadPanicked

datatype restore_cause = CauseVmm vmm_error | CauseVm vm_error | CauseText string | CauseIo io_error

datatype lab_error =
    DuplicateVmName string
  | UnknownVm string
  | UnknownProfile string
  | DuplicateBridgeName string
  | UnknownBridge string
  | RestoreFailed string restore_cause
  | ClaimAlreadyHeld
  | ClaimExceedsBudget
  | ClaimRefused acquire_error
  | LabBootRefused reserve_error
  | ReservedName string
  | AlreadyBooted
  | BatchFailed string "(string \<times> batch_failure) list"

section \<open>State\<close>

record barrier_inner =
  bi_arrived :: nat
  bi_generation :: u64
  bi_expected :: "nat option"

record lab_inner =
  li_name :: string
  li_pool :: bool
  li_vms :: "(string \<times> nat) list"
  li_sub_labs :: "(string \<times> nat) list"
  li_bridges :: "(string \<times> nat) list"
  li_barriers :: "(string \<times> barrier_inner) list"
  li_boot_reservations :: "hold list"

record vm_spawned =
  sp_file :: string
  sp_vm_name :: string
  sp_profile :: string
  sp_memory_bytes :: u64
  sp_cid :: u32

record ('i, 'c) lab_store =
  st_labs :: "lab_inner list"
  st_vms :: "('i, 'c) vm list"
  st_bridges :: "bridge list"
  st_events :: "vm_spawned list"

definition the_lab :: "('i, 'c) lab_store \<Rightarrow> nat \<Rightarrow> lab_inner" where
  "the_lab st l = st_labs st ! l"

definition the_vm :: "('i, 'c) lab_store \<Rightarrow> nat \<Rightarrow> ('i, 'c) vm" where
  "the_vm st v = st_vms st ! v"

definition the_bridge :: "('i, 'c) lab_store \<Rightarrow> nat \<Rightarrow> bridge" where
  "the_bridge st b = st_bridges st ! b"

definition set_lab :: "nat \<Rightarrow> lab_inner \<Rightarrow> ('i, 'c) lab_store \<Rightarrow> ('i, 'c) lab_store" where
  "set_lab l x st = st\<lparr>st_labs := (st_labs st)[l := x]\<rparr>"

definition set_vm :: "nat \<Rightarrow> ('i, 'c) vm \<Rightarrow> ('i, 'c) lab_store \<Rightarrow> ('i, 'c) lab_store" where
  "set_vm v x st = st\<lparr>st_vms := (st_vms st)[v := x]\<rparr>"

definition set_bridge :: "nat \<Rightarrow> bridge \<Rightarrow> ('i, 'c) lab_store \<Rightarrow> ('i, 'c) lab_store" where
  "set_bridge b x st = st\<lparr>st_bridges := (st_bridges st)[b := x]\<rparr>"

definition lab_new :: "string \<Rightarrow> bool \<Rightarrow> lab_inner" where
  "lab_new name has_pool =
     \<lparr>li_name = name, li_pool = has_pool, li_vms = [], li_sub_labs = [], li_bridges = [], li_barriers = [], li_boot_reservations = []\<rparr>"

section \<open>Names\<close>

definition RESERVED_LAB_NAMES :: "string list" where
  "RESERVED_LAB_NAMES = [''vm_fixture'', ''lab_fixture'', ''pack'', ''unpack'']"

definition check_reserved_name :: "string \<Rightarrow> lab_error + unit" where
  "check_reserved_name name = (if name \<in> set RESERVED_LAB_NAMES then Inl (ReservedName name) else Inr ())"

definition split_sub_lab_path :: "string \<Rightarrow> string list \<times> string" where
  "split_sub_lab_path flat = (let parts = split_char (CHR ''/'') flat in (butlast parts, last parts))"

section \<open>Bridges of a lab\<close>

definition create_bridge :: "nat \<Rightarrow> string \<Rightarrow> ('i, 'c) lab_store \<Rightarrow> (lab_error + nat) \<times> ('i, 'c) lab_store" where
  "create_bridge l name st =
     (case check_reserved_name name of
        Inl e \<Rightarrow> (Inl e, st)
      | Inr _ \<Rightarrow>
          (let lab = the_lab st l; b = length (st_bridges st)
           in if map_of (li_bridges lab) name \<noteq> None then (Inl (DuplicateBridgeName name), st)
              else (Inr b, set_lab l (lab\<lparr>li_bridges := tree_insert name b (li_bridges lab)\<rparr>)
                             (st\<lparr>st_bridges := st_bridges st @ [bridge_new name]\<rparr>))))"

definition get_bridge :: "nat \<Rightarrow> string \<Rightarrow> ('i, 'c) lab_store \<Rightarrow> lab_error + nat" where
  "get_bridge l name st = (case map_of (li_bridges (the_lab st l)) name of Some b \<Rightarrow> Inr b | None \<Rightarrow> Inl (UnknownBridge name))"

definition bridge_names :: "nat \<Rightarrow> ('i, 'c) lab_store \<Rightarrow> string list" where
  "bridge_names l st = map fst (li_bridges (the_lab st l))"

section \<open>Machines of a lab\<close>

definition create_vm ::
  "(string \<Rightarrow> profile option) \<Rightarrow> nat \<Rightarrow> string \<Rightarrow> string \<Rightarrow> boot_opts \<Rightarrow> ('i, 'c) lab_store \<Rightarrow> (lab_error + nat) \<times> ('i, 'c) lab_store" where
  "create_vm cfg l name profile_name opts st =
     (case check_reserved_name name of
        Inl e \<Rightarrow> (Inl e, st)
      | Inr _ \<Rightarrow>
          (case cfg profile_name of
             None \<Rightarrow> (Inl (UnknownProfile profile_name), st)
           | Some pf \<Rightarrow>
               (let lab = the_lab st l; v = length (st_vms st)
                in if map_of (li_vms lab) name \<noteq> None then (Inl (DuplicateVmName name), st)
                   else (Inr v, set_lab l (lab\<lparr>li_vms := tree_insert name v (li_vms lab)\<rparr>)
                                  (st\<lparr>st_vms := st_vms st @ [vm_new name profile_name pf opts (li_pool lab)]\<rparr>)))))"

definition vm_cid :: "('i, 'c) vm \<Rightarrow> u32 option" where
  "vm_cid v = map_option rr_cid (vm_running v)"

text \<open>A machine that finds its name taken is dropped, which shuts it down.\<close>

definition restore_vm ::
  "('i, 'c, 'w) vmm \<Rightarrow> (string \<Rightarrow> profile option) \<Rightarrow> nat \<Rightarrow> string \<Rightarrow> string \<Rightarrow> boot_opts \<Rightarrow> string \<Rightarrow> ('i, 'c) lab_store \<Rightarrow> 'w
     \<Rightarrow> (lab_error + nat) \<times> ('i, 'c) lab_store \<times> 'w" where
  "restore_vm e cfg l name profile_name opts path st w =
     (case cfg profile_name of
        None \<Rightarrow> (Inl (UnknownProfile profile_name), st, w)
      | Some pf \<Rightarrow>
          (case ve_restore e name pf opts path w of
             (Inl err, w) \<Rightarrow> (Inl (RestoreFailed name (CauseVmm err)), st, w)
           | (Inr r, w) \<Rightarrow>
               (let vm = from_running name profile_name pf opts r; lab = the_lab st l; v = length (st_vms st)
                in if map_of (li_vms lab) name \<noteq> None then (Inl (DuplicateVmName name), st, snd (vm_drop e vm w))
                   else (Inr v,
                         (set_lab l (lab\<lparr>li_vms := tree_insert name v (li_vms lab)\<rparr>)
                           (st\<lparr>st_vms := st_vms st @ [vm],
                               st_events := st_events st @ [\<lparr>sp_file = li_name lab, sp_vm_name = name, sp_profile = profile_name,
                                  sp_memory_bytes = fst (sizing opts), sp_cid = unwrap_or (vm_cid vm) 0\<rparr>]\<rparr>)), w))))"

definition get_vm :: "nat \<Rightarrow> string \<Rightarrow> ('i, 'c) lab_store \<Rightarrow> lab_error + nat" where
  "get_vm l name st = (case map_of (li_vms (the_lab st l)) name of Some v \<Rightarrow> Inr v | None \<Rightarrow> Inl (UnknownVm name))"

definition vm_names :: "nat \<Rightarrow> ('i, 'c) lab_store \<Rightarrow> string list" where
  "vm_names l st = map fst (li_vms (the_lab st l))"

section \<open>Sub-labs\<close>

text \<open>\<open>sub_lab\<close> inserts without looking: a sub-lab of the name that was there is replaced.\<close>

definition sub_lab :: "nat \<Rightarrow> string \<Rightarrow> ('i, 'c) lab_store \<Rightarrow> nat \<times> ('i, 'c) lab_store" where
  "sub_lab l name st =
     (let lab = the_lab st l; s = length (st_labs st)
      in (s, (set_lab l (lab\<lparr>li_sub_labs := tree_insert name s (li_sub_labs lab)\<rparr>) (st\<lparr>st_labs := st_labs st @ [lab_new name False]\<rparr>))))"

definition sub_lab_checked :: "nat \<Rightarrow> string \<Rightarrow> ('i, 'c) lab_store \<Rightarrow> (lab_error + nat) \<times> ('i, 'c) lab_store" where
  "sub_lab_checked l name st =
     (case check_reserved_name name of
        Inl e \<Rightarrow> (Inl e, st)
      | Inr _ \<Rightarrow> (let (s, st) = sub_lab l name st in (Inr s, st)))"

definition get_sub_lab :: "nat \<Rightarrow> string \<Rightarrow> ('i, 'c) lab_store \<Rightarrow> nat option" where
  "get_sub_lab l name st = map_of (li_sub_labs (the_lab st l)) name"

definition sub_lab_names :: "nat \<Rightarrow> ('i, 'c) lab_store \<Rightarrow> string list" where
  "sub_lab_names l st = map fst (li_sub_labs (the_lab st l))"

fun descend_or_create :: "nat \<Rightarrow> string list \<Rightarrow> ('i, 'c) lab_store \<Rightarrow> nat \<times> ('i, 'c) lab_store" where
  "descend_or_create cur [] st = (cur, st)"
| "descend_or_create cur (p # parts) st =
     (case get_sub_lab cur p st of
        Some existing \<Rightarrow> descend_or_create existing parts st
      | None \<Rightarrow> (let (s, st) = sub_lab cur p st in descend_or_create s parts st))"

section \<open>Membership\<close>

definition include_vm :: "nat \<Rightarrow> nat \<Rightarrow> ('i, 'c) lab_store \<Rightarrow> (lab_error + unit) \<times> ('i, 'c) lab_store" where
  "include_vm l v st =
     (let name = vm_name (the_vm st v); lab = the_lab st l
      in case check_reserved_name name of
           Inl e \<Rightarrow> (Inl e, st)
         | Inr _ \<Rightarrow>
             if map_of (li_vms lab) name \<noteq> None then (Inl (DuplicateVmName name), st)
             else (Inr (), set_lab l (lab\<lparr>li_vms := tree_insert name v (li_vms lab)\<rparr>) st))"

definition include_bridge :: "nat \<Rightarrow> nat \<Rightarrow> ('i, 'c) lab_store \<Rightarrow> (lab_error + unit) \<times> ('i, 'c) lab_store" where
  "include_bridge l b st =
     (let name = br_name (the_bridge st b); lab = the_lab st l
      in case check_reserved_name name of
           Inl e \<Rightarrow> (Inl e, st)
         | Inr _ \<Rightarrow>
             if map_of (li_bridges lab) name \<noteq> None then (Inl (DuplicateBridgeName name), st)
             else (Inr (), set_lab l (lab\<lparr>li_bridges := tree_insert name b (li_bridges lab)\<rparr>) st))"

definition include_sub_lab :: "nat \<Rightarrow> nat \<Rightarrow> ('i, 'c) lab_store \<Rightarrow> (lab_error + unit) \<times> ('i, 'c) lab_store" where
  "include_sub_lab l s st =
     (let name = li_name (the_lab st s); lab = the_lab st l
      in case check_reserved_name name of
           Inl e \<Rightarrow> (Inl e, st)
         | Inr _ \<Rightarrow>
             if map_of (li_sub_labs lab) name \<noteq> None then (Inl (DuplicateVmName (''sub-lab `'' @ name @ ''`'')), st)
             else (Inr (), set_lab l (lab\<lparr>li_sub_labs := tree_insert name s (li_sub_labs lab)\<rparr>) st))"

definition remove_vm :: "nat \<Rightarrow> string \<Rightarrow> ('i, 'c) lab_store \<Rightarrow> nat option \<times> ('i, 'c) lab_store" where
  "remove_vm l name st =
     (let lab = the_lab st l in (map_of (li_vms lab) name, set_lab l (lab\<lparr>li_vms := tree_remove name (li_vms lab)\<rparr>) st))"

definition remove_bridge :: "nat \<Rightarrow> string \<Rightarrow> ('i, 'c) lab_store \<Rightarrow> nat option \<times> ('i, 'c) lab_store" where
  "remove_bridge l name st =
     (let lab = the_lab st l in (map_of (li_bridges lab) name, set_lab l (lab\<lparr>li_bridges := tree_remove name (li_bridges lab)\<rparr>) st))"

definition remove_sub_lab :: "nat \<Rightarrow> string \<Rightarrow> ('i, 'c) lab_store \<Rightarrow> nat option \<times> ('i, 'c) lab_store" where
  "remove_sub_lab l name st =
     (let lab = the_lab st l in (map_of (li_sub_labs lab) name, set_lab l (lab\<lparr>li_sub_labs := tree_remove name (li_sub_labs lab)\<rparr>) st))"

definition lab_members :: "nat \<Rightarrow> ('i, 'c) lab_store \<Rightarrow> (string \<times> string) list" where
  "lab_members l st =
     map (\<lambda>n. (''vm'', n)) (vm_names l st) @ map (\<lambda>n. (''bridge'', n)) (bridge_names l st) @ map (\<lambda>n. (''lab'', n)) (sub_lab_names l st)"

section \<open>The whole tree\<close>

definition child_name :: "string \<Rightarrow> string \<Rightarrow> string" where
  "child_name prefix name = (if prefix = [] then name else prefix @ ''/'' @ name)"

text \<open>
  \<open>gather_into\<close> calls itself for each sub-lab. The first argument is how deep the calls
  may nest: \<open>None\<close> is a recursion that goes deeper. A lab can be included under itself, and
  then no depth is enough.
\<close>

fun gather_into :: "nat \<Rightarrow> ('i, 'c) lab_store \<Rightarrow> nat \<Rightarrow> string \<Rightarrow> (string \<times> nat) list option" where
  "gather_into 0 st l prefix = None"
| "gather_into (Suc depth) st l prefix =
     map_option (\<lambda>subs. map (\<lambda>(n, v). (child_name prefix n, v)) (li_vms (the_lab st l)) @ concat subs)
       (those (map (\<lambda>(n, s). gather_into depth st s (child_name prefix n)) (li_sub_labs (the_lab st l))))"

definition collect_all_vms :: "nat \<Rightarrow> ('i, 'c) lab_store \<Rightarrow> nat \<Rightarrow> (string \<times> nat) list option" where
  "collect_all_vms depth st l = gather_into depth st l []"

fun open_stream_total :: "nat \<Rightarrow> ('i, 'c) lab_store \<Rightarrow> nat \<Rightarrow> nat option" where
  "open_stream_total 0 st l = None"
| "open_stream_total (Suc depth) st l =
     map_option (\<lambda>subs. sum_list (map (\<lambda>(_, v). length (vm_open_streams (the_vm st v))) (li_vms (the_lab st l)))
                      + sum_list (map (\<lambda>(_, b). unat (captures (the_bridge st b))) (li_bridges (the_lab st l))) + sum_list subs)
       (those (map (\<lambda>(_, s). open_stream_total depth st s) (li_sub_labs (the_lab st l))))"

section \<open>Batches\<close>

text \<open>The members in the order in which their threads run, and the outcome of each.\<close>

fun run_members ::
  "(('i, 'c) vm \<Rightarrow> 'w \<Rightarrow> unit outcome \<times> ('i, 'c) vm \<times> 'w) \<Rightarrow> (string \<times> nat) list \<Rightarrow> ('i, 'c) lab_store \<Rightarrow> 'w
     \<Rightarrow> (string \<times> unit outcome) list \<times> ('i, 'c) lab_store \<times> 'w" where
  "run_members op [] st w = ([], st, w)"
| "run_members op ((name, v) # ms) st w =
     (let (r, vm, w) = op (the_vm st v) w; (rs, st, w) = run_members op ms (set_vm v vm st) w
      in ((name, r) # rs, st, w))"

fun add_failure :: "string \<times> unit outcome \<Rightarrow> (string \<times> batch_failure) list \<Rightarrow> (string \<times> batch_failure) list" where
  "add_failure (name, Ret (Inr _)) m = m"
| "add_failure (name, Ret (Inl err)) m = tree_insert name (MemberFailed err) m"
| "add_failure (name, Panics) m = tree_insert ''<panicked>'' ThreadPanicked m"

definition batch_result :: "string \<Rightarrow> (string \<times> unit outcome) list \<Rightarrow> lab_error + unit" where
  "batch_result action rs =
     (let failures = fold add_failure rs []
      in if failures = [] then Inr () else Inl (BatchFailed action failures))"

text \<open>
  \<open>order\<close> says how the threads of the batch are scheduled; it only reorders the members.
\<close>

definition batch ::
  "nat \<Rightarrow> ((string \<times> nat) list \<Rightarrow> (string \<times> nat) list) \<Rightarrow> string \<Rightarrow> (('i, 'c) vm \<Rightarrow> 'w \<Rightarrow> unit outcome \<times> ('i, 'c) vm \<times> 'w)
     \<Rightarrow> nat \<Rightarrow> ('i, 'c) lab_store \<Rightarrow> 'w \<Rightarrow> ((lab_error + unit) \<times> ('i, 'c) lab_store \<times> 'w) option" where
  "batch depth order action op l st w =
     map_option (\<lambda>ms. let (rs, st, w) = run_members op (order ms) st w in (batch_result action rs, st, w))
       (collect_all_vms depth st l)"

definition returns :: "(vm_error + unit) \<times> ('i, 'c) vm \<times> 'w \<Rightarrow> unit outcome \<times> ('i, 'c) vm \<times> 'w" where
  "returns r = (Ret (fst r), snd r)"

text \<open>The clone of a handle without its pool shares everything else with the member.\<close>

definition boot_without_pool :: "('i, 'c, 'w) vmm \<Rightarrow> ('i, 'c) vm \<Rightarrow> 'w \<Rightarrow> unit outcome \<times> ('i, 'c) vm \<times> 'w" where
  "boot_without_pool e v w =
     (case boot e (v\<lparr>vm_pool := False\<rparr>) w of (r, v', w) \<Rightarrow> (Ret r, v'\<lparr>vm_pool := vm_pool v\<rparr>, w))"

definition member_amount :: "('i, 'c) vm \<Rightarrow> resource_amount" where
  "member_amount v =
     (let (memory_bytes, cpus) = sizing (vm_boot_opts v)
      in \<lparr>memory_bytes = sat_add memory_bytes VMM_OVERHEAD_BYTES, cpus = cpus\<rparr>)"

fun needed_by :: "('i, 'c) vm list \<Rightarrow> resource_amount \<Rightarrow> resource_amount" where
  "needed_by [] acc = acc"
| "needed_by (v # vs) acc =
     needed_by vs (if vm_state v = Created
                   then \<lparr>memory_bytes = sat_add (memory_bytes acc) (memory_bytes (member_amount v)),
                         cpus = sat_add (cpus acc) (cpus (member_amount v))\<rparr>
                   else acc)"

definition push_hold :: "nat \<Rightarrow> hold option \<Rightarrow> ('i, 'c) lab_store \<Rightarrow> ('i, 'c) lab_store" where
  "push_hold l ho st =
     (case ho of
        None \<Rightarrow> st
      | Some h \<Rightarrow> set_lab l ((the_lab st l)\<lparr>li_boot_reservations := li_boot_reservations (the_lab st l) @ [h]\<rparr>) st)"

definition boot_with_pool ::
  "nat \<Rightarrow> ((string \<times> nat) list \<Rightarrow> (string \<times> nat) list) \<Rightarrow> ('i, 'c, 'w) vmm \<Rightarrow> bool \<Rightarrow> nat \<Rightarrow> ('i, 'c) lab_store \<Rightarrow> 'w
     \<Rightarrow> ((lab_error + unit) \<times> ('i, 'c) lab_store \<times> 'w) option" where
  "boot_with_pool depth order e has_pool l st w =
     (case collect_all_vms depth st l of
        None \<Rightarrow> None
      | Some vms \<Rightarrow>
          (let needed = needed_by (map (the_vm st \<circ> snd) vms) ra_default
           in case (if has_pool \<and> \<not> is_zero needed
                    then (case ve_reserve e needed w of (Inl err, w) \<Rightarrow> (Inl err, w) | (Inr h, w) \<Rightarrow> (Inr (Some h), w))
                    else (Inr None, w)) of
                (Inl err, w) \<Rightarrow> Some (Inl (LabBootRefused err), st, w)
              | (Inr hold, w) \<Rightarrow>
                  (case batch depth order ''boot'' (boot_without_pool e) l st w of
                     None \<Rightarrow> None
                   | Some (Inr _, st, w) \<Rightarrow> Some (Inr (), push_hold l hold st, w)
                   | Some (Inl err, st, w) \<Rightarrow> Some (Inl err, st, drop_hold e hold w))))"

definition lab_shutdown ::
  "nat \<Rightarrow> ((string \<times> nat) list \<Rightarrow> (string \<times> nat) list) \<Rightarrow> ('i, 'c, 'w) vmm \<Rightarrow> nat \<Rightarrow> ('i, 'c) lab_store \<Rightarrow> 'w
     \<Rightarrow> ((lab_error + unit) \<times> ('i, 'c) lab_store \<times> 'w) option" where
  "lab_shutdown depth order e l st w =
     map_option (\<lambda>(r, st, w).
         (r, set_lab l ((the_lab st l)\<lparr>li_boot_reservations := []\<rparr>) st, fold (ve_release e) (li_boot_reservations (the_lab st l)) w))
       (batch depth order ''shutdown'' (\<lambda>v w. returns (shutdown e v w)) l st w)"

definition lab_pause ::
  "nat \<Rightarrow> ((string \<times> nat) list \<Rightarrow> (string \<times> nat) list) \<Rightarrow> ('i, 'c, 'w) vmm \<Rightarrow> nat \<Rightarrow> ('i, 'c) lab_store \<Rightarrow> 'w
     \<Rightarrow> ((lab_error + unit) \<times> ('i, 'c) lab_store \<times> 'w) option" where
  "lab_pause depth order e l st w = batch depth order ''pause'' (pause e) l st w"

definition lab_resume ::
  "nat \<Rightarrow> ((string \<times> nat) list \<Rightarrow> (string \<times> nat) list) \<Rightarrow> ('i, 'c, 'w) vmm \<Rightarrow> nat \<Rightarrow> ('i, 'c) lab_store \<Rightarrow> 'w
     \<Rightarrow> ((lab_error + unit) \<times> ('i, 'c) lab_store \<times> 'w) option" where
  "lab_resume depth order e l st w = batch depth order ''resume'' (resume e) l st w"

section \<open>The claim of a file\<close>

text \<open>\<open>acquired\<close> is what the pool's \<open>acquire_for\<close> or \<open>acquire\<close> came to, with the pool after it.\<close>

definition lab_claim ::
  "resource_amount \<Rightarrow> (acquire_error + reservation) \<times> pool_state \<Rightarrow> account \<times> pool_state \<Rightarrow> (lab_error + unit) \<times> account \<times> pool_state" where
  "lab_claim amount acquired ap =
     (if claim_taken (fst ap) then (Inl ClaimAlreadyHeld, ap)
      else (case acquired of
              (Inl err, p) \<Rightarrow>
                (Inl (case acc_owner (fst ap) of
                        None \<Rightarrow> ClaimExceedsBudget
                      | Some _ \<Rightarrow> (case err of ExceedsTotal _ _ \<Rightarrow> ClaimExceedsBudget | _ \<Rightarrow> ClaimRefused err)), fst ap, p)
            | (Inr r, p) \<Rightarrow>
                (let (ok, a, p) = set_claim r amount (fst ap, p)
                 in ((if ok then Inr () else Inl ClaimAlreadyHeld), a, p))))"

definition note_claim_taken :: "account \<Rightarrow> (lab_error + unit) \<times> account" where
  "note_claim_taken a = (let (ok, a) = mark_claim_taken a in ((if ok then Inr () else Inl ClaimAlreadyHeld), a))"

end
