(* ===== verification/Lab_Snapshot.thy ===== *)
theory Lab_Snapshot
  imports Lab_Tree
begin

text \<open>
  Snapshots of a whole lab, \<open>lab_snapshot\<close> and \<open>lab_restore\<close> of
  \<open>provium-host/src/lab.rs\<close>: the records that describe a lab on disk, the threads that
  pause, snapshot and resume each machine, the capture of a bridge and its re-creation,
  and the restoration of machines into their sub-labs. Threads are joined in the order in
  which they were spawned; \<open>order\<close> is the order in which they run, as positions. The
  directory on the host is a parameter.
\<close>

section \<open>Data\<close>

record snapshot_directional =
  sd_from :: string
  sd_to :: string
  sd_latency_ms :: u32
  sd_drop_rate_pct :: u32
  sd_bandwidth_bps :: u64

record snapshot_bridge =
  sb_name :: string
  sb_members :: "string list"
  sb_latency_ms :: u32
  sb_drop_rate_pct :: u32
  sb_bandwidth_bps :: u64
  sb_uplink_enabled :: bool
  sb_routes :: "string list"
  sb_isolated :: "string list"
  sb_partitions :: "(string \<times> string) list"
  sb_directional_partitions :: "(string \<times> string) list"
  sb_directional_impairments :: "snapshot_directional list"
  sb_fully_partitioned :: bool

record snapshot_entry =
  se_vm_name :: string
  se_profile :: string
  se_snapshot_path :: string

record snapshot_meta =
  sn_vms :: "snapshot_entry list"
  sn_bridges :: "snapshot_bridge list"

record 'w snapshot_dir =
  sdir_create :: "string \<Rightarrow> 'w \<Rightarrow> (io_error + unit) \<times> 'w"
  sdir_write_meta :: "string \<Rightarrow> snapshot_meta \<Rightarrow> 'w \<Rightarrow> (io_error + unit) \<times> 'w"

section \<open>Capturing bridges\<close>

fun later_pairs :: "'a list \<Rightarrow> ('a \<times> 'a) list" where
  "later_pairs [] = []"
| "later_pairs (a # rest) = map (Pair a) rest @ later_pairs rest"

definition has_effect :: "directional_impairment \<Rightarrow> bool" where
  "has_effect d = (0 < di_latency_ms d \<or> 0 < di_drop_rate_pct d \<or> 0 < di_bandwidth_bps d)"

definition capture_bridge :: "string \<Rightarrow> bridge \<Rightarrow> snapshot_bridge" where
  "capture_bridge name b =
     \<lparr>sb_name = name, sb_members = members b, sb_latency_ms = latency_ms b, sb_drop_rate_pct = drop_rate_pct b,
      sb_bandwidth_bps = bandwidth_bps b, sb_uplink_enabled = uplink_enabled b, sb_routes = routed_to b,
      sb_isolated = filter (is_isolated b) (members b),
      sb_partitions = (if fully_partitioned b then [] else filter (\<lambda>(a, c). is_partitioned b a c) (later_pairs (members b))),
      sb_directional_partitions = directional_partitions b,
      sb_directional_impairments =
        map (\<lambda>((f, t), d). \<lparr>sd_from = f, sd_to = t, sd_latency_ms = di_latency_ms d, sd_drop_rate_pct = di_drop_rate_pct d,
                             sd_bandwidth_bps = di_bandwidth_bps d\<rparr>) (filter (\<lambda>(_, d). has_effect d) (directional b)),
      sb_fully_partitioned = fully_partitioned b\<rparr>"

section \<open>Taking a snapshot\<close>

definition safe_name :: "string \<Rightarrow> string" where
  "safe_name name = map (\<lambda>c. if c = CHR ''/'' then CHR ''_'' else c) name"

definition snap_path :: "string \<Rightarrow> string \<Rightarrow> string" where
  "snap_path dir name = path_join dir (safe_name name @ ''.snap'')"

text \<open>One thread: pause (a failure is ignored), snapshot, resume (a failure is ignored).\<close>

definition snapshot_member ::
  "('i, 'c, 'w) vmm \<Rightarrow> string \<Rightarrow> string \<Rightarrow> ('i, 'c) vm \<Rightarrow> 'w \<Rightarrow> (lab_error + snapshot_entry) option \<times> ('i, 'c) vm \<times> 'w" where
  "snapshot_member e dir name v w =
     (case pause e v w of
        (Panics, v, w) \<Rightarrow> (None, v, w)
      | (Ret _, v, w) \<Rightarrow>
          (case snapshot e v (snap_path dir name) w of
             (Panics, v, w) \<Rightarrow> (None, v, w)
           | (Ret (Inl err), v, w) \<Rightarrow> (Some (Inl (RestoreFailed name (CauseVm err))), v, w)
           | (Ret (Inr _), v, w) \<Rightarrow>
               (case resume e v w of
                  (Panics, v, w) \<Rightarrow> (None, v, w)
                | (Ret _, v, w) \<Rightarrow>
                    (Some (Inr \<lparr>se_vm_name = name, se_profile = vm_profile_name v, se_snapshot_path = snap_path dir name\<rparr>), v, w))))"

fun run_snapshots ::
  "('i, 'c, 'w) vmm \<Rightarrow> string \<Rightarrow> (string \<times> nat) list \<Rightarrow> nat list \<Rightarrow> ('i, 'c) lab_store \<Rightarrow> 'w
     \<Rightarrow> (nat \<times> (lab_error + snapshot_entry) option) list \<times> ('i, 'c) lab_store \<times> 'w" where
  "run_snapshots e dir ms [] st w = ([], st, w)"
| "run_snapshots e dir ms (i # order) st w =
     (let (name, v) = ms ! i; (r, vm, w) = snapshot_member e dir name (the_vm st v) w;
          (rs, st, w) = run_snapshots e dir ms order (set_vm v vm st) w
      in ((i, r) # rs, st, w))"

text \<open>Joining the threads: the first error in the order of the members is returned; \<open>None\<close> is a thread that panicked.\<close>

fun join_all :: "string \<Rightarrow> (lab_error + 'a) option list \<Rightarrow> lab_error + 'a list" where
  "join_all panicked [] = Inr []"
| "join_all panicked (None # rs) = Inl (RestoreFailed ''lab'' (CauseText panicked))"
| "join_all panicked (Some (Inl err) # rs) = Inl err"
| "join_all panicked (Some (Inr x) # rs) = (case join_all panicked rs of Inl err \<Rightarrow> Inl err | Inr xs \<Rightarrow> Inr (x # xs))"

definition joined :: "nat \<Rightarrow> (nat \<times> 'r option) list \<Rightarrow> 'r option list" where
  "joined n rs = map (\<lambda>i. case map_of rs i of Some r \<Rightarrow> r | None \<Rightarrow> None) [0..<n]"

text \<open>The report on open streams names those of the lab's own machines.\<close>

definition stream_report :: "nat \<Rightarrow> ('i, 'c) lab_store \<Rightarrow> nat \<Rightarrow> string" where
  "stream_report l st n =
     ''lab:snapshot: '' @ show_nat n @ '' stream(s) still open'' @ [CHR 0x0A]
     @ concat (map (\<lambda>(_, v). concat (map (\<lambda>(_, m). ''  - '' @ format_stream_meta m @ [CHR 0x0A]) (vm_open_streams (the_vm st v)))) (li_vms (the_lab st l)))
     @ ''  Close streams before snapshotting.''"

definition lab_snapshot ::
  "nat \<Rightarrow> (nat \<Rightarrow> nat list) \<Rightarrow> ('i, 'c, 'w) vmm \<Rightarrow> 'w snapshot_dir \<Rightarrow> nat \<Rightarrow> string \<Rightarrow> ('i, 'c) lab_store \<Rightarrow> 'w
     \<Rightarrow> ((lab_error + snapshot_meta) \<times> ('i, 'c) lab_store \<times> 'w) option" where
  "lab_snapshot depth order e d l dir st w =
     (case sdir_create d dir w of
        (Inl err, w) \<Rightarrow> Some (Inl (RestoreFailed ''snapshot'' (CauseIo err)), st, w)
      | (Inr _, w) \<Rightarrow>
          (case open_stream_total depth st l of
             None \<Rightarrow> None
           | Some n \<Rightarrow>
               if 0 < n then Some (Inl (RestoreFailed ''lab'' (CauseText (stream_report l st n))), st, w)
               else (case collect_all_vms depth st l of
                       None \<Rightarrow> None
                     | Some ms \<Rightarrow>
                         (let (rs, st, w) = run_snapshots e dir ms (order (length ms)) st w
                          in case join_all ''snapshot thread panicked'' (joined (length ms) rs) of
                               Inl err \<Rightarrow> Some (Inl err, st, w)
                             | Inr entries \<Rightarrow>
                                 (let meta = \<lparr>sn_vms = entries, sn_bridges = map (\<lambda>(n, b). capture_bridge n (the_bridge st b)) (li_bridges (the_lab st l))\<rparr>
                                  in case sdir_write_meta d (path_join dir ''lab.json'') meta w of
                                       (Inl err, w) \<Rightarrow> Some (Inl (RestoreFailed ''snapshot meta'' (CauseIo err)), st, w)
                                     | (Inr _, w) \<Rightarrow> Some (Inr meta, st, w))))))"

section \<open>Restoring\<close>

fun preflight :: "nat \<Rightarrow> snapshot_entry list \<Rightarrow> ('i, 'c) lab_store \<Rightarrow> (lab_error + unit) \<times> ('i, 'c) lab_store" where
  "preflight l [] st = (Inr (), st)"
| "preflight l (entry # es) st =
     (let (path, leaf) = split_sub_lab_path (se_vm_name entry); (target, st) = descend_or_create l path st
      in if map_of (li_vms (the_lab st target)) leaf \<noteq> None then (Inl (DuplicateVmName (se_vm_name entry)), st)
         else preflight l es st)"

definition attach_members :: "snapshot_bridge \<Rightarrow> bridge \<Rightarrow> bridge" where
  "attach_members sb b = fold (\<lambda>m b. attach b m) (sb_members sb) b"

fun recreate_bridges :: "nat \<Rightarrow> snapshot_bridge list \<Rightarrow> ('i, 'c) lab_store \<Rightarrow> (lab_error + unit) \<times> ('i, 'c) lab_store" where
  "recreate_bridges l [] st = (Inr (), st)"
| "recreate_bridges l (sb # sbs) st =
     (let (r, st) = (case get_bridge l (sb_name sb) st of Inr b \<Rightarrow> (Inr b, st) | Inl _ \<Rightarrow> create_bridge l (sb_name sb) st)
      in case r of
           Inl err \<Rightarrow> (Inl err, st)
         | Inr b \<Rightarrow> recreate_bridges l sbs (set_bridge b (attach_members sb (the_bridge st b)) st))"

definition restored_nics :: "snapshot_meta \<Rightarrow> snapshot_entry \<Rightarrow> nic_attachment list" where
  "restored_nics meta entry =
     map (\<lambda>sb. \<lparr>na_bridge_name = sb_name sb, na_nic_id = snd (split_sub_lab_path (se_vm_name entry)) @ ''-'' @ sb_name sb, na_mac = None\<rparr>)
       (filter (\<lambda>sb. se_vm_name entry \<in> set (sb_members sb)) (sn_bridges meta))"

text \<open>The targets are found while the threads are spawned, before any of them runs.\<close>

fun restore_targets :: "nat \<Rightarrow> snapshot_entry list \<Rightarrow> ('i, 'c) lab_store \<Rightarrow> nat list \<times> ('i, 'c) lab_store" where
  "restore_targets l [] st = ([], st)"
| "restore_targets l (entry # es) st =
     (let (target, st) = descend_or_create l (fst (split_sub_lab_path (se_vm_name entry))) st; (ts, st) = restore_targets l es st
      in (target # ts, st))"

fun run_restores ::
  "('i, 'c, 'w) vmm \<Rightarrow> (string \<Rightarrow> profile option) \<Rightarrow> snapshot_meta \<Rightarrow> nat list \<Rightarrow> nat list \<Rightarrow> ('i, 'c) lab_store \<Rightarrow> 'w
     \<Rightarrow> (nat \<times> (lab_error + nat) option) list \<times> ('i, 'c) lab_store \<times> 'w" where
  "run_restores e cfg meta ts [] st w = ([], st, w)"
| "run_restores e cfg meta ts (i # order) st w =
     (let entry = sn_vms meta ! i;
          (r, st, w) = restore_vm e cfg (ts ! i) (snd (split_sub_lab_path (se_vm_name entry))) (se_profile entry)
                         (boot_opts_default\<lparr>bo_nic_attachments := restored_nics meta entry\<rparr>) (se_snapshot_path entry) st w;
          (rs, st, w) = run_restores e cfg meta ts order st w
      in ((i, Some r) # rs, st, w))"

definition realize_members :: "'w net_host \<Rightarrow> snapshot_bridge \<Rightarrow> bridge \<times> 'w \<Rightarrow> bridge \<times> 'w" where
  "realize_members h sb bw = fold (\<lambda>m (b, w). snd (realize_for_vm h b m w)) (sb_members sb) bw"

definition reapply_directional :: "'w net_host \<Rightarrow> snapshot_directional \<Rightarrow> bridge \<times> 'w \<Rightarrow> bridge \<times> 'w" where
  "reapply_directional h d bw =
     (let (b, w) = (if 0 < sd_latency_ms d then add_directional_latency h (fst bw) (sd_from d) (sd_to d) (sd_latency_ms d) (snd bw) else bw);
          (b, w) = (if 0 < sd_drop_rate_pct d then directional_drop_rate h b (sd_from d) (sd_to d) (sd_drop_rate_pct d) w else (b, w))
      in if 0 < sd_bandwidth_bps d then set_directional_bandwidth h b (sd_from d) (sd_to d) (sd_bandwidth_bps d) w else (b, w))"

definition reapply_bridge :: "'w net_host \<Rightarrow> snapshot_bridge \<Rightarrow> bridge \<times> 'w \<Rightarrow> bridge \<times> 'w" where
  "reapply_bridge h sb bw =
     (let (b, w) = (if 0 < sb_latency_ms sb then add_latency h (fst bw) (sb_latency_ms sb) (snd bw) else bw);
          (b, w) = (if 0 < sb_drop_rate_pct sb then drop_rate h b (sb_drop_rate_pct sb) w else (b, w));
          (b, w) = (if 0 < sb_bandwidth_bps sb then bandwidth_limit h b (sb_bandwidth_bps sb) w else (b, w));
          b = fold (\<lambda>r b. route b r) (sb_routes sb) b;
          (b, w) = fold (\<lambda>vm (b, w). isolate h b vm w) (sb_isolated sb) (b, w);
          (b, w) = fold (\<lambda>(x, y) (b, w). partition_pair h b x y w) (sb_partitions sb) (b, w);
          (b, w) = fold (\<lambda>(x, y) (b, w). partition_directional h b x y w) (sb_directional_partitions sb) (b, w);
          (b, w) = fold (reapply_directional h) (sb_directional_impairments sb) (b, w);
          (b, w) = (if sb_fully_partitioned sb then partition_all h b w else (b, w))
      in if sb_uplink_enabled sb then snd (enable_uplink h b w) else (b, w))"

fun on_bridges ::
  "(snapshot_bridge \<Rightarrow> bridge \<times> 'w \<Rightarrow> bridge \<times> 'w) \<Rightarrow> nat \<Rightarrow> snapshot_bridge list \<Rightarrow> ('i, 'c) lab_store \<Rightarrow> 'w \<Rightarrow> ('i, 'c) lab_store \<times> 'w" where
  "on_bridges f l [] st w = (st, w)"
| "on_bridges f l (sb # sbs) st w =
     (case get_bridge l (sb_name sb) st of
        Inl _ \<Rightarrow> on_bridges f l sbs st w
      | Inr b \<Rightarrow> (let (b', w) = f sb (the_bridge st b, w) in on_bridges f l sbs (set_bridge b b' st) w))"

fun run_resumes ::
  "('i, 'c, 'w) vmm \<Rightarrow> nat list \<Rightarrow> nat list \<Rightarrow> ('i, 'c) lab_store \<Rightarrow> 'w
     \<Rightarrow> (nat \<times> (lab_error + unit) option) list \<times> ('i, 'c) lab_store \<times> 'w" where
  "run_resumes e vs [] st w = ([], st, w)"
| "run_resumes e vs (i # order) st w =
     (let (r, vm, w) = resume e (the_vm st (vs ! i)) w;
          (rs, st, w) = run_resumes e vs order (set_vm (vs ! i) vm st) w
      in ((i, (case r of Panics \<Rightarrow> None
                       | Ret (Inl err) \<Rightarrow> Some (Inl (RestoreFailed ''lab'' (CauseVm err)))
                       | Ret (Inr _) \<Rightarrow> Some (Inr ()))) # rs, st, w))"

definition lab_restore ::
  "(nat \<Rightarrow> nat list) \<Rightarrow> ('i, 'c, 'w) vmm \<Rightarrow> 'w net_host \<Rightarrow> (string \<Rightarrow> profile option) \<Rightarrow> nat \<Rightarrow> snapshot_meta \<Rightarrow> ('i, 'c) lab_store \<Rightarrow> 'w
     \<Rightarrow> (lab_error + unit) \<times> ('i, 'c) lab_store \<times> 'w" where
  "lab_restore order e h cfg l meta st w =
     (case preflight l (sn_vms meta) st of
        (Inl err, st) \<Rightarrow> (Inl err, st, w)
      | (Inr _, st) \<Rightarrow>
          (case recreate_bridges l (sn_bridges meta) st of
             (Inl err, st) \<Rightarrow> (Inl err, st, w)
           | (Inr _, st) \<Rightarrow>
               (let (ts, st) = restore_targets l (sn_vms meta) st; n = length (sn_vms meta);
                    (rs, st, w) = run_restores e cfg meta ts (order n) st w
                in case join_all ''restore thread panicked'' (joined n rs) of
                     Inl err \<Rightarrow> (Inl err, st, w)
                   | Inr vs \<Rightarrow>
                       (let (st, w) = on_bridges (realize_members h) l (sn_bridges meta) st w;
                            (st, w) = on_bridges (reapply_bridge h) l (sn_bridges meta) st w;
                            (rs, st, w) = run_resumes e vs (order (length vs)) st w
                        in case join_all ''resume thread panicked'' (joined (length vs) rs) of
                             Inl err \<Rightarrow> (Inl err, st, w)
                           | Inr _ \<Rightarrow> (Inr (), st, w)))))"

end
