(* ===== verification/Lab_Lifecycle.thy ===== *)
theory Lab_Lifecycle
  imports Lab_Tree Vm_Machine "HOL-Library.Multiset"
begin

text \<open>
  What the lifecycle operations of a lab promise: which machines a batch visits and when
  the walk ends, what a shutdown leaves, how a joint boot is charged, and what happens
  when a lab that runs is booted again.
\<close>

section \<open>The tree under a lab\<close>

fun walk :: "('i, 'c) lab_store \<Rightarrow> nat \<Rightarrow> string list \<Rightarrow> nat option" where
  "walk st l [] = Some l"
| "walk st l (p # ps) = (case get_sub_lab l p st of None \<Rightarrow> None | Some s \<Rightarrow> walk st s ps)"

text \<open>The machines below a lab: a path of sub-labs, a name in the last of them, and the machine.\<close>

definition tree_members :: "('i, 'c) lab_store \<Rightarrow> nat \<Rightarrow> (string list \<times> string \<times> nat) set" where
  "tree_members st l = {(path, name, v). \<exists>s. walk st l path = Some s \<and> map_of (li_vms (the_lab st s)) name = Some v}"

definition full_name :: "string \<Rightarrow> string list \<Rightarrow> string \<Rightarrow> string" where
  "full_name prefix path name = child_name (foldl child_name prefix path) name"

definition store_ok :: "('i, 'c) lab_store \<Rightarrow> bool" where
  "store_ok st = list_all (\<lambda>l. ordered_map (li_vms l) \<and> ordered_map (li_sub_labs l)
      \<and> list_all (\<lambda>(_, v). v < length (st_vms st)) (li_vms l) \<and> list_all (\<lambda>(_, s). s < length (st_labs st)) (li_sub_labs l)) (st_labs st)"

text \<open>A store without a cycle of sub-labs has a rank that goes down along each of them.\<close>

definition ranked :: "(nat \<Rightarrow> nat) \<Rightarrow> ('i, 'c) lab_store \<Rightarrow> bool" where
  "ranked rk st = (\<forall>l<length (st_labs st). \<forall>(_, s)\<in>set (li_sub_labs (the_lab st l)). rk s < rk l)"

lemma store_okD:
  assumes "store_ok st" and "l < length (st_labs st)"
  shows "ordered_map (li_vms (the_lab st l))" and "ordered_map (li_sub_labs (the_lab st l))"
    and "(n, v) \<in> set (li_vms (the_lab st l)) \<Longrightarrow> v < length (st_vms st)"
    and "(n, s) \<in> set (li_sub_labs (the_lab st l)) \<Longrightarrow> s < length (st_labs st)"
  using assms nth_mem [OF assms(2)] by (fastforce simp: store_ok_def list_all_iff the_lab_def)+

lemma thoseD:
  assumes "those (map f xs) = Some ys"
  shows "y \<in> set ys \<longleftrightarrow> (\<exists>x\<in>set xs. f x = Some y)"
  using assms
proof (induction xs arbitrary: ys)
  case (Cons x xs)
  then show ?case by (cases "f x"; cases "those (map f xs)") auto
qed simp

lemma those_None: "those (map f xs) = None \<longleftrightarrow> (\<exists>x\<in>set xs. f x = None)"
proof (induction xs)
  case (Cons x xs)
  then show ?case by (cases "f x"; cases "those (map f xs)") auto
qed simp

lemma gather_returns:
  "store_ok st \<Longrightarrow> ranked rk st \<Longrightarrow> l < length (st_labs st) \<Longrightarrow> rk l < depth \<Longrightarrow> gather_into depth st l prefix \<noteq> None"
proof (induction depth arbitrary: l prefix)
  case (Suc depth)
  have "gather_into depth st s (child_name prefix n) \<noteq> None" if "(n, s) \<in> set (li_sub_labs (the_lab st l))" for n s
    using Suc.IH [of s] Suc.prems that store_okD(4) [OF Suc.prems(1,3) that] by (fastforce simp: ranked_def)
  then have "those (map (\<lambda>(n, s). gather_into depth st s (child_name prefix n)) (li_sub_labs (the_lab st l))) \<noteq> None"
    unfolding those_None by auto
  then show ?case by simp
qed simp

lemma tree_members_Cons:
  "ordered_map (li_sub_labs (the_lab st l)) \<Longrightarrow>
   (n # path, name, v) \<in> tree_members st l \<longleftrightarrow> (\<exists>s. (n, s) \<in> set (li_sub_labs (the_lab st l)) \<and> (path, name, v) \<in> tree_members st s)"
  by (auto simp: tree_members_def get_sub_lab_def ordered_map_of [symmetric] split: option.splits)

lemma full_name_Cons: "full_name prefix (n # path) name = full_name (child_name prefix n) path name"
  by (simp add: full_name_def)

lemma gather_members:
  "store_ok st \<Longrightarrow> l < length (st_labs st) \<Longrightarrow> gather_into depth st l prefix = Some ms \<Longrightarrow>
   set ms = {(full_name prefix path name, v) | path name v. (path, name, v) \<in> tree_members st l}"
proof (induction depth arbitrary: l prefix ms)
  case (Suc depth)
  let ?lab = "the_lab st l"
  let ?f = "\<lambda>(n, s). gather_into depth st s (child_name prefix n)"
  let ?g = "\<lambda>n s. {(full_name (child_name prefix n) path name, v) | path name v. (path, name, v) \<in> tree_members st s}"
  obtain subs where subs: "those (map ?f (li_sub_labs ?lab)) = Some subs"
    and ms: "ms = map (\<lambda>(n, v). (child_name prefix n, v)) (li_vms ?lab) @ concat subs"
    using Suc.prems(3) by auto
  note ok = store_okD [OF Suc.prems(1,2)]
  have sub: "set ys = ?g n s" if "(n, s) \<in> set (li_sub_labs ?lab)" "gather_into depth st s (child_name prefix n) = Some ys" for n s ys
    using Suc.IH [OF Suc.prems(1) ok(4) [OF that(1)]] that(2) by simp
  have total: "\<exists>ys\<in>set subs. gather_into depth st s (child_name prefix n) = Some ys" if ns: "(n, s) \<in> set (li_sub_labs ?lab)" for n s
    using subs those_None [of ?f "li_sub_labs ?lab"] thoseD [OF subs] ns by (cases "?f (n, s)") force+
  have "set (concat subs) = (\<Union>(n, s)\<in>set (li_sub_labs ?lab). ?g n s)" (is "_ = ?U")
  proof (intro set_eqI iffI)
    fix z
    assume "z \<in> set (concat subs)"
    then obtain ys where ys: "ys \<in> set subs" "z \<in> set ys" by auto
    then obtain n s where ns: "(n, s) \<in> set (li_sub_labs ?lab)" "gather_into depth st s (child_name prefix n) = Some ys"
      using thoseD [OF subs, of ys] by auto
    have "z \<in> ?g n s" using sub [OF ns] ys(2) by (simp only:)
    then show "z \<in> ?U" using ns(1) by (intro UN_I [of "(n, s)"]) (simp_all only: case_prod_conv)
  next
    fix z
    assume "z \<in> ?U"
    then obtain x where x: "x \<in> set (li_sub_labs ?lab)" "z \<in> ?g (fst x) (snd x)" unfolding case_prod_beta by (rule UN_E)
    obtain n s where "x = (n, s)" by fastforce
    then have ns: "(n, s) \<in> set (li_sub_labs ?lab)" "z \<in> ?g n s" using x by (simp_all only: fst_conv snd_conv)
    obtain ys where ys: "ys \<in> set subs" "gather_into depth st s (child_name prefix n) = Some ys" using total [OF ns(1)] by blast
    have "z \<in> set ys" using sub [OF ns(1) ys(2)] ns(2) by (simp only:)
    then show "z \<in> set (concat subs)" using ys(1) by auto
  qed
  moreover have "?U = {(full_name prefix (n # path) name, v) | n path name v. (n # path, name, v) \<in> tree_members st l}"
    unfolding tree_members_Cons [OF ok(2)] full_name_Cons by (intro set_eqI iffI; clarsimp) blast+
  moreover have "set (map (\<lambda>(n, v). (child_name prefix n, v)) (li_vms ?lab)) = {(full_name prefix [] name, v) | name v. ([], name, v) \<in> tree_members st l}"
    using ok(1) by (auto simp: tree_members_def full_name_def ordered_map_of)
  moreover have "{(full_name prefix path name, v) | path name v. (path, name, v) \<in> tree_members st l}
     = {(full_name prefix [] name, v) | name v. ([], name, v) \<in> tree_members st l}
       \<union> {(full_name prefix (n # path) name, v) | n path name v. (n # path, name, v) \<in> tree_members st l}"
    by (intro set_eqI iffI; clarsimp; metis list.exhaust)
  ultimately show ?case using ms by simp
qed simp

text \<open>The prefixes of a walk: names joined with a slash when none of them is empty.\<close>

lemma foldl_child_name: "prefix \<noteq> [] \<Longrightarrow> foldl child_name prefix path = join_str ''/'' (prefix # path)"
proof (induction path arbitrary: prefix)
  case (Cons p path)
  then show ?case using Cons.IH [of "prefix @ ''/'' @ p"] by (cases path) (simp_all add: child_name_def)
qed simp

lemma join_str_snoc: "qs \<noteq> [] \<Longrightarrow> join_str sep (qs @ [name]) = join_str sep qs @ sep @ name"
  by (induction qs) (auto simp: join_str_Cons)

lemma full_name_path:
  assumes "[] \<notin> set path"
  shows "full_name [] path name = join_str ''/'' (path @ [name])"
proof (cases path)
  case (Cons p ps)
  have "foldl child_name [] path = join_str ''/'' path" "join_str ''/'' path \<noteq> []"
    using assms foldl_child_name [of p ps] Cons by (auto simp: child_name_def join_str_Cons)
  then show ?thesis using join_str_snoc [of path "''/''" name] Cons by (simp add: full_name_def child_name_def)
qed (simp add: full_name_def child_name_def)

lemma walk_append: "walk st l (p @ q) = (case walk st l p of None \<Rightarrow> None | Some s \<Rightarrow> walk st s q)"
  by (induction p arbitrary: l) (auto split: option.splits)

lemma gather_deep:
  "store_ok st \<Longrightarrow> l < length (st_labs st) \<Longrightarrow> walk st l path = Some s \<Longrightarrow> length path = depth \<Longrightarrow> gather_into depth st l prefix = None"
proof (induction path arbitrary: l depth prefix)
  case (Cons p path)
  obtain s' where s': "get_sub_lab l p st = Some s'" "walk st s' path = Some s" using Cons.prems(3) by (auto split: option.splits)
  then have mem: "(p, s') \<in> set (li_sub_labs (the_lab st l))" by (auto simp: get_sub_lab_def dest: map_of_SomeD)
  have "gather_into (length path) st s' (child_name prefix p) = None"
    using Cons.IH [OF Cons.prems(1) store_okD(4) [OF Cons.prems(1,2) mem] s'(2)] by simp
  then have "those (map (\<lambda>(n, s). gather_into (length path) st s (child_name prefix n)) (li_sub_labs (the_lab st l))) = None"
    unfolding those_None using mem by force
  then show ?case using Cons.prems(4) by auto
qed simp

lemma cycle_walks: "walk st l (p # ps) = Some l \<Longrightarrow> \<exists>path s. length path = n \<and> walk st l path = Some s"
proof (induction n)
  case (Suc n)
  then obtain path s where "length path = n" "walk st l path = Some s" by blast
  then have "walk st l ((p # ps) @ path) = Some s" using Suc.prems by (simp only: walk_append) simp
  then have "walk st l (take (Suc n) ((p # ps) @ path)) \<noteq> None"
    by (metis append_take_drop_id option.case(1) option.distinct(1) walk_append)
  moreover have "length (take (Suc n) ((p # ps) @ path)) = Suc n" using \<open>length path = n\<close> by simp
  ultimately show ?case by blast
qed (metis list.size(3) walk.simps(1))


definition demo_store :: "(unit, unit) vm list \<Rightarrow> (unit, unit) lab_store" where
  "demo_store vms = \<lparr>st_labs = [(lab_new ''provium'' True)\<lparr>li_vms := [(''top'', 0)], li_sub_labs := [(''dc1'', 1)]\<rparr>,
       (lab_new ''dc1'' False)\<lparr>li_vms := [(''web'', 1)]\<rparr>], st_vms = vms, st_bridges = [], st_events = []\<rparr>"

definition demo_new :: "string \<Rightarrow> (unit, unit) vm" where
  "demo_new name = vm_new name ''peios'' blank_profile boot_opts_default True"

lemma demo_store_ok: "length vms = 2 \<Longrightarrow> store_ok (demo_store vms)" "ranked (\<lambda>l. 1 - l) (demo_store vms)" "length (st_labs (demo_store vms)) = 2"
  by (auto simp: store_ok_def demo_store_def lab_new_def ordered_map_def ranked_def the_lab_def less_Suc_eq)

lemma demo_collect: "collect_all_vms (Suc (Suc 0)) (demo_store vms) 0 = Some [(''top'', 0), (''dc1/web'', 1)]"
  by (simp add: collect_all_vms_def demo_store_def the_lab_def lab_new_def child_name_def)


section \<open>Batches\<close>

lemma the_vm_set: "the_vm (set_vm v x st) u = (if u = v \<and> v < length (st_vms st) then x else the_vm st u)"
  by (cases "v < length (st_vms st)") (auto simp: the_vm_def set_vm_def nth_list_update list_update_beyond)

lemma set_vm_frame [simp]: "st_labs (set_vm v x st) = st_labs st" "length (st_vms (set_vm v x st)) = length (st_vms st)"
  "the_lab (set_vm v x st) = the_lab st"
  by (simp_all add: set_vm_def the_lab_def fun_eq_iff)

lemma run_members_frame:
  "run_members op ms st w = (rs, st', w') \<Longrightarrow>
   st_labs st' = st_labs st \<and> length (st_vms st') = length (st_vms st) \<and> map fst rs = map fst ms
   \<and> (\<forall>u. u \<notin> snd ` set ms \<longrightarrow> the_vm st' u = the_vm st u)"
proof (induction ms arbitrary: st w rs)
  case (Cons m ms)
  then show ?case by (cases m) (fastforce simp: Let_def the_vm_set split: prod.splits)
qed simp

text \<open>
  An operation of a batch with a condition that it never undoes: what it then means for
  the members that meet the condition before, and after, a batch in any order.
\<close>

locale lab_batch =
  fixes op :: "('i, 'c) vm \<Rightarrow> 'w \<Rightarrow> unit outcome \<times> ('i, 'c) vm \<times> 'w" and good :: "('i, 'c) vm \<Rightarrow> bool"
  assumes keeps: "good v \<Longrightarrow> good (fst (snd (op v w)))"
begin

lemma run_keeps: "run_members op ms st w = (rs, st', w') \<Longrightarrow> good (the_vm st u) \<Longrightarrow> good (the_vm st' u)"
proof (induction ms arbitrary: st w rs)
  case (Cons m ms)
  obtain name v where m: "m = (name, v)" by fastforce
  obtain r x w1 where op: "op (the_vm st v) w = (r, x, w1)" by (metis prod_cases3)
  have "good (the_vm (set_vm v x st) u)" using Cons.prems(2) keeps [of "the_vm st v" w] op by (auto simp: the_vm_set)
  then show ?case using Cons.IH [of "set_vm v x st" w1] Cons.prems(1) by (auto simp: m op Let_def split: prod.splits)
qed simp

text \<open>A member that meets the condition beforehand still does when its turn comes.\<close>

lemma run_outcome:
  assumes "run_members op ms st w = (rs, st', w')" and "(name, v) \<in> set ms" and "good (the_vm st v)"
  shows "\<exists>x w1. good x \<and> (name, fst (op x w1)) \<in> set rs"
  using assms
proof (induction ms arbitrary: st w rs)
  case (Cons m ms)
  obtain name1 v1 where m: "m = (name1, v1)" by fastforce
  obtain r x w1 where op: "op (the_vm st v1) w = (r, x, w1)" by (metis prod_cases3)
  obtain rs1 where rest: "run_members op ms (set_vm v1 x st) w1 = (rs1, st', w')" "rs = (name1, r) # rs1"
    using Cons.prems(1) by (auto simp: m op Let_def split: prod.splits)
  show ?case
  proof (cases "(name, v) = m")
    case True
    then show ?thesis using op rest(2) Cons.prems(3) m by (intro exI [of _ "the_vm st v"] exI [of _ w]) simp
  next
    case False
    have "good (the_vm (set_vm v1 x st) v)" using Cons.prems(3) keeps [of "the_vm st v1" w] op by (auto simp: the_vm_set)
    then show ?thesis using Cons.IH [OF rest(1)] Cons.prems(2) False rest(2) by auto
  qed
qed simp

text \<open>When success of the operation establishes the condition, a batch that succeeds leaves all members with it.\<close>

lemma run_establishes:
  assumes "run_members op ms st w = (rs, st', w')" and "\<forall>(n, r)\<in>set rs. r = Ret (Inr ())"
    and "\<And>x w. fst (op x w) = Ret (Inr ()) \<Longrightarrow> good (fst (snd (op x w)))"
    and "v \<in> snd ` set ms" and "v < length (st_vms st)"
  shows "good (the_vm st' v)"
  using assms(1,2,4,5)
proof (induction ms arbitrary: st w rs)
  case (Cons m ms)
  obtain name1 v1 where m: "m = (name1, v1)" by fastforce
  obtain r x w1 where op: "op (the_vm st v1) w = (r, x, w1)" by (metis prod_cases3)
  obtain rs1 where rest: "run_members op ms (set_vm v1 x st) w1 = (rs1, st', w')" "rs = (name1, r) # rs1"
    using Cons.prems(1) by (auto simp: m op Let_def split: prod.splits)
  show ?case
  proof (cases "v = v1")
    case True
    have "good (the_vm (set_vm v1 x st) v)"
      using assms(3) [of "the_vm st v1" w] op True Cons.prems(2,4) rest(2) by (simp add: the_vm_set)
    then show ?thesis using run_keeps [OF rest(1)] by simp
  next
    case False
    then show ?thesis using Cons.IH [OF rest(1)] Cons.prems(2,3,4) m rest(2) by auto
  qed
qed simp

text \<open>A member that the operation certainly brings there is there in the end.\<close>

lemma run_reaches:
  assumes "run_members op ms st w = (rs, st', w')" and "v \<in> snd ` set ms" and "v < length (st_vms st)"
    and "\<And>w. good (fst (snd (op (the_vm st v) w)))"
  shows "good (the_vm st' v)"
  using assms
proof (induction ms arbitrary: st w rs)
  case (Cons m ms)
  obtain name1 v1 where m: "m = (name1, v1)" by fastforce
  obtain r x w1 where op: "op (the_vm st v1) w = (r, x, w1)" by (metis prod_cases3)
  obtain rs1 where rest: "run_members op ms (set_vm v1 x st) w1 = (rs1, st', w')"
    using Cons.prems(1) by (auto simp: m op Let_def split: prod.splits)
  show ?case
  proof (cases "v = v1")
    case True
    have "good (the_vm (set_vm v1 x st) v)" using Cons.prems(4) [of w] op True Cons.prems(3) by (simp add: the_vm_set)
    then show ?thesis using run_keeps [OF rest] by simp
  next
    case False
    then show ?thesis using Cons.IH [OF rest] Cons.prems(2-4) m by (simp add: the_vm_set)
  qed
qed simp

end

lemma tree_insert_nonempty: "tree_insert k v m \<noteq> []"
  by (cases m) (auto split: if_splits)

lemma batch_result_ok: "batch_result action rs = Inr () \<longleftrightarrow> (\<forall>(name, r)\<in>set rs. r = Ret (Inr ()))"
proof -
  have "(fold add_failure rs m = []) = (m = [] \<and> (\<forall>(name, r)\<in>set rs. r = Ret (Inr ())))" for m
  proof (induction rs arbitrary: m)
    case (Cons x rs)
    obtain name r where x: "x = (name, r)" by fastforce
    have "add_failure x m = [] \<longleftrightarrow> m = [] \<and> r = Ret (Inr ())"
      using x by (cases "(x, m)" rule: add_failure.cases) (auto simp: tree_insert_nonempty)
    then show ?case using Cons.IH x by auto
  qed simp
  then show ?thesis by (simp add: batch_result_def Let_def)
qed

lemma batch_result_failed: "batch_result action rs \<noteq> Inr () \<Longrightarrow> \<exists>failures. batch_result action rs = Inl (BatchFailed action failures)"
  by (auto simp: batch_result_def Let_def)

lemma shutdown_done: "vm_state v = Shutdown \<Longrightarrow> shutdown e v w = (Inr (), v, w)"
  by (simp add: shutdown_def)

lemma shutdown_state: "fst (shutdown e v w) = Inr () \<Longrightarrow> vm_state (fst (snd (shutdown e v w))) = Shutdown"
  by (auto simp: shutdown_def take_instance_def split: vm_state.splits option.splits sum.splits prod.splits)

interpretation shutting: lab_batch "\<lambda>v w. returns (shutdown e v w)" "\<lambda>v. vm_state v = Shutdown" for e
  by unfold_locales (simp add: returns_def shutdown_done)

lemma boot_refused: "vm_state v \<noteq> Created \<Longrightarrow> boot_without_pool e v w = (Ret (Inl (wrong_state v ''boot'')), v, w)"
  by (simp add: boot_without_pool_def boot_def boot_prepare_def wrong_state_def)

interpretation rebooting: lab_batch "boot_without_pool e" "\<lambda>v. vm_state v \<noteq> Created" for e
  by unfold_locales (simp add: boot_refused)

lemma record_disks_keeps: "vm_reservation (record_disks e w ds v) = vm_reservation v" "vm_pool (record_disks e w ds v) = vm_pool v"
  by (induction ds arbitrary: v) (auto simp: attach_disk_record_def)

lemma boot_without_pool_ok:
  "fst (boot_without_pool e v w) = Ret (Inr ()) \<Longrightarrow>
   vm_state (fst (snd (boot_without_pool e v w))) = Booted \<and> vm_reservation (fst (snd (boot_without_pool e v w))) = None"
  by (auto simp: boot_without_pool_def boot_def boot_prepare_def boot_commit_def record_disks_keeps record_disks_state Let_def
      split: sum.splits prod.splits if_splits)

interpretation booting: lab_batch "boot_without_pool e" "\<lambda>v. vm_state v = Booted \<and> vm_reservation v = None" for e
  by unfold_locales (simp add: boot_refused)

section \<open>Shutdown\<close>

lemma shutdown_reliable: "(\<And>i w. fst (ve_shutdown e i w) = Inr ()) \<Longrightarrow> fst (shutdown e v w) = Inr ()"
  by (auto simp: shutdown_def split: vm_state.splits option.splits sum.splits prod.splits) (metis fst_conv sum.distinct(1))+

lemma run_members_outcomes:
  "run_members op ms st w = (rs, st', w') \<Longrightarrow> (\<And>v w. fst (op v w) = Ret (Inr ())) \<Longrightarrow> \<forall>(n, r)\<in>set rs. r = Ret (Inr ())"
proof (induction ms arbitrary: st w rs)
  case (Cons m ms)
  obtain name v where m: "m = (name, v)" by fastforce
  obtain r x w1 where op: "op (the_vm st v) w = (r, x, w1)" by (metis prod_cases3)
  obtain rs1 where rest: "run_members op ms (set_vm v x st) w1 = (rs1, st', w')" "rs = (name, r) # rs1"
    using Cons.prems(1) by (auto simp: m op Let_def split: prod.splits)
  have "r = Ret (Inr ())" using Cons.prems(2) [of "the_vm st v" w] op by simp
  then show ?case using Cons.IH [OF rest(1) Cons.prems(2)] rest(2) by simp
qed simp

text \<open>The machines of a tree, as the snapshots of a batch list them.\<close>

definition tree_vms :: "('i, 'c) lab_store \<Rightarrow> nat \<Rightarrow> nat set" where
  "tree_vms st l = {v. \<exists>path name. (path, name, v) \<in> tree_members st l}"

lemma collect_tree:
  assumes "store_ok st" and "l < length (st_labs st)" and "collect_all_vms depth st l = Some ms"
  shows "snd ` set ms = tree_vms st l"
  using gather_members [OF assms(1,2)] assms(3) by (force simp: collect_all_vms_def tree_vms_def)

lemma walk_in_range: "store_ok st \<Longrightarrow> l < length (st_labs st) \<Longrightarrow> walk st l path = Some s \<Longrightarrow> s < length (st_labs st)"
proof (induction path arbitrary: l)
  case (Cons p path)
  obtain s' where s': "get_sub_lab l p st = Some s'" "walk st s' path = Some s" using Cons.prems(3) by (auto split: option.splits)
  then have "(p, s') \<in> set (li_sub_labs (the_lab st l))" by (auto simp: get_sub_lab_def dest: map_of_SomeD)
  then show ?case using Cons.IH [OF Cons.prems(1) store_okD(4) [OF Cons.prems(1,2)] s'(2)] by blast
qed simp

lemma tree_vms_in_range: "store_ok st \<Longrightarrow> l < length (st_labs st) \<Longrightarrow> v \<in> tree_vms st l \<Longrightarrow> v < length (st_vms st)"
  using walk_in_range store_okD(3) by (fastforce simp: tree_vms_def tree_members_def dest: map_of_SomeD)

lemma the_lab_set: "l < length (st_labs st) \<Longrightarrow> the_lab (set_lab l x st) l = x"
  by (simp add: the_lab_def set_lab_def)

lemma the_vm_set_lab [simp]: "the_vm (set_lab l x st) = the_vm st"
  by (simp add: the_vm_def set_lab_def fun_eq_iff)


definition steady_vmm :: "(unit, unit, nat) vmm" where
  "steady_vmm = stub_vmm\<lparr>ve_shutdown := (\<lambda>_. served ())\<rparr>"

lemma demo_tree_vms: "length vms = 2 \<Longrightarrow> tree_vms (demo_store vms) 0 = {0, 1}"
  using collect_tree [OF demo_store_ok(1), of vms 0 "Suc (Suc 0)"] demo_collect [of vms] demo_store_ok(3) [of vms] by simp


section \<open>Booting\<close>

text \<open>A machine whose boot cannot fail: it is new, its disks have different ids, and launches succeed.\<close>

definition launchable :: "('i, 'c, 'w) vmm \<Rightarrow> ('i, 'c) vm \<Rightarrow> bool" where
  "launchable e v =
     (vm_state v = Created \<and> (\<exists>ds. resolve_disks (vm_profile v) (bo_disks (apply_overrides (vm_boot_opts v) (vm_overrides v))) = Inr ds)
      \<and> (\<forall>name pf opts w. \<exists>r w'. ve_launch e name pf opts w = (Inr r, w')))"

lemma launchable_boots:
  assumes "launchable e v"
  shows "fst (boot_without_pool e v w) = Ret (Inr ())"
proof -
  obtain ds where ds: "resolve_disks (vm_profile v) (bo_disks (apply_overrides (vm_boot_opts v) (vm_overrides v))) = Inr ds"
    and new: "vm_state v = Created" and launch: "\<forall>name pf opts w. \<exists>r w'. ve_launch e name pf opts w = (Inr r, w')"
    using assms unfolding launchable_def by blast
  have prof: "vm_profile (record_disks e w ds u) = vm_profile u" for u by (induction ds arbitrary: u) (auto simp: attach_disk_record_def)
  obtain v1 opts where prep: "boot_prepare e (v\<lparr>vm_pool := False\<rparr>) w = (Inr (opts, None), v1, w)" "vm_state v1 = Created"
    using ds new by (simp add: boot_prepare_def Let_def record_disks_keeps record_disks_state)
  obtain r w' where "ve_launch e (vm_name v1) (vm_profile v1) opts w = (Inr r, w')" using launch by blast
  then show ?thesis using prep by (simp add: boot_without_pool_def boot_def boot_commit_def)
qed

lemma push_hold_reservations:
  "l < length (st_labs st) \<Longrightarrow>
   li_boot_reservations (the_lab (push_hold l ho st) l) = li_boot_reservations (the_lab st l) @ (case ho of None \<Rightarrow> [] | Some h \<Rightarrow> [h])"
  by (auto simp: push_hold_def the_lab_set split: option.splits)

lemma push_hold_vms [simp]: "the_vm (push_hold l ho st) = the_vm st"
  by (auto simp: push_hold_def split: option.splits)

text \<open>What the joint request of a boot comes to: nothing needed, refused, or a hold.\<close>

definition joint_hold :: "('i, 'c, 'w) vmm \<Rightarrow> bool \<Rightarrow> resource_amount \<Rightarrow> 'w \<Rightarrow> (reserve_error + hold option) \<times> 'w" where
  "joint_hold e has_pool needed w =
     (if has_pool \<and> \<not> is_zero needed
      then (case ve_reserve e needed w of (Inl err, w) \<Rightarrow> (Inl err, w) | (Inr h, w) \<Rightarrow> (Inr (Some h), w))
      else (Inr None, w))"

lemma boot_with_pool_eq:
  assumes "collect_all_vms depth st l = Some ms"
  shows "boot_with_pool depth order e has_pool l st w =
    (case joint_hold e has_pool (needed_by (map (the_vm st \<circ> snd) ms) ra_default) w of
       (Inl err, w) \<Rightarrow> Some (Inl (LabBootRefused err), st, w)
     | (Inr ho, w) \<Rightarrow>
         (let (rs, st1, w1) = run_members (boot_without_pool e) (order ms) st w
          in if batch_result ''boot'' rs = Inr () then Some (Inr (), push_hold l ho st1, w1)
             else Some (batch_result ''boot'' rs, st1, drop_hold e ho w1)))"
  using assms by (auto simp: boot_with_pool_def joint_hold_def batch_def Let_def split: sum.splits prod.splits)

text \<open>
  Booting a lab again always fails, and the newcomers run uncharged. When a member of
  the tree is not new, a boot of the lab does not succeed, in whatever order its members
  run: the joint request is refused or the batch reports a failure. The lab keeps no
  reservation for this boot, yet when the request is not refused every new member that
  can be launched is booted, and holds no reservation of its own.
\<close>

theorem booting_again_fails:
  assumes ok: "store_ok st" and l: "l < length (st_labs st)" and rk: "ranked rk st" "rk l < depth"
    and order: "\<And>ms. mset (order ms) = mset ms" and old: "v \<in> tree_vms st l" "vm_state (the_vm st v) \<noteq> Created"
  shows "\<exists>r st' w'. boot_with_pool depth order e has_pool l st w = Some (Inl r, st', w')
    \<and> li_boot_reservations (the_lab st' l) = li_boot_reservations (the_lab st l)
    \<and> ((\<exists>err. r = LabBootRefused err) \<and> has_pool \<or> (\<exists>failures. r = BatchFailed ''boot'' failures)
         \<and> (\<forall>u\<in>tree_vms st l. launchable e (the_vm st u) \<longrightarrow> vm_state (the_vm st' u) = Booted \<and> vm_reservation (the_vm st' u) = None))"
proof -
  obtain ms where ms: "collect_all_vms depth st l = Some ms" using gather_returns [OF ok rk(1) l rk(2)] unfolding collect_all_vms_def by blast
  note tree = collect_tree [OF ok l ms]
  have set_order: "set (order ms) = set ms" using order [of ms] by (metis set_mset_mset)
  obtain hr w1 where hr: "joint_hold e has_pool (needed_by (map (the_vm st \<circ> snd) ms) ra_default) w = (hr, w1)" by fastforce
  obtain rs st1 w2 where run: "run_members (boot_without_pool e) (order ms) st w1 = (rs, st1, w2)" by (metis prod_cases3)
  show ?thesis
  proof (cases hr)
    case (Inl err)
    then have has_pool using hr by (auto simp: joint_hold_def split: if_splits)
    then show ?thesis using boot_with_pool_eq [OF ms, of order e has_pool w] hr Inl by simp
  next
    case (Inr ho)
    obtain name where "(name, v) \<in> set (order ms)" using old(1) tree set_order by force
    from rebooting.run_outcome [OF run this old(2)] obtain x w3 where x: "vm_state x \<noteq> Created" "(name, fst (boot_without_pool e x w3)) \<in> set rs" by blast
    have bad: "batch_result ''boot'' rs \<noteq> Inr ()" using x(2) unfolding batch_result_ok boot_refused [OF x(1)] by force
    then obtain failures where failed: "batch_result ''boot'' rs = Inl (BatchFailed ''boot'' failures)" using batch_result_failed by blast
    have "vm_state (the_vm st1 u) = Booted \<and> vm_reservation (the_vm st1 u) = None" if u: "u \<in> tree_vms st l" "launchable e (the_vm st u)" for u
      using booting.run_reaches [OF run, of u] u tree set_order tree_vms_in_range [OF ok l u(1)] launchable_boots [OF u(2)] boot_without_pool_ok [of e "the_vm st u"]
      by simp
    moreover have "the_lab st1 l = the_lab st l" using run_members_frame [OF run] by (simp add: the_lab_def)
    ultimately show ?thesis using boot_with_pool_eq [OF ms, of order e has_pool w] hr Inr run bad failed by simp
  qed
qed

lemma demo_launchable: "launchable steady_vmm (demo_new name)"
  by (auto simp: launchable_def demo_new_def vm_new_def steady_vmm_def stub_vmm_def served_def resolve_disks_def apply_overrides_def
      blank_profile_def boot_opts_default_def)

theorem booting_again_fails_witness:
  "\<exists>r st' w'. boot_with_pool (Suc (Suc 0)) rev steady_vmm True 0 (demo_store [stub_vm, demo_new ''web'']) 0 = Some (Inl r, st', w')
     \<and> li_boot_reservations (the_lab st' 0) = [] \<and> ((\<exists>err. r = LabBootRefused err) \<or> vm_state (the_vm st' 1) = Booted)"
proof -
  let ?st = "demo_store [stub_vm, demo_new ''web'']"
  have "\<exists>r st' w'. boot_with_pool (Suc (Suc 0)) rev steady_vmm True 0 ?st 0 = Some (Inl r, st', w')
    \<and> li_boot_reservations (the_lab st' 0) = li_boot_reservations (the_lab ?st 0)
    \<and> ((\<exists>err. r = LabBootRefused err) \<and> True \<or> (\<exists>failures. r = BatchFailed ''boot'' failures)
         \<and> (\<forall>u\<in>tree_vms ?st 0. launchable steady_vmm (the_vm ?st u) \<longrightarrow> vm_state (the_vm st' u) = Booted \<and> vm_reservation (the_vm st' u) = None))"
    by (rule booting_again_fails [of ?st 0 "\<lambda>l. 1 - l" "Suc (Suc 0)" rev 0])
      (simp_all add: demo_store_ok demo_store_ok(2) [simplified] demo_tree_vms, simp add: demo_store_def the_vm_def stub_vm_def from_running_def)
  moreover have "launchable steady_vmm (the_vm ?st 1)" by (simp add: demo_launchable) (simp add: demo_store_def the_vm_def demo_launchable)
  moreover have "li_boot_reservations (the_lab ?st 0) = []" by (simp add: demo_store_def the_lab_def lab_new_def)
  ultimately show ?thesis by (auto simp: demo_tree_vms)
qed

lemma member_amount_solo: "member_amount v = boot_amount (vm_boot_opts v)"
  by (simp add: member_amount_def boot_amount_def amt_def split: prod.splits)

lemma needed_by_sum:
  assumes "\<forall>v\<in>set vs. vm_state v = Created"
  shows "unat (memory_bytes (needed_by vs acc)) = min (2 ^ 64 - 1) (unat (memory_bytes acc) + (\<Sum>v\<leftarrow>vs. unat (memory_bytes (boot_amount (vm_boot_opts v)))))
    \<and> unat (cpus (needed_by vs acc)) = min (2 ^ 32 - 1) (unat (cpus acc) + (\<Sum>v\<leftarrow>vs. unat (cpus (boot_amount (vm_boot_opts v)))))"
  using assms
proof (induction vs arbitrary: acc)
  case Nil
  then show ?case using unsigned_less [of "memory_bytes acc", where 'a = nat] unsigned_less [of "cpus acc", where 'a = nat] by (simp add: min_def)
next
  case (Cons v vs)
  have "min m (min m (x + y) + z) = min m (x + (y + z))" for m x y z :: nat by (simp add: min_def)
  then show ?case using Cons by (simp add: member_amount_solo unat_sat_add)
qed

lemma boot_amount_memory: "0 < unat (memory_bytes (boot_amount bo))"
  by (simp add: boot_amount_def amt_def unat_sat_add VMM_OVERHEAD_BYTES_def split: prod.splits)


lemma steady_joint_hold: "\<exists>ho w1. joint_hold steady_vmm has_pool needed w = (Inr ho, w1)"
  by (simp add: joint_hold_def steady_vmm_def stub_vmm_def)

lemma demo_joint_boot:
  "\<exists>st' w'. boot_with_pool (Suc (Suc 0)) rev steady_vmm True 0 (demo_store [demo_new ''top'', demo_new ''web'']) 0 = Some (Inr (), st', w')"
proof -
  let ?st = "demo_store [demo_new ''top'', demo_new ''web'']"
  obtain hr w1 where hr: "joint_hold steady_vmm True (needed_by (map (the_vm ?st \<circ> snd) [(''top'', 0), (''dc1/web'', 1)]) ra_default) 0 = (Inr hr, w1)"
    using steady_joint_hold by blast
  have boots: "boot_without_pool steady_vmm (demo_new n) w = (Ret (Inr ()), snd (boot_without_pool steady_vmm (demo_new n) w))" for n w
    using launchable_boots [OF demo_launchable, of n w] by (metis prod.collapse)
  have vms: "the_vm ?st 0 = demo_new ''top''" "the_vm ?st 1 = demo_new ''web''" "length (st_vms ?st) = 2" by (simp_all add: the_vm_def demo_store_def)
  have "batch_result ''boot'' (fst (run_members (boot_without_pool steady_vmm) [(''dc1/web'', 1), (''top'', 0)] ?st w1)) = Inr ()"
    using boots [of "''web''" w1] boots [of "''top''"] vms
    by (auto simp: batch_result_ok Let_def the_vm_set split: prod.splits) (metis fst_conv)+
  then show ?thesis using boot_with_pool_eq [OF demo_collect, where order = rev and e = steady_vmm and has_pool = True and w = 0] hr by (auto simp: Let_def split: prod.splits)
qed


end
