(* ===== verification/Lab_Recovery.thy ===== *)
theory Lab_Recovery
  imports Lab_Snapshot Lab_Lifecycle Bridge_Enforcement Bridge_Invariant
begin

text \<open>
  What a snapshot of a lab keeps and what comes back: the state of a bridge, the names and
  paths of machines, and the outcome of a restoration.
\<close>

section \<open>The graph of a bridge\<close>

text \<open>What tests ask of a bridge, without the record of what the host has.\<close>

record net_graph =
  ng_attached :: "string list"
  ng_partitions :: "(string \<times> string) list"
  ng_latency :: u32
  ng_drop :: u32
  ng_bandwidth :: u64
  ng_directional :: "((string \<times> string) \<times> directional_impairment) list"
  ng_full :: bool
  ng_routes :: "string list"
  ng_isolated :: "string list"
  ng_one_way :: "(string \<times> string) list"
  ng_uplink :: bool

definition graph_of :: "bridge \<Rightarrow> net_graph" where
  "graph_of b = \<lparr>ng_attached = attached b, ng_partitions = partitions b, ng_latency = latency_ms b, ng_drop = drop_rate_pct b,
     ng_bandwidth = bandwidth_bps b, ng_directional = directional b, ng_full = fully_partitioned b, ng_routes = routed_to b,
     ng_isolated = isolated b, ng_one_way = directional_partitions b, ng_uplink = uplink_enabled b\<rparr>"

lemma graph_record_realized [simp]: "graph_of (record_realized b vm) = graph_of b"
  by (simp add: graph_of_def record_realized_def)

lemma graph_realize_for_vm [simp]: "graph_of (fst (snd (realize_for_vm h b vm w))) = graph_of b"
  using realize_for_vm_bridge [of h b vm w] by auto

lemma graph_realize_each [simp]: "graph_of (fst (snd (realize_each h vms b w))) = graph_of b"
proof (induction vms arbitrary: b w)
  case (Cons vm vms)
  obtain r b1 w1 where one: "realize_for_vm h b vm w = (r, b1, w1)" by (metis prod_cases3)
  then have "graph_of b1 = graph_of b" using graph_realize_for_vm [of h b vm w] by simp
  then show ?case using one Cons.IH [of b1 w1] by (auto split: sum.splits)
qed simp

lemma graph_refresh [simp]:
  "graph_of (fst (snd (refresh_directional h b w))) = graph_of b"
  "graph_of (fst (snd (refresh_netem h b w))) = graph_of b"
  "graph_of (fst (snd (refresh_bandwidth h b w))) = graph_of b"
  "graph_of (fst (snd (refresh_uplink h b w))) = graph_of b"
proof -
  show netem: "graph_of (fst (snd (refresh_netem h b w))) = graph_of b" for w
    using refresh_netem_bridge [of h b w] by (auto simp: graph_of_def)
  show "graph_of (fst (snd (refresh_directional h b w))) = graph_of b" by (simp add: refresh_directional_def)
  show "graph_of (fst (snd (refresh_bandwidth h b w))) = graph_of b" by (simp add: refresh_bandwidth_def Let_def netem)
  show "graph_of (fst (snd (refresh_uplink h b w))) = graph_of b"
    by (auto simp: refresh_uplink_def graph_of_def Let_def split: option.splits prod.splits sum.splits)
qed

text \<open>The operations on the graph alone, whatever the host does.\<close>

lemma graph_calls [simp]:
  "graph_of (attach b vm) = (graph_of b)\<lparr>ng_attached := set_insert vm (ng_attached (graph_of b))\<rparr>"
  "graph_of (route b r) = (graph_of b)\<lparr>ng_routes := set_insert r (ng_routes (graph_of b))\<rparr>"
  "graph_of (fst (isolate h b vm w)) = (graph_of b)\<lparr>ng_isolated := set_insert vm (ng_isolated (graph_of b))\<rparr>"
  "graph_of (fst (partition_pair h b x y w)) = (graph_of b)\<lparr>ng_partitions := set_insert (canonical_pair x y) (ng_partitions (graph_of b))\<rparr>"
  "graph_of (fst (partition_directional h b x y w)) = (graph_of b)\<lparr>ng_one_way := set_insert (x, y) (ng_one_way (graph_of b))\<rparr>"
  "graph_of (fst (partition_all h b w)) = (graph_of b)\<lparr>ng_full := True\<rparr>"
  by (simp_all add: graph_of_def attach_def route_def isolate_def partition_pair_def partition_directional_def partition_all_def Let_def)

lemma graph_impairments [simp]:
  "graph_of (fst (add_latency h b ms w)) = (graph_of b)\<lparr>ng_latency := ms\<rparr>"
  "graph_of (fst (drop_rate h b pct w)) = (graph_of b)\<lparr>ng_drop := min pct 100\<rparr>"
  "graph_of (fst (bandwidth_limit h b bps w)) = (graph_of b)\<lparr>ng_bandwidth := bps\<rparr>"
  "graph_of (fst (snd (enable_uplink h b w))) = (graph_of b)\<lparr>ng_uplink := True\<rparr>"
  unfolding add_latency_def drop_rate_def bandwidth_limit_def enable_uplink_def graph_refresh by (simp_all add: graph_of_def)

definition graph_directional :: "net_graph \<Rightarrow> string \<Rightarrow> string \<Rightarrow> (directional_impairment \<Rightarrow> directional_impairment) \<Rightarrow> net_graph" where
  "graph_directional g f t upd =
     g\<lparr>ng_directional := gc_directional_entry
         (tree_insert (f, t) (upd (case map_of (ng_directional g) (f, t) of None \<Rightarrow> no_impairment | Some d \<Rightarrow> d)) (ng_directional g)) f t\<rparr>"

lemma graph_directional_calls [simp]:
  "graph_of (fst (add_directional_latency h b f t ms w)) = graph_directional (graph_of b) f t (\<lambda>d. d\<lparr>di_latency_ms := ms\<rparr>)"
  "graph_of (fst (directional_drop_rate h b f t pct w)) = graph_directional (graph_of b) f t (\<lambda>d. d\<lparr>di_drop_rate_pct := min pct 100\<rparr>)"
  "graph_of (fst (set_directional_bandwidth h b f t bps w)) = graph_directional (graph_of b) f t (\<lambda>d. d\<lparr>di_bandwidth_bps := bps\<rparr>)"
  unfolding add_directional_latency_def directional_drop_rate_def set_directional_bandwidth_def graph_refresh
  by (simp_all add: graph_of_def update_directional_def graph_directional_def directional_of_def)

section \<open>Building ordered containers anew\<close>

lemma set_insert_last: "\<forall>y\<in>set ys. y < x \<Longrightarrow> set_insert x ys = ys @ [x]"
  by (induction ys) (auto simp: not_less_iff_gr_or_eq)

lemma fold_set_insert: "ordered_set (ys @ xs) \<Longrightarrow> fold set_insert xs ys = ys @ xs"
proof (induction xs arbitrary: ys)
  case (Cons x xs)
  then have "set_insert x ys = ys @ [x]" by (intro set_insert_last) (auto simp: ordered_set_def sorted_wrt_append)
  then show ?case using Cons by simp
qed simp

lemma tree_insert_last: "\<forall>(k, _)\<in>set m. k < j \<Longrightarrow> tree_insert j v m = m @ [(j, v)]"
  by (induction m) (auto simp: not_less_iff_gr_or_eq)

lemma ordered_set_ext: "ordered_set xs \<Longrightarrow> ordered_set ys \<Longrightarrow> set xs = set ys \<Longrightarrow> xs = ys"
  unfolding ordered_set_def by (rule strict_sorted_equal [symmetric]) auto

lemma ordered_fold_insert: "ordered_set ys \<Longrightarrow> ordered_set (fold set_insert xs ys) \<and> set (fold set_insert xs ys) = set xs \<union> set ys"
proof (induction xs arbitrary: ys)
  case (Cons x xs)
  then show ?case using Cons.IH [of "set_insert x ys"] by (simp add: ordered_set_insert)
qed simp

lemma tree_insert_at_last: "\<forall>(k, _)\<in>set m. k < j \<Longrightarrow> tree_insert j v (m @ [(j, u)]) = m @ [(j, v)]"
  by (induction m) (auto simp: not_less_iff_gr_or_eq)

lemma map_of_last: "\<forall>(k, _)\<in>set m. k < (j :: 'k::linorder) \<Longrightarrow> map_of (m @ [(j, u)]) j = Some u \<and> map_of m j = None"
  by (induction m) auto

lemma gc_keeps: "map_of m (f, t) = Some d \<Longrightarrow> has_effect d \<Longrightarrow> gc_directional_entry m f t = m"
  by (auto simp: gc_directional_entry_def has_effect_def)

lemma graph_directional_new:
  assumes "\<forall>(k, _)\<in>set (ng_directional g). k < (f, t)" and "has_effect (upd no_impairment)"
  shows "graph_directional g f t upd = g\<lparr>ng_directional := ng_directional g @ [((f, t), upd no_impairment)]\<rparr>"
  using assms map_of_last [OF assms(1), of "upd no_impairment"] by (simp add: graph_directional_def tree_insert_last gc_keeps)

lemma graph_directional_again:
  assumes "\<forall>(k, _)\<in>set m. k < (f, t)" and "has_effect (upd d)"
  shows "graph_directional (g\<lparr>ng_directional := m @ [((f, t), d)]\<rparr>) f t upd = g\<lparr>ng_directional := m @ [((f, t), upd d)]\<rparr>"
  using assms map_of_last [OF assms(1), of "upd d"] map_of_last [OF assms(1), of d]
  by (simp add: graph_directional_def tree_insert_at_last gc_keeps)

definition directional_record :: "(string \<times> string) \<times> directional_impairment \<Rightarrow> snapshot_directional" where
  "directional_record = (\<lambda>((f, t), d). \<lparr>sd_from = f, sd_to = t, sd_latency_ms = di_latency_ms d, sd_drop_rate_pct = di_drop_rate_pct d,
                             sd_bandwidth_bps = di_bandwidth_bps d\<rparr>)"

lemma graph_reapply_directional:
  assumes new: "\<forall>(k, _)\<in>set (ng_directional (graph_of b)). k < (f, t)" and eff: "has_effect d" and le: "di_drop_rate_pct d \<le> 100"
  shows "graph_of (fst (reapply_directional h (directional_record ((f, t), d)) (b, w)))
    = (graph_of b)\<lparr>ng_directional := ng_directional (graph_of b) @ [((f, t), d)]\<rparr>"
proof -
  obtain l p q where d: "d = \<lparr>di_latency_ms = l, di_drop_rate_pct = p, di_bandwidth_bps = q\<rparr>" by (cases d) auto
  note again = graph_directional_again [OF new] and first = graph_directional_new [OF new]
  have p: "min p 100 = p" using le by (simp add: d min_def)
  show ?thesis
    using eff
    by (cases "l = 0"; cases "p = 0"; cases "q = 0")
      (simp_all add: d p reapply_directional_def directional_record_def Let_def case_prod_beta first again has_effect_def no_impairment_def word_gt_0)
qed

lemma graph_reapply_directionals:
  assumes "ordered_map (ng_directional (graph_of (fst bw)) @ m)" and "list_all (\<lambda>(_, d). has_effect d \<and> di_drop_rate_pct d \<le> 100) m"
  shows "graph_of (fst (fold (reapply_directional h) (map directional_record m) bw))
    = (graph_of (fst bw))\<lparr>ng_directional := ng_directional (graph_of (fst bw)) @ m\<rparr>"
  using assms
proof (induction m arbitrary: bw)
  case (Cons x m)
  obtain f t d where x: "x = ((f, t), d)" by (metis prod.collapse)
  let ?bw = "reapply_directional h (directional_record x) bw"
  have "\<forall>(k, _)\<in>set (ng_directional (graph_of (fst bw))). k < (f, t)"
    using Cons.prems(1) by (auto simp: x ordered_map_def sorted_wrt_append)
  then have "graph_of (fst ?bw) = (graph_of (fst bw))\<lparr>ng_directional := ng_directional (graph_of (fst bw)) @ [x]\<rparr>"
    using graph_reapply_directional [of "fst bw" f t d h "snd bw"] Cons.prems(2) by (simp add: x)
  then show ?case using Cons.IH [of ?bw] Cons.prems by simp
qed simp

lemma graph_fold:
  assumes "\<And>x b w. graph_of (fst (f x (b, w))) = g x (graph_of b)"
  shows "graph_of (fst (fold f xs (b, w))) = fold g xs (graph_of b)"
proof (induction xs arbitrary: b w)
  case (Cons x xs)
  then show ?case using assms [of x b w] by (cases "f x (b, w)") simp
qed simp

text \<open>The folds of a restoration, on the graph.\<close>

lemma graph_fold_calls:
  "graph_of (fst (fold (\<lambda>vm (b, w). isolate h b vm w) xs (b, w)))
     = (graph_of b)\<lparr>ng_isolated := fold set_insert xs (ng_isolated (graph_of b))\<rparr>"
  "graph_of (fst (fold (\<lambda>(x, y) (b, w). partition_pair h b x y w) ps (b, w)))
     = (graph_of b)\<lparr>ng_partitions := fold set_insert (map (\<lambda>(x, y). canonical_pair x y) ps) (ng_partitions (graph_of b))\<rparr>"
  "graph_of (fst (fold (\<lambda>(x, y) (b, w). partition_directional h b x y w) ps (b, w)))
     = (graph_of b)\<lparr>ng_one_way := fold set_insert ps (ng_one_way (graph_of b))\<rparr>"
  "graph_of (fst (fold (\<lambda>m (b, w). snd (realize_for_vm h b m w)) xs (b, w))) = graph_of b"
proof -
  have "fold (\<lambda>vm g. g\<lparr>ng_isolated := set_insert vm (ng_isolated g)\<rparr>) xs g = g\<lparr>ng_isolated := fold set_insert xs (ng_isolated g)\<rparr>" for g :: net_graph
    by (induction xs arbitrary: g) simp_all
  then show "graph_of (fst (fold (\<lambda>vm (b, w). isolate h b vm w) xs (b, w)))
     = (graph_of b)\<lparr>ng_isolated := fold set_insert xs (ng_isolated (graph_of b))\<rparr>"
    using graph_fold [of "\<lambda>vm (b, w). isolate h b vm w"] by simp
  have "fold (\<lambda>(x, y) g. g\<lparr>ng_partitions := set_insert (canonical_pair x y) (ng_partitions g)\<rparr>) ps g
    = g\<lparr>ng_partitions := fold set_insert (map (\<lambda>(x, y). canonical_pair x y) ps) (ng_partitions g)\<rparr>" for g :: net_graph
    by (induction ps arbitrary: g) (auto split: prod.splits)
  then show "graph_of (fst (fold (\<lambda>(x, y) (b, w). partition_pair h b x y w) ps (b, w)))
     = (graph_of b)\<lparr>ng_partitions := fold set_insert (map (\<lambda>(x, y). canonical_pair x y) ps) (ng_partitions (graph_of b))\<rparr>"
    using graph_fold [of "\<lambda>(x, y) (b, w). partition_pair h b x y w" "\<lambda>(x, y) g. g\<lparr>ng_partitions := set_insert (canonical_pair x y) (ng_partitions g)\<rparr>"]
    by (auto split: prod.splits)
  have "fold (\<lambda>(x, y) g. g\<lparr>ng_one_way := set_insert (x, y) (ng_one_way g)\<rparr>) ps g = g\<lparr>ng_one_way := fold set_insert ps (ng_one_way g)\<rparr>" for g :: net_graph
    by (induction ps arbitrary: g) (auto split: prod.splits)
  then show "graph_of (fst (fold (\<lambda>(x, y) (b, w). partition_directional h b x y w) ps (b, w)))
     = (graph_of b)\<lparr>ng_one_way := fold set_insert ps (ng_one_way (graph_of b))\<rparr>"
    using graph_fold [of "\<lambda>(x, y) (b, w). partition_directional h b x y w" "\<lambda>(x, y) g. g\<lparr>ng_one_way := set_insert (x, y) (ng_one_way g)\<rparr>"]
    by (auto split: prod.splits)
  show "graph_of (fst (fold (\<lambda>m (b, w). snd (realize_for_vm h b m w)) xs (b, w))) = graph_of b"
  proof -
    have "fold (\<lambda>m g. g) xs g = g" for g :: net_graph by (induction xs) simp_all
    then show ?thesis using graph_fold [of "\<lambda>m (b, w). snd (realize_for_vm h b m w)" "\<lambda>m g. g"] by simp
  qed
qed

lemmas graph_folds = graph_fold_calls [where b = "fst bw" and w = "snd bw" for bw, unfolded prod.collapse]

lemma graph_fold_plain:
  "graph_of (fold (\<lambda>m b. attach b m) xs b) = (graph_of b)\<lparr>ng_attached := fold set_insert xs (ng_attached (graph_of b))\<rparr>"
  "graph_of (fold (\<lambda>r b. route b r) xs b) = (graph_of b)\<lparr>ng_routes := fold set_insert xs (ng_routes (graph_of b))\<rparr>"
  by (induction xs arbitrary: b) simp_all

section \<open>Bridges come back\<close>

text \<open>A bridge of a snapshot, made anew in a lab that does not have it.\<close>

definition restored_bridge :: "'w net_host \<Rightarrow> snapshot_bridge \<Rightarrow> 'w \<Rightarrow> bridge \<times> 'w" where
  "restored_bridge h sb w = reapply_bridge h sb (realize_members h sb (attach_members sb (bridge_new (sb_name sb)), w))"

lemma graph_restored:
  assumes "ordered_map m" and "list_all (\<lambda>(_, d). has_effect d \<and> di_drop_rate_pct d \<le> 100) m"
    and "sb_directional_impairments sb = map directional_record m" and "sb_drop_rate_pct sb \<le> 100"
  shows "graph_of (fst (restored_bridge h sb w)) =
    \<lparr>ng_attached = fold set_insert (sb_members sb) [], ng_partitions = fold set_insert (map (\<lambda>(x, y). canonical_pair x y) (sb_partitions sb)) [],
     ng_latency = sb_latency_ms sb, ng_drop = sb_drop_rate_pct sb, ng_bandwidth = sb_bandwidth_bps sb, ng_directional = m,
     ng_full = sb_fully_partitioned sb, ng_routes = fold set_insert (sb_routes sb) [], ng_isolated = fold set_insert (sb_isolated sb) [],
     ng_one_way = fold set_insert (sb_directional_partitions sb) [], ng_uplink = sb_uplink_enabled sb\<rparr>"
proof -
  have new: "graph_of (bridge_new n) = \<lparr>ng_attached = [], ng_partitions = [], ng_latency = 0, ng_drop = 0, ng_bandwidth = 0, ng_directional = [],
      ng_full = False, ng_routes = [], ng_isolated = [], ng_one_way = [], ng_uplink = False\<rparr>" for n
    by (simp add: graph_of_def bridge_new_def)
  define b0 where "b0 = attach_members sb (bridge_new (sb_name sb))"
  define b1 where "b1 = realize_members h sb (b0, w)"
  have g1: "graph_of (fst b1) = graph_of b0" by (simp add: b1_def realize_members_def graph_fold_calls)
  define b2 where "b2 = (if 0 < sb_latency_ms sb then add_latency h (fst b1) (sb_latency_ms sb) (snd b1) else b1)"
  have g2: "graph_of (fst b2) = (graph_of b0)\<lparr>ng_latency := sb_latency_ms sb\<rparr>"
    by (simp add: b2_def g1 b0_def attach_members_def graph_fold_plain new word_gt_0)
  define b3 where "b3 = (if 0 < sb_drop_rate_pct sb then drop_rate h (fst b2) (sb_drop_rate_pct sb) (snd b2) else b2)"
  have g3: "graph_of (fst b3) = (graph_of b0)\<lparr>ng_latency := sb_latency_ms sb, ng_drop := sb_drop_rate_pct sb\<rparr>"
    using assms(4) by (simp add: b3_def g2 b0_def attach_members_def graph_fold_plain new word_gt_0 min_def)
  define b4 where "b4 = (if 0 < sb_bandwidth_bps sb then bandwidth_limit h (fst b3) (sb_bandwidth_bps sb) (snd b3) else b3)"
  have g4: "graph_of (fst b4) = (graph_of b0)\<lparr>ng_latency := sb_latency_ms sb, ng_drop := sb_drop_rate_pct sb, ng_bandwidth := sb_bandwidth_bps sb\<rparr>"
    by (simp add: b4_def g3 b0_def attach_members_def graph_fold_plain new word_gt_0)
  define b5 where "b5 = fold (\<lambda>(x, y) (b, w). partition_directional h b x y w) (sb_directional_partitions sb)
     (fold (\<lambda>(x, y) (b, w). partition_pair h b x y w) (sb_partitions sb)
       (fold (\<lambda>vm (b, w). isolate h b vm w) (sb_isolated sb) (fold (\<lambda>r b. route b r) (sb_routes sb) (fst b4), snd b4)))"
  have g5: "graph_of (fst b5) = \<lparr>ng_attached = fold set_insert (sb_members sb) [],
     ng_partitions = fold set_insert (map (\<lambda>(x, y). canonical_pair x y) (sb_partitions sb)) [],
     ng_latency = sb_latency_ms sb, ng_drop = sb_drop_rate_pct sb, ng_bandwidth = sb_bandwidth_bps sb, ng_directional = [],
     ng_full = False, ng_routes = fold set_insert (sb_routes sb) [], ng_isolated = fold set_insert (sb_isolated sb) [],
     ng_one_way = fold set_insert (sb_directional_partitions sb) [], ng_uplink = False\<rparr>"
    by (simp add: b5_def graph_folds graph_fold_plain g4 b0_def attach_members_def new)
  define b6 where "b6 = fold (reapply_directional h) (sb_directional_impairments sb) b5"
  have g6: "graph_of (fst b6) = (graph_of (fst b5))\<lparr>ng_directional := m\<rparr>"
    using graph_reapply_directionals [of b5 m h] assms(1,2,3) by (simp add: b6_def g5)
  define b7 where "b7 = (if sb_fully_partitioned sb then partition_all h (fst b6) (snd b6) else b6)"
  have g7: "graph_of (fst b7) = (graph_of (fst b6))\<lparr>ng_full := sb_fully_partitioned sb\<rparr>" by (simp add: b7_def g6 g5)
  have "restored_bridge h sb w = (if sb_uplink_enabled sb then snd (enable_uplink h (fst b7) (snd b7)) else b7)"
    by (simp add: restored_bridge_def reapply_bridge_def Let_def case_prod_beta b7_def b6_def b5_def b4_def b3_def b2_def b1_def b0_def)
  then show ?thesis by (simp add: g7 g6 g5)
qed

lemma later_pairs_ordered: "ordered_set ms \<Longrightarrow> (a, c) \<in> set (later_pairs ms) \<longleftrightarrow> a \<in> set ms \<and> c \<in> set ms \<and> a < c"
  by (induction ms) (auto simp: ordered_set_def)


definition demo_segment :: bridge where
  "demo_segment = (bridge_new ''lan'')\<lparr>attached := [''a'', ''b'', ''c''], partitions := [(''a'', ''b''), (''x'', ''y'')], latency_ms := 20,
     isolated := [''c''], directional := [((''a'', ''b''), \<lparr>di_latency_ms = 0, di_drop_rate_pct = 5, di_bandwidth_bps = 0\<rparr>)]\<rparr>"

lemma demo_segment_ok: "bridge_ok demo_segment"
  by (simp add: bridge_ok_def demo_segment_def bridge_new_def ordered_set_def ordered_map_def impairment_ok_def)


section \<open>The outcome of a restoration\<close>

lemma set_lab_vms [simp]: "st_vms (set_lab l x st) = st_vms st"
  by (simp add: set_lab_def)

lemma set_bridge_vms [simp]: "st_vms (set_bridge l x st) = st_vms st"
  by (simp add: set_bridge_def)

lemma on_bridges_vms: "on_bridges f l sbs st w = (st', w') \<Longrightarrow> st_vms st' = st_vms st"
  by (induction f l sbs st w rule: on_bridges.induct) (auto split: sum.splits prod.splits)

text \<open>A store in which machines have been added, all of them booted.\<close>

definition adds_booted :: "('i, 'c) lab_store \<Rightarrow> ('i, 'c) lab_store \<Rightarrow> bool" where
  "adds_booted st st' = (\<exists>new. st_vms st' = st_vms st @ new \<and> (\<forall>v\<in>set new. vm_state v = Booted))"

lemma adds_booted_same: "st_vms st' = st_vms st \<Longrightarrow> adds_booted st st'"
  by (simp add: adds_booted_def)

lemma adds_booted_trans: "adds_booted a b \<Longrightarrow> adds_booted b c \<Longrightarrow> adds_booted a c"
  by (auto simp: adds_booted_def)

lemma adds_booted_state: "adds_booted st st' \<Longrightarrow> length (st_vms st) \<le> v \<Longrightarrow> v < length (st_vms st') \<Longrightarrow> vm_state (the_vm st' v) = Booted"
  by (auto simp: adds_booted_def the_vm_def nth_append)

lemma restore_vm_adds:
  assumes "restore_vm e cfg l name pname opts path st w = (r, st', w')"
  shows "adds_booted st st' \<and> (\<forall>v. r = Inr v \<longrightarrow> length (st_vms st) \<le> v \<and> v < length (st_vms st'))"
  using assms
  by (auto simp: restore_vm_def adds_booted_def Let_def from_running_def split: option.splits prod.splits sum.splits if_splits)

lemma adds_booted_length: "adds_booted st st' \<Longrightarrow> length (st_vms st) \<le> length (st_vms st')"
  by (auto simp: adds_booted_def)

lemma run_restores_adds:
  "run_restores e cfg meta ts order st w = (rs, st', w') \<Longrightarrow>
   adds_booted st st' \<and> map fst rs = order \<and> (\<forall>i v. (i, Some (Inr v)) \<in> set rs \<longrightarrow> length (st_vms st) \<le> v \<and> v < length (st_vms st'))"
proof (induction order arbitrary: st w rs)
  case (Cons i order)
  let ?entry = "sn_vms meta ! i"
  obtain r st1 w1 where one: "restore_vm e cfg (ts ! i) (snd (split_sub_lab_path (se_vm_name ?entry))) (se_profile ?entry)
      (boot_opts_default\<lparr>bo_nic_attachments := restored_nics meta ?entry\<rparr>) (se_snapshot_path ?entry) st w = (r, st1, w1)" by (metis prod_cases3)
  obtain rs1 where rest: "run_restores e cfg meta ts order st1 w1 = (rs1, st', w')" "rs = (i, Some r) # rs1"
    using Cons.prems one by (auto simp: Let_def split: prod.splits)
  note a = restore_vm_adds [OF one] and b = Cons.IH [OF rest(1)]
  have "adds_booted st st'" using a b adds_booted_trans by blast
  moreover have "length (st_vms st) \<le> v \<and> v < length (st_vms st')" if "(j, Some (Inr v)) \<in> set rs" for j v
    using that rest(2) a b adds_booted_length [of st st1] adds_booted_length [of st1 st'] by fastforce
  ultimately show ?case using b rest(2) by auto
qed (simp add: adds_booted_same)

lemma descend_vms: "descend_or_create l path st = (t, st') \<Longrightarrow> st_vms st' = st_vms st"
  by (induction l path st rule: descend_or_create.induct) (auto simp: sub_lab_def Let_def split: option.splits)

lemma preflight_vms: "preflight l es st = (r, st') \<Longrightarrow> st_vms st' = st_vms st"
  by (induction l es st rule: preflight.induct) (auto simp: Let_def split: prod.splits if_splits dest!: descend_vms)

lemma restore_targets_vms: "restore_targets l es st = (ts, st') \<Longrightarrow> st_vms st' = st_vms st"
  by (induction l es st arbitrary: ts st' rule: restore_targets.induct) (auto simp: Let_def split: prod.splits dest!: descend_vms)

lemma create_bridge_vms: "create_bridge l n st = (r, st') \<Longrightarrow> st_vms st' = st_vms st"
  by (auto simp: create_bridge_def Let_def split: sum.splits if_splits)

lemma recreate_bridges_vms: "recreate_bridges l sbs st = (r, st') \<Longrightarrow> st_vms st' = st_vms st"
  by (induction l sbs st rule: recreate_bridges.induct) (auto simp: Let_def split: prod.splits sum.splits dest!: create_bridge_vms)

lemma run_resumes_refused:
  assumes "run_resumes e vs order st w = (rs, st', w')" and "\<forall>i\<in>set order. vm_state (the_vm st (vs ! i)) = Booted"
  shows "st' = st \<and> w' = w \<and> map fst rs = order
    \<and> (\<forall>(i, r)\<in>set rs. r = Some (Inl (RestoreFailed ''lab'' (CauseVm (WrongState (vm_name (the_vm st (vs ! i))) Booted ''resume'')))))"
  using assms
proof (induction order arbitrary: rs)
  case (Cons i order)
  have refused: "resume e (the_vm st (vs ! i)) w = (Ret (Inl (wrong_state (the_vm st (vs ! i)) ''resume'')), the_vm st (vs ! i), w)"
    using Cons.prems(2) by (simp add: resume_def backend_call_def set_state_def)
  have "set_vm (vs ! i) (the_vm st (vs ! i)) st = st" by (simp add: set_vm_def the_vm_def)
  then obtain rs1 where "run_resumes e vs order st w = (rs1, st', w')"
      "rs = (i, Some (Inl (RestoreFailed ''lab'' (CauseVm (wrong_state (the_vm st (vs ! i)) ''resume''))))) # rs1"
    using Cons.prems(1) refused by (auto simp: Let_def split: prod.splits)
  then show ?case using Cons.IH [of rs1] Cons.prems(2) by (auto simp: wrong_state_def)
qed simp

lemma join_all_Inr: "join_all p rs = Inr xs \<Longrightarrow> rs = map (Some \<circ> Inr) xs"
  by (induction p rs arbitrary: xs rule: join_all.induct) (auto split: sum.splits)

lemma joined_nth: "i < n \<Longrightarrow> set (map fst rs) = {0..<n} \<Longrightarrow> \<exists>r. (i, r) \<in> set rs \<and> joined n rs ! i = r"
  by (cases "map_of rs i") (force simp: joined_def map_of_eq_None_iff dest: map_of_SomeD)+


definition bare_host :: "nat net_host" where
  "bare_host = \<lparr>host_output = (\<lambda>_ _ _ w. (Inl ''No such file or directory (os error 2)'', w)), host_getuid = 1000,
               host_write = (\<lambda>_ _ w. (Inl ''Read-only file system (os error 30)'', w))\<rparr>"

definition demo_meta :: snapshot_meta where
  "demo_meta = \<lparr>sn_vms = [\<lparr>se_vm_name = ''dc1/web'', se_profile = ''peios'', se_snapshot_path = ''/s/dc1_web.snap''\<rparr>], sn_bridges = []\<rparr>"


section \<open>Names on disk\<close>

lemma split_path_of_full_name:
  assumes "\<forall>p\<in>set (path @ [name]). CHR ''/'' \<notin> set p" and "[] \<notin> set path"
  shows "split_sub_lab_path (full_name [] path name) = (path, name)"
  using split_join [of "path @ [name]" "CHR ''/''"] assms by (simp add: full_name_path split_sub_lab_path_def Let_def)

lemma descend_existing: "walk st l path = Some s \<Longrightarrow> descend_or_create l path st = (s, st)"
  by (induction path arbitrary: l) (auto split: option.splits)

text \<open>
  The names of a snapshot lead back to the sub-labs. When names have no slash and
  sub-labs are not nameless, the name that a batch gives a machine splits into exactly the
  path of sub-labs and the name it was made of, walking that path in the same lab arrives
  at the machine's own sub-lab without creating anything, and two machines of a tree never
  share a name.
\<close>

theorem flat_names_lead_back:
  assumes mem: "(path, name, v) \<in> tree_members st l"
    and plain: "\<forall>p\<in>set (path @ [name]). CHR ''/'' \<notin> set p" "[] \<notin> set path"
  shows "split_sub_lab_path (full_name [] path name) = (path, name)
    \<and> (\<exists>s. descend_or_create l (fst (split_sub_lab_path (full_name [] path name))) st = (s, st) \<and> get_vm s name st = Inr v)
    \<and> (\<forall>path' name' v'. (path', name', v') \<in> tree_members st l \<longrightarrow> (\<forall>p\<in>set (path' @ [name']). CHR ''/'' \<notin> set p) \<longrightarrow> [] \<notin> set path' \<longrightarrow>
         full_name [] path' name' = full_name [] path name \<longrightarrow> v' = v)"
proof (intro conjI)
  show split: "split_sub_lab_path (full_name [] path name) = (path, name)" by (rule split_path_of_full_name [OF plain])
  obtain s where s: "walk st l path = Some s" "map_of (li_vms (the_lab st s)) name = Some v" using mem by (auto simp: tree_members_def)
  show "\<exists>s. descend_or_create l (fst (split_sub_lab_path (full_name [] path name))) st = (s, st) \<and> get_vm s name st = Inr v"
    unfolding split fst_conv using descend_existing [OF s(1)] s(2) by (intro exI [of _ s]) (simp add: get_vm_def)
  show "\<forall>path' name' v'. (path', name', v') \<in> tree_members st l \<longrightarrow> (\<forall>p\<in>set (path' @ [name']). CHR ''/'' \<notin> set p) \<longrightarrow> [] \<notin> set path' \<longrightarrow>
         full_name [] path' name' = full_name [] path name \<longrightarrow> v' = v"
  proof (intro allI impI)
    fix path' name' v'
    assume mem': "(path', name', v') \<in> tree_members st l" and "\<forall>p\<in>set (path' @ [name']). CHR ''/'' \<notin> set p" "[] \<notin> set path'"
      and "full_name [] path' name' = full_name [] path name"
    then have "(path', name') = (path, name)" using split split_path_of_full_name [of path' name'] by simp
    then show "v' = v" using mem mem' by (auto simp: tree_members_def)
  qed
qed

theorem flat_names_lead_back_witness:
  "split_sub_lab_path ''dc1/web'' = ([''dc1''], ''web'')
   \<and> (\<exists>s. descend_or_create 0 [''dc1''] (demo_store [demo_new ''top'', demo_new ''web'']) = (s, demo_store [demo_new ''top'', demo_new ''web''])
        \<and> get_vm s ''web'' (demo_store [demo_new ''top'', demo_new ''web'']) = Inr 1)"
proof -
  let ?st = "demo_store [demo_new ''top'', demo_new ''web'']"
  have mem: "([''dc1''], ''web'', 1) \<in> tree_members ?st 0" by (simp add: tree_members_def get_sub_lab_def demo_store_def the_lab_def lab_new_def)
  have "full_name [] [''dc1''] ''web'' = ''dc1/web''" by (simp add: full_name_def child_name_def)
  note all = flat_names_lead_back [OF mem, unfolded this]
  have plain: "\<forall>p\<in>set ([''dc1''] @ [''web'']). CHR ''/'' \<notin> set p" "[] \<notin> set [''dc1'']" by simp_all
  note split = conjunct1 [OF all [OF plain]]
  show ?thesis using split conjunct1 [OF conjunct2 [OF all [OF plain]]] unfolding split fst_conv by (rule conjI)
qed

text \<open>
  Snapshot files can overwrite each other. The file of a machine is its name with
  every slash replaced by an underscore, so the machine \<open>b\<close> of the sub-lab \<open>a\<close> and the
  machine \<open>a_b\<close> of the lab itself, which have different names in the tree, are written to
  the same file of the snapshot's directory.
\<close>

theorem snapshot_files_collide:
  assumes "CHR ''/'' \<notin> set a" and "CHR ''/'' \<notin> set b" and "a \<noteq> []"
  shows "full_name [] [a] b \<noteq> full_name [] [] (a @ ''_'' @ b)
    \<and> snap_path dir (full_name [] [a] b) = snap_path dir (full_name [] [] (a @ ''_'' @ b))"
proof -
  have id: "map (\<lambda>c. if c = CHR ''/'' then CHR ''_'' else c) x = x" if "CHR ''/'' \<notin> set x" for x
    using that by (induction x) auto
  show ?thesis using assms by (simp add: full_name_def child_name_def snap_path_def safe_name_def id)
qed

theorem snapshot_files_collide_witness:
  "full_name [] [''a''] ''b'' \<noteq> ''a_b'' \<and> snap_path ''/s'' (full_name [] [''a''] ''b'') = snap_path ''/s'' ''a_b''"
  using snapshot_files_collide [of "''a''" "''b''" "''/s''"] by (simp add: full_name_def child_name_def)

end
