(* ===== verification/Lab_Barrier.thy ===== *)
theory Lab_Barrier
  imports Lab_Tree
begin

text \<open>
  The named barriers of a lab (\<open>BarrierState\<close> and \<open>Lab::barrier\<close> in \<open>lab.rs\<close>): callers that
  wait for each other under a mutex and a condition variable. Each stretch under the lock
  is one function; the step relation interleaves any number of calls, wakes them at any
  time, and lets any wait report a time-out. Shown: every completed round lets exactly the
  agreed number of calls through.
\<close>

section \<open>Arriving\<close>

definition barrier_state_new :: barrier_inner where
  "barrier_state_new = \<lparr>bi_arrived = 0, bi_generation = 0, bi_expected = None\<rparr>"

text \<open>What the code does next: it returns, or it waits on the condition variable.\<close>

datatype arrive_next = ArriveReturn bool | ArriveWait

definition roll_back :: "u64 \<Rightarrow> barrier_inner \<Rightarrow> barrier_inner" where
  "roll_back my_generation g =
     (if bi_generation g = my_generation \<and> 0 < bi_arrived g then g\<lparr>bi_arrived := bi_arrived g - 1\<rparr> else g)"

text \<open>The head of the loop, which looks at the clock.\<close>

definition arrive_loop :: "u64 \<Rightarrow> nat \<Rightarrow> nat \<Rightarrow> barrier_inner \<Rightarrow> arrive_next \<times> barrier_inner" where
  "arrive_loop my_generation deadline now g =
     (if deadline \<le> now then (ArriveReturn False, roll_back my_generation g) else (ArriveWait, g))"

text \<open>The body of the loop after a wait.\<close>

definition arrive_woken :: "u64 \<Rightarrow> nat \<Rightarrow> bool \<Rightarrow> nat \<Rightarrow> barrier_inner \<Rightarrow> arrive_next \<times> barrier_inner" where
  "arrive_woken my_generation deadline timed_out now g =
     (if bi_generation g \<noteq> my_generation then (ArriveReturn True, g)
      else if timed_out then (ArriveReturn False, roll_back my_generation g)
      else arrive_loop my_generation deadline now g)"

text \<open>The first stretch: the generation that the caller joins is returned as well, if it joins one.\<close>

definition arrive :: "nat \<Rightarrow> nat \<Rightarrow> nat \<Rightarrow> barrier_inner \<Rightarrow> u64 option \<times> arrive_next \<times> barrier_inner" where
  "arrive target deadline now g =
     (if bi_expected g \<noteq> None \<and> bi_expected g \<noteq> Some target then (None, ArriveReturn False, g)
      else
        (let g = g\<lparr>bi_expected := Some target\<rparr>;
             my_generation = bi_generation g;
             g = g\<lparr>bi_arrived := bi_arrived g + 1\<rparr>
         in (Some my_generation,
             if target \<le> bi_arrived g
             then (ArriveReturn True, g\<lparr>bi_arrived := 0, bi_generation := bi_generation g + 1\<rparr>)
             else arrive_loop my_generation deadline now g)))"

text \<open>\<open>Lab::barrier\<close>: the barrier of a name is made at its first use.\<close>

definition barrier_entry :: "nat \<Rightarrow> string \<Rightarrow> ('i, 'c) lab_store \<Rightarrow> barrier_inner \<times> ('i, 'c) lab_store" where
  "barrier_entry l name st =
     (let lab = the_lab st l
      in case map_of (li_barriers lab) name of
           Some b \<Rightarrow> (b, st)
         | None \<Rightarrow> (barrier_state_new, set_lab l (lab\<lparr>li_barriers := tree_insert name barrier_state_new (li_barriers lab)\<rparr>) st))"

section \<open>Many callers\<close>

text \<open>
  A call has not arrived, waits since a generation, or is over: refused for its count, or
  with the generation that it had joined and its answer.
\<close>

datatype barrier_pc = NotArrived | Held u64 nat | Refused | Over u64 bool

record barrier_sys =
  bs_inner :: barrier_inner
  bs_call :: "nat \<Rightarrow> barrier_pc"
  bs_rounds :: nat

definition barrier_sys_new :: barrier_sys where
  "barrier_sys_new = \<lparr>bs_inner = barrier_state_new, bs_call = (\<lambda>_. NotArrived), bs_rounds = 0\<rparr>"

fun pc_after :: "u64 \<Rightarrow> nat \<Rightarrow> arrive_next \<Rightarrow> barrier_pc" where
  "pc_after gen deadline (ArriveReturn r) = Over gen r"
| "pc_after gen deadline ArriveWait = Held gen deadline"

definition sys_after :: "nat \<Rightarrow> barrier_pc \<Rightarrow> barrier_inner \<Rightarrow> barrier_sys \<Rightarrow> barrier_sys" where
  "sys_after c pc g s =
     \<lparr>bs_inner = g, bs_call = (bs_call s)(c := pc),
      bs_rounds = bs_rounds s + (if bi_generation g = bi_generation (bs_inner s) then 0 else 1)\<rparr>"

inductive barrier_step :: "barrier_sys \<Rightarrow> barrier_sys \<Rightarrow> bool" where
  refused: "bs_call s c = NotArrived \<Longrightarrow> arrive target deadline now (bs_inner s) = (None, n, g)
    \<Longrightarrow> barrier_step s (sys_after c Refused g s)"
| arrives: "bs_call s c = NotArrived \<Longrightarrow> arrive target deadline now (bs_inner s) = (Some gen, n, g)
    \<Longrightarrow> barrier_step s (sys_after c (pc_after gen deadline n) g s)"
| wakes: "bs_call s c = Held gen deadline \<Longrightarrow> arrive_woken gen deadline timed_out now (bs_inner s) = (n, g)
    \<Longrightarrow> barrier_step s (sys_after c (pc_after gen deadline n) g s)"

section \<open>The invariant\<close>

text \<open>The calls that count for a generation: the ones that wait since it, and the ones it let through.\<close>

definition joined_calls :: "u64 \<Rightarrow> barrier_sys \<Rightarrow> nat set" where
  "joined_calls g s = {c. (\<exists>d. bs_call s c = Held g d) \<or> bs_call s c = Over g True}"

definition round_size :: "barrier_inner \<Rightarrow> nat" where
  "round_size g = max 1 (unwrap_or (bi_expected g) 1)"

definition barrier_ok :: "barrier_sys \<Rightarrow> bool" where
  "barrier_ok s =
     (bi_generation (bs_inner s) = of_nat (bs_rounds s)
      \<and> finite {c. bs_call s c \<noteq> NotArrived}
      \<and> (\<forall>c g d. bs_call s c = Held g d \<longrightarrow> unat g \<le> bs_rounds s)
      \<and> (\<forall>c g. bs_call s c = Over g True \<longrightarrow> unat g < bs_rounds s)
      \<and> bi_arrived (bs_inner s) = card (joined_calls (of_nat (bs_rounds s)) s)
      \<and> bi_arrived (bs_inner s) < round_size (bs_inner s)
      \<and> (bi_expected (bs_inner s) = None \<longrightarrow> bs_rounds s = 0 \<and> bi_arrived (bs_inner s) = 0)
      \<and> (\<forall>k<bs_rounds s. card (joined_calls (of_nat k) s) = round_size (bs_inner s)))"

lemma barrier_ok_new: "barrier_ok barrier_sys_new"
  by (simp add: barrier_ok_def barrier_sys_new_def barrier_state_new_def joined_calls_def round_size_def)

fun joins :: "u64 \<Rightarrow> barrier_pc \<Rightarrow> bool" where
  "joins g (Held h d) = (g = h)"
| "joins g (Over h r) = (g = h \<and> r)"
| "joins g _ = False"

lemma joined_calls_alt: "joined_calls g s = {c. joins g (bs_call s c)}"
proof -
  have "joins g pc \<longleftrightarrow> (\<exists>d. pc = Held g d) \<or> pc = Over g True" for pc by (cases pc) auto
  then show ?thesis by (simp add: joined_calls_def)
qed

lemma joined_after:
  "joined_calls g (sys_after c pc i s) = (if joins g pc then insert c (joined_calls g s) else joined_calls g s - {c})"
  by (auto simp: joined_calls_alt sys_after_def)

lemma finite_joined: "barrier_ok s \<Longrightarrow> finite (joined_calls g s)"
  by (rule finite_subset [of _ "{c. bs_call s c \<noteq> NotArrived}"]) (auto simp: joined_calls_alt barrier_ok_def)

lemma of_nat_rounds:
  assumes "j < 2 ^ 64" and "k < 2 ^ 64"
  shows "(of_nat j :: u64) = of_nat k \<longleftrightarrow> j = k"
  using assms by (simp add: of_nat_inverse word_of_nat_eq_iff take_bit_nat_eq_self)

lemma unat_rounds: "k < 2 ^ 64 \<Longrightarrow> unat (of_nat k :: u64) = k"
  by (simp add: unat_of_nat take_bit_nat_eq_self flip: take_bit_eq_mod)

lemma sys_after_simps [simp]:
  "bs_inner (sys_after c pc g s) = g" "bs_call (sys_after c pc g s) = (bs_call s)(c := pc)"
  "bs_rounds (sys_after c pc g s) = bs_rounds s + (if bi_generation g = bi_generation (bs_inner s) then 0 else 1)"
  by (simp_all add: sys_after_def)

text \<open>An update that leaves the round open.\<close>

lemma barrier_ok_open:
  assumes ok: "barrier_ok s" and gen: "bi_generation g = bi_generation (bs_inner s)"
    and size: "round_size g = round_size (bs_inner s) \<or> bi_expected (bs_inner s) = None" and expected: "bi_expected g = None \<longrightarrow> g = bs_inner s"
    and arrived: "bi_arrived g = card (joined_calls (of_nat (bs_rounds s)) (sys_after c pc g s))" "bi_arrived g < round_size g"
    and past: "\<And>k. k < bs_rounds s \<Longrightarrow> joins (of_nat k) pc = joins (of_nat k) (bs_call s c)"
    and held: "\<And>h d. pc = Held h d \<Longrightarrow> unat h \<le> bs_rounds s" and through: "\<And>h. pc = Over h True \<Longrightarrow> unat h < bs_rounds s"
  shows "barrier_ok (sys_after c pc g s)"
proof -
  have "joined_calls (of_nat k) (sys_after c pc g s) = joined_calls (of_nat k) s" if "k < bs_rounds s" for k
    using past [OF that] unfolding joined_after by (auto simp: joined_calls_alt)
  moreover have "finite {x. ((bs_call s)(c := pc)) x \<noteq> NotArrived}"
    by (rule finite_subset [of _ "insert c {x. bs_call s x \<noteq> NotArrived}"]) (use ok in \<open>auto simp: barrier_ok_def\<close>)
  moreover have "bi_expected g = None \<longrightarrow> bs_rounds s = 0 \<and> bi_arrived g = 0" using ok expected by (auto simp: barrier_ok_def)
  moreover have "\<forall>k<bs_rounds s. round_size g = round_size (bs_inner s)" using ok size by (auto simp: barrier_ok_def)
  moreover have "\<forall>x h d. ((bs_call s)(c := pc)) x = Held h d \<longrightarrow> unat h \<le> bs_rounds s"
    "\<forall>x h. ((bs_call s)(c := pc)) x = Over h True \<longrightarrow> unat h < bs_rounds s" using ok held through by (auto simp: barrier_ok_def)
  moreover have "bs_rounds (sys_after c pc g s) = bs_rounds s" using gen by simp
  moreover have "\<forall>k<bs_rounds s. card (joined_calls (of_nat k) s) = round_size (bs_inner s)" "bi_generation g = of_nat (bs_rounds s)"
    using ok gen by (simp_all add: barrier_ok_def)
  ultimately show ?thesis using arrived unfolding barrier_ok_def sys_after_simps(1,2) by (intro conjI) (simp_all only: HOL.simp_thms, simp)
qed

lemma joins_le: "barrier_ok s \<Longrightarrow> joins g (bs_call s x) \<Longrightarrow> unat g \<le> bs_rounds s"
  by (cases "bs_call s x") (force simp: barrier_ok_def)+

text \<open>The update of a call that completes the round.\<close>

lemma barrier_ok_release:
  assumes ok: "barrier_ok s" and small: "bs_rounds s + 1 < 2 ^ 64" and new: "bs_call s c = NotArrived"
    and g: "bi_generation g = bi_generation (bs_inner s) + 1" "bi_arrived g = 0" "bi_expected g = Some target"
    and full: "target \<le> bi_arrived (bs_inner s) + 1" and agreed: "bi_expected (bs_inner s) = None \<or> bi_expected (bs_inner s) = Some target"
  shows "barrier_ok (sys_after c (Over (bi_generation (bs_inner s)) True) g s)"
proof -
  let ?s = "sys_after c (Over (bi_generation (bs_inner s)) True) g s" and ?n = "bs_rounds s"
  have gen: "bi_generation (bs_inner s) = of_nat ?n" using ok by (simp add: barrier_ok_def)
  have rounds: "bs_rounds ?s = ?n + 1" using g(1) by simp
  have one: "round_size g = bi_arrived (bs_inner s) + 1" using ok full agreed g(3) by (auto simp: barrier_ok_def round_size_def unwrap_or_def)
  have "joins (of_nat (?n + 1)) (bs_call ?s x) = False" for x
    using joins_le [OF ok, of "of_nat (?n + 1)" x] unat_rounds [OF small] of_nat_rounds [of "?n + 1" ?n] small by (auto simp: gen)
  then have fresh: "joined_calls (of_nat (?n + 1)) ?s = {}" by (simp add: joined_calls_alt)
  have "card (joined_calls (of_nat k) ?s) = round_size g" if k: "k < ?n + 1" for k
  proof (cases "k = ?n")
    case True
    have "c \<notin> joined_calls (of_nat ?n) s" using new by (simp add: joined_calls_alt)
    then show ?thesis using True ok one finite_joined [OF ok] gen unfolding joined_after by (simp add: barrier_ok_def)
  next
    case False
    then have "k < ?n" "(of_nat k :: u64) \<noteq> of_nat ?n" using k small of_nat_rounds [of k ?n] by auto
    then have "joined_calls (of_nat k) ?s = joined_calls (of_nat k) s" using new gen unfolding joined_after by (auto simp: joined_calls_alt)
    moreover have "round_size g = round_size (bs_inner s)" using \<open>k < ?n\<close> ok agreed g(3) by (auto simp: barrier_ok_def round_size_def)
    ultimately show ?thesis using ok \<open>k < ?n\<close> by (simp add: barrier_ok_def)
  qed
  moreover have "finite {x. bs_call ?s x \<noteq> NotArrived}"
    by (rule finite_subset [of _ "insert c {x. bs_call s x \<noteq> NotArrived}"]) (use ok in \<open>auto simp: barrier_ok_def\<close>)
  moreover have "bs_call ?s x = Held h d \<Longrightarrow> unat h \<le> ?n + 1" "bs_call ?s x = Over h True \<Longrightarrow> unat h < ?n + 1" for x h d
    using ok gen unat_rounds [of ?n] small by (fastforce simp: barrier_ok_def split: if_splits)+
  ultimately show ?thesis unfolding barrier_ok_def rounds using fresh g gen one by (simp del: fun_upd_apply)
qed

section \<open>Every step keeps it\<close>

lemma roll_back_simps [simp]:
  "bi_generation (roll_back h g) = bi_generation g" "bi_expected (roll_back h g) = bi_expected g"
  "bi_arrived (roll_back h g) = (if bi_generation g = h then bi_arrived g - 1 else bi_arrived g)"
  by (simp_all add: roll_back_def)

lemma round_size_expected: "bi_expected g = bi_expected h \<Longrightarrow> round_size g = round_size h"
  by (simp add: round_size_def)

lemma refused_keeps:
  assumes ok: "barrier_ok s" and new: "bs_call s c = NotArrived" and a: "arrive target deadline now (bs_inner s) = (None, n, g)"
  shows "barrier_ok (sys_after c Refused g s)"
proof -
  have g: "g = bs_inner s" using a by (auto simp: arrive_def Let_def split: if_splits)
  have same: "joined_calls h (sys_after c Refused g s) = joined_calls h s" for h using new unfolding joined_after by (auto simp: joined_calls_alt)
  show ?thesis by (rule barrier_ok_open [OF ok]) (use ok g same new in \<open>simp_all add: barrier_ok_def\<close>)
qed

lemma arrives_keeps:
  assumes ok: "barrier_ok s" and new: "bs_call s c = NotArrived" and a: "arrive target deadline now (bs_inner s) = (Some gen, n, g)"
    and small: "bs_rounds (sys_after c (pc_after gen deadline n) g s) < 2 ^ 64"
  shows "barrier_ok (sys_after c (pc_after gen deadline n) g s)"
proof -
  let ?b = "bs_inner s"
  have agreed: "bi_expected ?b = None \<or> bi_expected ?b = Some target" and gen: "gen = bi_generation ?b"
    using a by (auto simp: arrive_def Let_def split: if_splits)
  have cur: "gen = of_nat (bs_rounds s)" using ok gen by (simp add: barrier_ok_def)
  have notin: "c \<notin> joined_calls h s" for h using new by (simp add: joined_calls_alt)
  have arrived: "bi_arrived ?b = card (joined_calls gen s)" using ok cur by (simp add: barrier_ok_def)
  consider (full) "target \<le> bi_arrived ?b + 1" | (late) "bi_arrived ?b + 1 < target" "deadline \<le> now" | (waits) "bi_arrived ?b + 1 < target" "now < deadline"
    by linarith
  then show ?thesis
  proof cases
    case full
    then have "n = ArriveReturn True" "g = ?b\<lparr>bi_expected := Some target, bi_arrived := 0, bi_generation := bi_generation ?b + 1\<rparr>"
      using a agreed by (auto simp: arrive_def Let_def split: if_splits)
    then show ?thesis using barrier_ok_release [OF ok _ new _ _ _ full agreed, of g] small gen by simp
  next
    case late
    then have ng: "n = ArriveReturn False" "g = roll_back gen (?b\<lparr>bi_expected := Some target, bi_arrived := bi_arrived ?b + 1\<rparr>)"
      using a agreed gen by (auto simp: arrive_def arrive_loop_def Let_def split: if_splits)
    have "joined_calls gen (sys_after c (Over gen False) g s) = joined_calls gen s" using notin unfolding joined_after by simp
    then show ?thesis unfolding ng(1) pc_after.simps
      by (intro barrier_ok_open [OF ok]) (use ng late agreed gen cur arrived new in \<open>auto simp: round_size_def unwrap_or_def\<close>)
  next
    case waits
    then have ng: "n = ArriveWait" "g = ?b\<lparr>bi_expected := Some target, bi_arrived := bi_arrived ?b + 1\<rparr>"
      using a agreed gen by (auto simp: arrive_def arrive_loop_def Let_def split: if_splits)
    have small': "bs_rounds s < 2 ^ 64" using small by (simp split: if_splits)
    have "joined_calls gen (sys_after c (Held gen deadline) g s) = insert c (joined_calls gen s)" unfolding joined_after by simp
    then have "bi_arrived g = card (joined_calls (of_nat (bs_rounds s)) (sys_after c (Held gen deadline) g s))"
      using ng(2) arrived notin finite_joined [OF ok, of gen] unfolding cur [symmetric] by simp
    moreover have "unat gen \<le> bs_rounds s" using unat_rounds [OF small'] cur by simp
    moreover have "of_nat k \<noteq> gen" if "k < bs_rounds s" for k using that small' cur of_nat_rounds [of k "bs_rounds s"] by simp
    ultimately show ?thesis unfolding ng(1) pc_after.simps
      by (intro barrier_ok_open [OF ok]) (use ng waits agreed new in \<open>auto simp: round_size_def unwrap_or_def\<close>)
  qed
qed

lemma wakes_keeps:
  assumes ok: "barrier_ok s" and held: "bs_call s c = Held gen deadline"
    and a: "arrive_woken gen deadline timed_out now (bs_inner s) = (n, g)" and small: "bs_rounds s < 2 ^ 64"
  shows "barrier_ok (sys_after c (pc_after gen deadline n) g s)"
proof -
  let ?b = "bs_inner s"
  have le: "unat gen \<le> bs_rounds s" using joins_le [OF ok, of gen c] held by simp
  have cur: "bi_generation ?b = of_nat (bs_rounds s)" using ok by (simp add: barrier_ok_def)
  have word: "of_nat (unat gen) = gen" by simp
  have isin: "c \<in> joined_calls gen s" using held by (simp add: joined_calls_alt)
  consider (through) "bi_generation ?b \<noteq> gen" "n = ArriveReturn True" "g = ?b"
    | (late) "bi_generation ?b = gen" "n = ArriveReturn False" "g = roll_back gen ?b" | (waits) "bi_generation ?b = gen" "n = ArriveWait" "g = ?b"
    using a by (auto simp: arrive_woken_def arrive_loop_def split: if_splits)
  then show ?thesis
  proof cases
    case through
    then have lt: "unat gen < bs_rounds s" using le cur word by (metis nat_less_le)
    have "joined_calls h (sys_after c (Over gen True) g s) = joined_calls h s" for h
      using held unfolding joined_after by (auto simp: joined_calls_alt)
    then show ?thesis unfolding through(2) pc_after.simps
      by (intro barrier_ok_open [OF ok]) (use ok through lt held in \<open>simp_all add: barrier_ok_def\<close>)
  next
    case late
    have "joined_calls gen (sys_after c (Over gen False) g s) = joined_calls gen s - {c}" unfolding joined_after by simp
    moreover have arrived: "bi_arrived ?b = card (joined_calls gen s)" "bi_arrived ?b < round_size ?b" using ok late(1) cur by (simp_all add: barrier_ok_def)
    ultimately have card: "bi_arrived g = card (joined_calls (of_nat (bs_rounds s)) (sys_after c (Over gen False) g s))"
      using late isin unfolding cur [symmetric] by simp
    have size: "round_size g = round_size ?b" using late(3) by (simp add: round_size_def)
    have "0 < card (joined_calls gen s)" using isin finite_joined [OF ok, of gen] by (auto simp: card_gt_0_iff)
    then have "bi_expected ?b \<noteq> None" using ok arrived(1) by (auto simp: barrier_ok_def)
    moreover have "bi_arrived g < round_size g" using size arrived late by simp
    moreover have "joins (of_nat k) (bs_call s c) = False" if "k < bs_rounds s" for k
      using that held late(1) cur of_nat_rounds [of k "bs_rounds s"] small by simp
    ultimately show ?thesis unfolding late(2) pc_after.simps
      by (intro barrier_ok_open [OF ok]) (use late card size in auto)
  next
    case waits
    have "joined_calls h (sys_after c (Held gen deadline) g s) = joined_calls h s" for h
      using held unfolding joined_after by (auto simp: joined_calls_alt)
    then show ?thesis unfolding waits(2) pc_after.simps
      by (intro barrier_ok_open [OF ok]) (use ok waits le held in \<open>simp_all add: barrier_ok_def\<close>)
  qed
qed

interpretation barrier_runs: step_invariant barrier_step "\<lambda>s. bs_rounds s < 2 ^ 64 \<longrightarrow> barrier_ok s"
proof
  fix s t
  assume inv: "bs_rounds s < 2 ^ 64 \<longrightarrow> barrier_ok s" and step: "barrier_step s t"
  have "bs_rounds s \<le> bs_rounds t" using step by cases simp_all
  moreover have "barrier_ok t" if ok: "barrier_ok s" and small: "bs_rounds t < 2 ^ 64" "bs_rounds s < 2 ^ 64"
    using step
  proof cases
    case (refused c target deadline now n g)
    then show ?thesis using refused_keeps [OF ok] by simp
  next
    case (arrives c target deadline now gen n g)
    then show ?thesis using arrives_keeps [OF ok _ _ _] small by simp
  next
    case (wakes c gen deadline timed_out now n g)
    then show ?thesis using wakes_keeps [OF ok] small by simp
  qed
  ultimately show "bs_rounds t < 2 ^ 64 \<longrightarrow> barrier_ok t" using inv by simp
qed

text \<open>
  C16: A barrier lets exactly the agreed number of calls through at a time. In whatever order
  calls arrive, wake and time out: the calls of a round that is complete are as many as
  the count of the barrier (at least one), each of them has returned true or will at its
  next wake whatever its clock says, and no call of the open round has returned true.
  \<open>arrived\<close> is the number of calls that wait in the open round and stays below the count,
  and a call that gave up is counted nowhere.
\<close>

theorem barrier_rounds_complete:
  assumes run: "reaches barrier_step barrier_sys_new s" and bound: "bs_rounds s < 2 ^ 64"
  shows "(\<forall>k<bs_rounds s. card (joined_calls (of_nat k) s) = round_size (bs_inner s))
    \<and> (\<forall>c k d timed_out now. k < bs_rounds s \<longrightarrow> bs_call s c = Held (of_nat k) d \<longrightarrow>
         arrive_woken (of_nat k) d timed_out now (bs_inner s) = (ArriveReturn True, bs_inner s))
    \<and> (\<forall>c. bs_call s c \<noteq> Over (bi_generation (bs_inner s)) True)
    \<and> bi_arrived (bs_inner s) = card {c. \<exists>d. bs_call s c = Held (bi_generation (bs_inner s)) d}
    \<and> bi_arrived (bs_inner s) < round_size (bs_inner s)"
proof -
  have ok: "barrier_ok s" using barrier_runs.reaches_keeps [OF run] barrier_ok_new bound by simp
  have gen: "bi_generation (bs_inner s) = of_nat (bs_rounds s)" using ok by (simp add: barrier_ok_def)
  have open_round: "bs_call s c \<noteq> Over (of_nat (bs_rounds s)) True" for c using ok unat_rounds [OF bound] by (force simp: barrier_ok_def)
  then have "joined_calls (of_nat (bs_rounds s)) s = {c. \<exists>d. bs_call s c = Held (bi_generation (bs_inner s)) d}"
    by (simp add: joined_calls_def gen)
  then have "bi_arrived (bs_inner s) = card {c. \<exists>d. bs_call s c = Held (bi_generation (bs_inner s)) d}" using ok by (simp add: barrier_ok_def)
  moreover have "arrive_woken (of_nat k) d timed_out now (bs_inner s) = (ArriveReturn True, bs_inner s)" if "k < bs_rounds s" for k d timed_out now
    using that bound of_nat_rounds [of k "bs_rounds s"] by (simp add: arrive_woken_def gen)
  ultimately show ?thesis using ok open_round unfolding gen by (simp add: barrier_ok_def)
qed

text \<open>Two calls with the count two: the first waits, the second releases both.\<close>

definition demo_met :: barrier_sys where
  "demo_met = \<lparr>bs_inner = \<lparr>bi_arrived = 0, bi_generation = 1, bi_expected = Some 2\<rparr>,
              bs_call = (\<lambda>_. NotArrived)(0 := Held 0 5, 1 := Over 0 True), bs_rounds = 1\<rparr>"

lemma demo_met_reached: "reaches barrier_step barrier_sys_new demo_met"
proof -
  define s1 where "s1 = \<lparr>bs_inner = \<lparr>bi_arrived = 1, bi_generation = 0, bi_expected = Some 2\<rparr>, bs_call = (\<lambda>_. NotArrived)(0 := Held 0 5), bs_rounds = 0\<rparr>"
  have one: "barrier_step barrier_sys_new s1"
    using barrier_step.arrives [of barrier_sys_new 0 2 5 0 0 ArriveWait "bs_inner s1"]
    by (simp add: s1_def arrive_def arrive_loop_def barrier_sys_new_def barrier_state_new_def sys_after_def)
  have "barrier_step s1 demo_met"
    using barrier_step.arrives [of s1 1 2 5 0 0 "ArriveReturn True" "bs_inner demo_met"]
    by (simp add: s1_def demo_met_def arrive_def sys_after_def)
  then show ?thesis using one reaches_refl reaches_step by metis
qed

theorem barrier_rounds_complete_witness:
  "card (joined_calls 0 demo_met) = 2 \<and> arrive_woken 0 5 True 9 (bs_inner demo_met) = (ArriveReturn True, bs_inner demo_met)"
proof -
  have "bs_rounds demo_met < 2 ^ 64" by (simp add: demo_met_def)
  note all = barrier_rounds_complete [OF demo_met_reached this]
  have "card (joined_calls (of_nat 0) demo_met) = round_size (bs_inner demo_met)" using all by (simp add: demo_met_def)
  moreover have "arrive_woken (of_nat 0) 5 True 9 (bs_inner demo_met) = (ArriveReturn True, bs_inner demo_met)"
    by (rule all [THEN conjunct2, THEN conjunct1, rule_format, of 0 0 5]) (simp_all add: demo_met_def)
  ultimately show ?thesis by (simp add: demo_met_def round_size_def unwrap_or_def)
qed

end
