(* ===== verification/Fixture_Scan.thy ===== *)
theory Fixture_Scan
  imports Host_Paths "HOL-Library.Multiset"
begin

text \<open>
  The source scanners of \<open>fixture.rs\<close>: which other fixtures, helper modules and host
  files a fixture's Lua source refers to. Positions are byte offsets, as in the code.
  Shown: the scan with its jumps finds exactly the calls that a check of every position
  finds, in source order.
\<close>

section \<open>Finding text\<close>

text \<open>\<open>str::find\<close> of a pattern, and \<open>strip_prefix\<close> of one character.\<close>

fun find_str :: "string \<Rightarrow> string \<Rightarrow> nat option" where
  "find_str pat [] = (if pat = [] then Some 0 else None)"
| "find_str pat (c # cs) = (if starts_with pat (c # cs) then Some 0 else map_option Suc (find_str pat cs))"

fun strip_char :: "char \<Rightarrow> string \<Rightarrow> string option" where
  "strip_char d [] = None"
| "strip_char d (c # cs) = (if c = d then Some cs else None)"

definition DQUOTE :: char where "DQUOTE = CHR 0x22"

definition SQUOTE :: char where "SQUOTE = CHR 0x27"

definition BACKSLASH :: char where "BACKSLASH = CHR 0x5C"

definition is_ident :: "char \<Rightarrow> bool" where
  "is_ident c = (is_ascii_alphanumeric c \<or> c = CHR ''_'')"

section \<open>Calls with a quoted argument\<close>

text \<open>The character before the marker is no part of an identifier.\<close>

definition at_boundary :: "string \<Rightarrow> nat \<Rightarrow> bool" where
  "at_boundary source pos = (pos = 0 \<or> \<not> is_ident (source ! (pos - 1)))"

definition open_quote :: "string \<Rightarrow> (char \<times> string) option" where
  "open_quote s =
     (case strip_char DQUOTE s of
        Some rest \<Rightarrow> Some (DQUOTE, rest)
      | None \<Rightarrow> (case strip_char SQUOTE s of Some rest \<Rightarrow> Some (SQUOTE, rest) | None \<Rightarrow> None))"

definition quoted_text :: "string \<Rightarrow> string option" where
  "quoted_text s =
     (case open_quote s of
        None \<Rightarrow> None
      | Some (quote, body) \<Rightarrow> map_option (\<lambda>end. take end body) (find_str [quote] body))"

text \<open>What one pass of the loop of \<open>scan_quoted_arg_with_pos\<close> pushes for a marker at \<open>pos\<close>.\<close>

definition quoted_arg_at :: "string \<Rightarrow> string \<Rightarrow> nat \<Rightarrow> string option" where
  "quoted_arg_at source marker pos =
     (if \<not> at_boundary source pos then None
      else (case strip_char CHR ''('' (trim_start (drop (pos + length marker) source)) of
              None \<Rightarrow> None
            | Some after_open \<Rightarrow> quoted_text (trim_start after_open)))"

lemma find_str_bound: "find_str pat s = Some i \<Longrightarrow> i + length pat \<le> length s"
proof (induction s arbitrary: i)
  case (Cons c cs)
  show ?case
  proof (cases "starts_with pat (c # cs)")
    case True
    then have "length pat \<le> length (c # cs)" unfolding starts_with_def by (metis length_take min.cobounded1)
    then show ?thesis using Cons.prems True by simp
  next
    case False
    then show ?thesis using Cons by (auto split: if_splits)
  qed
qed (auto split: if_splits)

function scan_from :: "string \<Rightarrow> string \<Rightarrow> nat \<Rightarrow> (nat \<times> string) list" where
  "scan_from source marker idx =
     (case find_str marker (drop idx source) of
        None \<Rightarrow> []
      | Some found \<Rightarrow>
          (if marker = [] then []
           else (case quoted_arg_at source marker (idx + found) of None \<Rightarrow> [] | Some a \<Rightarrow> [(idx + found, a)])
                @ scan_from source marker (idx + found + length marker)))"
  by pat_completeness auto

termination
proof (relation "measure (\<lambda>(source, _, idx). length source - idx)", simp)
  fix source marker :: string and idx found
  assume f: "find_str marker (drop idx source) = Some found" "marker \<noteq> []"
  obtain m where "length marker = Suc m" using f(2) by (cases marker) auto
  then show "((source, marker, idx + found + length marker), source, marker, idx) \<in> measure (\<lambda>(source, _, idx). length source - idx)" using find_str_bound [OF f(1)] by simp
qed

declare scan_from.simps [simp del]

definition scan_quoted_arg_with_pos :: "string \<Rightarrow> string \<Rightarrow> (nat \<times> string) list" where
  "scan_quoted_arg_with_pos source marker = scan_from source marker 0"

definition scan_fixture_deps :: "string \<Rightarrow> string list" where
  "scan_fixture_deps source =
     map snd (sort_key fst (scan_quoted_arg_with_pos source ''vm_fixture'' @ scan_quoted_arg_with_pos source ''lab_fixture''))"

definition scan_require_deps :: "string \<Rightarrow> string list" where
  "scan_require_deps source = map snd (scan_quoted_arg_with_pos source ''require'')"

section \<open>Host files\<close>

text \<open>
  \<open>find_matching_close_paren\<close>: the state is the depth and the quote of the string literal
  the scan is inside, if any. In a literal, a backslash skips the character after it.
\<close>

fun close_paren_from :: "nat \<Rightarrow> char option \<Rightarrow> nat \<Rightarrow> string \<Rightarrow> nat option" where
  "close_paren_from depth (Some q) i [] = None"
| "close_paren_from depth (Some q) i (c # cs) =
     (if c = BACKSLASH then (case cs of [] \<Rightarrow> None | _ # cs' \<Rightarrow> close_paren_from depth (Some q) (i + 2) cs')
      else close_paren_from depth (if c = q then None else Some q) (i + 1) cs)"
| "close_paren_from depth None i [] = None"
| "close_paren_from depth None i (c # cs) =
     (if c = DQUOTE \<or> c = SQUOTE then close_paren_from depth (Some c) (i + 1) cs
      else if c = CHR ''('' then close_paren_from (depth + 1) None (i + 1) cs
      else if c = CHR '')'' then (if depth = 1 then Some i else close_paren_from (depth - 1) None (i + 1) cs)
      else close_paren_from depth None (i + 1) cs)"

definition find_matching_close_paren :: "string \<Rightarrow> nat \<Rightarrow> nat option" where
  "find_matching_close_paren source start = close_paren_from 1 None start (drop start source)"

definition has_auto_dep_false :: "string \<Rightarrow> bool" where
  "has_auto_dep_false args =
     (case find_str ''auto_dep'' args of
        None \<Rightarrow> False
      | Some idx \<Rightarrow>
          (case strip_char CHR ''='' (trim_start (drop (idx + length ''auto_dep'') args)) of
             None \<Rightarrow> False
           | Some rest \<Rightarrow>
               (let rest = trim_start rest
                in starts_with ''false'' rest \<and> (case drop 5 rest of [] \<Rightarrow> True | c # _ \<Rightarrow> \<not> is_ident c))))"

text \<open>One pass of \<open>scan_push_file_calls\<close>: what it pushes, and where the next pass starts.\<close>

definition push_file_at :: "string \<Rightarrow> nat \<Rightarrow> string option \<times> nat" where
  "push_file_at source pos =
     (let next = pos + length ''push_file'';
          after_trim = trim_start (drop next source)
      in if \<not> at_boundary source pos then (None, next)
         else (case strip_char CHR ''('' after_trim of
                 None \<Rightarrow> (None, next)
               | Some after_open \<Rightarrow>
                   (let call_body_start = length source - length after_open
                    in case find_matching_close_paren source call_body_start of
                         None \<Rightarrow> (None, next)
                       | Some close \<Rightarrow>
                           (if has_auto_dep_false (slice call_body_start close source) then (None, close)
                            else (case open_quote (trim_start after_open) of
                                    None \<Rightarrow> (None, next)
                                  | Some (quote, body) \<Rightarrow>
                                      (map_option (\<lambda>end. take end body) (find_str [quote] body), close))))))"

lemma strip_char_Some: "strip_char d s = Some t \<longleftrightarrow> s = d # t"
  by (cases s) auto

lemma trim_start_suffix: "\<exists>k. trim_start s = drop k s"
proof (induction s rule: trim_start.induct)
  case (1 s)
  show ?case
  proof (cases "ws_len s = 0 \<or> s = []")
    case True
    then show ?thesis using trim_start.simps [of s] by (intro exI [of _ 0]) simp
  next
    case False
    then obtain k where "trim_start (drop (ws_len s) s) = drop k (drop (ws_len s) s)" using 1 by blast
    then show ?thesis using False trim_start.simps [of s] by (metis drop_drop)
  qed
qed

lemma length_trim_start: "length (trim_start s) \<le> length s"
  using trim_start_suffix [of s] by auto

lemma close_paren_bounds: "close_paren_from depth q i s = Some j \<Longrightarrow> i \<le> j \<and> j < i + length s"
proof (induction depth q i s rule: close_paren_from.induct)
  case (2 depth q i c cs)
  then show ?case by (cases cs) (auto split: if_splits)
next
  case (4 depth i c cs)
  then show ?case by (auto split: if_splits)
qed simp_all

lemma push_file_at_advances: "push_file_at source pos = (hit, next) \<Longrightarrow> pos + 9 \<le> length source \<Longrightarrow> pos + 9 \<le> next"
proof -
  assume a: "push_file_at source pos = (hit, next)" and b: "pos + 9 \<le> length source"
  have "pos + 9 \<le> close" if s: "strip_char CHR ''('' (trim_start (drop (pos + 9) source)) = Some after_open"
    and c: "find_matching_close_paren source (length source - length after_open) = Some close" for after_open close
  proof -
    have "length after_open < length (drop (pos + 9) source)"
      using s length_trim_start [of "drop (pos + 9) source"] by (auto simp: strip_char_Some)
    then have "pos + 9 \<le> length source - length after_open" using b by simp
    then show ?thesis using close_paren_bounds c unfolding find_matching_close_paren_def by (metis le_trans)
  qed
  then show ?thesis using a by (auto simp: push_file_at_def Let_def eval_nat_numeral split: if_splits option.splits prod.splits)
qed

lemma push_files_advance:
  assumes f: "find_str ''push_file'' (drop idx source) = Some found" and p: "(hit, after) = push_file_at source (idx + found)"
  shows "length source - after < length source - idx"
proof -
  have "found + 9 \<le> length source - idx" using find_str_bound [OF f] by simp
  moreover from this have "idx + found + 9 \<le> after" using push_file_at_advances [OF p [symmetric]] by simp
  ultimately show ?thesis by simp
qed

function push_files_from :: "string \<Rightarrow> nat \<Rightarrow> (nat \<times> string) list" where
  "push_files_from source idx =
     (case find_str ''push_file'' (drop idx source) of
        None \<Rightarrow> []
      | Some found \<Rightarrow>
          (case push_file_at source (idx + found) of
             (hit, next) \<Rightarrow>
               (case hit of None \<Rightarrow> [] | Some a \<Rightarrow> [(idx + found, a)]) @ push_files_from source next))"
  by pat_completeness auto

termination
  by (relation "measure (\<lambda>(source, idx). length source - idx)") (simp_all add: push_files_advance)

declare push_files_from.simps [simp del]

definition scan_push_file_calls :: "string \<Rightarrow> (nat \<times> string) list" where
  "scan_push_file_calls source = push_files_from source 0"

definition scan_external_file_deps :: "string \<Rightarrow> string list" where
  "scan_external_file_deps source =
     map snd (sort_key fst (scan_push_file_calls source @ scan_quoted_arg_with_pos source ''depends_on_file''))"

section \<open>Every position\<close>

text \<open>The reference: look at every position, whatever the positions before it held.\<close>

definition calls_by_position :: "string \<Rightarrow> string \<Rightarrow> (nat \<times> string) list" where
  "calls_by_position source marker =
     concat (map (\<lambda>pos. if starts_with marker (drop pos source)
                        then (case quoted_arg_at source marker pos of None \<Rightarrow> [] | Some a \<Rightarrow> [(pos, a)]) else [])
               [0..<length source])"

lemma find_str_Some_iff:
  "pat \<noteq> [] \<Longrightarrow> find_str pat s = Some i \<longleftrightarrow> starts_with pat (drop i s) \<and> (\<forall>j<i. \<not> starts_with pat (drop j s))"
proof (induction s arbitrary: i)
  case (Cons c cs)
  then show ?case
  proof (cases i)
    case (Suc k)
    then show ?thesis using Cons by (auto simp: All_less_Suc2)
  qed auto
qed (auto simp: starts_with_def)

lemma find_str_None_iff: "pat \<noteq> [] \<Longrightarrow> find_str pat s = None \<longleftrightarrow> (\<forall>j. \<not> starts_with pat (drop j s))"
proof (induction s)
  case (Cons c cs)
  have "(\<forall>j. \<not> starts_with pat (drop j (c # cs))) \<longleftrightarrow> \<not> starts_with pat (c # cs) \<and> (\<forall>j. \<not> starts_with pat (drop j cs))"
    by (metis drop0 drop_Suc_Cons not0_implies_Suc)
  then show ?case using Cons by simp
qed (simp add: starts_with_def)

definition hit_at :: "string \<Rightarrow> string \<Rightarrow> nat \<Rightarrow> (nat \<times> string) list" where
  "hit_at source marker pos =
     (if starts_with marker (drop pos source)
      then (case quoted_arg_at source marker pos of None \<Rightarrow> [] | Some a \<Rightarrow> [(pos, a)]) else [])"

lemma no_hits: "(\<And>p. p \<in> set ps \<Longrightarrow> hit_at s m p = []) \<Longrightarrow> concat (map (hit_at s m) ps) = []"
  by (induction ps) simp_all

lemma no_marker_no_hit: "\<not> starts_with m (drop p s) \<Longrightarrow> hit_at s m p = []"
  by (simp add: hit_at_def)

text \<open>Inside a marker made of identifier characters no call begins, even where the marker overlaps itself.\<close>

lemma no_hit_inside:
  assumes ident: "list_all is_ident m" and here: "starts_with m (drop p s)" and k: "0 < k" "k < length m"
  shows "hit_at s m (p + k) = []"
proof -
  have "m ! (k - 1) = take (length m) (drop p s) ! (k - 1)" using here by (simp add: starts_with_def)
  also have "\<dots> = s ! (p + k - 1)"
  proof -
    have "length m \<le> length (drop p s)" using here unfolding starts_with_def by (metis length_take min.cobounded1)
    then show ?thesis using k by (simp add: nth_drop)
  qed
  finally have "m ! (k - 1) = s ! (p + k - 1)" .
  moreover have "is_ident (m ! (k - 1))" using ident k by (simp add: list_all_length less_imp_diff_less)
  ultimately have "is_ident (s ! (p + k - 1))" by simp
  then show ?thesis using k by (simp add: hit_at_def quoted_arg_at_def at_boundary_def)
qed

lemma upt_parts: "a \<le> b \<Longrightarrow> b \<le> c \<Longrightarrow> [a..<b] @ [b..<c] = [a..<c]"
  by (metis le_add_diff_inverse upt_add_eq_append)

lemma scan_from_positions:
  assumes m: "m \<noteq> []" "list_all is_ident m"
  shows "scan_from s m i = concat (map (hit_at s m) [i..<length s])"
proof (induction "length s - i" arbitrary: i rule: less_induct)
  case less
  show ?case
  proof (cases "find_str m (drop i s)")
    case None
    have "\<not> starts_with m (drop p s)" if "i \<le> p" for p
      using iffD1 [OF find_str_None_iff [OF m(1)] None, THEN spec, of "p - i"] that by simp
    then have "concat (map (hit_at s m) [i..<length s]) = []" by (intro no_hits no_marker_no_hit) simp
    then show ?thesis using None scan_from.simps [of s m i] by (simp only: option.case)
  next
    case (Some f)
    let ?p = "i + f" and ?q = "i + f + length m"
    have here: "starts_with m (drop ?p s)" and before: "\<forall>j<f. \<not> starts_with m (drop (i + j) s)"
      using Some find_str_Some_iff [OF m(1), of "drop i s" f] by (simp_all add: add.commute)
    have bound: "?q \<le> length s" using find_str_bound [OF Some] m(1) by (cases "i \<le> length s") auto
    have "[i..<length s] = [i..<?p] @ [?p..<Suc ?p] @ [Suc ?p..<?q] @ [?q..<length s]"

    proof -
      have "Suc ?p \<le> ?q" using m(1) by (cases m) auto
      then show ?thesis using bound by (simp add: upt_parts del: upt_Suc)
    qed
    moreover have "concat (map (hit_at s m) [i..<?p]) = []" 
    proof (intro no_hits no_marker_no_hit)
      fix x assume "x \<in> set [i..<?p]"
      then have "x - i < f" "i + (x - i) = x" by auto
      then show "\<not> starts_with m (drop x s)" using before by metis
    qed
    moreover have "concat (map (hit_at s m) [Suc ?p..<?q]) = []"
    proof (rule no_hits)
      fix x assume "x \<in> set [Suc ?p..<?q]"
      then have "0 < x - ?p" "x - ?p < length m" "?p + (x - ?p) = x" by auto
      then show "hit_at s m x = []" using no_hit_inside [OF m(2) here, of "x - ?p"] by metis
    qed
    ultimately have "concat (map (hit_at s m) [i..<length s]) = hit_at s m ?p @ concat (map (hit_at s m) [?q..<length s])"
      by (simp del: concat_eq_Nil_conv)
    moreover have "length s - ?q < length s - i" using bound m(1) by (cases m) auto
    ultimately show ?thesis using less [of ?q] Some m(1) here by (subst scan_from.simps) (simp add: hit_at_def)
  qed
qed

lemma markers_ident:
  "list_all is_ident ''vm_fixture''" "list_all is_ident ''lab_fixture''" "list_all is_ident ''require''" "list_all is_ident ''depends_on_file''"
  by code_simp+

lemma calls_by_position_alt: "calls_by_position s m = concat (map (hit_at s m) [0..<length s])"
  unfolding calls_by_position_def hit_at_def by (rule refl)

lemma scan_by_position:
  "m \<noteq> [] \<Longrightarrow> list_all is_ident m \<Longrightarrow> scan_quoted_arg_with_pos s m = calls_by_position s m"
  by (simp add: scan_quoted_arg_with_pos_def scan_from_positions calls_by_position_alt)

lemmas scans_by_position =
  scan_by_position [of "''vm_fixture''", OF _ markers_ident(1)] scan_by_position [of "''lab_fixture''", OF _ markers_ident(2)]
  scan_by_position [of "''require''", OF _ markers_ident(3)] scan_by_position [of "''depends_on_file''", OF _ markers_ident(4)]

lemma positions_increase: "sorted_wrt (<) (map fst (concat (map (hit_at s m) [i..<n])))"
proof (induction n)
  case (Suc n)
  show ?case
  proof (cases "i \<le> n")
    case True
    have "\<forall>x\<in>set (concat (map (hit_at s m) [i..<n])). fst x < n" by (auto simp: hit_at_def split: option.splits if_splits)
    moreover have "hit_at s m n = [] \<or> (\<exists>a. hit_at s m n = [(n, a)])" by (auto simp: hit_at_def split: option.splits)
    ultimately show ?thesis using Suc True by (auto simp: sorted_wrt_append simp del: set_concat)
  qed simp
qed simp


end
