(* ===== verification/Fixture_Key.thy ===== *)
theory Fixture_Key
  imports Fixture_Scan Profiles Wire_Types
begin

text \<open>
  The key of a fixture in the cache (\<open>fixture.rs\<close>, and the dependency walks of
  \<open>lua/lab_ud.rs\<close>): the hash of its source together with the keys of what it refers to and
  the identity of kernels, initrds and host files. SHA-256 in hexadecimal is the parameter
  \<open>sha\<close>. A source is its bytes. Shown: the walk over the references ends, and a key changes
  with every source that it reaches.
\<close>

section \<open>Files\<close>

record file_meta =
  fm_len :: u64
  fm_mtime_ns :: "nat option"

text \<open>The file system: \<open>is_file\<close>, reading, \<open>metadata\<close>, \<open>canonicalize\<close> and the working directory.\<close>

record fixture_fs =
  ff_is_file :: "string \<Rightarrow> bool"
  ff_bytes :: "string \<Rightarrow> io_error + string"
  ff_meta :: "string \<Rightarrow> file_meta option"
  ff_canonical :: "string \<Rightarrow> string option"
  ff_cwd :: string

datatype fixture_error =
    FixtureIo io_error
  | FixtureNotFound string
  | FixtureBuildFailed string string

definition read_fixture_source :: "fixture_fs \<Rightarrow> string \<Rightarrow> fixture_error + string" where
  "read_fixture_source fs path =
     (if \<not> ff_is_file fs path then Inl (FixtureNotFound path)
      else (case ff_bytes fs path of Inl e \<Rightarrow> Inl (FixtureIo e) | Inr b \<Rightarrow> Inr b))"

definition default_cache_dir :: "(string \<Rightarrow> string option) \<Rightarrow> string" where
  "default_cache_dir env =
     (case env ''PROVIUM_FIXTURE_CACHE'' of
        Some p \<Rightarrow> p
      | None \<Rightarrow>
          (case env ''XDG_CACHE_HOME'' of
             Some p \<Rightarrow> path_join (path_join p ''provium'') ''fixtures''
           | None \<Rightarrow>
               (case env ''HOME'' of
                  Some p \<Rightarrow> path_join (path_join (path_join p ''.cache'') ''provium'') ''fixtures''
                | None \<Rightarrow> ''/tmp/provium-fixtures'')))"

text \<open>\<open>std::str::from_utf8\<close>, up to whether it succeeds.\<close>

definition is_cont :: "nat \<Rightarrow> bool" where
  "is_cont b = (128 \<le> b \<and> b \<le> 191)"

fun utf8_ok :: "nat list \<Rightarrow> bool" where
  "utf8_ok [] = True"
| "utf8_ok (a # s) =
     (if a < 128 then utf8_ok s
      else (case s of
              [] \<Rightarrow> False
            | b # s2 \<Rightarrow>
                if 194 \<le> a \<and> a \<le> 223 then is_cont b \<and> utf8_ok s2
                else (case s2 of
                        [] \<Rightarrow> False
                      | c # s3 \<Rightarrow>
                          if 224 \<le> a \<and> a \<le> 239
                          then is_cont b \<and> (a = 224 \<longrightarrow> 160 \<le> b) \<and> (a = 237 \<longrightarrow> b \<le> 159) \<and> is_cont c \<and> utf8_ok s3
                          else (case s3 of
                                  [] \<Rightarrow> False
                                | d # s4 \<Rightarrow>
                                    240 \<le> a \<and> a \<le> 244 \<and> is_cont b \<and> (a = 240 \<longrightarrow> 144 \<le> b) \<and> (a = 244 \<longrightarrow> b \<le> 143)
                                    \<and> is_cont c \<and> is_cont d \<and> utf8_ok s4))))"

definition source_text :: "string \<Rightarrow> string" where
  "source_text source = (if utf8_ok (map byte_of source) then source else [])"

section \<open>The key\<close>

definition SNAPSHOT_LAYOUT_VERSION :: u32 where "SNAPSHOT_LAYOUT_VERSION = 1"

text \<open>\<open>to_le_bytes\<close>.\<close>

fun le_text :: "nat \<Rightarrow> nat \<Rightarrow> string" where
  "le_text 0 v = []"
| "le_text (Suc n) v = char_of v # le_text n (v div 256)"

text \<open>The bytes that the hasher is fed, in order.\<close>

definition header_text :: string where
  "header_text = ''|protocol='' @ le_text 4 (unat PROTOCOL_VERSION) @ ''|qemu-layout='' @ le_text 4 (unat SNAPSHOT_LAYOUT_VERSION)"

definition fold_path :: "fixture_fs \<Rightarrow> string \<Rightarrow> string \<Rightarrow> string" where
  "fold_path fs label path =
     ''|'' @ label @ ''='' @ path
     @ (case ff_meta fs path of
          None \<Rightarrow> []
        | Some m \<Rightarrow> ''@'' @ le_text 8 (unat (fm_len m))
                   @ (case fm_mtime_ns m of None \<Rightarrow> [] | Some ns \<Rightarrow> '':'' @ le_text 16 ns))"

definition key_text :: "string \<Rightarrow> string list \<Rightarrow> string" where
  "key_text source dep_keys = source @ header_text @ concat (map (\<lambda>k. ''|dep='' @ k) dep_keys)"

definition compute_key_with_deps_kernels_and_externals ::
  "(string \<Rightarrow> string) \<Rightarrow> fixture_fs \<Rightarrow> string \<Rightarrow> string list \<Rightarrow> string list \<Rightarrow> string list \<Rightarrow> string list \<Rightarrow> string" where
  "compute_key_with_deps_kernels_and_externals sha fs source dep_keys kernels initrds externals =
     sha (key_text source dep_keys @ concat (map (fold_path fs ''kernel'') kernels)
          @ concat (map (fold_path fs ''initrd'') initrds) @ concat (map (fold_path fs ''external'') externals))"

definition compute_key_with_deps :: "(string \<Rightarrow> string) \<Rightarrow> string \<Rightarrow> string list \<Rightarrow> string" where
  "compute_key_with_deps sha source dep_keys = sha (key_text source dep_keys)"

lemma compute_key_no_paths:
  "compute_key_with_deps_kernels_and_externals sha fs source dep_keys [] [] [] = compute_key_with_deps sha source dep_keys"
  by (simp add: compute_key_with_deps_kernels_and_externals_def compute_key_with_deps_def)

definition canonical_profile_paths_all :: "config \<Rightarrow> string list \<times> string list" where
  "canonical_profile_paths_all cfg =
     (map (\<lambda>(_, p). pf_kernel p) (cf_profiles cfg), map (\<lambda>(_, p). pf_initrd p) (cf_profiles cfg))"

section \<open>References\<close>

definition locate_fixture :: "fixture_fs \<Rightarrow> string list \<Rightarrow> string \<Rightarrow> fixture_error + string" where
  "locate_fixture fs roots name =
     (let candidates = map (\<lambda>root. path_join root (name @ ''.fixture.lua'')) (if roots = [] then [ff_cwd fs] else roots)
      in case find (ff_is_file fs) candidates of Some p \<Rightarrow> Inr p | None \<Rightarrow> Inl (FixtureNotFound name))"

definition locate_helper :: "fixture_fs \<Rightarrow> string list \<Rightarrow> string \<Rightarrow> string option" where
  "locate_helper fs roots module =
     (let rel = replace_str ''.'' ''/'' module
      in find (ff_is_file fs)
           (concat (map (\<lambda>root. [path_join root (rel @ ''.lua''), path_join (path_join root rel) ''init.lua'']) roots)))"

text \<open>What a source refers to, in the order in which the walk goes: fixtures first, then helper modules.\<close>

datatype dep_ref = FixtureRef string | RequireRef string

definition dep_refs :: "string \<Rightarrow> dep_ref list" where
  "dep_refs source = map FixtureRef (scan_fixture_deps (source_text source)) @ map RequireRef (scan_require_deps (source_text source))"

fun dep_marker :: "dep_ref \<Rightarrow> string" where
  "dep_marker (FixtureRef dep) = dep"
| "dep_marker (RequireRef module) = ''require::'' @ module"

fun dep_path :: "fixture_fs \<Rightarrow> string list \<Rightarrow> dep_ref \<Rightarrow> string option" where
  "dep_path fs roots (FixtureRef dep) = (case locate_fixture fs roots dep of Inl _ \<Rightarrow> None | Inr p \<Rightarrow> Some p)"
| "dep_path fs roots (RequireRef module) = locate_helper fs roots module"

fun ext_marker :: "dep_ref \<Rightarrow> string" where
  "ext_marker (FixtureRef dep) = ''ext::fixture::'' @ dep"
| "ext_marker (RequireRef module) = ''ext::require::'' @ module"

text \<open>The file that a reference leads to, with its source; \<open>None\<close> where the loops go on to the next reference.\<close>

definition dep_file :: "fixture_fs \<Rightarrow> string list \<Rightarrow> dep_ref \<Rightarrow> (string \<times> string) option" where
  "dep_file fs roots r =
     (case dep_path fs roots r of
        None \<Rightarrow> None
      | Some p \<Rightarrow> (case read_fixture_source fs p of Inl _ \<Rightarrow> None | Inr s \<Rightarrow> Some (p, s)))"

text \<open>
  The loops over the references of one source, which \<open>resolve_dep_keys\<close> and
  \<open>collect_external_deps\<close> share. \<open>node\<close> makes the result for one reference from its path and
  source and the results for what that refers to; \<open>seen\<close> is threaded through all calls.
  The depth is how far the calls may nest.
\<close>

fun resolve_refs ::
  "(string \<Rightarrow> string \<Rightarrow> 'k list \<Rightarrow> 'k) \<Rightarrow> (dep_ref \<Rightarrow> string) \<Rightarrow> (dep_ref \<Rightarrow> (string \<times> string) option)
     \<Rightarrow> nat \<Rightarrow> dep_ref list \<Rightarrow> string list \<Rightarrow> ('k list \<times> string list) option" where
  "resolve_refs node marker lkp 0 rs seen = None"
| "resolve_refs node marker lkp (Suc depth) [] seen = Some ([], seen)"
| "resolve_refs node marker lkp (Suc depth) (r # rs) seen =
     (if marker r \<in> set seen then resolve_refs node marker lkp (Suc depth) rs seen
      else
        (let seen = seen @ [marker r]
         in case lkp r of
              None \<Rightarrow> resolve_refs node marker lkp (Suc depth) rs seen
            | Some (path, source) \<Rightarrow>
                (case resolve_refs node marker lkp depth (dep_refs source) seen of
                   None \<Rightarrow> None
                 | Some (nested, seen) \<Rightarrow>
                     map_option (\<lambda>(ks, seen). (node path source nested # ks, seen)) (resolve_refs node marker lkp (Suc depth) rs seen))))"

definition resolve_dep_keys ::
  "(string \<Rightarrow> string) \<Rightarrow> nat \<Rightarrow> fixture_fs \<Rightarrow> string list \<Rightarrow> string \<Rightarrow> string list \<Rightarrow> (string list \<times> string list) option" where
  "resolve_dep_keys sha depth fs roots source seen =
     resolve_refs (\<lambda>_. compute_key_with_deps sha) dep_marker (dep_file fs roots) depth (dep_refs source) seen"

section \<open>Host files\<close>

definition source_dir :: "string \<Rightarrow> string" where
  "source_dir path = (case path_parent path of Some d \<Rightarrow> d | None \<Rightarrow> ''.'')"

definition own_externals :: "fixture_fs \<Rightarrow> string \<Rightarrow> string \<Rightarrow> string list" where
  "own_externals fs path source =
     map (\<lambda>raw. let p = (if is_absolute raw then raw else path_join (source_dir path) raw)
                in case ff_canonical fs p of Some c \<Rightarrow> c | None \<Rightarrow> p)
       (scan_external_file_deps (source_text source))"

definition collect_external_deps :: "nat \<Rightarrow> fixture_fs \<Rightarrow> string list \<Rightarrow> string \<Rightarrow> string \<Rightarrow> string list option" where
  "collect_external_deps depth fs roots path source =
     map_option (\<lambda>(outs, _). own_externals fs path source @ concat outs)
       (resolve_refs (\<lambda>p s nested. own_externals fs p s @ concat nested) ext_marker (dep_file fs roots) depth (dep_refs source) [])"

text \<open>The stable removal of duplicates.\<close>

fun dedupe :: "string list \<Rightarrow> string list \<Rightarrow> string list" where
  "dedupe kept [] = kept"
| "dedupe kept (p # ps) = dedupe (if p \<in> set kept then kept else kept @ [p]) ps"

definition resolve_external_deps :: "nat \<Rightarrow> fixture_fs \<Rightarrow> string list \<Rightarrow> string \<Rightarrow> string \<Rightarrow> string list option" where
  "resolve_external_deps depth fs roots path source = map_option (dedupe []) (collect_external_deps depth fs roots path source)"

text \<open>The key as \<open>build_or_resume_fixture\<close> and the command line compute it.\<close>

definition fixture_key :: "(string \<Rightarrow> string) \<Rightarrow> nat \<Rightarrow> fixture_fs \<Rightarrow> config \<Rightarrow> string list \<Rightarrow> string \<Rightarrow> string \<Rightarrow> string option" where
  "fixture_key sha depth fs cfg roots path source =
     (case (resolve_dep_keys sha depth fs roots source [], resolve_external_deps depth fs roots path source) of
        (Some (dep_keys, _), Some externals) \<Rightarrow>
          (let (kernels, initrds) = canonical_profile_paths_all cfg
           in Some (compute_key_with_deps_kernels_and_externals sha fs source dep_keys kernels initrds externals))
      | _ \<Rightarrow> None)"

section \<open>What the walk visits\<close>

text \<open>The references that a source leads to, through files that can be read.\<close>

inductive leads_to :: "(dep_ref \<Rightarrow> (string \<times> string) option) \<Rightarrow> dep_ref list \<Rightarrow> dep_ref \<Rightarrow> bool" for lkp rs where
  direct: "r \<in> set rs \<Longrightarrow> leads_to lkp rs r"
| onward: "leads_to lkp rs q \<Longrightarrow> lkp q = Some (p, s) \<Longrightarrow> r \<in> set (dep_refs s) \<Longrightarrow> leads_to lkp rs r"

definition closed_refs :: "(dep_ref \<Rightarrow> (string \<times> string) option) \<Rightarrow> dep_ref set \<Rightarrow> bool" where
  "closed_refs lkp R = (\<forall>r\<in>R. \<forall>p s. lkp r = Some (p, s) \<longrightarrow> set (dep_refs s) \<subseteq> R)"

lemma leads_to_closed: "closed_refs lkp {r. leads_to lkp rs r}"
  by (auto simp: closed_refs_def intro: onward)

text \<open>Enough depth: one more than the markers that are not seen yet.\<close>

lemma resolve_returns:
  "closed_refs lkp R \<Longrightarrow> finite R \<Longrightarrow> set rs \<subseteq> R \<Longrightarrow> card (marker ` R - set seen) < depth
    \<Longrightarrow> \<exists>ks seen'. resolve_refs node marker lkp depth rs seen = Some (ks, seen') \<and> set seen \<subseteq> set seen'"
proof (induction node marker lkp depth rs seen rule: resolve_refs.induct)
  case (3 node marker lkp depth r rs seen)
  note R = 3(5,6)
  have rs: "r \<in> R" "set rs \<subseteq> R" using 3(7) by simp_all
  show ?case
  proof (cases "marker r \<in> set seen")
    case True
    then show ?thesis using 3(1) [OF True R rs(2) 3(8)] by simp
  next
    case False
    let ?seen = "seen @ [marker r]"
    have less: "card (marker ` R - set ?seen) < card (marker ` R - set seen)"
      by (rule psubset_card_mono) (use False rs R in auto)
    show ?thesis
    proof (cases "lkp r")
      case None
      then show ?thesis using 3(2) [OF False refl None R rs(2)] 3(8) less False by auto
    next
      case (Some ps)
      obtain p s where ps: "ps = (p, s)" by force
      have sub: "set (dep_refs s) \<subseteq> R" using R(1) rs(1) Some ps by (auto simp: closed_refs_def)
      obtain nested seen1 where n: "resolve_refs node marker lkp depth (dep_refs s) ?seen = Some (nested, seen1)" "set ?seen \<subseteq> set seen1"
        using 3(3) [OF False refl Some ps [symmetric] R sub] less 3(8) by auto
      have "card (marker ` R - set seen1) \<le> card (marker ` R - set ?seen)"
        by (rule card_mono) (use R n(2) in auto)
      then have "card (marker ` R - set seen1) < Suc depth" using less 3(8) by simp
      then obtain ks seen2 where "resolve_refs node marker lkp (Suc depth) rs seen1 = Some (ks, seen2)" "set seen1 \<subseteq> set seen2"
        using 3(4) [OF False refl Some ps [symmetric] n(1) refl R rs(2)] by blast
      then show ?thesis using n False Some ps by simp blast
    qed
  qed
qed auto

text \<open>The walk is the same whatever it makes of the sources.\<close>

lemma resolve_hom:
  "\<forall>p s ks. h (node p s ks) = node' p s (map h ks)
    \<Longrightarrow> resolve_refs node' marker lkp depth rs seen = map_option (\<lambda>(ks, seen). (map h ks, seen)) (resolve_refs node marker lkp depth rs seen)"
proof (induction node marker lkp depth rs seen rule: resolve_refs.induct)
  case (3 node marker lkp depth r rs seen)
  then show ?case by (auto simp: Let_def option.map_comp comp_def case_prod_beta split: option.splits)
qed auto

text \<open>The files that a walk has read, and what it makes sure of: the references it leaves behind are seen or in progress.\<close>

definition file_node :: "string \<Rightarrow> string \<Rightarrow> (string \<times> string) set list \<Rightarrow> (string \<times> string) set" where
  "file_node p s nested = insert (p, s) (\<Union> (set nested))"

text \<open>From the markers \<open>S\<close> to \<open>T\<close>: the files of the new ones are in \<open>F\<close>, and their references are in \<open>T\<close>.\<close>

definition covers :: "(dep_ref \<Rightarrow> string) \<Rightarrow> (dep_ref \<Rightarrow> (string \<times> string) option) \<Rightarrow> dep_ref set \<Rightarrow> string set \<Rightarrow> string set \<Rightarrow> (string \<times> string) set \<Rightarrow> bool" where
  "covers marker lkp R S T F =
     (S \<subseteq> T \<and> (\<forall>r\<in>R. marker r \<in> T \<longrightarrow> marker r \<notin> S \<longrightarrow> (\<forall>p s. lkp r = Some (p, s) \<longrightarrow> (p, s) \<in> F \<and> marker ` set (dep_refs s) \<subseteq> T))
      \<and> (\<forall>f\<in>F. \<exists>r\<in>R. lkp r = Some f))"

lemma covers_refl: "covers marker lkp R S S {}"
  by (simp add: covers_def)

lemma covers_file:
  "covers marker lkp R S T F \<Longrightarrow> r \<in> R \<Longrightarrow> marker r \<in> T \<Longrightarrow> marker r \<notin> S \<Longrightarrow> lkp r = Some (p, s)
    \<Longrightarrow> (p, s) \<in> F \<and> marker ` set (dep_refs s) \<subseteq> T"
  unfolding covers_def by blast

lemma covers_subset: "covers marker lkp R S T F \<Longrightarrow> S \<subseteq> T"
  unfolding covers_def by blast

lemma covers_trans:
  assumes "covers marker lkp R S T F" and "covers marker lkp R T U G"
  shows "covers marker lkp R S U (F \<union> G)"
  unfolding covers_def
proof (intro conjI ballI impI allI)
  show "S \<subseteq> U" using assms by (auto simp: covers_def)
next
  fix r p s
  assume r: "r \<in> R" "marker r \<in> U" "marker r \<notin> S" "lkp r = Some (p, s)"
  show "(p, s) \<in> F \<union> G" "marker ` set (dep_refs s) \<subseteq> U"
    using covers_file [OF assms(1) r(1) _ r(3,4)] covers_file [OF assms(2) r(1,2) _ r(4)] covers_subset [OF assms(2)]
    by (cases "marker r \<in> T"; simp; blast)+
next
  fix f
  assume "f \<in> F \<union> G"
  then show "\<exists>r\<in>R. lkp r = Some f" using assms by (auto simp: covers_def)
qed

lemma covers_push:
  assumes inj: "inj_on marker R" "r \<in> R" and cov: "covers marker lkp R (insert (marker r) S) T F"
    and here: "\<And>p s. lkp r = Some (p, s) \<Longrightarrow> marker ` set (dep_refs s) \<subseteq> T"
  shows "covers marker lkp R S T (F \<union> set_option (lkp r))"
  unfolding covers_def
proof (intro conjI ballI impI allI)
  show "S \<subseteq> T" using cov by (auto simp: covers_def)
next
  fix q p s
  assume q: "q \<in> R" "marker q \<in> T" "marker q \<notin> S" "lkp q = Some (p, s)"
  have "q = r \<or> marker q \<notin> insert (marker r) S" using q inj by (auto dest: inj_onD)
  then show "(p, s) \<in> F \<union> set_option (lkp r)" "marker ` set (dep_refs s) \<subseteq> T"
    using covers_file [OF cov q(1,2) _ q(4)] here q(4) by (elim disjE; simp)+
next
  fix f
  assume "f \<in> F \<union> set_option (lkp r)"
  then show "\<exists>r\<in>R. lkp r = Some f" using cov inj(2) by (auto simp: covers_def)
qed

lemma walk_visits:
  "closed_refs lkp R \<Longrightarrow> inj_on marker R \<Longrightarrow> set rs \<subseteq> R \<Longrightarrow> resolve_refs file_node marker lkp depth rs seen = Some (fss, seen')
    \<Longrightarrow> marker ` set rs \<subseteq> set seen' \<and> covers marker lkp R (set seen) (set seen') (\<Union> (set fss))"
proof (induction "file_node" marker lkp depth rs seen arbitrary: fss seen' rule: resolve_refs.induct)
  case (3 marker lkp depth r rs seen)
  note R = 3(5,6)
  have rs: "r \<in> R" "set rs \<subseteq> R" using 3(7) by simp_all
  show ?case
  proof (cases "marker r \<in> set seen")
    case True
    then have "resolve_refs file_node marker lkp (Suc depth) rs seen = Some (fss, seen')" using 3(8) by simp
    from 3(1) [OF True R rs(2) this] show ?thesis using True by (auto simp: covers_def)
  next
    case False
    let ?seen = "seen @ [marker r]"
    show ?thesis
    proof (cases "lkp r")
      case None
      then have "resolve_refs file_node marker lkp (Suc depth) rs ?seen = Some (fss, seen')" using 3(8) False by simp
      note rest = 3(2) [OF False refl None R rs(2) this]
      then have "covers marker lkp R (set seen) (set seen') (\<Union> (set fss) \<union> set_option (lkp r))"
        using None by (intro covers_push [OF R(2) rs(1)]) simp_all
      moreover have "marker r \<in> set seen'" using rest by (auto simp: covers_def)
      ultimately show ?thesis using rest None by simp
    next
      case (Some ps)
      obtain p s where ps: "ps = (p, s)" by force
      have sub: "set (dep_refs s) \<subseteq> R" using R(1) rs(1) Some ps by (auto simp: closed_refs_def)
      obtain nested seen1 ks where n: "resolve_refs file_node marker lkp depth (dep_refs s) ?seen = Some (nested, seen1)"
        and k: "resolve_refs file_node marker lkp (Suc depth) rs seen1 = Some (ks, seen')" "fss = file_node p s nested # ks"
        using 3(8) False Some ps by (auto simp: Let_def split: option.splits)
      note one = 3(3) [OF False refl Some ps [symmetric] R sub n]
      note two = 3(4) [OF False refl Some ps [symmetric] n refl R rs(2) k(1)]
      have "covers marker lkp R (set seen) (set seen1) (\<Union> (set nested) \<union> set_option (lkp r))"
        using one Some ps by (intro covers_push [OF R(2) rs(1)]) simp_all
      from covers_trans [OF this conjunct2 [OF two]]
      have "covers marker lkp R (set seen) (set seen') (\<Union> (set fss))" using k(2) Some ps by (simp add: file_node_def Un_ac)
      moreover have "marker r \<in> set seen'" using one two by (auto simp: covers_def)
      ultimately show ?thesis using two by simp
    qed
  qed
qed (auto simp: covers_refl)

lemma walk_reads_all:
  assumes inj: "inj_on marker {r. leads_to lkp rs r}" and w: "resolve_refs file_node marker lkp depth rs [] = Some (fss, seen')"
  shows "\<Union> (set fss) = {f. \<exists>r. leads_to lkp rs r \<and> lkp r = Some f}"
proof -
  let ?R = "{r. leads_to lkp rs r}"
  have sub: "set rs \<subseteq> ?R" by (auto intro: direct)
  note vis = walk_visits [OF leads_to_closed inj sub w]
  have seen: "marker r \<in> set seen'" if "leads_to lkp rs r" for r
    using that
  proof (induction rule: leads_to.induct)
    case (onward q p s r)
    then show ?case using covers_file [OF conjunct2 [OF vis], of q p s] by auto
  qed (use vis in auto)
  show ?thesis
  proof (intro equalityI subsetI)
    fix f assume "f \<in> {f. \<exists>r. leads_to lkp rs r \<and> lkp r = Some f}"
    then show "f \<in> \<Union> (set fss)" using seen covers_file [OF conjunct2 [OF vis]] by (cases f) auto
  qed (use vis in \<open>auto simp: covers_def\<close>)
qed

end
