(* ===== verification/Fixture_Deps.thy ===== *)
theory Fixture_Deps
  imports Fixture_Key
begin

text \<open>
  What the key of a fixture depends on: the text that is hashed can be taken apart again,
  so that two fixtures with the same key, and no collision among the texts hashed for
  them, have the same source and the same sources in everything they refer to.
\<close>

section \<open>Taking the hashed text apart\<close>

text \<open>A bar that is followed by a \<open>p\<close>, as in the header only.\<close>

fun has_bar_p :: "string \<Rightarrow> bool" where
  "has_bar_p [] = False"
| "has_bar_p (a # s) = (a = CHR ''|'' \<and> s \<noteq> [] \<and> hd s = CHR ''p'' \<or> has_bar_p s)"

lemma has_bar_p_append:
  "has_bar_p (xs @ ys) \<longleftrightarrow> has_bar_p xs \<or> has_bar_p ys \<or> xs \<noteq> [] \<and> last xs = CHR ''|'' \<and> ys \<noteq> [] \<and> hd ys = CHR ''p''"
  by (induction xs) (auto simp: hd_append)

lemma no_bar_no_bar_p: "CHR ''|'' \<notin> set s \<Longrightarrow> \<not> has_bar_p s"
  by (induction s) auto

definition deps_text :: "string list \<Rightarrow> string" where
  "deps_text ks = concat (map (\<lambda>k. ''|dep='' @ k) ks)"

lemma deps_text_simps [simp]: "deps_text [] = []" "deps_text (k # ks) = ''|dep='' @ k @ deps_text ks"
  by (simp_all add: deps_text_def)

lemma deps_no_bar_p: "\<forall>k\<in>set ks. CHR ''|'' \<notin> set k \<Longrightarrow> \<not> has_bar_p (deps_text ks)"
proof (induction ks)
  case (Cons k ks)
  have "deps_text ks = [] \<or> hd (deps_text ks) = CHR ''|''" by (cases ks) simp_all
  then show ?case using Cons by (auto simp: has_bar_p_append no_bar_no_bar_p)
qed simp

lemma header_parts:
  "\<exists>t. header_text = CHR ''|'' # CHR ''p'' # t \<and> \<not> has_bar_p (CHR ''p'' # t) \<and> last (CHR ''p'' # t) \<noteq> CHR ''|''"
proof -
  have "header_text = CHR ''|'' # CHR ''p'' # drop 2 header_text" by code_simp
  moreover have "\<not> has_bar_p (CHR ''p'' # drop 2 header_text)" "last (CHR ''p'' # drop 2 header_text) \<noteq> CHR ''|''" by code_simp+
  ultimately show ?thesis by blast
qed

lemma deps_text_inj:
  "\<forall>k\<in>set ks \<union> set ks'. CHR ''|'' \<notin> set k \<Longrightarrow> deps_text ks = deps_text ks' \<Longrightarrow> ks = ks'"
proof (induction ks arbitrary: ks')
  case Nil
  then show ?case by (cases ks') simp_all
next
  case (Cons k ks)
  then obtain k' ks2 where ks': "ks' = k' # ks2" by (cases ks') simp_all
  have start: "takeWhile (\<lambda>c. c \<noteq> CHR ''|'') (deps_text xs) = []" for xs by (cases xs) simp_all
  have stop: "takeWhile (\<lambda>c. c \<noteq> CHR ''|'') (x @ deps_text xs) = x" if "CHR ''|'' \<notin> set x" for x xs
    using that by (subst takeWhile_append2) (auto simp: start)
  have eq: "k @ deps_text ks = k' @ deps_text ks2" using Cons.prems(2) ks' by simp
  then have "k = k'" using stop [of k ks] stop [of k' ks2] Cons.prems(1) ks' by simp
  then show ?case using Cons.IH [of ks2] Cons.prems(1) ks' eq by simp
qed

lemma key_text_inj:
  assumes plain: "\<forall>k\<in>set ks \<union> set ks'. CHR ''|'' \<notin> set k" and eq: "key_text s ks @ t = key_text s' ks' @ t"
  shows "s = s' \<and> ks = ks'"
proof -
  have shorter: "u = []" if sh: "x @ u @ header_text @ deps_text js = x @ header_text @ deps_text ls" "\<forall>k\<in>set ls. CHR ''|'' \<notin> set k" for x u js ls
  proof (rule ccontr)
    assume "u \<noteq> []"
    then obtain c v where u: "u = c # v" by (cases u) auto
    obtain h where h: "header_text = CHR ''|'' # CHR ''p'' # h" "\<not> has_bar_p (CHR ''p'' # h)" "last (CHR ''p'' # h) \<noteq> CHR ''|''"
      using header_parts by blast
    have "c # (v @ header_text @ deps_text js) = CHR ''|'' # (CHR ''p'' # h) @ deps_text ls" using sh(1) u h(1) by (metis append_Cons same_append_eq)
    then have "v @ header_text @ deps_text js = (CHR ''p'' # h) @ deps_text ls" by simp
    moreover have "has_bar_p (v @ header_text @ deps_text js)" unfolding has_bar_p_append h(1) by simp
    moreover have "\<not> has_bar_p ((CHR ''p'' # h) @ deps_text ls)"
      unfolding has_bar_p_append using h(2,3) deps_no_bar_p [OF sh(2)] by simp
    ultimately show False by simp
  qed
  have same: "s @ header_text @ deps_text ks = s' @ header_text @ deps_text ks'" using eq by (simp add: key_text_def deps_text_def)
  then consider (left) u where "s' = s @ u" "header_text @ deps_text ks = u @ header_text @ deps_text ks'"
    | (right) u where "s = s' @ u" "header_text @ deps_text ks' = u @ header_text @ deps_text ks"
    using append_eq_append_conv2 [of s "header_text @ deps_text ks" s' "header_text @ deps_text ks'"] by metis
  then have "s = s'"
  proof cases
    case left
    then show ?thesis using shorter [of s u ks' ks] plain by simp
  next
    case right
    then show ?thesis using shorter [of s' u ks ks'] plain by simp
  qed
  then show ?thesis using same deps_text_inj [OF plain] by simp
qed

section \<open>Trees of sources\<close>

datatype src_tree = Src string "src_tree list"

fun tree_key :: "(string \<Rightarrow> string) \<Rightarrow> src_tree \<Rightarrow> string" where
  "tree_key sha (Src s ts) = compute_key_with_deps sha s (map (tree_key sha) ts)"

text \<open>The texts that are hashed for a tree.\<close>

fun tree_texts :: "(string \<Rightarrow> string) \<Rightarrow> src_tree \<Rightarrow> string set" where
  "tree_texts sha (Src s ts) = insert (key_text s (map (tree_key sha) ts)) (\<Union> (set (map (tree_texts sha) ts)))"

lemma tree_key_inj:
  assumes sha: "\<And>x. CHR ''|'' \<notin> set (sha x)" and inj: "inj_on sha X"
  shows "tree_texts sha t \<subseteq> X \<Longrightarrow> tree_texts sha t' \<subseteq> X \<Longrightarrow> tree_key sha t = tree_key sha t' \<Longrightarrow> t = t'"
proof (induction t arbitrary: t')
  case (Src s ts)
  obtain s' ts' where t': "t' = Src s' ts'" by (cases t')
  have plain: "CHR ''|'' \<notin> set (tree_key sha u)" for u by (cases u) (simp add: compute_key_with_deps_def sha)
  have "key_text s (map (tree_key sha) ts) = key_text s' (map (tree_key sha) ts')"
    using Src.prems t' inj by (auto simp: compute_key_with_deps_def dest: inj_onD)
  then have eq: "s = s'" "map (tree_key sha) ts = map (tree_key sha) ts'"
    using key_text_inj [of "map (tree_key sha) ts" "map (tree_key sha) ts'" s "[]" s'] plain by auto
  have "ts = ts'"
  proof (rule nth_equalityI)
    show len: "length ts = length ts'" using eq(2) by (metis length_map)
    fix i assume i: "i < length ts"
    have "tree_key sha (ts ! i) = tree_key sha (ts' ! i)" using eq(2) i len by (metis nth_map)
    moreover have "tree_texts sha (ts ! i) \<subseteq> X" "tree_texts sha (ts' ! i) \<subseteq> X" using Src.prems(1,2) t' i len by (simp_all add: SUP_le_iff)
    ultimately show "ts ! i = ts' ! i" using Src.IH [of "ts ! i" "ts' ! i"] i by simp
  qed
  then show ?case using eq(1) t' by simp
qed

text \<open>Two file systems in which the same references can be read, and a walk with the same outcome in both.\<close>

definition src_node :: "string \<Rightarrow> string \<Rightarrow> src_tree list \<Rightarrow> src_tree" where
  "src_node p = Src"

lemma same_walk:
  "closed_refs lkp R \<Longrightarrow> inj_on marker R \<Longrightarrow> set rs \<subseteq> R \<Longrightarrow> (\<forall>r. (lkp r = None) = (lkp' r = None))
    \<Longrightarrow> resolve_refs src_node marker lkp depth rs seen = Some (ts, seen1) \<Longrightarrow> resolve_refs src_node marker lkp' depth' rs seen = Some (ts, seen2)
    \<Longrightarrow> seen1 = seen2 \<and> (\<forall>r\<in>R. marker r \<in> set seen1 \<longrightarrow> marker r \<notin> set seen \<longrightarrow> map_option snd (lkp r) = map_option snd (lkp' r))"
proof (induction src_node marker lkp depth rs seen arbitrary: ts seen1 seen2 depth' rule: resolve_refs.induct)
  case (2 marker lkp depth seen)
  then show ?case by (cases depth') auto
next
  case (3 marker lkp depth r rs seen)
  note R = 3(5,6) and same = 3(8)
  have rs: "r \<in> R" "set rs \<subseteq> R" using 3(7) by simp_all
  obtain d where d: "depth' = Suc d" using 3(10) by (cases depth') auto
  show ?case
  proof (cases "marker r \<in> set seen")
    case True
    then show ?thesis using 3(1) [OF True R rs(2) same] 3(9,10) d by simp
  next
    case False
    let ?seen = "seen @ [marker r]"
    have only: "marker q \<in> set ?seen \<Longrightarrow> marker q \<notin> set seen \<Longrightarrow> q \<in> R \<Longrightarrow> q = r" for q using R(2) rs(1) by (auto dest: inj_onD)
    show ?thesis
    proof (cases "lkp r")
      case None
      then have none: "lkp' r = None" using same by blast
      have "seen1 = seen2 \<and> (\<forall>r\<in>R. marker r \<in> set seen1 \<longrightarrow> marker r \<notin> set ?seen \<longrightarrow> map_option snd (lkp r) = map_option snd (lkp' r))"
        using 3(2) [OF False refl None R rs(2) same, of ts seen1 "Suc d" seen2] 3(9,10) False None none d by simp
      then show ?thesis using only None none by metis
    next
      case (Some ps)
      then obtain ps' where some: "lkp' r = Some ps'" using same by (metis not_None_eq)
      obtain p s p' s' where ps: "ps = (p, s)" "ps' = (p', s')" by force
      have sub: "set (dep_refs s) \<subseteq> R" using R(1) rs(1) Some ps by (auto simp: closed_refs_def)
      obtain nested mid ks where n: "resolve_refs src_node marker lkp depth (dep_refs s) ?seen = Some (nested, mid)"
        "resolve_refs src_node marker lkp (Suc depth) rs mid = Some (ks, seen1)" "ts = Src s nested # ks"
        using 3(9) False Some ps by (auto simp: Let_def src_node_def split: option.splits)
      obtain nested' mid' ks' where n': "resolve_refs src_node marker lkp' d (dep_refs s') ?seen = Some (nested', mid')"
        "resolve_refs src_node marker lkp' (Suc d) rs mid' = Some (ks', seen2)" "ts = Src s' nested' # ks'"
        using 3(10) False some ps d by (auto simp: Let_def src_node_def split: option.splits)
      have eq: "s' = s" "nested' = nested" "ks' = ks" using n(3) n'(3) by simp_all
      have one: "mid = mid' \<and> (\<forall>r\<in>R. marker r \<in> set mid \<longrightarrow> marker r \<notin> set ?seen \<longrightarrow> map_option snd (lkp r) = map_option snd (lkp' r))"
        using 3(3) [OF False refl Some ps(1) [symmetric] R sub same n(1)] n'(1) unfolding eq by blast
      have two: "seen1 = seen2 \<and> (\<forall>r\<in>R. marker r \<in> set seen1 \<longrightarrow> marker r \<notin> set mid \<longrightarrow> map_option snd (lkp r) = map_option snd (lkp' r))"
        using 3(4) [OF False refl Some ps(1) [symmetric] n(1) refl R rs(2) same n(2)] n'(2) one unfolding eq by blast
      show ?thesis using one two only Some some ps eq(1) by (metis option.map_sel option.sel option.simps(9) snd_conv)
    qed
  qed
qed auto

section \<open>Edits and keys\<close>

definition hashed_texts :: "(string \<Rightarrow> string) \<Rightarrow> nat \<Rightarrow> fixture_fs \<Rightarrow> string list \<Rightarrow> string \<Rightarrow> string set" where
  "hashed_texts sha depth fs roots source =
     (case resolve_refs src_node dep_marker (dep_file fs roots) depth (dep_refs source) [] of
        None \<Rightarrow> {}
      | Some (ts, _) \<Rightarrow> \<Union> (set (map (tree_texts sha) ts)))"

definition top_text :: "fixture_fs \<Rightarrow> string \<Rightarrow> string list \<Rightarrow> string list \<Rightarrow> string list \<Rightarrow> string list \<Rightarrow> string" where
  "top_text fs source dep_keys kernels initrds externals =
     key_text source dep_keys @ concat (map (fold_path fs ''kernel'') kernels) @ concat (map (fold_path fs ''initrd'') initrds)
       @ concat (map (fold_path fs ''external'') externals)"

lemma dep_keys_of_trees:
  assumes "resolve_dep_keys sha depth fs roots source [] = Some (ks, seen)"
  obtains ts where "resolve_refs src_node dep_marker (dep_file fs roots) depth (dep_refs source) [] = Some (ts, seen)" "ks = map (tree_key sha) ts"
proof -
  have "resolve_dep_keys sha depth fs roots source []
      = map_option (\<lambda>(ts, seen). (map (tree_key sha) ts, seen)) (resolve_refs src_node dep_marker (dep_file fs roots) depth (dep_refs source) [])"
    unfolding resolve_dep_keys_def by (rule resolve_hom) (simp add: src_node_def)
  then show thesis using assms that by (cases "resolve_refs src_node dep_marker (dep_file fs roots) depth (dep_refs source) []") auto
qed

text \<open>The walk with all markers seen at its end.\<close>

lemma walk_sees_all:
  assumes inj: "inj_on marker {r. leads_to lkp rs r}" and w: "resolve_refs node marker lkp depth rs [] = Some (ks, seen)" and r: "leads_to lkp rs r"
  shows "marker r \<in> set seen"
proof -
  have w0: "resolve_refs (\<lambda>_ _ _. ()) marker lkp depth rs [] = map_option (\<lambda>(ks, seen). (map (\<lambda>_. ()) ks, seen)) (resolve_refs node' marker lkp depth rs [])"
    for node' :: "string \<Rightarrow> string \<Rightarrow> 'x list \<Rightarrow> 'x" by (rule resolve_hom) simp
  obtain fss where f: "resolve_refs file_node marker lkp depth rs [] = Some (fss, seen)"
    using w0 [of node] w0 [of file_node] w by (cases "resolve_refs file_node marker lkp depth rs []") auto
  have "set rs \<subseteq> {r. leads_to lkp rs r}" by (auto intro: direct)
  note vis = walk_visits [OF leads_to_closed inj this f]
  show ?thesis using r
  proof (induction rule: leads_to.induct)
    case (onward q p s r)
    then show ?case using covers_file [OF conjunct2 [OF vis], of q p s] by auto
  qed (use vis in auto)
qed


definition demo_fs :: "string \<Rightarrow> fixture_fs" where
  "demo_fs base =
     \<lparr>ff_is_file = (\<lambda>p. p = ''t/base.fixture.lua''),
      ff_bytes = (\<lambda>p. if p = ''t/base.fixture.lua'' then Inr base else Inl HostIo),
      ff_meta = (\<lambda>_. None), ff_canonical = (\<lambda>_. None), ff_cwd = ''.''\<rparr>"

definition demo_source :: string where
  "demo_source = ''vm_fixture('' @ [SQUOTE] @ ''base'' @ [SQUOTE] @ '')''"

text \<open>A hash for the example: the text with its bars replaced.\<close>

definition demo_sha :: "string \<Rightarrow> string" where
  "demo_sha = map (\<lambda>c. if c = CHR ''|'' then CHR ''!'' else c)"

text \<open>The same files, seen from another working directory.\<close>

definition demo_moved :: fixture_fs where
  "demo_moved = (demo_fs ''return 1'')\<lparr>ff_cwd := ''/home''\<rparr>"

lemma demo_source_refs: "dep_refs demo_source = [FixtureRef ''base'']" "dep_refs ''return 1'' = []"
  by code_simp+

lemma demo_same_file: "dep_file demo_moved [''t''] = dep_file (demo_fs ''return 1'') [''t'']"
proof
  fix r
  show "dep_file demo_moved [''t''] r = dep_file (demo_fs ''return 1'') [''t''] r"
    by (cases r) (simp_all add: dep_file_def locate_fixture_def locate_helper_def demo_moved_def demo_fs_def read_fixture_source_def Let_def split: option.split)
qed

lemma demo_file: "dep_file (demo_fs base) [''t''] (FixtureRef ''base'') = Some (''t/base.fixture.lua'', base)"
  by (simp add: dep_file_def locate_fixture_def demo_fs_def path_join_def is_absolute_def starts_with_def read_fixture_source_def)

lemma demo_leads_to: "leads_to (dep_file (demo_fs ''return 1'') [''t'']) (dep_refs demo_source) r \<Longrightarrow> r = FixtureRef ''base''"
  by (induction rule: leads_to.induct) (auto simp: demo_source_refs demo_file)

lemma demo_walk:
  "resolve_refs node dep_marker (dep_file (demo_fs ''return 1'') [''t'']) 2 (dep_refs demo_source) [] = Some ([node ''t/base.fixture.lua'' ''return 1'' []], [''base''])"
  by (simp add: demo_source_refs demo_file numeral_2_eq_2)

lemmas demo_keys = demo_walk [of "\<lambda>_. compute_key_with_deps demo_sha", folded resolve_dep_keys_def]


section \<open>Host files\<close>

lemma ext_marker_inj: "inj_on ext_marker R"
proof (rule inj_onI)
  fix a b assume "ext_marker a = ext_marker b"
  then show "a = b" by (cases a; cases b) simp_all
qed

lemma dedupe_props: "distinct kept \<Longrightarrow> distinct (dedupe kept ps) \<and> set (dedupe kept ps) = set kept \<union> set ps"
  by (induction kept ps rule: dedupe.induct) auto

text \<open>
  C37: The walks over references end, and no host file is forgotten. When the references lead
  to finitely many others, every depth above their number is enough for both walks, also
  when fixtures refer to each other in a circle. The host files that then go into the key
  are, each once, exactly those named by the fixture itself and by every fixture and
  module that it leads to, resolved against the directory of the file that names them.
\<close>

theorem external_deps_complete:
  assumes fin: "finite {r. leads_to (dep_file fs roots) (dep_refs source) r}"
    and deep: "card {r. leads_to (dep_file fs roots) (dep_refs source) r} < depth"
  shows "(\<exists>ks seen. resolve_dep_keys sha depth fs roots source [] = Some (ks, seen))
    \<and> (\<exists>out. resolve_external_deps depth fs roots path source = Some out \<and> distinct out
         \<and> set out = set (own_externals fs path source)
             \<union> \<Union> {set (own_externals fs p s) | r p s. leads_to (dep_file fs roots) (dep_refs source) r \<and> dep_file fs roots r = Some (p, s)})"
proof -
  let ?R = "{r. leads_to (dep_file fs roots) (dep_refs source) r}" and ?lkp = "dep_file fs roots"
  have sub: "set (dep_refs source) \<subseteq> ?R" by (auto intro: direct)
  have small: "card (m ` ?R - set []) < depth" for m :: "dep_ref \<Rightarrow> string" using card_image_le [OF fin, of m] deep by simp
  have ends: "\<exists>ks seen. resolve_refs node m ?lkp depth (dep_refs source) [] = Some (ks, seen)" for node :: "string \<Rightarrow> string \<Rightarrow> 'x list \<Rightarrow> 'x" and m
    using resolve_returns [OF leads_to_closed fin sub small] by blast
  obtain fss seen where f: "resolve_refs file_node ext_marker ?lkp depth (dep_refs source) [] = Some (fss, seen)" using ends by blast
  let ?node = "\<lambda>p s nested. own_externals fs p s @ concat nested"
  let ?set = "\<lambda>p s nested. set (own_externals fs p s) \<union> \<Union> (set nested)"
  obtain outs seen2 where o: "resolve_refs ?node ext_marker ?lkp depth (dep_refs source) [] = Some (outs, seen2)" using ends [of ?node ext_marker] by blast
  have "resolve_refs ?set ext_marker ?lkp depth (dep_refs source) [] = map_option (\<lambda>(ks, seen). (map set ks, seen)) (resolve_refs ?node ext_marker ?lkp depth (dep_refs source) [])"
    by (rule resolve_hom) auto
  moreover have "resolve_refs ?set ext_marker ?lkp depth (dep_refs source) []
      = map_option (\<lambda>(ks, seen). (map (\<lambda>F. \<Union>(p, s)\<in>F. set (own_externals fs p s)) ks, seen)) (resolve_refs file_node ext_marker ?lkp depth (dep_refs source) [])"
    by (rule resolve_hom) (auto simp: file_node_def)
  ultimately have maps: "map set outs = map (\<lambda>F. \<Union>(p, s)\<in>F. set (own_externals fs p s)) fss" using f o by simp
  have "set (concat outs) = \<Union> (set (map set outs))" by simp
  also have "\<dots> = (\<Union>(p, s)\<in>\<Union> (set fss). set (own_externals fs p s))" unfolding maps by auto
  also have "\<Union> (set fss) = {f. \<exists>r. leads_to ?lkp (dep_refs source) r \<and> ?lkp r = Some f}" by (rule walk_reads_all [OF ext_marker_inj f])
  finally have all: "set (concat outs) = \<Union> {set (own_externals fs p s) | r p s. leads_to ?lkp (dep_refs source) r \<and> ?lkp r = Some (p, s)}" by auto
  have "resolve_external_deps depth fs roots path source = Some (dedupe [] (own_externals fs path source @ concat outs))"
    using o by (simp add: resolve_external_deps_def collect_external_deps_def)
  then show ?thesis using ends dedupe_props [of "[]" "own_externals fs path source @ concat outs"] all unfolding resolve_dep_keys_def by simp
qed

theorem external_deps_complete_witness:
  "\<exists>out. resolve_external_deps 2 (demo_fs ''return 1'') [''t''] ''t/a.fixture.lua'' demo_source = Some out \<and> distinct out"
proof -
  have sub: "{r. leads_to (dep_file (demo_fs ''return 1'') [''t'']) (dep_refs demo_source) r} \<subseteq> {FixtureRef ''base''}"
    using demo_leads_to by blast
  have fin: "finite {r. leads_to (dep_file (demo_fs ''return 1'') [''t'']) (dep_refs demo_source) r}" by (rule finite_subset [OF sub]) simp
  have "card {r. leads_to (dep_file (demo_fs ''return 1'') [''t'']) (dep_refs demo_source) r} < 2" using card_mono [OF _ sub] by simp
  from external_deps_complete [OF fin this] show ?thesis by blast
qed

end
