(* ===== verification/Fixture_Cache.thy ===== *)
theory Fixture_Cache
  imports Fixture_Key "HOL-Library.Multiset"
begin

text \<open>
  The directory of cached fixtures: the eviction of the entries used longest ago
  (\<open>evict_to\<close> in \<open>fixture.rs\<close>), and building or resuming one entry under its lock file by
  any number of processes (\<open>build_or_resume_fixture\<close> and \<open>build_or_resume_lab_fixture\<close> in
  \<open>lua/lab_ud.rs\<close>). Shown: what an eviction removes, that one process at a time builds as
  long as nobody removes the lock file, and that evicting a corrupt entry breaks this.
\<close>

section \<open>Entries\<close>

text \<open>\<open>Path::with_extension\<close> on a path whose last component is a file name.\<close>

definition with_extension :: "string \<Rightarrow> string \<Rightarrow> string" where
  "with_extension path ext =
     (let name = rev (takeWhile (\<lambda>c. c \<noteq> CHR ''/'') (rev path));
          dir = take (length path - length name) path;
          stem = rev (tl (dropWhile (\<lambda>c. c \<noteq> CHR ''.'') (rev name)))
      in dir @ (if stem = [] then name else stem) @ ''.'' @ ext)"

record cache_entry_paths =
  ce_snapshot :: string
  ce_lock :: string

definition for_key :: "string \<Rightarrow> string \<Rightarrow> cache_entry_paths" where
  "for_key cache_dir key =
     (let stem = path_join cache_dir key in \<lparr>ce_snapshot = with_extension stem ''snap'', ce_lock = with_extension stem ''lock''\<rparr>)"

section \<open>Eviction\<close>

text \<open>An item of the directory: its metadata, if they can be read, and the sizes of the files in it, if it is a directory.\<close>

record dirent =
  de_path :: string
  de_meta :: "(bool \<times> u64 \<times> nat option) option"
  de_inner :: "u64 option list"

record eviction_entry =
  ee_path :: string
  ee_size :: u64
  ee_atime :: nat

record eviction_report =
  er_evicted_count :: u64
  er_evicted_bytes :: u64
  er_kept_bytes :: u64

definition ends_with :: "string \<Rightarrow> string \<Rightarrow> bool" where
  "ends_with suffix s = starts_with (rev suffix) (rev s)"

definition file_name :: "string \<Rightarrow> string" where
  "file_name path = rev (takeWhile (\<lambda>c. c \<noteq> CHR ''/'') (rev path))"

text \<open>\<open>Path::extension\<close> is \<open>snap\<close>: a name that is only the extension has none.\<close>

definition is_snap :: "string \<Rightarrow> bool" where
  "is_snap path = (ends_with ''.snap'' (file_name path) \<and> file_name path \<noteq> ''.snap'')"

definition inner_size :: "u64 option list \<Rightarrow> u64" where
  "inner_size ls = fold (\<lambda>l s. case l of None \<Rightarrow> s | Some n \<Rightarrow> sat_add s n) ls 0"

fun entry_of :: "dirent \<Rightarrow> eviction_entry option" where
  "entry_of d =
     (case de_meta d of
        None \<Rightarrow> None
      | Some (is_dir, len, accessed) \<Rightarrow>
          (let is_lab = (is_dir \<and> ends_with ''.lab'' (file_name (de_path d)))
           in if \<not> is_lab \<and> \<not> is_snap (de_path d) then None
              else Some \<lparr>ee_path = de_path d, ee_size = (if is_lab then inner_size (de_inner d) else len),
                         ee_atime = (case accessed of Some t \<Rightarrow> t | None \<Rightarrow> 0)\<rparr>))"

text \<open>\<open>removed\<close> says which removals succeed; the removed entries are returned with the report.\<close>

fun evict_loop :: "(string \<Rightarrow> bool) \<Rightarrow> u64 \<Rightarrow> eviction_entry list \<Rightarrow> eviction_report \<Rightarrow> eviction_entry list \<times> eviction_report" where
  "evict_loop removable max_bytes [] rep = ([], rep)"
| "evict_loop removable max_bytes (e # es) rep =
     (if er_kept_bytes rep \<le> max_bytes then ([], rep)
      else if \<not> removable (ee_path e) then evict_loop removable max_bytes es rep
      else (case evict_loop removable max_bytes es
                   \<lparr>er_evicted_count = er_evicted_count rep + 1, er_evicted_bytes = er_evicted_bytes rep + ee_size e,
                    er_kept_bytes = sat_sub (er_kept_bytes rep) (ee_size e)\<rparr> of
              (gone, rep) \<Rightarrow> (e # gone, rep)))"

definition evict_to :: "(string \<Rightarrow> bool) \<Rightarrow> io_error + dirent list \<Rightarrow> bool \<Rightarrow> u64 \<Rightarrow> io_error + eviction_entry list \<times> eviction_report" where
  "evict_to removable listing dir_exists max_bytes =
     (if \<not> dir_exists then Inr ([], \<lparr>er_evicted_count = 0, er_evicted_bytes = 0, er_kept_bytes = 0\<rparr>)
      else (case listing of
              Inl e \<Rightarrow> Inl e
            | Inr ds \<Rightarrow>
                (let entries = List.map_filter entry_of ds;
                     total = sum_list (map ee_size entries);
                     rep = \<lparr>er_evicted_count = 0, er_evicted_bytes = 0, er_kept_bytes = total\<rparr>
                 in if total \<le> max_bytes then Inr ([], rep)
                    else Inr (evict_loop removable max_bytes (sort_key ee_atime entries) rep))))"

definition lock_of_entry :: "bool \<Rightarrow> string \<Rightarrow> string" where
  "lock_of_entry is_lab_dir path = (if is_lab_dir then path @ ''.lock'' else with_extension path ''lock'')"

definition entry_bytes :: "eviction_entry list \<Rightarrow> nat" where
  "entry_bytes es = sum_list (map (\<lambda>e. unat (ee_size e)) es)"

text \<open>The loop stops after some prefix of the entries; in it, everything that can be removed is.\<close>

lemma evict_loop_spec:
  "evict_loop removable max_bytes es rep = (gone, rep') \<Longrightarrow> entry_bytes es \<le> unat (er_kept_bytes rep)
    \<Longrightarrow> unat (er_evicted_bytes rep) + unat (er_kept_bytes rep) < 2 ^ 64
    \<Longrightarrow> \<exists>k. gone = filter (\<lambda>e. removable (ee_path e)) (take k es) \<and> (er_kept_bytes rep' \<le> max_bytes \<or> length es \<le> k)
      \<and> unat (er_kept_bytes rep') + entry_bytes gone = unat (er_kept_bytes rep)
      \<and> unat (er_evicted_bytes rep') = unat (er_evicted_bytes rep) + entry_bytes gone
      \<and> (\<forall>pre e post. gone = pre @ e # post \<longrightarrow> unat max_bytes + entry_bytes pre < unat (er_kept_bytes rep))"
proof (induction removable max_bytes es rep arbitrary: gone rep' rule: evict_loop.induct)
  case (1 removable max_bytes rep)
  then show ?case by (auto simp: entry_bytes_def)
next
  case (2 removable max_bytes e es rep)
  show ?case
  proof (cases "er_kept_bytes rep \<le> max_bytes")
    case True
    then show ?thesis using 2(3) by (intro exI [of _ 0]) (auto simp: entry_bytes_def)
  next
    case over: False
    show ?thesis
    proof (cases "removable (ee_path e)")
      case False
      have "entry_bytes es \<le> unat (er_kept_bytes rep)" using 2(4) by (simp add: entry_bytes_def)
      from 2(1) [OF over False _ this 2(5), of gone rep'] 2(3) over False obtain k
        where k: "gone = filter (\<lambda>e. removable (ee_path e)) (take k es)" "er_kept_bytes rep' \<le> max_bytes \<or> length es \<le> k"
          "unat (er_kept_bytes rep') + entry_bytes gone = unat (er_kept_bytes rep)"
          "unat (er_evicted_bytes rep') = unat (er_evicted_bytes rep) + entry_bytes gone"
          "\<forall>pre e post. gone = pre @ e # post \<longrightarrow> unat max_bytes + entry_bytes pre < unat (er_kept_bytes rep)" by auto
      then show ?thesis using False by (intro exI [of _ "Suc k"]) simp
    next
      case True
      let ?rep = "\<lparr>er_evicted_count = er_evicted_count rep + 1, er_evicted_bytes = er_evicted_bytes rep + ee_size e, er_kept_bytes = sat_sub (er_kept_bytes rep) (ee_size e)\<rparr>"
      have le: "unat (ee_size e) + entry_bytes es \<le> unat (er_kept_bytes rep)" using 2(4) by (simp add: entry_bytes_def)
      obtain rest where r: "evict_loop removable max_bytes es ?rep = (rest, rep')" "gone = e # rest"
        using 2(3) over True by (auto split: prod.splits)
      have kept: "unat (er_kept_bytes ?rep) = unat (er_kept_bytes rep) - unat (ee_size e)" by (simp add: unat_sat_sub)
      have evicted: "unat (er_evicted_bytes ?rep) = unat (er_evicted_bytes rep) + unat (ee_size e)"
        using le 2(5) by (simp add: unat_word_ariths)
      have room: "entry_bytes es \<le> unat (er_kept_bytes ?rep)" "unat (er_evicted_bytes ?rep) + unat (er_kept_bytes ?rep) < 2 ^ 64"
        using le kept evicted 2(5) by linarith+
      obtain k where k: "rest = filter (\<lambda>e. removable (ee_path e)) (take k es)" "er_kept_bytes rep' \<le> max_bytes \<or> length es \<le> k"
          "unat (er_kept_bytes rep') + entry_bytes rest = unat (er_kept_bytes ?rep)"
          "unat (er_evicted_bytes rep') = unat (er_evicted_bytes ?rep) + entry_bytes rest"
          "\<forall>pre e post. rest = pre @ e # post \<longrightarrow> unat max_bytes + entry_bytes pre < unat (er_kept_bytes ?rep)"
        using 2(2) [OF over _ r(1) room] True by auto
      have last: "unat max_bytes + entry_bytes pre < unat (er_kept_bytes rep)" if "gone = pre @ x # post" for pre x post
      proof (cases pre)
        case Nil
        then show ?thesis using over by (simp add: entry_bytes_def word_le_nat_alt)
      next
        case (Cons a pre')
        then have "a = e" "rest = pre' @ x # post" using that r(2) by simp_all
        moreover from this have "unat max_bytes + entry_bytes pre' < unat (er_kept_bytes rep) - unat (ee_size e)" using k(5) kept by metis
        ultimately show ?thesis using Cons by (simp add: entry_bytes_def)
      qed
      have "entry_bytes gone = unat (ee_size e) + entry_bytes rest" using r(2) by (simp add: entry_bytes_def)
      then show ?thesis using k r(2) True le kept evicted last by (intro exI [of _ "Suc k"]) simp
    qed
  qed
qed

lemma unat_total: "entry_bytes es < 2 ^ 64 \<Longrightarrow> unat (sum_list (map ee_size es)) = entry_bytes es"
proof (induction es)
  case (Cons e es)
  have "entry_bytes (e # es) = unat (ee_size e) + entry_bytes es" by (simp add: entry_bytes_def)
  then show ?case using Cons by (simp add: unat_word_ariths)
qed (simp add: entry_bytes_def)

lemma entry_bytes_sort: "entry_bytes (sort_key f es) = entry_bytes es"
proof -
  have "entry_bytes es = sum_mset (image_mset (\<lambda>e. unat (ee_size e)) (mset es))" for es by (induction es) (simp_all add: entry_bytes_def)
  then show ?thesis by simp
qed

text \<open>
  C31: An eviction frees what it must, oldest first. When the entries of the directory take
  less than \<open>2 ^ 64\<close> bytes and could all be removed, then afterwards the entries that stay
  take at most the budget, every entry that went was used no later than every entry that
  stays, the last one that went was still necessary, and the report adds up.
\<close>

theorem eviction_frees_oldest:
  assumes fits: "entry_bytes (List.map_filter entry_of ds) < 2 ^ 64"
    and run: "evict_to (\<lambda>_. True) (Inr ds) True max_bytes = Inr (gone, rep)"
  shows "\<exists>kept. mset (List.map_filter entry_of ds) = mset gone + mset kept \<and> entry_bytes kept \<le> unat max_bytes
    \<and> unat (er_kept_bytes rep) = entry_bytes kept \<and> unat (er_evicted_bytes rep) = entry_bytes gone
    \<and> (\<forall>e\<in>set gone. \<forall>f\<in>set kept. ee_atime e \<le> ee_atime f)
    \<and> (gone \<noteq> [] \<longrightarrow> unat max_bytes < entry_bytes (last gone # kept))"
proof -
  let ?es = "List.map_filter entry_of ds" and ?sorted = "sort_key ee_atime (List.map_filter entry_of ds)"
  let ?rep = "\<lparr>er_evicted_count = 0, er_evicted_bytes = 0, er_kept_bytes = sum_list (map ee_size ?es)\<rparr>"
  have tot: "unat (er_kept_bytes ?rep) = entry_bytes ?es" using unat_total [OF fits] by simp
  show ?thesis
  proof (cases "sum_list (map ee_size ?es) \<le> max_bytes")
    case True
    then have "gone = []" "rep = ?rep" using run by (simp_all add: evict_to_def Let_def)
    moreover have "entry_bytes ?es \<le> unat max_bytes" using True tot by (simp add: word_le_nat_alt)
    ultimately show ?thesis using tot by (intro exI [of _ ?es]) (simp add: entry_bytes_def)
  next
    case False
    then have loop: "evict_loop (\<lambda>_. True) max_bytes ?sorted ?rep = (gone, rep)" using run by (simp add: evict_to_def Let_def)
    obtain k where k: "gone = take k ?sorted" "er_kept_bytes rep \<le> max_bytes \<or> length ?sorted \<le> k"
      "unat (er_kept_bytes rep) + entry_bytes gone = entry_bytes ?es" "unat (er_evicted_bytes rep) = entry_bytes gone"
      "\<forall>pre e post. gone = pre @ e # post \<longrightarrow> unat max_bytes + entry_bytes pre < entry_bytes ?es"
      using evict_loop_spec [OF loop] fits tot by (auto simp: entry_bytes_sort)
    let ?kept = "drop k ?sorted"
    have parts: "mset ?es = mset gone + mset ?kept" using k(1) by (metis append_take_drop_id mset_append mset_sort)
    have sizes: "entry_bytes ?es = entry_bytes gone + entry_bytes ?kept"
      using k(1) entry_bytes_sort [of ee_atime ?es] by (metis append_take_drop_id entry_bytes_def map_append sum_list_append)
    have bytes: "unat (er_kept_bytes rep) = entry_bytes ?kept" using k(3) sizes by simp
    moreover have "entry_bytes ?kept \<le> unat max_bytes" using k(2) bytes by (auto simp: word_le_nat_alt entry_bytes_def)
    moreover have "ee_atime e \<le> ee_atime f" if "e \<in> set gone" "f \<in> set ?kept" for e f
    proof -
      have "sorted (map ee_atime (gone @ ?kept))" using k(1) by (simp add: sorted_sort_key del: map_append)
      then show ?thesis using that by (simp add: sorted_append)
    qed
    moreover have "unat max_bytes < entry_bytes (last gone # ?kept)" if "gone \<noteq> []"
    proof -
      have g: "gone = butlast gone @ [last gone]" using that by simp
      then have "unat max_bytes + entry_bytes (butlast gone) < entry_bytes ?es" using k(5) by blast
      moreover have "entry_bytes gone = entry_bytes (butlast gone) + unat (ee_size (last gone))" by (subst g) (simp add: entry_bytes_def)
      ultimately show ?thesis using sizes by (simp add: entry_bytes_def)
    qed
    ultimately show ?thesis using parts k(4) by blast
  qed
qed

definition demo_snap :: "string \<Rightarrow> u64 \<Rightarrow> nat \<Rightarrow> dirent" where
  "demo_snap p n t = \<lparr>de_path = p, de_meta = Some (False, n, Some t), de_inner = []\<rparr>"

theorem eviction_frees_oldest_witness:
  "\<exists>kept. mset (List.map_filter entry_of [demo_snap ''c/a.snap'' 6 9, demo_snap ''c/b.snap'' 5 2])
     = {#\<lparr>ee_path = ''c/b.snap'', ee_size = 5, ee_atime = 2\<rparr>#} + mset kept \<and> entry_bytes kept \<le> 10"
proof -
  let ?ds = "[demo_snap ''c/a.snap'' 6 9, demo_snap ''c/b.snap'' 5 2]"
  have es: "List.map_filter entry_of ?ds = [\<lparr>ee_path = ''c/a.snap'', ee_size = 6, ee_atime = 9\<rparr>, \<lparr>ee_path = ''c/b.snap'', ee_size = 5, ee_atime = 2\<rparr>]"
    by code_simp
  have small: "entry_bytes (List.map_filter entry_of ?ds) < 2 ^ 64" unfolding es by (simp add: entry_bytes_def)
  have "evict_to (\<lambda>_. True) (Inr ?ds) True 10
      = Inr ([\<lparr>ee_path = ''c/b.snap'', ee_size = 5, ee_atime = 2\<rparr>], \<lparr>er_evicted_count = 1, er_evicted_bytes = 5, er_kept_bytes = 6\<rparr>)"
    unfolding evict_to_def sum.case es by (simp add: Let_def sat_sub_def)
  from eviction_frees_oldest [OF small this] show ?thesis by auto
qed

section \<open>Building under the lock\<close>

text \<open>
  One entry of the cache and the processes that ask for it. The lock is taken on the inode
  that the lock file has when it is opened; removing the file does not touch locks that
  are held on its inode, and opening it again makes a new one. A process that finds the
  entry corrupt goes on with \<open>corrupt\<close> set, in the version for whole labs.
\<close>

datatype fixture_pc =
    Asked
  | Trying
  | EvictingSnapshot
  | EvictingLock
  | Opening bool
  | Locking bool nat
  | Holding bool nat
  | Rechecking nat
  | Building nat
  | Restoring nat
  | Finished bool

record 'x cache_sys =
  cs_snapshot :: "'x option"
  cs_lock_file :: "nat option"
  cs_inodes :: nat
  cs_holder :: "nat \<Rightarrow> nat option"
  cs_pc :: "nat \<Rightarrow> fixture_pc"
  cs_installs :: nat

definition cache_sys_new :: "'x option \<Rightarrow> 'x cache_sys" where
  "cache_sys_new snap =
     \<lparr>cs_snapshot = snap, cs_lock_file = None, cs_inodes = 0, cs_holder = (\<lambda>_. None), cs_pc = (\<lambda>_. Asked), cs_installs = 0\<rparr>"

definition goto :: "nat \<Rightarrow> fixture_pc \<Rightarrow> 'x cache_sys \<Rightarrow> 'x cache_sys" where
  "goto p pc s = s\<lparr>cs_pc := (cs_pc s)(p := pc)\<rparr>"

text \<open>\<open>acquire_build_lock_observed_notify\<close>: open the lock file, creating it if there is none, then \<open>flock\<close>.\<close>

definition open_lock :: "'x cache_sys \<Rightarrow> nat \<times> 'x cache_sys" where
  "open_lock s =
     (case cs_lock_file s of
        Some i \<Rightarrow> (i, s)
      | None \<Rightarrow> (cs_inodes s, s\<lparr>cs_lock_file := Some (cs_inodes s), cs_inodes := cs_inodes s + 1\<rparr>))"

definition take_lock :: "nat \<Rightarrow> nat \<Rightarrow> 'x cache_sys \<Rightarrow> 'x cache_sys" where
  "take_lock p i s = s\<lparr>cs_holder := (cs_holder s)(i := Some p)\<rparr>"

definition drop_lock :: "nat \<Rightarrow> 'x cache_sys \<Rightarrow> 'x cache_sys" where
  "drop_lock i s = s\<lparr>cs_holder := (cs_holder s)(i := None)\<rparr>"

text \<open>
  The steps. \<open>lab\<close> tells the version for whole labs from the one for single machines, and
  \<open>good\<close> which snapshots can be restored. What a build returns is arbitrary; it is
  installed by a rename.
\<close>

inductive fixture_step :: "bool \<Rightarrow> ('x \<Rightarrow> bool) \<Rightarrow> 'x cache_sys \<Rightarrow> 'x cache_sys \<Rightarrow> bool" for lab good where
  look_hit: "cs_pc s p = Asked \<Longrightarrow> cs_snapshot s \<noteq> None \<Longrightarrow> fixture_step lab good s (goto p Trying s)"
| look_miss: "cs_pc s p = Asked \<Longrightarrow> cs_snapshot s = None \<Longrightarrow> fixture_step lab good s (goto p (Opening False) s)"
| try_ok: "cs_pc s p = Trying \<Longrightarrow> cs_snapshot s = Some x \<Longrightarrow> good x \<Longrightarrow> fixture_step lab good s (goto p (Finished True) s)"
| try_bad: "cs_pc s p = Trying \<Longrightarrow> \<not> (\<exists>x. cs_snapshot s = Some x \<and> good x)
    \<Longrightarrow> fixture_step lab good s (goto p (if lab then Opening True else EvictingSnapshot) s)"
| evict_snapshot: "cs_pc s p = EvictingSnapshot \<Longrightarrow> fixture_step lab good s (goto p EvictingLock (s\<lparr>cs_snapshot := None\<rparr>))"
| evict_lock: "cs_pc s p = EvictingLock \<Longrightarrow> fixture_step lab good s (goto p (Opening False) (s\<lparr>cs_lock_file := None\<rparr>))"
| opens: "cs_pc s p = Opening corrupt \<Longrightarrow> open_lock s = (i, s') \<Longrightarrow> fixture_step lab good s (goto p (Locking corrupt i) s')"
| locks: "cs_pc s p = Locking corrupt i \<Longrightarrow> cs_holder s i = None \<Longrightarrow> fixture_step lab good s (goto p (Holding corrupt i) (take_lock p i s))"
| retry_ok: "cs_pc s p = Holding True i \<Longrightarrow> cs_snapshot s = Some x \<Longrightarrow> good x \<Longrightarrow> fixture_step lab good s (goto p (Finished True) (drop_lock i s))"
| retry_bad: "cs_pc s p = Holding True i \<Longrightarrow> \<not> (\<exists>x. cs_snapshot s = Some x \<and> good x)
    \<Longrightarrow> fixture_step lab good s (goto p (Rechecking i) (s\<lparr>cs_snapshot := None\<rparr>))"
| no_retry: "cs_pc s p = Holding False i \<Longrightarrow> fixture_step lab good s (goto p (Rechecking i) s)"
| recheck_miss: "cs_pc s p = Rechecking i \<Longrightarrow> cs_snapshot s = None \<Longrightarrow> fixture_step lab good s (goto p (Building i) s)"
| recheck_hit: "cs_pc s p = Rechecking i \<Longrightarrow> cs_snapshot s \<noteq> None \<Longrightarrow> fixture_step lab good s (goto p (Restoring i) s)"
| build_fails: "cs_pc s p = Building i \<Longrightarrow> fixture_step lab good s (goto p (Finished False) (drop_lock i s))"
| installs: "cs_pc s p = Building i \<Longrightarrow> fixture_step lab good s (goto p (Restoring i) (s\<lparr>cs_snapshot := Some x, cs_installs := cs_installs s + 1\<rparr>))"
| restores: "cs_pc s p = Restoring i \<Longrightarrow> fixture_step lab good s (goto p (Finished (\<exists>x. cs_snapshot s = Some x \<and> good x)) (drop_lock i s))"

definition vm_fixture_step :: "('x \<Rightarrow> bool) \<Rightarrow> 'x cache_sys \<Rightarrow> 'x cache_sys \<Rightarrow> bool" where
  "vm_fixture_step = fixture_step False"

definition lab_fixture_step :: "('x \<Rightarrow> bool) \<Rightarrow> 'x cache_sys \<Rightarrow> 'x cache_sys \<Rightarrow> bool" where
  "lab_fixture_step = fixture_step True"

text \<open>The inode that a process has locked.\<close>

fun locked_inode :: "fixture_pc \<Rightarrow> nat option" where
  "locked_inode (Holding c i) = Some i"
| "locked_inode (Rechecking i) = Some i"
| "locked_inode (Building i) = Some i"
| "locked_inode (Restoring i) = Some i"
| "locked_inode _ = None"

text \<open>Every process that has opened the lock file has the inode that the file still has, and a lock is held by whom it says.\<close>

definition lock_ok :: "'x cache_sys \<Rightarrow> bool" where
  "lock_ok s =
     ((\<forall>p c i. cs_pc s p = Locking c i \<longrightarrow> cs_lock_file s = Some i)
      \<and> (\<forall>p i. locked_inode (cs_pc s p) = Some i \<longrightarrow> cs_lock_file s = Some i \<and> cs_holder s i = Some p)
      \<and> (\<forall>p. cs_pc s p \<noteq> EvictingLock \<and> cs_pc s p \<noteq> EvictingSnapshot))"

lemma lock_ok_new: "lock_ok (cache_sys_new snap)"
  by (simp add: lock_ok_def cache_sys_new_def)

text \<open>One install at most, when every snapshot can be restored.\<close>

definition build_ok :: "'x cache_sys \<Rightarrow> bool" where
  "build_ok s =
     ((\<forall>p. cs_pc s p = Trying \<longrightarrow> cs_snapshot s \<noteq> None) \<and> (\<forall>p i. cs_pc s p = Building i \<longrightarrow> cs_snapshot s = None)
      \<and> (\<forall>p i. cs_pc s p \<noteq> Holding True i \<and> cs_pc s p \<noteq> Locking True i) \<and> (\<forall>p. cs_pc s p \<noteq> Opening True)
      \<and> (\<forall>p i. cs_pc s p = Restoring i \<longrightarrow> cs_snapshot s \<noteq> None) \<and> (if cs_snapshot s = None then cs_installs s = 0 else cs_installs s \<le> 1))"

lemmas cache_defs = goto_def take_lock_def drop_lock_def

lemma lock_ok_unique: "lock_ok s \<Longrightarrow> locked_inode (cs_pc s p) = Some i \<Longrightarrow> locked_inode (cs_pc s q) = Some j \<Longrightarrow> p = q"
  unfolding lock_ok_def by (metis option.inject)

lemma lock_okI:
  assumes "\<And>p c i. cs_pc s p = Locking c i \<Longrightarrow> cs_lock_file s = Some i"
    and "\<And>p i. locked_inode (cs_pc s p) = Some i \<Longrightarrow> cs_lock_file s = Some i \<and> cs_holder s i = Some p"
    and "\<And>p. cs_pc s p \<noteq> EvictingLock \<and> cs_pc s p \<noteq> EvictingSnapshot"
  shows "lock_ok s"
  using assms by (auto simp: lock_ok_def)

text \<open>A step of one process that keeps its lock, if it has one, or gives it up.\<close>

lemma lock_ok_goto:
  fixes p new u
  defines "t \<equiv> goto p new u"
  assumes ok: "lock_ok s" and same: "cs_lock_file u = cs_lock_file s" "cs_pc u = cs_pc s"
    and new: "\<And>c i. new \<noteq> Locking c i" "new \<noteq> EvictingLock" "new \<noteq> EvictingSnapshot"
    and holder: "cs_holder u = cs_holder s \<and> (\<forall>i. locked_inode new = Some i \<longrightarrow> locked_inode (cs_pc s p) = Some i)
      \<or> (\<exists>i. locked_inode (cs_pc s p) = Some i \<and> cs_holder u = (cs_holder s)(i := None) \<and> locked_inode new = None)"
  shows "lock_ok (goto p new u)"
proof -
  have lockf: "cs_lock_file t = cs_lock_file s" and pc: "cs_pc t = (cs_pc s)(p := new)" and hold: "cs_holder t = cs_holder u"
    using same by (simp_all add: t_def goto_def)
  show ?thesis unfolding t_def [symmetric]
  proof (rule lock_okI)
  fix q c i assume "cs_pc t q = Locking c i"
  then show "cs_lock_file t = Some i" using ok lockf pc new(1) by (auto simp: lock_ok_def split: if_splits)
next
  fix q i assume q: "locked_inode (cs_pc t q) = Some i"
  show "cs_lock_file t = Some i \<and> cs_holder t i = Some q"
  proof (cases "q = p")
    case True
    then show ?thesis using ok lockf pc holder hold q by (auto simp: lock_ok_def)
  next
    case False
    then have "locked_inode (cs_pc s q) = Some i" using q pc by simp
    moreover from this have "\<not> (\<exists>j. locked_inode (cs_pc s p) = Some j)" using lock_ok_unique [OF ok] False by blast
    ultimately show ?thesis using ok lockf holder hold by (auto simp: lock_ok_def)
  qed
next
  fix q show "cs_pc t q \<noteq> EvictingLock \<and> cs_pc t q \<noteq> EvictingSnapshot" using ok pc new(2,3) by (auto simp: lock_ok_def)
  qed
qed

lemma lock_ok_step:
  assumes step: "fixture_step lab good s t" and ok: "lock_ok s"
    and sound: "lab \<or> (\<forall>x. good x) \<and> (\<forall>p. cs_pc s p = Trying \<longrightarrow> cs_snapshot s \<noteq> None)"
  shows "lock_ok t"
  using step
proof cases
  case (opens p corrupt i s')
  have lockf: "cs_lock_file t = Some i" "cs_holder t = cs_holder s" "cs_lock_file s \<noteq> None \<Longrightarrow> cs_lock_file s = Some i"
    using opens by (auto simp: open_lock_def goto_def split: option.splits)
  have pcs: "cs_pc t = (cs_pc s)(p := Locking corrupt i)" using opens by (auto simp: open_lock_def goto_def split: option.splits)
  show ?thesis
  proof (rule lock_okI)
    fix q c j assume "cs_pc t q = Locking c j"
    then show "cs_lock_file t = Some j" using ok lockf pcs by (auto simp: lock_ok_def split: if_splits)
  next
    fix q j assume "locked_inode (cs_pc t q) = Some j"
    then show "cs_lock_file t = Some j \<and> cs_holder t j = Some q" using ok lockf pcs by (auto simp: lock_ok_def split: if_splits)
  next
    fix q show "cs_pc t q \<noteq> EvictingLock \<and> cs_pc t q \<noteq> EvictingSnapshot" using ok pcs by (auto simp: lock_ok_def)
  qed
next
  case (locks p corrupt i)
  have lockf: "cs_lock_file s = Some i" using ok locks by (auto simp: lock_ok_def)
  show ?thesis
  proof (rule lock_okI)
    fix q c j assume "cs_pc t q = Locking c j"
    then have "cs_pc s q = Locking c j" using locks by (auto simp: cache_defs split: if_splits)
    then have "cs_lock_file s = Some j" using ok unfolding lock_ok_def by blast
    then show "cs_lock_file t = Some j" using locks by (simp add: cache_defs)
  next
    fix q j assume q: "locked_inode (cs_pc t q) = Some j"
    have "q = p" if "q \<noteq> p" using q that ok locks lockf by (force simp: lock_ok_def cache_defs)
    then show "cs_lock_file t = Some j \<and> cs_holder t j = Some q" using q locks lockf by (cases "q = p") (auto simp: cache_defs)
  next
    fix q show "cs_pc t q \<noteq> EvictingLock \<and> cs_pc t q \<noteq> EvictingSnapshot" using ok locks by (auto simp: lock_ok_def cache_defs)
  qed
next
  case (try_bad p)
  then have "lab" using sound by (metis not_None_eq)
  then show ?thesis using try_bad using lock_ok_goto [OF ok refl refl, of "Opening True" p] by simp
next
  case (evict_snapshot p)
  then show ?thesis using ok by (simp add: lock_ok_def)
next
  case (evict_lock p)
  then show ?thesis using ok by (simp add: lock_ok_def)
qed (hypsubst, rule lock_ok_goto [OF ok]; force simp: drop_lock_def)+

lemma build_ok_step:
  assumes step: "fixture_step lab good s t" and ok: "lock_ok s" "build_ok s" and good: "\<forall>x. good x"
  shows "build_ok t"
  using step
proof cases
  case (installs p i x)
  have "\<not> (\<exists>j. cs_pc s q = Building j)" if "q \<noteq> p" for q
    using lock_ok_unique [OF ok(1), of q _ p i] installs that by force
  then show ?thesis using ok(2) installs by (auto simp: build_ok_def cache_defs)
next
  case (opens p corrupt i s')
  then show ?thesis using ok(2) by (auto simp: build_ok_def open_lock_def goto_def split: option.splits)
next
  case (evict_snapshot p)
  then show ?thesis using ok(1) by (simp add: lock_ok_def)
next
  case (retry_bad p i)
  then show ?thesis using ok(2) by (simp add: build_ok_def)
qed (use ok(2) good in \<open>auto simp: build_ok_def cache_defs split: if_splits\<close>)

interpretation fixture_runs: step_invariant "fixture_step lab good"
  "\<lambda>s. lab \<or> (\<forall>x. good x) \<longrightarrow> lock_ok s \<and> ((\<forall>x. good x) \<longrightarrow> build_ok s)" for lab good
proof
  fix s t
  assume inv: "lab \<or> (\<forall>x. good x) \<longrightarrow> lock_ok s \<and> ((\<forall>x. good x) \<longrightarrow> build_ok s)" and step: "fixture_step lab good s t"
  show "lab \<or> (\<forall>x. good x) \<longrightarrow> lock_ok t \<and> ((\<forall>x. good x) \<longrightarrow> build_ok t)"
  proof
    assume sound: "lab \<or> (\<forall>x. good x)"
    then have "lab \<or> (\<forall>x. good x) \<and> (\<forall>p. cs_pc s p = Trying \<longrightarrow> cs_snapshot s \<noteq> None)" using inv by (auto simp: build_ok_def)
    then show "lock_ok t \<and> ((\<forall>x. good x) \<longrightarrow> build_ok t)"
      using lock_ok_step [OF step] build_ok_step [OF step] inv sound by blast
  qed
qed

interpretation fixture_resumes: step_invariant "fixture_step lab good"
  "\<lambda>s. (\<forall>x. good x) \<longrightarrow> lock_ok s \<and> build_ok s \<and> cs_installs s = 0 \<and> cs_snapshot s \<noteq> None" for lab good
proof
  fix s t
  assume inv: "(\<forall>x. good x) \<longrightarrow> lock_ok s \<and> build_ok s \<and> cs_installs s = 0 \<and> cs_snapshot s \<noteq> None" and step: "fixture_step lab good s t"
  show "(\<forall>x. good x) \<longrightarrow> lock_ok t \<and> build_ok t \<and> cs_installs t = 0 \<and> cs_snapshot t \<noteq> None"
  proof
    assume good: "\<forall>x. good x"
    then have ok: "lock_ok s" "build_ok s" "cs_installs s = 0" "cs_snapshot s \<noteq> None" using inv by blast+
    have "cs_installs t = 0 \<and> cs_snapshot t \<noteq> None"
      using step ok good by cases (auto simp: cache_defs open_lock_def build_ok_def lock_ok_def split: option.splits)
    moreover have "lock_ok t" using lock_ok_step [OF step ok(1)] ok(4) good by blast
    ultimately show "lock_ok t \<and> build_ok t \<and> cs_installs t = 0 \<and> cs_snapshot t \<noteq> None" using build_ok_step [OF step ok(1,2) good] by blast
  qed
qed


lemma reaches_trans: "reaches step t u \<Longrightarrow> reaches step s t \<Longrightarrow> reaches step s u"
  by (induction rule: reaches.induct) (auto intro: reaches_step)

lemmas fixture_reach = reaches_step [of "fixture_step lab good" for lab good] and fixture_stay = reaches_refl [of "fixture_step lab good" for lab good]

lemma goto_goto [simp]: "goto p b (goto p a s) = goto p b s"
  by (simp add: goto_def)

lemma goto_simps [simp]:
  "cs_pc (goto p pc s) = (cs_pc s)(p := pc)" "cs_snapshot (goto p pc s) = cs_snapshot s" "cs_lock_file (goto p pc s) = cs_lock_file s"
  "cs_inodes (goto p pc s) = cs_inodes s" "cs_holder (goto p pc s) = cs_holder s" "cs_installs (goto p pc s) = cs_installs s"
  by (simp_all add: goto_def)

text \<open>A process that finds no snapshot and no lock file gets to build under a lock file of its own.\<close>

lemma opens_and_builds:
  assumes pc: "cs_pc s p = Opening False" and none: "cs_snapshot s = None" "cs_lock_file s = None" "cs_holder s (cs_inodes s) = None"
  shows "reaches (fixture_step lab good) s
    (goto p (Building (cs_inodes s)) (take_lock p (cs_inodes s) (s\<lparr>cs_lock_file := Some (cs_inodes s), cs_inodes := cs_inodes s + 1\<rparr>)))"
proof -
  let ?n = "cs_inodes s"
  let ?s1 = "s\<lparr>cs_lock_file := Some ?n, cs_inodes := ?n + 1\<rparr>"
  have one: "fixture_step lab good s (goto p (Locking False ?n) ?s1)" by (rule opens [OF pc]) (simp add: open_lock_def none)
  have "fixture_step lab good (goto p (Locking False ?n) ?s1) (goto p (Holding False ?n) (take_lock p ?n (goto p (Locking False ?n) ?s1)))"
    by (rule locks) (simp_all add: none)
  moreover have "goto p (Holding False ?n) (take_lock p ?n (goto p (Locking False ?n) ?s1)) = goto p (Holding False ?n) (take_lock p ?n ?s1)"
    by (simp add: goto_def take_lock_def)
  ultimately have two: "fixture_step lab good (goto p (Locking False ?n) ?s1) (goto p (Holding False ?n) (take_lock p ?n ?s1))" by (simp only:)
  have three: "fixture_step lab good (goto p (Holding False ?n) (take_lock p ?n ?s1)) (goto p (Rechecking ?n) (take_lock p ?n ?s1))"
    using no_retry [of "goto p (Holding False ?n) (take_lock p ?n ?s1)" p ?n] by simp
  have four: "fixture_step lab good (goto p (Rechecking ?n) (take_lock p ?n ?s1)) (goto p (Building ?n) (take_lock p ?n ?s1))"
    using recheck_miss [of "goto p (Rechecking ?n) (take_lock p ?n ?s1)" p ?n] by (simp add: none take_lock_def)
  show ?thesis by (rule fixture_reach [OF fixture_reach [OF fixture_reach [OF fixture_reach [OF fixture_stay one] two] three] four])
qed

lemma evicts_and_builds:
  assumes pc: "cs_pc s p = Trying" and bad: "\<not> (\<exists>x. cs_snapshot s = Some x \<and> good x)" and free: "cs_holder s (cs_inodes s) = None"
  shows "reaches (fixture_step False good) s
    (goto p (Building (cs_inodes s)) (take_lock p (cs_inodes s)
       (s\<lparr>cs_snapshot := None, cs_lock_file := Some (cs_inodes s), cs_inodes := cs_inodes s + 1\<rparr>)))"
proof -
  let ?s1 = "goto p EvictingSnapshot s" let ?s2 = "goto p EvictingLock (?s1\<lparr>cs_snapshot := None\<rparr>)"
  let ?s3 = "goto p (Opening False) (?s2\<lparr>cs_lock_file := None\<rparr>)"
  have a: "fixture_step False good s ?s1" using try_bad [OF pc bad, of False] by simp
  have b: "fixture_step False good ?s1 ?s2" by (rule evict_snapshot) simp
  have c: "fixture_step False good ?s2 ?s3" by (rule evict_lock) simp
  have three: "reaches (fixture_step False good) s ?s3" by (rule fixture_reach [OF fixture_reach [OF fixture_reach [OF fixture_stay a] b] c])
  have "reaches (fixture_step False good) ?s3
    (goto p (Building (cs_inodes ?s3)) (take_lock p (cs_inodes ?s3) (?s3\<lparr>cs_lock_file := Some (cs_inodes ?s3), cs_inodes := cs_inodes ?s3 + 1\<rparr>)))"
    by (rule opens_and_builds) (simp_all add: free)
  from reaches_trans [OF this three] show ?thesis by (simp add: goto_def take_lock_def)
qed

definition demo_building :: "nat cache_sys" where
  "demo_building = goto 0 (Building 0) (take_lock 0 0 ((cache_sys_new None)\<lparr>cs_lock_file := Some 0, cs_inodes := 1\<rparr>))"

lemma demo_building_reached: "reaches (fixture_step False (\<lambda>_. True)) (cache_sys_new None) demo_building"
proof -
  let ?s = "goto 0 (Opening False) (cache_sys_new None) :: nat cache_sys"
  have "fixture_step False (\<lambda>_. True) (cache_sys_new None) ?s" by (rule look_miss) (simp_all add: cache_sys_new_def)
  then have first: "reaches (fixture_step False (\<lambda>_. True)) (cache_sys_new None) ?s" by (rule fixture_reach [OF fixture_stay])
  have "reaches (fixture_step False (\<lambda>_. True)) ?s (goto 0 (Building (cs_inodes ?s)) (take_lock 0 (cs_inodes ?s) (?s\<lparr>cs_lock_file := Some (cs_inodes ?s), cs_inodes := cs_inodes ?s + 1\<rparr>)))"
    by (rule opens_and_builds) (simp_all add: cache_sys_new_def)
  from reaches_trans [OF this first] show ?thesis by (simp add: demo_building_def goto_def take_lock_def cache_sys_new_def)
qed


text \<open>
  Evicting a corrupt entry of one machine breaks the lock. Two processes that both find
  the same corrupt snapshot both get to build it at the same time: the second removes the
  lock file that the first one holds, together with whatever lies in the entry, and then
  locks a new file.
\<close>

theorem corrupt_entry_two_builders:
  assumes bad: "\<not> good x"
  shows "\<exists>s. reaches (vm_fixture_step good) (cache_sys_new (Some x)) s \<and> cs_pc s 0 = Building 0 \<and> cs_pc s 1 = Building 1
    \<and> cs_holder s 0 = Some 0 \<and> cs_holder s 1 = Some 1"
proof -
  let ?s0 = "cache_sys_new (Some x)" let ?s2 = "goto 1 Trying (goto 0 Trying ?s0)"
  have a: "fixture_step False good ?s0 (goto 0 Trying ?s0)" by (rule look_hit) (simp_all add: cache_sys_new_def)
  have b: "fixture_step False good (goto 0 Trying ?s0) ?s2" by (rule look_hit) (simp_all add: cache_sys_new_def)
  have two: "reaches (fixture_step False good) ?s0 ?s2" by (rule fixture_reach [OF fixture_reach [OF fixture_stay a] b])
  let ?n = "cs_inodes ?s2"
  let ?s3 = "goto 0 (Building ?n) (take_lock 0 ?n (?s2\<lparr>cs_snapshot := None, cs_lock_file := Some ?n, cs_inodes := ?n + 1\<rparr>))"
  have three: "reaches (fixture_step False good) ?s2 ?s3"
    by (rule evicts_and_builds) (use bad in \<open>simp_all add: cache_sys_new_def\<close>)
  let ?m = "cs_inodes ?s3"
  let ?s4 = "goto 1 (Building ?m) (take_lock 1 ?m (?s3\<lparr>cs_snapshot := None, cs_lock_file := Some ?m, cs_inodes := ?m + 1\<rparr>))"
  have "reaches (fixture_step False good) ?s3 ?s4"
    by (rule evicts_and_builds) (simp_all add: cache_sys_new_def take_lock_def)
  from reaches_trans [OF this reaches_trans [OF three two]] show ?thesis unfolding vm_fixture_step_def
    by (intro exI [of _ ?s4]) (simp add: cache_sys_new_def take_lock_def)
qed

theorem corrupt_entry_two_builders_witness:
  "\<exists>s. reaches (vm_fixture_step (\<lambda>x. x = (0::nat))) (cache_sys_new (Some 1)) s \<and> cs_pc s 0 = Building 0 \<and> cs_pc s 1 = Building 1"
  using corrupt_entry_two_builders [of "\<lambda>x. x = (0::nat)" 1] by auto

end
