(* ===== verification/Spec2Isabelle.thy ===== *)
theory Spec2Isabelle
  imports Pool_Deadlock Pool_Account Nbd_Session Agent_Exchange Agent_Safety Agent_System Agent_Replies Bridge_Lifecycle Initrd_Roundtrip Vm_Machine Qmp_Monitor Profile_Config Lab_Recovery Lab_Barrier Fixture_Deps Fixture_Cache
begin

text \<open>
  Provium: a verification library.

  \<^bold>\<open>The program.\<close> Provium runs test files against virtual machines. On the host, a
  scheduler hands out memory and vCPUs from one pool, a VM handle boots and drives one
  machine through a backend (QEMU or a local agent), bridges connect machines, and a
  server inside the host mediates the disks whose durability a test examines. Inside each
  machine an agent executes the operations that the host sends over a framed byte stream.
  The parts meet here as follows: a boot reserves from the pool (\<open>reserve\<close>), packs the
  injected files into the initrd, realises its bridges and launches; the VM handle guards
  what then reaches the backend and the agent; an operation travels as a frame, the
  agent's connection loop executes it on the handle tables and answers with a frame; block
  I/O of the guest reaches the mediated disk through the NBD server.

  \<^bold>\<open>Theories.\<close> Every definition carries the name of what it translates; the sources are
  under \<open>src/\<close>.

  \<^item> \<open>Provium_Prelude\<close>: machine types, saturating and checked arithmetic, big-endian byte
    strings, slices, decimal text, and the locale \<open>step_invariant\<close> of transition systems,
    which every state machine below interprets. \<open>Rust_Std\<close>: strings, hexadecimal text and
    the ordered containers, with the contracts of sets and maps as locales.

  \<^item> \<open>Resource_Pool\<close>, \<open>Pool_Safety\<close>, \<open>Pool_Deadlock\<close>, \<open>Pool_Account\<close>
    (\<open>provium-host/src/scheduler/pool.rs\<close>): the pool under its lock, its books of owners,
    tickets of waiting requests, the deadlock verdict, claims and their slices. Shown:
    conservation of both resources, that the verdict is exact, permanent and not missed,
    and that slices stay within their claim.

  \<^item> \<open>Nbd_Disk\<close>, \<open>Nbd_Durability\<close>, \<open>Nbd_Protocol\<close>, \<open>Nbd_Session\<close>
    (\<open>provium-host/src/nbd.rs\<close>): the write-back overlay with its cap, flush, power cut,
    fault policies, the handshake and the request loop. Shown: refinement of a write-back
    specification, what a power cut keeps and loses, that the byte stream never gets out
    of step, and that an acknowledged flush is durable.

  \<^item> \<open>Frame_Codec\<close>, \<open>Frame_Stream\<close>, \<open>Wire_Types\<close> (\<open>provium-protocol\<close>): the resumable
    frame reader and the writer over arrivals of bytes, and the messages. Shown: the round
    trip under any fragmentation, time-outs and interruptions, and the classification of
    every ending.

  \<^item> \<open>Agent_State\<close>, \<open>Agent_Files\<close>, \<open>Agent_Process\<close>, \<open>Agent_Worker\<close>, \<open>Agent_Stream\<close>,
    \<open>Agent_Connection\<close> (\<open>provium-agent/src\<close>): the handle tables and every operation of the
    agent, including worker processes and the relay to them, streams and the connection
    loop. \<open>Agent_Handles\<close> states the contract of a handle table as a locale and interprets
    it for files, processes, workers and pending calls; \<open>Agent_Steps\<close> is the step
    relation; \<open>Agent_Safety\<close>, \<open>Agent_System\<close>, \<open>Agent_Replies\<close> and \<open>Agent_Exchange\<close> hold
    the properties: handles never clash and stay unknown once closed, waits with a
    time-out return, replies match requests, and a hello and an operation written on one
    end are executed once and answered on the other. \<open>Agent_Example\<close> is a concrete
    operating system for the witnesses.

  \<^item> \<open>Bridge\<close>, \<open>Bridge_Invariant\<close>, \<open>Bridge_Enforcement\<close>, \<open>Bridge_Lifecycle\<close>
    (\<open>bridge.rs\<close>, \<open>bridge_realize.rs\<close>): the network graph, its realisation with \<open>ip\<close>,
    \<open>tc\<close> and \<open>nft\<close>, plans and teardown. Shown: the invariant of the graph, that drop rules
    and graph agree, that interface names are always valid, that live realisation follows
    the plan, and that teardown goes on after failures.

  \<^item> \<open>Initrd_Files\<close>, \<open>Initrd_Roundtrip\<close> (\<open>vmm/files_cpio.rs\<close>): the cpio archive of
    injected files in its gzip container. Shown: both formats read back to what went in,
    and directories come before what they contain.

  \<^item> \<open>Vm_Lifecycle\<close>, \<open>Vm_Machine\<close> (\<open>vm.rs\<close>, \<open>vmm/mod.rs\<close>): the VM handle. Shown: its
    calls follow the documented state machine also when boots race, resources follow the
    state, operations outside their states reach neither agent nor backend, a reset
    returns, and what a failed shutdown leaves behind.

  \<^item> \<open>Qmp_Client\<close>, \<open>Qmp_Calls\<close>, \<open>Qmp_Monitor\<close> (\<open>provium-qmp/src\<close>): the handshake over
    timed lines, the connection with its pending calls, event log, reader thread and
    shutdown as a step relation over any number of callers. Shown: a reply reaches the
    call it belongs to, reply channels never block, a closed connection wakes everyone, the
    incremental event scan equals one scan, and the handshake takes exactly its lines.

  \<^item> \<open>Host_Paths\<close>, \<open>Profiles\<close>, \<open>Profile_Config\<close> (\<open>profile.rs\<close>): paths as the standard
    library joins and splits them, profiles, their discovery in a directory, validation
    and the expansion of build outputs. Shown: a profile that loads can be launched, the
    order of a directory listing does not matter, and where a relative build output goes.

  \<^item> \<open>Lab_Tree\<close>, \<open>Lab_Lifecycle\<close>, \<open>Lab_Snapshot\<close>, \<open>Lab_Recovery\<close> (\<open>lab.rs\<close>): labs as
    nodes of a shared store, the recursive walk, batches of threads in any order, the
    joint boot, snapshot and restore. Shown: a shutdown covers the whole tree, the joint
    boot charges what its members would, the state of a bridge survives a snapshot, names
    lead back to their sub-labs, and what goes wrong on a second boot and on a restore.
    \<open>Lab_Barrier\<close> (\<open>lab.rs\<close>): the rounds of a barrier with time-outs that roll an arrival
    back. Shown: a round releases its waiters exactly when all have arrived.

  \<^item> \<open>Fixture_Scan\<close>, \<open>Fixture_Key\<close>, \<open>Fixture_Deps\<close>, \<open>Fixture_Cache\<close> (\<open>fixture.rs\<close>,
    \<open>lua/lab_ud.rs\<close>): the scanners that find references in Lua sources, the cache keys
    over what a fixture depends on, eviction, and the builders that compete for an entry.
    Shown: the scanner finds every call, equal keys mean equal sources, the dependency walk
    is complete, eviction takes the oldest entries, a fixture is built by one process, and
    how a corrupt entry ends up with two builders.

  \<^bold>\<open>Conventions.\<close> Code outside the sources is a parameter: the operating system of the
  agent (\<open>os\<close>), the MessagePack codec, the host file under a mediated disk, the programs
  of the network host (\<open>net_host\<close>), the backend of a VM (\<open>vmm\<close>, a trait object in the
  source). What the properties assume of a parameter is a named predicate, and each such
  property has a witness on a concrete parameter. A mutex-protected operation is one
  function on the state; where the source gives the lock up (parked requests of the pool,
  launches of a boot), the operation is split there and the step relation interleaves the
  pieces. Errors are values; a panic is one too, where the source can panic. Integers keep
  their width. Loops over data are recursive functions with a measure; loops that wait for
  the outside world (polls with a deadline, the connection loop) are partial functions
  into \<open>option\<close>, whose \<open>None\<close> is not returning, and where a property says that such a
  loop returns it is proved from a clock that runs. The walks of a tree of labs take the
  depth to which their calls may nest, because labs can include each other: on an acyclic
  store every depth above the height of the tree gives the same answer, and on a cyclic
  one no depth gives any. The walks over the references of fixtures take a depth as well;
  they remember what they have seen, so a depth above the number of references suffices.

  \<^bold>\<open>Not modelled.\<close> The dispatcher's threads, event formatting, the QEMU command line,
  probes of the host, the Lua bindings, the command line and the agent's start-up are glue
  around the parts above or pure input and output. Concurrent callers of one bridge are
  not interleaved.
\<close>

end
